(* ===== verification/Prelude.thy ===== *)
theory Prelude
  imports Main "HOL-Library.Word"
begin

text \<open>
  Shared vocabulary of the development: the machine types of
  \<^verbatim>\<open>include/yui/types.h\<close>, the result type of kernel code that may stop, reads and
  writes of C arrays with their bounds, and the generic lemmas the components use.

  A function of the kernel that reaches a failed \<^verbatim>\<open>assert\<close> or a \<^verbatim>\<open>panic\<close> never
  returns: both spin for ever (\<^verbatim>\<open>kernel/assert.c\<close>).  Such an end is a value
  \<open>Inl e\<close> of the result type, where \<open>e\<close> tells the reason; \<open>Fault\<close> is an access
  outside the object the code indexes or through a null pointer, and \<open>Diverge\<close> is
  a loop that never leaves.  \<open>Inr x\<close> is a return with the value \<open>x\<close>.
\<close>

unbundle bit_operations_syntax

type_synonym u8 = "8 word"
type_synonym u16 = "16 word"
type_synonym u32 = "32 word"
type_synonym addr = nat

datatype stop = Assertion | Panic | Fault | Diverge

type_synonym 'a res = "stop + 'a"

definition bnd :: "'a res \<Rightarrow> ('a \<Rightarrow> 'b res) \<Rightarrow> 'b res" where
  "bnd m f = (case m of Inl e \<Rightarrow> Inl e | Inr x \<Rightarrow> f x)"

definition assrt :: "bool \<Rightarrow> unit res" where
  "assrt b = (if b then Inr () else Inl Assertion)"

definition deref :: "addr \<Rightarrow> unit res" where
  "deref p = (if p = 0 then Inl Fault else Inr ())"

definition run :: "'a res option \<Rightarrow> 'a res" where
  "run r = (case r of None \<Rightarrow> Inl Diverge | Some x \<Rightarrow> x)"

definition rd :: "'a list \<Rightarrow> nat \<Rightarrow> 'a res" where
  "rd xs i = (if i < length xs then Inr (xs ! i) else Inl Fault)"

definition wr :: "'a list \<Rightarrow> nat \<Rightarrow> 'a \<Rightarrow> 'a list res" where
  "wr xs i v = (if i < length xs then Inr (xs[i := v]) else Inl Fault)"

definition is_ok :: "'a res \<Rightarrow> bool" where
  "is_ok r = (case r of Inl e \<Rightarrow> False | Inr x \<Rightarrow> True)"

subsection \<open>Rewriting with results\<close>

lemma bnd_simps [simp]:
  "bnd (Inr x) f = f x"
  "bnd (Inl e) f = Inl e"
  by (simp_all add: bnd_def)

lemma bnd_eq_Inr [simp]:
  "bnd m f = Inr y \<longleftrightarrow> (\<exists>x. m = Inr x \<and> f x = Inr y)"
  by (cases m) simp_all

lemma bnd_eq_Inl:
  "bnd m f = Inl e \<longleftrightarrow> m = Inl e \<or> (\<exists>x. m = Inr x \<and> f x = Inl e)"
  by (cases m) auto

lemma bnd_cong [fundef_cong]:
  "m = m' \<Longrightarrow> (\<And>x. m' = Inr x \<Longrightarrow> f x = f' x) \<Longrightarrow> bnd m f = bnd m' f'"
  by (cases m') simp_all

lemma bnd_assoc: "bnd (bnd m f) g = bnd m (\<lambda>x. bnd (f x) g)"
  by (cases m) simp_all

lemma assrt_simps [simp]:
  "assrt True = Inr ()"
  "assrt False = Inl Assertion"
  "(assrt b = Inr u) = b"
  "(assrt b = Inl e) = (\<not> b \<and> e = Assertion)"
  by (auto simp: assrt_def)

lemma deref_simps [simp]:
  "p \<noteq> 0 \<Longrightarrow> deref p = Inr ()"
  "deref 0 = Inl Fault"
  "(deref p = Inr u) = (p \<noteq> 0)"
  by (auto simp: deref_def)

lemma run_simps [simp]: "run None = Inl Diverge" "run (Some r) = r"
  by (simp_all add: run_def)

lemma rd_simps [simp]:
  "i < length xs \<Longrightarrow> rd xs i = Inr (xs ! i)"
  "(rd xs i = Inr v) = (i < length xs \<and> v = xs ! i)"
  by (auto simp: rd_def)

lemma rd_out: "length xs \<le> i \<Longrightarrow> rd xs i = Inl Fault"
  by (simp add: rd_def)

lemma wr_simps [simp]:
  "i < length xs \<Longrightarrow> wr xs i v = Inr (xs[i := v])"
  "(wr xs i v = Inr ys) = (i < length xs \<and> ys = xs[i := v])"
  by (auto simp: wr_def)

lemma wr_out: "length xs \<le> i \<Longrightarrow> wr xs i v = Inl Fault"
  by (simp add: wr_def)

lemma is_ok_simps [simp]: "is_ok (Inr x)" "\<not> is_ok (Inl e)"
  by (simp_all add: is_ok_def)

lemma is_ok_iff: "is_ok r \<longleftrightarrow> (\<exists>x. r = Inr x)"
  by (cases r) auto

subsection \<open>32-bit words\<close>

lemma unat_of_nat32: "k < 2 ^ 32 \<Longrightarrow> unat (of_nat k :: u32) = k"
  by (simp add: unat_of_nat take_bit_nat_eq_self)

lemma of_nat_neq32: "j < 2 ^ 32 \<Longrightarrow> k < 2 ^ 32 \<Longrightarrow> (of_nat j :: u32) = of_nat k \<longleftrightarrow> j = k"
  by (metis unat_of_nat32)

lemma word_unat_eqI: "unat a = unat b \<Longrightarrow> a = b"
  by (simp add: word_unat_eq_iff)

lemma unat_lt32: "unat (w :: u32) < 2 ^ 32"
  using unsigned_less[of w] by simp

end
