(* ===== verification/Bitmap.thy ===== *)
theory Bitmap
  imports Prelude
begin

text \<open>
  The bitmap of \<^verbatim>\<open>lib/bitmap.c\<close>.  The record keeps the bytes the pointer
  \<^verbatim>\<open>map->bits\<close> reaches (the caller's buffer), the \<^verbatim>\<open>length\<close> field the code trusts
  and the \<^verbatim>\<open>offset\<close> of its first bit; reading or writing beyond the buffer is
  \<open>Fault\<close>, whatever \<^verbatim>\<open>length\<close> says.  Indices are 32-bit words.

  \<open>bm_bit m k\<close> is bit \<open>k\<close> of the map, \<open>bm_wf m\<close> says that the buffer holds
  \<^verbatim>\<open>length\<close> bytes and that no index leaves the positive \<^verbatim>\<open>int\<close> range.
\<close>

record bitmap =
  bits :: "u8 list"
  blen :: u32
  offset :: u32

definition EOF :: u32 where "EOF = -1"

definition bitmap_make :: "u8 list \<Rightarrow> u32 \<Rightarrow> u32 \<Rightarrow> bitmap" where
  "bitmap_make bs len off = \<lparr>bits = bs, blen = len, offset = off\<rparr>"

definition bitmap_init :: "u8 list \<Rightarrow> u32 \<Rightarrow> u32 \<Rightarrow> bitmap res" where
  "bitmap_init bs len start =
     (if unat len \<le> length bs
      then Inr (bitmap_make (replicate (unat len) 0 @ drop (unat len) bs) len start)
      else Inl Fault)"

definition bitmap_test :: "bitmap \<Rightarrow> u32 \<Rightarrow> bool res" where
  "bitmap_test m index =
     bnd (assrt (index \<ge> offset m)) (\<lambda>_.
     let idx = index - offset m; bytes = idx div 8; b = idx mod 8
     in bnd (assrt (bytes < blen m)) (\<lambda>_.
        bnd (rd (bits m) (unat bytes)) (\<lambda>byte.
        Inr ((ucast byte :: u32) AND push_bit (unat b) 1 \<noteq> 0))))"

definition bitmap_set :: "bitmap \<Rightarrow> u32 \<Rightarrow> bool \<Rightarrow> bitmap res" where
  "bitmap_set m index value =
     bnd (assrt (index \<ge> offset m)) (\<lambda>_.
     let idx = index - offset m; bytes = idx div 8; b = idx mod 8
     in bnd (rd (bits m) (unat bytes)) (\<lambda>byte.
        let byte = (if value then ucast ((ucast byte :: u32) OR push_bit (unat b) 1)
                    else ucast ((ucast byte :: u32) AND NOT (push_bit (unat b) 1)))
        in bnd (wr (bits m) (unat bytes) byte) (\<lambda>bs.
           Inr (m\<lparr>bits := bs\<rparr>))))"

function scan_loop :: "bitmap \<Rightarrow> u32 \<Rightarrow> u32 \<Rightarrow> u32 \<Rightarrow> u32 \<Rightarrow> u32 res" where
  "scan_loop m count bits_left next_bit counter =
     (if bits_left = 0 then Inr EOF
      else bnd (bitmap_test m (offset m + next_bit)) (\<lambda>set.
        let counter = (if \<not> set then counter + 1 else 0);
            next_bit = next_bit + 1
        in if counter = count then Inr (next_bit - count)
           else scan_loop m count (bits_left - 1) next_bit counter))"
  by pat_completeness auto
termination
  by (relation "measure (\<lambda>(m, count, bits_left, next_bit, counter). unat bits_left)")
    (auto simp: unat_minus_one unat_gt_0)

declare scan_loop.simps [simp del]

function mark_loop :: "bitmap \<Rightarrow> u32 \<Rightarrow> u32 \<Rightarrow> bitmap res" where
  "mark_loop m bits_left next_bit =
     (if bits_left = 0 then Inr m
      else bnd (bitmap_set m (offset m + next_bit) True) (\<lambda>m.
        mark_loop m (bits_left - 1) (next_bit + 1)))"
  by pat_completeness auto
termination
  by (relation "measure (\<lambda>(m, bits_left, next_bit). unat bits_left)")
    (auto simp: unat_minus_one unat_gt_0)

declare mark_loop.simps [simp del]

definition bitmap_scan :: "bitmap \<Rightarrow> u32 \<Rightarrow> (bitmap \<times> u32) res" where
  "bitmap_scan m count =
     bnd (scan_loop m count (blen m * 8) 0 0) (\<lambda>start.
     if start = EOF then Inr (m, EOF)
     else bnd (mark_loop m count start) (\<lambda>m. Inr (m, start + offset m)))"

subsection \<open>The bits of a map\<close>

definition bm_bit :: "bitmap \<Rightarrow> nat \<Rightarrow> bool" where
  "bm_bit m k = bit (bits m ! (k div 8)) (k mod 8)"

definition bm_size :: "bitmap \<Rightarrow> nat" where
  "bm_size m = 8 * unat (blen m)"

definition bm_wf :: "bitmap \<Rightarrow> bool" where
  "bm_wf m = (unat (blen m) \<le> length (bits m) \<and> bm_size m + unat (offset m) < 2 ^ 31)"

definition bm_used :: "bitmap \<Rightarrow> nat set" where
  "bm_used m = {k. k < bm_size m \<and> bm_bit m k}"

definition free_run :: "bitmap \<Rightarrow> nat \<Rightarrow> nat \<Rightarrow> bool" where
  "free_run m s n = (s + n \<le> bm_size m \<and> (\<forall>j<n. \<not> bm_bit m (s + j)))"

lemma and_push_bit_iff [simp]: "(w AND push_bit n (1 :: u32)) \<noteq> 0 \<longleftrightarrow> bit w n"
  by (simp add: and_exp_eq_0_iff_not_bit)

lemma unat_idx:
  assumes "k + unat (off :: u32) < 2 ^ 32"
  shows "off + of_nat k - off = of_nat k" "unat (of_nat k :: u32) = k" "off \<le> off + of_nat k"
proof -
  show "unat (of_nat k :: u32) = k" using assms by (simp add: unat_of_nat32)
  then show "off \<le> off + of_nat k"
    using assms by (simp add: word_le_nat_alt unat_word_ariths)
qed simp

lemma bit_index_word:
  assumes "k < 2 ^ 32"
  shows "unat ((of_nat k :: u32) div 8) = k div 8" "unat ((of_nat k :: u32) mod 8) = k mod 8"
  using assms by (simp_all add: unat_div unat_mod unat_of_nat32)

lemma bm_index:
  assumes "bm_wf m" "k < bm_size m"
  shows "k < 2 ^ 32" "k + unat (offset m) < 2 ^ 32" "k div 8 < unat (blen m)"
    "k div 8 < length (bits m)"
  using assms by (auto simp: bm_wf_def bm_size_def)

lemma bitmap_test_bit:
  assumes "bm_wf m" "k < bm_size m"
  shows "bitmap_test m (offset m + of_nat k) = Inr (bm_bit m k)"
proof -
  note b = bm_index[OF assms] and u = unat_idx[OF bm_index(2)[OF assms]]
  have "(of_nat k :: u32) div 8 < blen m"
    using b bit_index_word[OF b(1)] by (simp add: word_less_nat_alt)
  moreover have "k mod 8 < 32" by (rule less_le_trans[of _ 8]) simp_all
  ultimately show ?thesis
    using b u bit_index_word[OF b(1)]
    by (simp add: bitmap_test_def Let_def bm_bit_def bit_unsigned_iff and_exp_eq_0_iff_not_bit)
qed

lemma bitmap_set_bit:
  assumes "bm_wf m" "k < bm_size m"
  shows "\<exists>m'. bitmap_set m (offset m + of_nat k) v = Inr m' \<and> blen m' = blen m
    \<and> offset m' = offset m \<and> length (bits m') = length (bits m)
    \<and> (\<forall>j. bm_bit m' j = (if j = k then v else bm_bit m j))"
proof -
  note b = bm_index[OF assms] and u = unat_idx[OF bm_index(2)[OF assms]]
  let ?b = "bits m ! (k div 8)"
  define w where "w = (if v then ucast ((ucast ?b :: u32) OR push_bit (k mod 8) 1)
    else ucast ((ucast ?b :: u32) AND NOT (push_bit (k mod 8) 1)) :: u8)"
  have w: "bit w i = (if i = k mod 8 then v else bit ?b i)" if "i < 8" for i
    using that by (auto simp: w_def bit_simps)
  have "bitmap_set m (offset m + of_nat k) v = Inr (m\<lparr>bits := (bits m)[k div 8 := w]\<rparr>)"
    using b u bit_index_word[OF b(1)] by (simp add: bitmap_set_def Let_def w_def)
  moreover have "bm_bit (m\<lparr>bits := (bits m)[k div 8 := w]\<rparr>) j = (if j = k then v else bm_bit m j)" for j
  proof (cases "j div 8 = k div 8")
    case True
    then have "j = k \<longleftrightarrow> j mod 8 = k mod 8" by (metis div_mod_decomp)
    then show ?thesis using True b by (simp add: bm_bit_def w)
  next
    case False
    then show ?thesis by (auto simp: bm_bit_def)
  qed
  ultimately show ?thesis by simp
qed

lemma bitmap_test_below: "index < offset m \<Longrightarrow> bitmap_test m index = Inl Assertion"
  by (simp add: bitmap_test_def assrt_def leD)

subsection \<open>Scanning\<close>

text \<open>
  The loop after \<open>i\<close> bits, with a run of \<open>c\<close> clear bits behind it: the first
  run of \<open>n\<close> clear bits is returned, and the end mark only when there is none.
\<close>

lemma scan_loop_first_fit:
  assumes wf: "bm_wf m" and n: "0 < n" "n < 2 ^ 32"
    and "i + left = bm_size m" "c \<le> i" "c < n"
    and "\<forall>j. i - c \<le> j \<and> j < i \<longrightarrow> \<not> bm_bit m j" "c < i \<longrightarrow> bm_bit m (i - c - 1)"
    and "\<forall>s. s + n \<le> i \<longrightarrow> \<not> free_run m s n"
  shows "(\<exists>s. scan_loop m (of_nat n) (of_nat left) (of_nat i) (of_nat c) = Inr (of_nat s)
      \<and> free_run m s n \<and> (\<forall>t < s. \<not> free_run m t n))
    \<or> scan_loop m (of_nat n) (of_nat left) (of_nat i) (of_nat c) = Inr EOF
      \<and> (\<forall>t. \<not> free_run m t n)"
  using assms(4-)
proof (induction left arbitrary: i c)
  case 0
  then have "\<forall>t. \<not> free_run m t n" by (auto simp: free_run_def)
  then show ?case by (simp add: scan_loop.simps)
next
  case (Suc left)
  have sz: "bm_size m < 2 ^ 31" using wf by (simp add: bm_wf_def)
  then have left: "(of_nat (Suc left) :: u32) \<noteq> 0"
    using Suc.prems(1) of_nat_neq32[of "Suc left" 0] by simp
  have i: "i < bm_size m" using Suc.prems(1) by simp
  note test = bitmap_test_bit[OF wf i]
  let ?c = "if \<not> bm_bit m i then Suc c else 0"
  have step: "scan_loop m (of_nat n) (of_nat (Suc left)) (of_nat i) (of_nat c) =
      (if ?c = n then Inr (of_nat (Suc i) - of_nat n)
       else scan_loop m (of_nat n) (of_nat left) (of_nat (Suc i)) (of_nat ?c))"
  proof -
    have "(of_nat ?c = (of_nat n :: u32)) = (?c = n)"
      by (rule of_nat_neq32) (use Suc.prems n sz in auto)
    moreover have "(of_nat (Suc left) :: u32) - 1 = of_nat left" by simp
    moreover have "(if \<not> bm_bit m i then of_nat c + 1 else 0) = (of_nat ?c :: u32)" by simp
    moreover have "(of_nat i :: u32) + 1 = of_nat (Suc i)" by simp
    ultimately show ?thesis
      using left test by (subst scan_loop.simps) (simp only: bnd_simps Let_def if_False)
  qed
  show ?case
  proof (cases "?c = n")
    case True
    then have c: "\<not> bm_bit m i" "Suc c = n" using n by (auto split: if_splits)
    let ?s = "Suc i - n"
    have "\<not> bm_bit m (?s + j)" if "j < n" for j
    proof (cases "j = c")
      case True
      then show ?thesis using c Suc.prems(2) by (auto simp flip: c(2))
    next
      case False
      then have "i - c \<le> ?s + j" "?s + j < i" using that c Suc.prems(2) by auto
      then show ?thesis using Suc.prems(4) by blast
    qed
    then have free: "free_run m ?s n"
      using Suc.prems(2) c i by (auto simp: free_run_def)
    have "\<not> free_run m t n" if "t < ?s" for t
      using that Suc.prems(6) by (auto simp: free_run_def)
    moreover have "(of_nat (Suc i) :: u32) - of_nat n = of_nat ?s"
      using c Suc.prems by (simp add: of_nat_diff)
    ultimately show ?thesis using step True free by auto
  next
    case False
    have "\<forall>s. s + n \<le> Suc i \<longrightarrow> \<not> free_run m s n"
    proof (intro allI impI notI)
      fix s assume s: "s + n \<le> Suc i" and f: "free_run m s n"
      then have "s + n = Suc i" using Suc.prems(6) by (meson le_SucE)
      have clear: "\<not> bm_bit m j" if "s \<le> j" "j \<le> i" for j
      proof -
        have "j - s < n" using that \<open>s + n = Suc i\<close> by simp
        then have "\<not> bm_bit m (s + (j - s))" using f unfolding free_run_def by blast
        then show ?thesis using that by simp
      qed
      have "\<not> bm_bit m i" using clear[of i] \<open>s + n = Suc i\<close> n by simp
      then have "Suc c < n" using False Suc.prems(3) by simp
      then have "c < i" "s \<le> i - c - 1" using \<open>s + n = Suc i\<close> by auto
      then show False using clear[of "i - c - 1"] Suc.prems(5) by simp
    qed
    moreover have "?c < n" using False Suc.prems(3) n by auto
    ultimately show ?thesis
      unfolding step using False Suc.prems
      by (simp only: if_False, intro Suc.IH) (auto simp: less_Suc_eq split: if_splits)
  qed
qed

lemma mark_loop_bits:
  assumes "bm_wf m" "s + n \<le> bm_size m"
  shows "\<exists>m'. mark_loop m (of_nat n) (of_nat s) = Inr m' \<and> blen m' = blen m
    \<and> offset m' = offset m \<and> length (bits m') = length (bits m)
    \<and> (\<forall>j. bm_bit m' j = (s \<le> j \<and> j < s + n \<or> bm_bit m j))"
  using assms
proof (induction n arbitrary: m s)
  case 0
  then show ?case by (auto simp: mark_loop.simps)
next
  case (Suc n)
  have sz: "bm_size m < 2 ^ 31" using Suc.prems by (simp add: bm_wf_def)
  then have n: "(of_nat (Suc n) :: u32) \<noteq> 0"
    using Suc.prems of_nat_neq32[of "Suc n" 0] by simp
  obtain m1 where m1: "bitmap_set m (offset m + of_nat s) True = Inr m1"
      "blen m1 = blen m" "offset m1 = offset m" "length (bits m1) = length (bits m)"
      "\<forall>j. bm_bit m1 j = (if j = s then True else bm_bit m j)"
    using bitmap_set_bit[OF Suc.prems(1), of s True] Suc.prems(2) by auto
  have "bm_wf m1" "Suc s + n \<le> bm_size m1"
    using Suc.prems m1 by (auto simp: bm_wf_def bm_size_def)
  from Suc.IH[OF this] obtain m2 where m2: "mark_loop m1 (of_nat n) (of_nat (Suc s)) = Inr m2"
      "blen m2 = blen m1" "offset m2 = offset m1" "length (bits m2) = length (bits m1)"
      "\<forall>j. bm_bit m2 j = (Suc s \<le> j \<and> j < Suc s + n \<or> bm_bit m1 j)"
    by auto
  have "mark_loop m (of_nat (Suc n)) (of_nat s) = Inr m2"
    using n m1(1) m2(1) by (subst mark_loop.simps) (simp add: add.commute)
  moreover have "\<forall>j. bm_bit m2 j = (s \<le> j \<and> j < s + Suc n \<or> bm_bit m j)"
    using m2(5) m1(5) by (auto simp: Suc_le_eq le_less)
  ultimately show ?case using m1 m2 by auto
qed

text \<open>What one successful scan promises.\<close>

definition scan_ok :: "bitmap \<Rightarrow> nat \<Rightarrow> bitmap \<Rightarrow> nat \<Rightarrow> bool" where
  "scan_ok m n m' s =
     (free_run m s n \<and> (\<forall>t < s. \<not> free_run m t n) \<and> blen m' = blen m \<and> offset m' = offset m
      \<and> length (bits m') = length (bits m)
      \<and> (\<forall>j. bm_bit m' j = (s \<le> j \<and> j < s + n \<or> bm_bit m j)))"

lemma bitmap_scan_cases:
  assumes wf: "bm_wf m" and n: "0 < n" "n < 2 ^ 32"
  shows "(\<exists>m' s. bitmap_scan m (of_nat n) = Inr (m', offset m + of_nat s) \<and> scan_ok m n m' s)
    \<or> bitmap_scan m (of_nat n) = Inr (m, EOF) \<and> (\<forall>t. \<not> free_run m t n)"
proof -
  have sz: "bm_size m < 2 ^ 31" using wf by (simp add: bm_wf_def)
  then have len: "blen m * 8 = of_nat (bm_size m)"
    by (simp add: bm_size_def mult.commute)
  let ?r = "scan_loop m (of_nat n) (blen m * 8) 0 0"
  consider s where "?r = Inr (of_nat s)" "free_run m s n" "\<forall>t < s. \<not> free_run m t n"
    | "?r = Inr EOF" "\<forall>t. \<not> free_run m t n"
    using scan_loop_first_fit[OF wf n, of 0 "bm_size m" 0] n len by (auto simp: free_run_def)
  then show ?thesis
  proof cases
    case (1 s)
    have s: "s + n \<le> bm_size m" using 1 by (simp add: free_run_def)
    have "(of_nat s :: u32) \<noteq> EOF"
    proof
      assume "(of_nat s :: u32) = EOF"
      then have "unat (of_nat s :: u32) = unat (- 1 :: u32)" by (simp add: EOF_def)
      then show False using s sz by (simp add: unat_of_nat32 unsigned_minus_1_eq_mask mask_eq_exp_minus_1)
    qed
    moreover obtain m' where "mark_loop m (of_nat n) (of_nat s) = Inr m'" "blen m' = blen m"
        "offset m' = offset m" "length (bits m') = length (bits m)"
        "\<forall>j. bm_bit m' j = (s \<le> j \<and> j < s + n \<or> bm_bit m j)"
      using mark_loop_bits[OF wf s] by auto
    ultimately show ?thesis
      using 1 by (auto simp: bitmap_scan_def scan_ok_def add.commute)
  next
    case 2
    then show ?thesis by (simp add: bitmap_scan_def)
  qed
qed

lemma scan_ok_wf: "bm_wf m \<Longrightarrow> scan_ok m n m' s \<Longrightarrow> bm_wf m'"
  by (simp add: scan_ok_def bm_wf_def bm_size_def)

lemma scan_ok_used:
  "scan_ok m n m' s \<Longrightarrow> bm_used m' = bm_used m \<union> {s..<s + n} \<and> bm_used m \<inter> {s..<s + n} = {}"
  by (auto simp: scan_ok_def bm_used_def free_run_def bm_size_def le_iff_add)

subsection \<open>Properties\<close>

definition small_map :: bitmap where
  "small_map = bitmap_make [0xf3, 0x00] 2 256"

lemma small_map_wf: "bm_wf small_map"
  by (simp add: bm_wf_def bm_size_def small_map_def bitmap_make_def)

text \<open>
  C28: \<^verbatim>\<open>bitmap_scan\<close> returns the lowest run of the wanted length of clear bits and sets
  exactly that run, or returns \<^verbatim>\<open>EOF\<close>, the map unchanged, when no such run exists; it never
  stops on a well-formed map.
\<close>

theorem bitmap_scan_first_fit:
  assumes "bm_wf m" "0 < n" "n < 2 ^ 32"
  shows "(\<exists>m' s. bitmap_scan m (of_nat n) = Inr (m', offset m + of_nat s) \<and> free_run m s n
      \<and> (\<forall>t < s. \<not> free_run m t n) \<and> bm_wf m' \<and> offset m' = offset m \<and> bm_size m' = bm_size m
      \<and> (\<forall>j. bm_bit m' j = (s \<le> j \<and> j < s + n \<or> bm_bit m j)))
    \<or> bitmap_scan m (of_nat n) = Inr (m, EOF) \<and> (\<forall>t. \<not> free_run m t n)"
  using bitmap_scan_cases[OF assms]
proof (elim disjE exE conjE)
  fix m' s assume s: "bitmap_scan m (of_nat n) = Inr (m', offset m + of_nat s)" "scan_ok m n m' s"
  then have "bm_wf m'" by (intro scan_ok_wf[OF assms(1)])
  then show ?thesis using s by (intro disjI1 exI[of _ m'] exI[of _ s]) (simp add: scan_ok_def bm_size_def)
qed blast

lemma bitmap_scan_first_fit_witness:
  "bitmap_scan small_map (of_nat 3) = Inr (small_map, EOF) \<and> (\<forall>t. \<not> free_run small_map t 3)
   \<or> (\<exists>m' s. bitmap_scan small_map (of_nat 3) = Inr (m', 256 + of_nat s) \<and> free_run small_map s 3)"
  using bitmap_scan_first_fit[OF small_map_wf, of 3] by (auto simp: small_map_def bitmap_make_def)

end
