(* ===== verification/Paging.thy ===== *)
theory Paging
  imports Bitmap
begin

text \<open>
  Page tables as \<^verbatim>\<open>kernel/memory.c\<close> sees them.  A page entry is the 32-bit word of
  the packed \<^verbatim>\<open>page_entry_t\<close>, with a reader and a writer per bit field.  Physical
  memory is a function from frame number and word number to the word stored there;
  \<open>translate\<close> is the two-level walk of the processor from \<^verbatim>\<open>cr3\<close>, and \<open>vread\<close>
  and \<open>vwrite\<close> are kernel accesses at a virtual address.  The translation buffer is not
  modelled: \<^verbatim>\<open>flush_tlb\<close> has no effect.

  The last entry of a page directory points at the directory itself.  \<open>self_mapped\<close>
  states it, and the lemmas show that then the addresses the code computes
  (\<^verbatim>\<open>get_pde\<close>, \<^verbatim>\<open>PDE_MASK | (idx << 12)\<close>) reach the directory and the tables.
\<close>

subsection \<open>Addresses\<close>

definition PAGE_SIZE :: u32 where "PAGE_SIZE = 0x1000"

definition IDX :: "u32 \<Rightarrow> u32" where "IDX addr = drop_bit 12 addr"
definition PAGE :: "u32 \<Rightarrow> u32" where "PAGE idx = push_bit 12 idx"
definition DIDX :: "u32 \<Rightarrow> u32" where "DIDX addr = (drop_bit 22 addr) AND 0x3ff"
definition TIDX :: "u32 \<Rightarrow> u32" where "TIDX addr = (drop_bit 12 addr) AND 0x3ff"
definition PDE_MASK :: u32 where "PDE_MASK = 0xffc00000"

definition page_aligned :: "u32 \<Rightarrow> bool" where
  "page_aligned addr = (addr AND 0xfff = 0)"

definition word_in_page :: "u32 \<Rightarrow> nat" where
  "word_in_page addr = unat (drop_bit 2 (addr AND 0xfff))"

text \<open>Element \<open>i\<close> of an array of 4-byte entries at \<open>base\<close>.\<close>

definition elem :: "u32 \<Rightarrow> nat \<Rightarrow> u32" where
  "elem base i = base + 4 * of_nat i"

subsection \<open>Page entries\<close>

type_synonym page_entry = u32

definition present :: "page_entry \<Rightarrow> bool" where "present e = bit e 0"
definition writable :: "page_entry \<Rightarrow> bool" where "writable e = bit e 1"
definition user :: "page_entry \<Rightarrow> bool" where "user e = bit e 2"
definition shared :: "page_entry \<Rightarrow> bool" where "shared e = bit e 9"
definition privat :: "page_entry \<Rightarrow> bool" where "privat e = bit e 10"
definition readonly :: "page_entry \<Rightarrow> bool" where "readonly e = bit e 11"
definition frame :: "page_entry \<Rightarrow> nat" where "frame e = unat (drop_bit 12 e)"

definition set_flag :: "nat \<Rightarrow> bool \<Rightarrow> page_entry \<Rightarrow> page_entry" where
  "set_flag n b e = (if b then set_bit n e else unset_bit n e)"

definition set_index :: "u32 \<Rightarrow> page_entry \<Rightarrow> page_entry" where
  "set_index i e = (e AND 0xfff) OR push_bit 12 i"

definition entry_init :: "u32 \<Rightarrow> page_entry" where
  "entry_init index =
     (let e = 0; e = set_flag 0 True e; e = set_flag 1 True e; e = set_flag 2 True e
      in set_index index e)"

subsection \<open>Kernel memory state\<close>

record kmem =
  phys :: "nat \<Rightarrow> nat \<Rightarrow> u32"
  cr3 :: u32
  memory_base :: u32
  memory_size :: u32
  total_pages :: u32
  free_pages :: u32
  start_page :: u32
  memory_map :: "u8 list"
  memory_map_pages :: u32
  kernel_bitmap :: bitmap

definition dir :: "kmem \<Rightarrow> nat" where
  "dir s = unat (IDX (cr3 s))"

definition translate :: "kmem \<Rightarrow> u32 \<Rightarrow> nat option" where
  "translate s va =
     (let pde = phys s (dir s) (unat (DIDX va))
      in if \<not> present pde then None
         else let pte = phys s (frame pde) (unat (TIDX va))
              in if \<not> present pte then None else Some (frame pte))"

definition vread :: "kmem \<Rightarrow> u32 \<Rightarrow> u32 res" where
  "vread s va = (case translate s va of None \<Rightarrow> Inl Fault | Some f \<Rightarrow> Inr (phys s f (word_in_page va)))"

definition phys_write :: "kmem \<Rightarrow> nat \<Rightarrow> nat \<Rightarrow> u32 \<Rightarrow> kmem" where
  "phys_write s f i v = s\<lparr>phys := (phys s)(f := (phys s f)(i := v))\<rparr>"

definition vwrite :: "kmem \<Rightarrow> u32 \<Rightarrow> u32 \<Rightarrow> kmem res" where
  "vwrite s va v = (case translate s va of None \<Rightarrow> Inl Fault
     | Some f \<Rightarrow> Inr (phys_write s f (word_in_page va) v))"

fun vzero :: "kmem \<Rightarrow> u32 \<Rightarrow> nat \<Rightarrow> nat \<Rightarrow> kmem res" where
  "vzero s base i 0 = Inr s"
| "vzero s base i (Suc n) = bnd (vwrite s (elem base i) 0) (\<lambda>s. vzero s base (Suc i) n)"

fun vcopy :: "kmem \<Rightarrow> u32 \<Rightarrow> u32 \<Rightarrow> nat \<Rightarrow> nat \<Rightarrow> kmem res" where
  "vcopy s dst src i 0 = Inr s"
| "vcopy s dst src i (Suc n) =
     bnd (vread s (elem src i)) (\<lambda>v.
     bnd (vwrite s (elem dst i) v) (\<lambda>s. vcopy s dst src (Suc i) n))"

definition page_zero :: "kmem \<Rightarrow> u32 \<Rightarrow> kmem res" where
  "page_zero s va = vzero s va 0 1024"

definition page_copy :: "kmem \<Rightarrow> u32 \<Rightarrow> u32 \<Rightarrow> kmem res" where
  "page_copy s dst src = vcopy s dst src 0 1024"

subsection \<open>Words and pages\<close>

lemma and_3ff: "w AND 0x3ff = w mod (1024 :: u32)"
  using take_bit_eq_mask[of 10 w] by (simp add: take_bit_eq_mod mask_eq_exp_minus_1)

lemma and_fff: "w AND 0xfff = w mod (4096 :: u32)"
  using take_bit_eq_mask[of 12 w] by (simp add: take_bit_eq_mod mask_eq_exp_minus_1)

lemma unat_IDX: "unat (IDX a) = unat a div 4096"
  by (simp add: IDX_def drop_bit_eq_div unat_div)

lemma unat_DIDX: "unat (DIDX a) = unat a div 4194304"
  using unat_lt32[of a] by (simp add: DIDX_def and_3ff drop_bit_eq_div unat_div unat_mod)

lemma unat_TIDX: "unat (TIDX a) = unat a div 4096 mod 1024"
  by (simp add: TIDX_def and_3ff drop_bit_eq_div unat_div unat_mod)

lemma word_in_page_eq: "word_in_page a = unat a mod 4096 div 4"
  by (simp add: word_in_page_def and_fff drop_bit_eq_div unat_div unat_mod)

lemma page_aligned_iff: "page_aligned a \<longleftrightarrow> unat a mod 4096 = 0"
  by (simp add: page_aligned_def and_fff unat_eq_0[symmetric] unat_mod)

lemma DIDX_less: "unat (DIDX a) < 1024"
  using unat_lt32[of a] by (simp add: unat_DIDX)

lemma TIDX_less: "unat (TIDX a) < 1024"
  by (simp add: unat_TIDX)

lemma unat_PAGE: "unat i < 2 ^ 20 \<Longrightarrow> unat (PAGE i) = 4096 * unat i"
  by (simp add: PAGE_def push_bit_eq_mult unat_word_ariths)

lemma IDX_PAGE: "unat i < 2 ^ 20 \<Longrightarrow> IDX (PAGE i) = i"
  by (rule word_unat_eqI) (simp add: unat_IDX unat_PAGE)

lemma page_aligned_PAGE: "unat i < 2 ^ 20 \<Longrightarrow> page_aligned (PAGE i)"
  by (simp add: page_aligned_iff unat_PAGE)

lemma PAGE_IDX: "page_aligned a \<Longrightarrow> PAGE (IDX a) = a"
proof -
  assume "page_aligned a"
  have "unat (IDX a) < 2 ^ 20" using unat_lt32[of a] by (simp add: unat_IDX)
  then have "unat (PAGE (IDX a)) = unat a"
    using \<open>page_aligned a\<close> mult_div_mod_eq[of 4096 "unat a"]
    by (simp add: unat_PAGE unat_IDX page_aligned_iff)
  then show ?thesis by (rule word_unat_eqI)
qed

text \<open>The elements of a 1024-word array at a page-aligned address stay in its page.\<close>

lemma unat_elem:
  assumes "page_aligned b" "i < 1024"
  shows "unat (elem b i) = unat b + 4 * i"
proof -
  obtain k where k: "unat b = 4096 * k" using assms(1) by (auto simp: page_aligned_iff)
  then have "k < 2 ^ 20" using unat_lt32[of b] by simp
  then have "unat b + 4 * i < 2 ^ 32" using k assms(2) by simp
  moreover have "unat (4 * of_nat i :: u32) = 4 * i"
    using assms(2) by (simp add: unat_word_ariths unat_of_nat32)
  ultimately show ?thesis by (simp add: elem_def unat_word_ariths)
qed

lemma elem_parts:
  assumes "page_aligned b" "i < 1024"
  shows "DIDX (elem b i) = DIDX b" "TIDX (elem b i) = TIDX b" "word_in_page (elem b i) = i"
proof -
  obtain k where k: "unat b = 4096 * k" using assms(1) by (auto simp: page_aligned_iff)
  have u: "unat (elem b i) = 4096 * k + 4 * i" using unat_elem[OF assms] k by simp
  have 1: "(4096 * k + 4 * i) div 4096 = k" using assms(2) by simp
  have 2: "(4096 * k + 4 * i) div 4194304 = 4096 * k div 4194304"
    using 1 div_mult2_eq[of "4096 * k + 4 * i" 4096 1024] div_mult2_eq[of "4096 * k" 4096 1024]
    by simp
  show "DIDX (elem b i) = DIDX b" by (rule word_unat_eqI) (simp add: unat_DIDX u k 2)
  show "TIDX (elem b i) = TIDX b" by (rule word_unat_eqI) (simp add: unat_TIDX u k 1)
  show "word_in_page (elem b i) = i" using assms(2) by (simp add: word_in_page_eq u)
qed

lemma translate_elem:
  "page_aligned b \<Longrightarrow> i < 1024 \<Longrightarrow> translate s (elem b i) = translate s b"
  by (simp add: translate_def elem_parts Let_def)

subsection \<open>Entries\<close>

lemma flag_simps [simp]:
  "present (set_flag n b e) = (if n = 0 then b else present e)"
  "writable (set_flag n b e) = (if n = 1 then b else writable e)"
  "user (set_flag n b e) = (if n = 2 then b else user e)"
  "shared (set_flag n b e) = (if n = 9 then b else shared e)"
  "privat (set_flag n b e) = (if n = 10 then b else privat e)"
  "readonly (set_flag n b e) = (if n = 11 then b else readonly e)"
  by (auto simp: present_def writable_def user_def shared_def privat_def readonly_def set_flag_def
      bit_simps)

lemma frame_set_flag [simp]:
  assumes "n < 12"
  shows "frame (set_flag n b e) = frame e"
proof -
  have "drop_bit 12 (set_flag n b e) = drop_bit 12 e"
    by (rule bit_word_eqI) (use assms in \<open>auto simp: set_flag_def bit_simps\<close>)
  then show ?thesis by (simp add: frame_def)
qed

lemma bit_fff: "bit (0xfff :: u32) i \<longleftrightarrow> i < 12"
proof -
  have "(0xfff :: u32) = mask 12" by (simp add: mask_eq_exp_minus_1)
  then have "bit (0xfff :: u32) i \<longleftrightarrow> bit (mask 12 :: u32) i" by simp
  also have "\<dots> \<longleftrightarrow> i < 12" by (simp only: bit_mask_iff) auto
  finally show ?thesis .
qed

lemma frame_set_index:
  assumes "unat i < 2 ^ 20"
  shows "frame (set_index i e) = unat i"
proof -
  have i: "take_bit 20 i = i"
    by (rule word_unat_eqI) (use assms in \<open>simp add: take_bit_eq_mod unat_mod\<close>)
  then have "\<not> bit i n" if "20 \<le> n" for n
    using that by (metis bit_take_bit_iff not_less)
  then have "drop_bit 12 (set_index i e) = i"
    by (intro bit_word_eqI) (use not_less in \<open>auto simp: set_index_def bit_simps bit_fff\<close>)
  then show ?thesis by (simp add: frame_def)
qed

lemma flags_set_index [simp]:
  "present (set_index i e) = present e" "writable (set_index i e) = writable e"
  "user (set_index i e) = user e" "shared (set_index i e) = shared e"
  "privat (set_index i e) = privat e" "readonly (set_index i e) = readonly e"
  by (auto simp: present_def writable_def user_def shared_def privat_def readonly_def
      set_index_def bit_simps bit_fff)

lemma entry_init_simps [simp]:
  "present (entry_init i)" "writable (entry_init i)" "user (entry_init i)"
  "\<not> shared (entry_init i)" "\<not> privat (entry_init i)" "\<not> readonly (entry_init i)"
  by (simp_all add: entry_init_def Let_def)
    (simp_all add: shared_def privat_def readonly_def)

lemma frame_entry_init: "unat i < 2 ^ 20 \<Longrightarrow> frame (entry_init i) = unat i"
  by (simp add: entry_init_def Let_def frame_set_index)

lemma present_zero [simp]: "\<not> present 0"
  by (simp add: present_def)

lemma frame_less: "frame e < 2 ^ 20"
  using unat_lt32[of e] by (simp add: frame_def drop_bit_eq_div unat_div)

end
