(* ===== verification/Strings.thy ===== *)
theory Strings
  imports Prelude
begin

text \<open>
  The string and memory routines of \<^verbatim>\<open>lib/string.c\<close> on a byte memory.  A
  \<^verbatim>\<open>char\<close> is a signed 8-bit value, so comparisons read it with \<open>sint\<close>.  The
  routines that look for the terminating zero are walks that need not end; they return
  \<open>None\<close> where the walk never stops.  The counted routines recurse on the count.
\<close>

type_synonym mem = "addr \<Rightarrow> u8"

definition SEPARATOR1 :: u8 where "SEPARATOR1 = 47"
definition SEPARATOR2 :: u8 where "SEPARATOR2 = 92"

definition IS_SEPARATOR :: "u8 \<Rightarrow> bool" where
  "IS_SEPARATOR c = (c = SEPARATOR1 \<or> c = SEPARATOR2)"

partial_function (option) strcpy_loop :: "mem \<Rightarrow> addr \<Rightarrow> addr \<Rightarrow> mem option" where
  "strcpy_loop m ptr src =
     (let m = m(ptr := m src)
      in if m src = 0 then Some m else strcpy_loop m (ptr + 1) (src + 1))"

definition strcpy :: "mem \<Rightarrow> addr \<Rightarrow> addr \<Rightarrow> (mem \<times> addr) option" where
  "strcpy m dest src = map_option (\<lambda>m. (m, dest)) (strcpy_loop m dest src)"

text \<open>
  The loop of \<^verbatim>\<open>strncpy\<close>: \<open>Inl m\<close> is the early return at the end of the source,
  \<open>Inr m\<close> leaves the loop with the count used up.  With a count of zero the store after
  the loop, at \<^verbatim>\<open>dest[count - 1]\<close>, hits the byte before the buffer.
\<close>

fun strncpy_loop :: "mem \<Rightarrow> addr \<Rightarrow> addr \<Rightarrow> nat \<Rightarrow> mem + mem" where
  "strncpy_loop m ptr src 0 = Inr m"
| "strncpy_loop m ptr src (Suc k) =
     (let m = m(ptr := m src)
      in if m src = 0 then Inl m else strncpy_loop m (ptr + 1) (src + 1) k)"

definition strncpy :: "mem \<Rightarrow> addr \<Rightarrow> addr \<Rightarrow> nat \<Rightarrow> mem \<times> addr" where
  "strncpy m dest src count =
     (case strncpy_loop m dest src count of
        Inl m \<Rightarrow> (m, dest)
      | Inr m \<Rightarrow> (m(dest + count - 1 := 0), dest))"

partial_function (option) find_end :: "mem \<Rightarrow> addr \<Rightarrow> addr option" where
  "find_end m ptr = (if m ptr \<noteq> 0 then find_end m (ptr + 1) else Some ptr)"

definition strcat :: "mem \<Rightarrow> addr \<Rightarrow> addr \<Rightarrow> (mem \<times> addr) option" where
  "strcat m dest src =
     Option.bind (find_end m dest) (\<lambda>ptr.
     map_option (\<lambda>m. (m, dest)) (strcpy_loop m ptr src))"

definition strlen :: "mem \<Rightarrow> addr \<Rightarrow> nat option" where
  "strlen m str = map_option (\<lambda>ptr. ptr - str) (find_end m str)"

partial_function (option) strcmp :: "mem \<Rightarrow> addr \<Rightarrow> addr \<Rightarrow> int option" where
  "strcmp m lhs rhs =
     (if m lhs = m rhs \<and> m lhs \<noteq> 0 \<and> m rhs \<noteq> 0 then strcmp m (lhs + 1) (rhs + 1)
      else Some (if sint (m lhs) < sint (m rhs) then -1
                 else if sint (m lhs) > sint (m rhs) then 1 else 0))"

partial_function (option) strchr :: "mem \<Rightarrow> addr \<Rightarrow> int \<Rightarrow> addr option" where
  "strchr m ptr ch =
     (if sint (m ptr) = ch then Some (ptr + 1)
      else if m (ptr + 1) = 0 then Some 0
      else strchr m (ptr + 1) ch)"

partial_function (option) strrchr_loop :: "mem \<Rightarrow> addr \<Rightarrow> int \<Rightarrow> addr \<Rightarrow> addr option" where
  "strrchr_loop m ptr ch found =
     (let found = (if sint (m ptr) = ch then ptr else found)
      in if m ptr = 0 then Some found else strrchr_loop m (ptr + 1) ch found)"

definition strrchr :: "mem \<Rightarrow> addr \<Rightarrow> int \<Rightarrow> addr option" where
  "strrchr m str ch = strrchr_loop m str ch 0"

fun memcmp :: "mem \<Rightarrow> addr \<Rightarrow> addr \<Rightarrow> nat \<Rightarrow> int" where
  "memcmp m lptr rptr 0 = 0"
| "memcmp m lptr rptr (Suc k) =
     (if m lptr = m rptr then memcmp m (lptr + 1) (rptr + 1) k
      else if sint (m lptr) < sint (m rptr) then -1
      else if sint (m lptr) > sint (m rptr) then 1 else 0)"

fun memset :: "mem \<Rightarrow> addr \<Rightarrow> int \<Rightarrow> nat \<Rightarrow> mem" where
  "memset m ptr ch 0 = m"
| "memset m ptr ch (Suc k) = memset (m(ptr := word_of_int ch)) (ptr + 1) ch k"

fun memcpy :: "mem \<Rightarrow> addr \<Rightarrow> addr \<Rightarrow> nat \<Rightarrow> mem" where
  "memcpy m dptr sptr 0 = m"
| "memcpy m dptr sptr (Suc k) = memcpy (m(dptr := m sptr)) (dptr + 1) (sptr + 1) k"

fun memchr :: "mem \<Rightarrow> addr \<Rightarrow> int \<Rightarrow> nat \<Rightarrow> addr" where
  "memchr m tptr ch 0 = 0"
| "memchr m tptr ch (Suc k) = (if sint (m tptr) = ch then tptr else memchr m (tptr + 1) ch k)"

partial_function (option) strsep :: "mem \<Rightarrow> addr \<Rightarrow> addr option" where
  "strsep m ptr =
     (if IS_SEPARATOR (m ptr) then Some ptr
      else if m ptr = 0 then Some 0
      else strsep m (ptr + 1))"

partial_function (option) strrsep_loop :: "mem \<Rightarrow> addr \<Rightarrow> addr \<Rightarrow> addr option" where
  "strrsep_loop m ptr found =
     (let found = (if IS_SEPARATOR (m ptr) then ptr else found)
      in if m ptr = 0 then Some found else strrsep_loop m (ptr + 1) found)"

definition strrsep :: "mem \<Rightarrow> addr \<Rightarrow> addr option" where
  "strrsep m str = strrsep_loop m str 0"

subsection \<open>Strings in memory\<close>

primrec cstr :: "mem \<Rightarrow> addr \<Rightarrow> u8 list \<Rightarrow> bool" where
  "cstr m p [] = (m p = 0)"
| "cstr m p (c # s) = (m p = c \<and> c \<noteq> 0 \<and> cstr m (p + 1) s)"

text \<open>The \<open>n\<close> bytes at \<open>p\<close> and the \<open>k\<close> bytes at \<open>q\<close> do not overlap.\<close>

definition apart :: "addr \<Rightarrow> nat \<Rightarrow> addr \<Rightarrow> nat \<Rightarrow> bool" where
  "apart p n q k = (p + n \<le> q \<or> q + k \<le> p)"

text \<open>The memories agree outside the \<open>n\<close> bytes at \<open>p\<close>.\<close>

definition same_but :: "addr \<Rightarrow> nat \<Rightarrow> mem \<Rightarrow> mem \<Rightarrow> bool" where
  "same_but p n m m' = (\<forall>a. a < p \<or> p + n \<le> a \<longrightarrow> m' a = m a)"

lemma all_less_Suc_shift: "(\<forall>i<Suc n. P i) \<longleftrightarrow> P 0 \<and> (\<forall>i<n. P (Suc i))"
  by (auto simp: less_Suc_eq_0_disj)

lemma same_but_refl [simp]: "same_but p n m m"
  by (simp add: same_but_def)

lemma same_butD: "same_but p n m m' \<Longrightarrow> a < p \<or> p + n \<le> a \<Longrightarrow> m' a = m a"
  unfolding same_but_def by blast

lemma same_but_step:
  "same_but (Suc p) n (m(p := v)) m' \<Longrightarrow> same_but p (Suc n) m m'"
  by (auto simp: same_but_def)

lemma cstr_iff:
  "cstr m p s \<longleftrightarrow> (\<forall>i<length s. m (p + i) = s ! i) \<and> 0 \<notin> set s \<and> m (p + length s) = 0"
proof (induction s arbitrary: p)
  case (Cons c s)
  have "(\<forall>i<length (c # s). m (p + i) = (c # s) ! i) \<longleftrightarrow>
      m p = c \<and> (\<forall>i<length s. m (p + 1 + i) = s ! i)"
    by (auto simp: less_Suc_eq_0_disj)
  then show ?case using Cons by auto
qed simp

lemma cstr_same: "cstr m p s \<Longrightarrow> (\<forall>i\<le>length s. m' (p + i) = m (p + i)) \<Longrightarrow> cstr m' p s"
  by (auto simp: cstr_iff)

lemma cstr_frame:
  "cstr m p s \<Longrightarrow> same_but q n m m' \<Longrightarrow> apart p (Suc (length s)) q n \<Longrightarrow> cstr m' p s"
  by (erule cstr_same) (auto simp: same_but_def apart_def)

lemma cstr_nonzero: "cstr m p s \<Longrightarrow> 0 \<notin> set s"
  by (simp add: cstr_iff)

lemma cstr_unique: "cstr m p s \<Longrightarrow> cstr m p t \<Longrightarrow> s = t"
proof (induction s arbitrary: p t)
  case Nil
  then show ?case by (cases t) auto
next
  case (Cons c s)
  then show ?case by (cases t) auto
qed

lemma find_end_cstr: "cstr m p s \<Longrightarrow> find_end m p = Some (p + length s)"
  by (induction s arbitrary: p) (simp_all add: find_end.simps)

lemma strlen_cstr: "cstr m p s \<Longrightarrow> strlen m p = Some (length s)"
  by (simp add: strlen_def find_end_cstr)

lemma strcpy_loop_cstr:
  assumes "cstr m src s" and "apart ptr (Suc (length s)) src (Suc (length s))"
  shows "\<exists>m'. strcpy_loop m ptr src = Some m' \<and> cstr m' ptr s
    \<and> same_but ptr (Suc (length s)) m m'"
  using assms
proof (induction s arbitrary: m ptr src)
  case Nil
  then show ?case by (auto simp: strcpy_loop.simps same_but_def)
next
  case (Cons c s)
  let ?m = "m(ptr := m src)"
  have ne: "ptr \<noteq> src" using Cons.prems(2) by (auto simp: apart_def)
  have "cstr ?m (Suc src) s"
    using Cons.prems by (auto intro!: cstr_frame[where m = m and q = ptr and n = 1]
        simp: same_but_def apart_def)
  moreover have "apart (Suc ptr) (Suc (length s)) (Suc src) (Suc (length s))"
    using Cons.prems(2) by (auto simp: apart_def)
  ultimately obtain m' where m': "strcpy_loop ?m (Suc ptr) (Suc src) = Some m'"
      "cstr m' (Suc ptr) s" "same_but (Suc ptr) (Suc (length s)) ?m m'"
    using Cons.IH by meson
  moreover have "m' ptr = c"
    using same_butD[OF m'(3), of ptr] Cons.prems(1) by simp
  moreover have "strcpy_loop m ptr src = Some m'"
    using m'(1) ne Cons.prems by (subst strcpy_loop.simps) (simp add: Let_def)
  ultimately show ?case using Cons.prems same_but_step[OF m'(3)] by auto
qed

lemma strncpy_loop_cstr:
  assumes "cstr m src s" and "apart ptr k src (Suc (length s))"
  shows "\<exists>m'. strncpy_loop m ptr src k = (if length s < k then Inl m' else Inr m')
    \<and> (\<forall>i<min k (length s). m' (ptr + i) = s ! i)
    \<and> (length s < k \<longrightarrow> m' (ptr + length s) = 0) \<and> same_but ptr k m m'"
  using assms
proof (induction k arbitrary: m ptr src s)
  case 0
  then show ?case by simp
next
  case (Suc k)
  let ?m = "m(ptr := m src)"
  have ne: "ptr \<noteq> src" using Suc.prems(2) by (auto simp: apart_def)
  show ?case
  proof (cases s)
    case Nil
    then show ?thesis using Suc.prems ne by (auto simp: Let_def same_but_def)
  next
    case (Cons c t)
    have A: "cstr ?m (Suc src) t"
      using Suc.prems Cons by (auto intro!: cstr_frame[where m = m and q = ptr and n = 1]
          simp: same_but_def apart_def)
    have B: "apart (Suc ptr) k (Suc src) (Suc (length t))"
      using Suc.prems(2) Cons by (auto simp: apart_def)
    obtain m' where m':
        "strncpy_loop ?m (Suc ptr) (Suc src) k = (if length t < k then Inl m' else Inr m')"
        "\<forall>i<min k (length t). m' (Suc ptr + i) = t ! i"
        "length t < k \<longrightarrow> m' (Suc ptr + length t) = 0" "same_but (Suc ptr) k ?m m'"
      using Suc.IH[OF A B] by blast
    have "m src = c" using Suc.prems(1) Cons by simp
    then have "m' ptr = c" using same_butD[OF m'(4), of ptr] by simp
    then have "\<forall>i<min (Suc k) (length s). m' (ptr + i) = s ! i"
      using m'(2) Cons by (simp add: all_less_Suc_shift)
    moreover have "strncpy_loop m ptr src (Suc k) = strncpy_loop ?m (Suc ptr) (Suc src) k"
      using ne Suc.prems(1) Cons by (simp add: Let_def)
    moreover have "length s < Suc k \<longrightarrow> m' (ptr + length s) = 0"
      using m'(3) Cons by simp
    ultimately show ?thesis
      using m'(1) Cons same_but_step[OF m'(4)] by (intro exI[of _ m']) simp
  qed
qed

lemma sint_inject [simp]: "sint (a :: u8) = sint b \<longleftrightarrow> a = b"
  by (simp flip: word_eq_iff_signed)

lemma sint_zero [simp]: "sint (a :: u8) = 0 \<longleftrightarrow> a = 0"
  using sint_inject[of a 0] by simp

lemma strcmp_loop:
  assumes "cstr m p s" "cstr m q t"
  shows "strcmp m p q = Some 0 \<longleftrightarrow> s = t"
  using assms
proof (induction s arbitrary: p q t)
  case Nil
  then show ?case by (cases t) (auto simp: strcmp.simps)
next
  case (Cons c s)
  show ?case
  proof (cases t)
    case Nil
    then show ?thesis using Cons.prems by (subst strcmp.simps) auto
  next
    case (Cons d t')
    show ?thesis
      using Cons.prems \<open>t = d # t'\<close> Cons.IH[of "Suc p" "Suc q" t'] by (subst strcmp.simps) auto
  qed
qed

lemma memcpy_range:
  "apart p n q n \<Longrightarrow> (\<forall>i<n. memcpy m p q n (p + i) = m (q + i)) \<and> same_but p n m (memcpy m p q n)"
proof (induction n arbitrary: m p q)
  case 0
  then show ?case by simp
next
  case (Suc n)
  define m2 where "m2 = memcpy (m(p := m q)) (Suc p) (Suc q) n"
  have ap: "apart (Suc p) n (Suc q) n" using Suc.prems by (auto simp: apart_def)
  have IH: "\<forall>i<n. m2 (Suc p + i) = (m(p := m q)) (Suc q + i)"
      "same_but (Suc p) n (m(p := m q)) m2"
    unfolding m2_def using Suc.IH[OF ap] by blast+
  have "m2 p = m q" using same_butD[OF IH(2), of p] by simp
  moreover have "\<forall>i<n. (m(p := m q)) (Suc q + i) = m (Suc q + i)"
    using Suc.prems by (auto simp: apart_def)
  moreover have "memcpy m p q (Suc n) = m2" by (simp add: m2_def)
  ultimately show ?case using IH(1) same_but_step[OF IH(2)] by (auto simp: less_Suc_eq_0_disj)
qed

lemma memset_range:
  "(\<forall>i<n. memset m p c n (p + i) = word_of_int c) \<and> same_but p n m (memset m p c n)"
proof (induction n arbitrary: m p)
  case 0
  then show ?case by simp
next
  case (Suc n)
  define m2 where "m2 = memset (m(p := word_of_int c)) (Suc p) c n"
  have IH: "\<forall>i<n. m2 (Suc p + i) = word_of_int c" "same_but (Suc p) n (m(p := word_of_int c)) m2"
    unfolding m2_def using Suc.IH by blast+
  have "m2 p = word_of_int c" using same_butD[OF IH(2), of p] by simp
  moreover have "memset m p c (Suc n) = m2" by (simp add: m2_def)
  ultimately show ?case using IH(1) same_but_step[OF IH(2)] by (auto simp: less_Suc_eq_0_disj)
qed

lemma memcmp_eq: "memcmp m p q n = 0 \<longleftrightarrow> (\<forall>i<n. m (p + i) = m (q + i))"
proof (induction n arbitrary: p q)
  case (Suc n)
  have "(\<forall>i<Suc n. m (p + i) = m (q + i)) \<longleftrightarrow>
      m p = m q \<and> (\<forall>i<n. m (Suc p + i) = m (Suc q + i))"
    by (auto simp: less_Suc_eq_0_disj)
  moreover have "m p = m q" if "sint (m p) \<le> sint (m q)" "sint (m q) \<le> sint (m p)"
    using that by (metis order_antisym sint_inject)
  ultimately show ?case using Suc[of "Suc p" "Suc q"] by (auto simp: not_less)
qed simp

subsection \<open>Properties\<close>

definition hi_mem :: mem where
  "hi_mem = (\<lambda>_. 0)(10 := 104, 11 := 105)"

lemma hi_mem_cstr: "cstr hi_mem 10 [104, 105]" "cstr hi_mem 11 [105]"
  by (simp_all add: hi_mem_def)

text \<open>
  \<^verbatim>\<open>strcpy\<close> of a terminated string to memory apart from it returns the destination,
  makes it an equal string, leaves the source and every byte outside the destination alone; and
  \<^verbatim>\<open>strlen\<close> and \<^verbatim>\<open>strcmp\<close> then see two equal strings.
\<close>

theorem strcpy_copies:
  assumes "cstr m src s" "apart dest (Suc (length s)) src (Suc (length s))"
  shows "\<exists>m'. strcpy m dest src = Some (m', dest) \<and> cstr m' dest s \<and> cstr m' src s
    \<and> same_but dest (Suc (length s)) m m' \<and> strlen m' dest = Some (length s)
    \<and> strcmp m' dest src = Some 0"
proof -
  obtain m' where m': "strcpy_loop m dest src = Some m'" "cstr m' dest s"
    "same_but dest (Suc (length s)) m m'"
    using strcpy_loop_cstr[OF assms] by auto
  have "cstr m' src s"
    using m'(3) assms(2) by (intro cstr_frame[OF assms(1) m'(3)]) (auto simp: apart_def)
  then show ?thesis
    using m' strlen_cstr[OF m'(2)] strcmp_loop[OF m'(2)] by (auto simp: strcpy_def)
qed

lemma strcpy_copies_witness:
  "\<exists>m'. strcpy hi_mem 20 10 = Some (m', 20) \<and> cstr m' 20 [104, 105]"
  using strcpy_copies[OF hi_mem_cstr(1), of 20] by (auto simp: apart_def)

text \<open>
  C32: \<^verbatim>\<open>strncpy\<close> with a positive count never writes outside the \<open>count\<close> bytes of the
  destination, and leaves there the longest prefix of the source that fits, terminated.
\<close>

theorem strncpy_bounded:
  assumes "cstr m src s" "0 < k" "apart dest k src (Suc (length s))"
  shows "\<exists>m'. strncpy m dest src k = (m', dest) \<and> same_but dest k m m'
    \<and> cstr m' dest (take (k - 1) s)"
proof -
  obtain m1 where m1: "strncpy_loop m dest src k = (if length s < k then Inl m1 else Inr m1)"
    "\<forall>i < min k (length s). m1 (dest + i) = s ! i"
    "length s < k \<longrightarrow> m1 (dest + length s) = 0" "same_but dest k m m1"
    using strncpy_loop_cstr[OF assms(1,3)] by blast
  have nz: "c \<noteq> 0" if "c \<in> set s" for c using assms(1) that by (auto simp: cstr_iff)
  show ?thesis
  proof (cases "length s < k")
    case True
    then have "cstr m1 dest s" using m1 nz by (auto simp: cstr_iff)
    then show ?thesis using True m1 by (simp add: strncpy_def)
  next
    case False
    let ?m = "m1(dest + k - 1 := 0)"
    have "cstr ?m dest (take (k - 1) s)"
      using False m1(2) nz assms(2) by (auto simp: cstr_iff dest: in_set_takeD)
    moreover have "same_but dest k m ?m" using m1(4) assms(2) by (auto simp: same_but_def)
    ultimately show ?thesis using False m1(1) by (simp add: strncpy_def)
  qed
qed

lemma strncpy_bounded_witness:
  "\<exists>m'. strncpy hi_mem 20 10 2 = (m', 20) \<and> cstr m' 20 [104]"
  using strncpy_bounded[OF hi_mem_cstr(1), of 2 20] by (auto simp: apart_def numeral_2_eq_2)

end
