(* ===== verification/Stdlib.thy ===== *)
theory Stdlib
  imports Strings
begin

text \<open>
  The helpers of \<^verbatim>\<open>lib/stdlib.c\<close>: the busy loops, the conversion between binary and packed decimal
  digits the clock chip uses, the rounding division of the memory code, and
  \<^verbatim>\<open>atoi\<close>, whose result is a 32-bit \<^verbatim>\<open>int\<close>; and little-endian loads of 32 and
  64 bits from a byte memory, as a C read through a cast pointer does them.
\<close>

partial_function (option) delay :: "u32 \<Rightarrow> unit option" where
  "delay count = (if count = 0 then Some () else delay (count - 1))"

partial_function (option) hang :: "unit \<Rightarrow> unit option" where
  "hang u = hang u"

definition bcd_to_bin :: "u8 \<Rightarrow> u8" where
  "bcd_to_bin value = (value AND 0xf) + drop_bit 4 value * 10"

definition bin_to_bcd :: "u8 \<Rightarrow> u8" where
  "bin_to_bcd value = (value div 10) * 0x10 + value mod 10"

definition div_round_up :: "u32 \<Rightarrow> u32 \<Rightarrow> u32" where
  "div_round_up num sz = (num + sz - 1) div sz"

text \<open>
  \<^verbatim>\<open>bool sign = -1\<close> stores 1 in a \<^verbatim>\<open>_Bool\<close>, so the factor of the result is 1 on
  both branches.
\<close>

partial_function (option) atoi_loop :: "mem \<Rightarrow> addr \<Rightarrow> u32 \<Rightarrow> u32 option" where
  "atoi_loop m str result =
     (if m str = 0 then Some result
      else atoi_loop m (str + 1) (result * 10 + (scast (m str) - 48)))"

definition to_bool :: "int \<Rightarrow> u32" where
  "to_bool x = (if x = 0 then 0 else 1)"

definition atoi :: "mem \<Rightarrow> addr \<Rightarrow> u32 option" where
  "atoi m str =
     (if str = 0 then Some 0
      else let sign = (if m str = 45 then to_bool (-1) else to_bool 1);
               str = (if m str = 45 then str + 1 else str)
           in map_option (\<lambda>result. result * sign) (atoi_loop m str 0))"

definition ld32 :: "mem \<Rightarrow> addr \<Rightarrow> u32" where
  "ld32 m a = ucast (m a) OR push_bit 8 (ucast (m (a + 1))) OR push_bit 16 (ucast (m (a + 2)))
     OR push_bit 24 (ucast (m (a + 3)))"

definition ld64 :: "mem \<Rightarrow> addr \<Rightarrow> 64 word" where
  "ld64 m a = ucast (ld32 m a) OR push_bit 32 (ucast (ld32 m (a + 4)))"

subsection \<open>Decimal digits\<close>

lemma unat_and_f: "unat (b AND 0xf :: u8) = unat b mod 16"
proof -
  have "b AND 0xf = take_bit 4 b" by (simp add: take_bit_eq_mask mask_eq_exp_minus_1)
  then show ?thesis by (simp add: take_bit_eq_mod unat_mod)
qed

lemma unat_bcd_to_bin:
  "unat b div 16 \<le> 9 \<Longrightarrow> unat (bcd_to_bin b) = unat b mod 16 + 10 * (unat b div 16)"
  by (simp add: bcd_to_bin_def unat_word_ariths unat_and_f drop_bit_eq_div unat_div)

lemma unat_bin_to_bcd:
  "unat b < 100 \<Longrightarrow> unat (bin_to_bcd b) = 16 * (unat b div 10) + unat b mod 10"
  by (simp add: bin_to_bcd_def unat_word_ariths unat_div unat_mod)

lemma unat_div_round_up:
  assumes "0 < unat sz" "unat num + unat sz \<le> 2 ^ 32"
  shows "unat (div_round_up num sz) = (unat num + unat sz - 1) div unat sz"
proof -
  have "sz \<noteq> 0" using assms(1) by auto
  then have m: "unat (sz - 1) = unat sz - 1" by (rule unat_minus_one)
  have "unat num + (unat sz - 1) < 2 ^ 32" using assms by linarith
  then have "unat (num + (sz - 1)) = unat num + (unat sz - 1)"
    by (subst unat_word_ariths) (simp add: m)
  then show ?thesis using assms by (simp add: div_round_up_def unat_div algebra_simps)
qed

text \<open>The quotient is the least number of blocks that holds all bytes.\<close>

lemma div_round_up_least:
  assumes "0 < (s :: nat)"
  shows "n \<le> s * k \<longleftrightarrow> (n + s - 1) div s \<le> k"
proof -
  have "(n + s - 1) div s \<le> k \<longleftrightarrow> (n + s - 1) div s < k + 1" by auto
  also have "\<dots> \<longleftrightarrow> n + s - 1 < (k + 1) * s" using assms by (rule div_less_iff_less_mult)
  also have "\<dots> \<longleftrightarrow> n \<le> s * k" using assms by (auto simp: algebra_simps)
  finally show ?thesis by simp
qed

end
