(* ===== verification/Physmem.thy ===== *)
theory Physmem
  imports Paging Stdlib
begin

text \<open>
  Physical memory in \<^verbatim>\<open>kernel/memory.c\<close>: \<^verbatim>\<open>memory_init\<close> reads the memory ranges
  either boot protocol reports, \<^verbatim>\<open>memory_map_init\<close> lays out one reference byte per
  frame, \<^verbatim>\<open>mapping_init\<close> builds the first page tables, \<^verbatim>\<open>get_page\<close> and
  \<^verbatim>\<open>put_page\<close> take and drop references.  \<^verbatim>\<open>memory_map\<close> is kept apart from the
  words of \<open>phys\<close>: the frames it lies in are reserved and never mapped elsewhere.

  \<open>free_frames\<close> is the set of frames a \<^verbatim>\<open>get_page\<close> may return and \<open>slack\<close> the
  difference between the counter \<^verbatim>\<open>free_pages\<close> and its size.
\<close>

definition ZONE_VALID :: u32 where "ZONE_VALID = 1"
definition YUI_MAGIC :: u32 where "YUI_MAGIC = 0x20220205"
definition MULTIBOOT2_MAGIC :: u32 where "MULTIBOOT2_MAGIC = 0x36d76289"
definition MULTIBOOT_TAG_TYPE_END :: u32 where "MULTIBOOT_TAG_TYPE_END = 0"
definition MULTIBOOT_TAG_TYPE_MMAP :: u32 where "MULTIBOOT_TAG_TYPE_MMAP = 6"
definition MEMORY_BASE :: u32 where "MEMORY_BASE = 0x100000"
definition KERNEL_MEMORY_SIZE :: u32 where "KERNEL_MEMORY_SIZE = 0x1000000"
definition KERNEL_PAGE_DIR :: u32 where "KERNEL_PAGE_DIR = 0x1000"
definition KERNEL_PAGE_TABLE :: "u32 list" where
  "KERNEL_PAGE_TABLE = [0x2000, 0x3000, 0x4000, 0x5000]"

subsection \<open>Memory ranges at boot\<close>

definition zone :: "64 word \<Rightarrow> 64 word \<Rightarrow> u32 \<Rightarrow> kmem \<Rightarrow> kmem" where
  "zone base sz typ s =
     (if typ = ZONE_VALID \<and> sz > ucast (memory_size s)
      then s\<lparr>memory_base := ucast base, memory_size := ucast sz\<rparr> else s)"

fun ards_loop :: "mem \<Rightarrow> addr \<Rightarrow> nat \<Rightarrow> kmem \<Rightarrow> kmem" where
  "ards_loop m ptr 0 s = s"
| "ards_loop m ptr (Suc n) s =
     ards_loop m (ptr + 20) n (zone (ld64 m ptr) (ld64 m (ptr + 8)) (ld32 m (ptr + 16)) s)"

partial_function (option) tag_loop :: "mem \<Rightarrow> u32 \<Rightarrow> u32 option" where
  "tag_loop m tag =
     (if ld32 m (unat tag) = MULTIBOOT_TAG_TYPE_END then Some tag
      else if ld32 m (unat tag) = MULTIBOOT_TAG_TYPE_MMAP then Some tag
      else tag_loop m (tag + ((ld32 m (unat (tag + 4)) + 7) AND NOT 7)))"

partial_function (option) mmap_loop :: "mem \<Rightarrow> u32 \<Rightarrow> u32 \<Rightarrow> kmem \<Rightarrow> kmem option" where
  "mmap_loop m tag entry s =
     (if entry < tag + ld32 m (unat (tag + 4))
      then mmap_loop m tag (entry + ld32 m (unat (tag + 8)))
             (zone (ld64 m (unat entry)) (ld64 m (unat (entry + 8))) (ld32 m (unat (entry + 16))) s)
      else Some s)"

definition memory_init :: "mem \<Rightarrow> u32 \<Rightarrow> u32 \<Rightarrow> kmem \<Rightarrow> kmem res" where
  "memory_init m magic address s =
     bnd (if magic = YUI_MAGIC
          then Inr (ards_loop m (unat (address + 4)) (unat (ld32 m (unat address))) s)
          else if magic = MULTIBOOT2_MAGIC
          then run (map_option Inr
                 (Option.bind (tag_loop m (address + 8)) (\<lambda>tag. mmap_loop m tag (tag + 16) s)))
          else Inl Panic) (\<lambda>s.
     bnd (assrt (memory_base s = MEMORY_BASE)) (\<lambda>_.
     bnd (assrt (memory_size s AND 0xfff = 0)) (\<lambda>_.
     let s = s\<lparr>total_pages := IDX (memory_size s) + IDX MEMORY_BASE,
               free_pages := IDX (memory_size s)\<rparr>
     in if memory_size s < KERNEL_MEMORY_SIZE then Inl Panic else Inr s)))"

subsection \<open>The reference bytes\<close>

fun map_used_loop :: "u8 list \<Rightarrow> nat \<Rightarrow> nat \<Rightarrow> u8 list res" where
  "map_used_loop mp i 0 = Inr mp"
| "map_used_loop mp i (Suc n) = bnd (wr mp i 1) (\<lambda>mp. map_used_loop mp (Suc i) n)"

definition memory_map_init :: "u8 list \<Rightarrow> kmem \<Rightarrow> kmem res" where
  "memory_map_init map_bits s =
     (let s = s\<lparr>memory_map_pages := div_round_up (total_pages s) PAGE_SIZE\<rparr>;
          s = s\<lparr>free_pages := free_pages s - memory_map_pages s\<rparr>;
          mp = replicate (unat (memory_map_pages s * PAGE_SIZE)) 0;
          s = s\<lparr>start_page := IDX MEMORY_BASE + memory_map_pages s\<rparr>
      in bnd (map_used_loop mp 0 (unat (start_page s))) (\<lambda>mp.
         let s = s\<lparr>memory_map := mp\<rparr>;
             len = (IDX KERNEL_MEMORY_SIZE - IDX MEMORY_BASE) div 8
         in bnd (bitmap_init map_bits len (IDX MEMORY_BASE)) (\<lambda>bm.
            bnd (bitmap_scan bm (memory_map_pages s)) (\<lambda>(bm, _).
            Inr (s\<lparr>kernel_bitmap := bm\<rparr>)))))"

function get_page_loop :: "kmem \<Rightarrow> nat \<Rightarrow> (kmem \<times> u32) res" where
  "get_page_loop s i =
     (if i < unat (total_pages s)
      then bnd (rd (memory_map s) i) (\<lambda>refs.
           if refs = 0
           then let s = s\<lparr>memory_map := (memory_map s)[i := 1], free_pages := free_pages s - 1\<rparr>
                in bnd (assrt (free_pages s > 0)) (\<lambda>_. Inr (s, PAGE (of_nat i)))
           else get_page_loop s (Suc i))
      else Inl Panic)"
  by pat_completeness auto
termination
  by (relation "measure (\<lambda>(s, i). unat (total_pages s) - i)") auto

declare get_page_loop.simps [simp del]

definition get_page :: "kmem \<Rightarrow> (kmem \<times> u32) res" where
  "get_page s = get_page_loop s (unat (start_page s))"

definition put_page :: "kmem \<Rightarrow> u32 \<Rightarrow> kmem res" where
  "put_page s address =
     bnd (assrt (page_aligned address)) (\<lambda>_.
     let idx = IDX address in
     bnd (assrt (idx \<ge> start_page s \<and> idx < total_pages s)) (\<lambda>_.
     bnd (rd (memory_map s) (unat idx)) (\<lambda>refs.
     bnd (assrt (refs \<ge> 1)) (\<lambda>_.
     let s = s\<lparr>memory_map := (memory_map s)[unat idx := refs - 1]\<rparr>;
         s = (if refs - 1 = 0 then s\<lparr>free_pages := free_pages s + 1\<rparr> else s)
     in bnd (assrt (free_pages s > 0 \<and> free_pages s < total_pages s)) (\<lambda>_. Inr s)))))"

subsection \<open>The first page tables\<close>

text \<open>
  Paging is off, so the tables are written at their physical addresses.  The table
  frames of \<^verbatim>\<open>KERNEL_PAGE_TABLE\<close> follow the directory.
\<close>

definition zero_frame :: "kmem \<Rightarrow> u32 \<Rightarrow> kmem" where
  "zero_frame s pa = s\<lparr>phys := (phys s)(unat (IDX pa) :=
     (\<lambda>i. if i < 1024 then 0 else phys s (unat (IDX pa)) i))\<rparr>"

fun identity_loop :: "kmem \<Rightarrow> u32 \<Rightarrow> nat \<Rightarrow> nat \<Rightarrow> nat \<Rightarrow> kmem res" where
  "identity_loop s pte tidx index 0 = Inr s"
| "identity_loop s pte tidx index (Suc n) =
     (if index = 0 then identity_loop s pte (Suc tidx) (Suc index) n
      else let s = phys_write s (unat (IDX pte)) tidx
                     (set_flag 2 False (entry_init (of_nat index)))
           in bnd (wr (memory_map s) index 1) (\<lambda>mp.
              identity_loop (s\<lparr>memory_map := mp\<rparr>) pte (Suc tidx) (Suc index) n))"

fun tables_loop :: "kmem \<Rightarrow> u32 list \<Rightarrow> nat \<Rightarrow> nat \<Rightarrow> kmem res" where
  "tables_loop s [] didx index = Inr s"
| "tables_loop s (pte # ptes) didx index =
     (let s = zero_frame s pte;
          s = phys_write s (unat (IDX KERNEL_PAGE_DIR)) didx
                (set_flag 2 False (entry_init (IDX pte)))
      in bnd (identity_loop s pte 0 index 1024) (\<lambda>s.
         tables_loop s ptes (Suc didx) (index + 1024)))"

definition set_cr3 :: "kmem \<Rightarrow> u32 \<Rightarrow> kmem res" where
  "set_cr3 s pde = bnd (assrt (page_aligned pde)) (\<lambda>_. Inr (s\<lparr>cr3 := pde\<rparr>))"

definition mapping_init :: "kmem \<Rightarrow> kmem res" where
  "mapping_init s =
     (let s = zero_frame s KERNEL_PAGE_DIR
      in bnd (tables_loop s KERNEL_PAGE_TABLE 0 0) (\<lambda>s.
         let s = phys_write s (unat (IDX KERNEL_PAGE_DIR)) 1023
                   (entry_init (IDX KERNEL_PAGE_DIR))
         in set_cr3 s KERNEL_PAGE_DIR))"


subsection \<open>Frames and references\<close>

definition pm_wf :: "kmem \<Rightarrow> bool" where
  "pm_wf s = (unat (total_pages s) \<le> length (memory_map s) \<and> unat (total_pages s) \<le> 2 ^ 20)"

definition refs :: "kmem \<Rightarrow> nat \<Rightarrow> nat" where
  "refs s i = unat (memory_map s ! i)"

definition free_frames :: "kmem \<Rightarrow> nat set" where
  "free_frames s = {i. unat (start_page s) \<le> i \<and> i < unat (total_pages s) \<and> memory_map s ! i = 0}"

definition slack :: "kmem \<Rightarrow> u32" where
  "slack s = free_pages s - of_nat (card (free_frames s))"

definition take_frame :: "kmem \<Rightarrow> nat \<Rightarrow> kmem" where
  "take_frame s i = s\<lparr>memory_map := (memory_map s)[i := 1], free_pages := free_pages s - 1\<rparr>"

lemma take_frame_simps [simp]:
  "phys (take_frame s i) = phys s" "cr3 (take_frame s i) = cr3 s"
  "start_page (take_frame s i) = start_page s" "total_pages (take_frame s i) = total_pages s"
  "memory_map (take_frame s i) = (memory_map s)[i := 1]"
  "free_pages (take_frame s i) = free_pages s - 1"
  "kernel_bitmap (take_frame s i) = kernel_bitmap s"
  by (simp_all add: take_frame_def)

lemma finite_free_frames [simp]: "finite (free_frames s)"
  by (rule finite_subset[of _ "{..<unat (total_pages s)}"]) (auto simp: free_frames_def)

lemma get_page_loop_eq:
  assumes "pm_wf s" "unat (start_page s) \<le> i"
    "\<And>j. unat (start_page s) \<le> j \<Longrightarrow> j < i \<Longrightarrow> memory_map s ! j \<noteq> 0"
  shows "get_page_loop s i =
    (if free_frames s = {} then Inl Panic
     else let k = Min (free_frames s)
          in if free_pages s - 1 = 0 then Inl Assertion
             else Inr (take_frame s k, PAGE (of_nat k)))"
  using assms
proof (induction s i rule: get_page_loop.induct)
  case (1 s i)
  note wf = "1.prems"(1) and start = "1.prems"(2) and busy = "1.prems"(3)
  show ?case
  proof (cases "i < unat (total_pages s)")
    case False
    have "free_frames s = {}" using busy False by (force simp: free_frames_def)
    then show ?thesis using False by (simp add: get_page_loop.simps)
  next
    case True
    then have len: "i < length (memory_map s)" using wf by (simp add: pm_wf_def)
    show ?thesis
    proof (cases "memory_map s ! i = 0")
      case True
      with \<open>i < unat (total_pages s)\<close> start have "i \<in> free_frames s" by (simp add: free_frames_def)
      moreover have "i \<le> j" if "j \<in> free_frames s" for j
        using that busy[of j] by (force simp: free_frames_def)
      ultimately have "Min (free_frames s) = i" by (intro Min_eqI) auto
      then show ?thesis
        using \<open>i < unat (total_pages s)\<close> len True \<open>i \<in> free_frames s\<close>
        by (subst get_page_loop.simps)
          (auto simp: Let_def take_frame_def word_neq_0_conv[symmetric])
    next
      case False
      have *: "get_page_loop s i = get_page_loop s (Suc i)"
        using \<open>i < unat (total_pages s)\<close> len False by (subst get_page_loop.simps) simp
      have "get_page_loop s (Suc i) = (if free_frames s = {} then Inl Panic
          else let k = Min (free_frames s)
               in if free_pages s - 1 = 0 then Inl Assertion
                  else Inr (take_frame s k, PAGE (of_nat k)))"
      proof (rule "1.IH")
        show "i < unat (total_pages s)" by fact
        show "rd (memory_map s) i = Inr (memory_map s ! i)" using len by simp
        show "memory_map s ! j \<noteq> 0" if "unat (start_page s) \<le> j" "j < Suc i" for j
          using that busy False by (cases "j = i") auto
      qed (use wf start False in auto)
      then show ?thesis using * by simp
    qed
  qed
qed

lemma get_page_eq:
  assumes "pm_wf s"
  shows "get_page s =
    (if free_frames s = {} then Inl Panic
     else if free_pages s - 1 = 0 then Inl Assertion
     else Inr (take_frame s (Min (free_frames s)), PAGE (of_nat (Min (free_frames s)))))"
  unfolding get_page_def using assms by (subst get_page_loop_eq) (simp_all add: Let_def)

lemma get_page_Inr:
  assumes "pm_wf s" "get_page s = Inr (s', pa)"
  shows "free_frames s \<noteq> {}" "s' = take_frame s (Min (free_frames s))"
    "pa = PAGE (of_nat (Min (free_frames s)))" "free_pages s - 1 \<noteq> 0"
  using assms by (auto simp: get_page_eq split: if_splits)

lemma free_frame_facts:
  assumes "pm_wf s" "i \<in> free_frames s"
  shows "i < 2 ^ 20" "i < length (memory_map s)" "unat (start_page s) \<le> i"
    "i < unat (total_pages s)" "memory_map s ! i = 0" "unat (of_nat i :: u32) = i"
    "unat (IDX (PAGE (of_nat i))) = i"
proof -
  show b: "i < 2 ^ 20" and "i < length (memory_map s)" "unat (start_page s) \<le> i"
    "i < unat (total_pages s)" "memory_map s ! i = 0"
    using assms by (auto simp: pm_wf_def free_frames_def)
  show u: "unat (of_nat i :: u32) = i" using b by (simp add: unat_of_nat32)
  show "unat (IDX (PAGE (of_nat i))) = i" using b u by (simp add: IDX_PAGE)
qed

lemma free_frames_take:
  assumes "pm_wf s" "i \<in> free_frames s"
  shows "free_frames (take_frame s i) = free_frames s - {i}"
  using free_frame_facts[OF assms]
  by (auto simp: free_frames_def nth_list_update split: if_splits)

lemma pm_wf_take [simp]: "pm_wf (take_frame s i) = pm_wf s"
  by (simp add: pm_wf_def)

lemma slack_take:
  assumes "pm_wf s" "i \<in> free_frames s"
  shows "slack (take_frame s i) = slack s"
proof -
  have "card (free_frames s) = Suc (card (free_frames s - {i}))"
    by (rule card.remove[OF finite_free_frames assms(2)])
  then show ?thesis by (simp add: slack_def free_frames_take[OF assms])
qed

subsection \<open>Dropping a reference\<close>

definition drop_ref :: "kmem \<Rightarrow> nat \<Rightarrow> kmem" where
  "drop_ref s i =
     (let s' = s\<lparr>memory_map := (memory_map s)[i := memory_map s ! i - 1]\<rparr>
      in if memory_map s ! i = 1 then s'\<lparr>free_pages := free_pages s + 1\<rparr> else s')"

lemma drop_ref_simps [simp]:
  "phys (drop_ref s i) = phys s" "cr3 (drop_ref s i) = cr3 s"
  "start_page (drop_ref s i) = start_page s" "total_pages (drop_ref s i) = total_pages s"
  "memory_map (drop_ref s i) = (memory_map s)[i := memory_map s ! i - 1]"
  "kernel_bitmap (drop_ref s i) = kernel_bitmap s"
  by (simp_all add: drop_ref_def Let_def)

lemma pm_wf_drop [simp]: "pm_wf (drop_ref s i) = pm_wf s"
  by (simp add: pm_wf_def)

lemma word_diff_1: "(w :: u8) - 1 = 0 \<longleftrightarrow> w = 1"
  by auto

lemma put_page_Inr:
  assumes "put_page s pa = Inr s'"
  shows "s' = drop_ref s (unat (IDX pa))" "page_aligned pa"
    "unat (start_page s) \<le> unat (IDX pa)" "unat (IDX pa) < unat (total_pages s)"
    "memory_map s ! unat (IDX pa) \<noteq> 0"
    "0 < free_pages s'" "free_pages s' < total_pages s"
  using assms
  by (auto simp: put_page_def Let_def drop_ref_def word_le_nat_alt word_less_nat_alt
      word_diff_1 unat_eq_0 split: if_splits)

lemma put_page_eq:
  assumes "pm_wf s" "page_aligned pa" "unat (start_page s) \<le> unat (IDX pa)"
    "unat (IDX pa) < unat (total_pages s)" "memory_map s ! unat (IDX pa) \<noteq> 0"
    "0 < free_pages (drop_ref s (unat (IDX pa)))" "free_pages (drop_ref s (unat (IDX pa))) < total_pages s"
  shows "put_page s pa = Inr (drop_ref s (unat (IDX pa)))"
proof -
  let ?i = "unat (IDX pa)"
  have 1: "(1 \<le> memory_map s ! ?i) = True"
    using assms(5) by (simp add: word_le_nat_alt unat_gt_0 Suc_leI)
  have 2: "(IDX pa \<ge> start_page s \<and> IDX pa < total_pages s) = True"
    using assms(3,4) by (simp add: word_le_nat_alt word_less_nat_alt)
  have 3: "rd (memory_map s) ?i = Inr (memory_map s ! ?i)"
    using assms(1,4) by (simp add: pm_wf_def)
  have 4: "(if memory_map s ! ?i - 1 = 0
      then s\<lparr>memory_map := (memory_map s)[?i := memory_map s ! ?i - 1],
             free_pages := free_pages (s\<lparr>memory_map := (memory_map s)[?i := memory_map s ! ?i - 1]\<rparr>) + 1\<rparr>
      else s\<lparr>memory_map := (memory_map s)[?i := memory_map s ! ?i - 1]\<rparr>) = drop_ref s ?i"
    by (simp add: drop_ref_def word_diff_1)
  have 5: "(free_pages (drop_ref s ?i) > 0 \<and> free_pages (drop_ref s ?i) < total_pages (drop_ref s ?i)) = True"
    using assms(6,7) by simp
  show ?thesis
    unfolding put_page_def Let_def by (simp only: assms(2) 1 2 3 4 5 assrt_simps bnd_simps)
qed

lemma free_frames_drop:
  assumes "pm_wf s" "unat (start_page s) \<le> i" "i < unat (total_pages s)" "memory_map s ! i \<noteq> 0"
  shows "free_frames (drop_ref s i)
    = (if memory_map s ! i = 1 then insert i (free_frames s) else free_frames s)"
  using assms by (auto simp: free_frames_def pm_wf_def nth_list_update split: if_splits)

lemma slack_drop:
  assumes "pm_wf s" "unat (start_page s) \<le> i" "i < unat (total_pages s)" "memory_map s ! i \<noteq> 0"
  shows "slack (drop_ref s i) = slack s"
proof -
  have "i \<notin> free_frames s" using assms(4) by (simp add: free_frames_def)
  moreover have "free_pages (drop_ref s i) = (if memory_map s ! i = 1 then free_pages s + 1 else free_pages s)"
    by (simp add: drop_ref_def Let_def)
  ultimately show ?thesis by (simp add: slack_def free_frames_drop[OF assms])
qed

text \<open>Taking a frame and dropping it again restores the map and the counter.\<close>

lemma drop_take:
  assumes "pm_wf s" "i \<in> free_frames s"
  shows "drop_ref (take_frame s i) i = s"
  using free_frame_facts[OF assms]
  by (simp add: drop_ref_def take_frame_def Let_def list_update_same_conv)

subsection \<open>Properties\<close>

text \<open>A run of page allocations and releases.\<close>

inductive page_step :: "kmem \<Rightarrow> kmem \<Rightarrow> bool" where
  take: "get_page s = Inr (s', pa) \<Longrightarrow> page_step s s'"
| drop: "put_page s pa = Inr s' \<Longrightarrow> page_step s s'"

inductive page_run :: "kmem \<Rightarrow> kmem \<Rightarrow> bool" where
  none: "page_run s s"
| more: "page_step s s' \<Longrightarrow> page_run s' s'' \<Longrightarrow> page_run s s''"

lemma page_step_keeps:
  assumes "page_step s s'" "pm_wf s"
  shows "pm_wf s' \<and> slack s' = slack s"
  using assms(1)
proof (cases rule: page_step.cases)
  case (take pa)
  note G = get_page_Inr[OF assms(2) take]
  then show ?thesis using assms(2) slack_take[OF assms(2) Min_in[OF finite_free_frames G(1)]] by simp
next
  case (drop pa)
  then show ?thesis
    using put_page_Inr[OF drop] slack_drop[OF assms(2)] assms(2) by simp
qed

definition few_pages :: kmem where
  "few_pages = \<lparr>phys = (\<lambda>_ _. 0), cr3 = 0, memory_base = MEMORY_BASE, memory_size = 0x3000,
     total_pages = 6, free_pages = 3, start_page = 2, memory_map = [1, 1, 1, 0, 0, 0],
     memory_map_pages = 1, kernel_bitmap = bitmap_make [] 0 256\<rparr>"

lemma few_pages_facts: "pm_wf few_pages" "free_frames few_pages = {3, 4, 5}"
proof -
  show "pm_wf few_pages" by (simp add: pm_wf_def few_pages_def)
  have "i \<in> free_frames few_pages \<longleftrightarrow> i \<in> {3, 4, 5}" for i
  proof -
    consider "i < 2" | "i = 2" | "i = 3" | "i = 4" | "i = 5" | "6 \<le> i" by linarith
    then show ?thesis by cases (auto simp: free_frames_def few_pages_def)
  qed
  then show "free_frames few_pages = {3, 4, 5}" by blast
qed

text \<open>
  C20: \<^verbatim>\<open>get_page\<close> returns the page-aligned address of the lowest frame with no reference,
  gives it one, and changes the reference of no other frame; \<^verbatim>\<open>put_page\<close> of that address
  then restores the old state.
\<close>

theorem get_page_lowest_free:
  assumes "pm_wf s" "get_page s = Inr (s', pa)" "0 < free_pages s" "free_pages s < total_pages s"
  shows "page_aligned pa \<and> unat (IDX pa) \<in> free_frames s
    \<and> (\<forall>j \<in> free_frames s. unat (IDX pa) \<le> j)
    \<and> (\<forall>j. refs s' j = (if j = unat (IDX pa) then 1 else refs s j))
    \<and> put_page s' pa = Inr s"
proof -
  note G = get_page_Inr[OF assms(1,2)]
  define k where "k = Min (free_frames s)"
  have k: "k \<in> free_frames s" using G(1) by (simp add: k_def)
  note K = free_frame_facts[OF assms(1) k]
  have i: "unat (IDX pa) = k" using G(3) K(7) by (simp add: k_def)
  have s': "s' = take_frame s k" using G(2) by (simp add: k_def)
  have al: "page_aligned pa" using G(3) K(1,6) by (simp add: k_def[symmetric] page_aligned_PAGE)
  have d: "drop_ref s' k = s" unfolding s' by (rule drop_take[OF assms(1) k])
  have "put_page s' pa = Inr (drop_ref s' (unat (IDX pa)))"
    using s' K al assms(1,3,4) d i by (intro put_page_eq) simp_all
  then show ?thesis
    using al i k d K(2) Min_le[OF finite_free_frames, of _ s]
    by (auto simp: k_def refs_def s' nth_list_update)
qed

lemma get_page_lowest_free_witness:
  "\<exists>s'. get_page few_pages = Inr (s', 0x3000) \<and> refs s' 3 = 1 \<and> put_page s' 0x3000 = Inr few_pages"
proof -
  have g: "get_page few_pages = Inr (take_frame few_pages 3, PAGE (of_nat 3))"
    using get_page_eq[OF few_pages_facts(1)] by (simp add: few_pages_facts(2)) (simp add: few_pages_def)
  have p: "PAGE (of_nat 3) = 0x3000" by (simp add: PAGE_def push_bit_eq_mult)
  have i: "unat (IDX (0x3000 :: u32)) = 3" by (simp add: unat_IDX)
  show ?thesis
    using get_page_lowest_free[OF few_pages_facts(1) g] g p i by (auto simp: few_pages_def)
qed

text \<open>
  C21: over any run of allocations and releases the difference between \<^verbatim>\<open>free_pages\<close> and
  the number of free frames stays the same: the counter is as exact as it was at the start.
\<close>

theorem page_run_keeps_slack:
  assumes "page_run s s'" "pm_wf s"
  shows "pm_wf s' \<and> slack s' = slack s"
  using assms
proof (induction rule: page_run.induct)
  case (more s s' s'')
  then show ?case using page_step_keeps[OF more.hyps(1) more.prems] by simp
qed simp

lemma page_run_keeps_slack_witness:
  "\<exists>s'. page_run few_pages s' \<and> slack s' = 0"
proof -
  have "get_page few_pages = Inr (take_frame few_pages 3, PAGE (of_nat 3))"
    using get_page_eq[OF few_pages_facts(1)] by (simp add: few_pages_facts(2)) (simp add: few_pages_def)
  then have r: "page_run few_pages (take_frame few_pages 3)"
    by (rule page_run.more[OF page_step.take page_run.none])
  have "slack few_pages = 0" by (simp add: slack_def few_pages_facts(2)) (simp add: few_pages_def)
  then show ?thesis using r page_run_keeps_slack[OF r few_pages_facts(1)] by auto
qed

end
