(* ===== verification/Vmem.thy ===== *)
theory Vmem
  imports Physmem
begin

text \<open>
  Virtual memory in \<^verbatim>\<open>kernel/memory.c\<close>: kernel pages from \<^verbatim>\<open>kernel_bitmap\<close>,
  \<^verbatim>\<open>link_page\<close> and \<^verbatim>\<open>unlink_page\<close>, the copy of an address space, its release,
  \<^verbatim>\<open>mmap\<close>, \<^verbatim>\<open>munmap\<close>, \<^verbatim>\<open>brk\<close> and the page fault handler.  Every access of the
  code to a page table goes through its virtual address, so a wrong address faults in
  the model as it does on the machine.  A store to an entry is one step.

  \<open>vtask\<close> holds the fields of the running \<^verbatim>\<open>task_t\<close> this file uses.
\<close>

record vtask =
  t_pde :: u32
  t_uid :: u32
  t_end :: u32
  t_brk :: u32
  t_vmap :: bitmap

definition USER_EXEC_ADDR :: u32 where "USER_EXEC_ADDR = KERNEL_MEMORY_SIZE"
definition USER_MMAP_ADDR :: u32 where "USER_MMAP_ADDR = 0x8000000"
definition USER_STACK_TOP :: u32 where "USER_STACK_TOP = 0x10000000"
definition USER_STACK_SIZE :: u32 where "USER_STACK_SIZE = 0x200000"
definition USER_STACK_BOTTOM :: u32 where "USER_STACK_BOTTOM = USER_STACK_TOP - USER_STACK_SIZE"
definition KERNEL_USER :: u32 where "KERNEL_USER = 0"
definition get_pde :: u32 where "get_pde = 0xfffff000"

definition vmod :: "kmem \<Rightarrow> u32 \<Rightarrow> (page_entry \<Rightarrow> page_entry) \<Rightarrow> kmem res" where
  "vmod s va f = bnd (vread s va) (\<lambda>e. vwrite s va (f e))"

definition get_pte :: "kmem \<Rightarrow> u32 \<Rightarrow> bool \<Rightarrow> (kmem \<times> u32) res" where
  "get_pte s vaddr create =
     (let idx = DIDX vaddr; entry = elem get_pde (unat idx)
      in bnd (vread s entry) (\<lambda>e.
         bnd (assrt (create \<or> present e)) (\<lambda>_.
         let table = PDE_MASK OR push_bit 12 idx
         in if \<not> present e
            then bnd (get_page s) (\<lambda>(s, page).
                 bnd (vwrite s entry (entry_init (IDX page))) (\<lambda>s.
                 bnd (page_zero s table) (\<lambda>s. Inr (s, table))))
            else Inr (s, table))))"

definition get_entry :: "kmem \<Rightarrow> u32 \<Rightarrow> bool \<Rightarrow> (kmem \<times> u32) res" where
  "get_entry s vaddr create =
     bnd (get_pte s vaddr create) (\<lambda>(s, pte). Inr (s, elem pte (unat (TIDX vaddr))))"

subsection \<open>Pages of a bitmap\<close>

definition scan_page :: "bitmap \<Rightarrow> u32 \<Rightarrow> (bitmap \<times> u32) res" where
  "scan_page m count =
     bnd (assrt (count > 0)) (\<lambda>_.
     bnd (bitmap_scan m count) (\<lambda>(m, index).
     if index = EOF then Inl Panic else Inr (m, PAGE index)))"

fun reset_loop :: "bitmap \<Rightarrow> u32 \<Rightarrow> nat \<Rightarrow> nat \<Rightarrow> bitmap res" where
  "reset_loop m index i 0 = Inr m"
| "reset_loop m index i (Suc n) =
     bnd (bitmap_test m (index + of_nat i)) (\<lambda>set.
     bnd (assrt set) (\<lambda>_.
     bnd (bitmap_set m (index + of_nat i) False) (\<lambda>m. reset_loop m index (Suc i) n)))"

definition reset_page :: "bitmap \<Rightarrow> u32 \<Rightarrow> u32 \<Rightarrow> bitmap res" where
  "reset_page m address count =
     bnd (assrt (page_aligned address)) (\<lambda>_.
     bnd (assrt (count > 0)) (\<lambda>_. reset_loop m (IDX address) 0 (unat count)))"

definition alloc_kpage :: "kmem \<Rightarrow> u32 \<Rightarrow> (kmem \<times> u32) res" where
  "alloc_kpage s count =
     bnd (assrt (count > 0)) (\<lambda>_.
     bnd (scan_page (kernel_bitmap s) count) (\<lambda>(m, vaddr).
     Inr (s\<lparr>kernel_bitmap := m\<rparr>, vaddr)))"

definition free_kpage :: "kmem \<Rightarrow> u32 \<Rightarrow> u32 \<Rightarrow> kmem res" where
  "free_kpage s vaddr count =
     bnd (assrt (page_aligned vaddr)) (\<lambda>_.
     bnd (assrt (count > 0)) (\<lambda>_.
     bnd (reset_page (kernel_bitmap s) vaddr count) (\<lambda>m. Inr (s\<lparr>kernel_bitmap := m\<rparr>))))"

subsection \<open>Mapping a page\<close>

definition link_page :: "kmem \<Rightarrow> u32 \<Rightarrow> kmem res" where
  "link_page s vaddr =
     bnd (assrt (page_aligned vaddr)) (\<lambda>_.
     bnd (get_entry s vaddr True) (\<lambda>(s, entry).
     bnd (vread s entry) (\<lambda>e.
     if present e then Inr s
     else bnd (get_page s) (\<lambda>(s, paddr). vwrite s entry (entry_init (IDX paddr))))))"

definition unlink_page :: "kmem \<Rightarrow> u32 \<Rightarrow> kmem res" where
  "unlink_page s vaddr =
     bnd (assrt (page_aligned vaddr)) (\<lambda>_.
     bnd (vread s (elem get_pde (unat (DIDX vaddr)))) (\<lambda>d.
     if \<not> present d then Inr s
     else bnd (get_entry s vaddr False) (\<lambda>(s, entry).
          bnd (vread s entry) (\<lambda>e.
          if \<not> present e then Inr s
          else bnd (vwrite s entry (set_flag 0 False e)) (\<lambda>s.
               put_page s (PAGE (of_nat (frame e))))))))"

definition copy_page :: "kmem \<Rightarrow> u32 \<Rightarrow> (kmem \<times> u32) res" where
  "copy_page s page =
     bnd (get_page s) (\<lambda>(s, paddr).
     let vaddr = 0
     in bnd (get_pte s vaddr False) (\<lambda>(s, entry).
        bnd (vwrite s entry (entry_init (IDX paddr))) (\<lambda>s.
        bnd (page_copy s vaddr page) (\<lambda>s.
        bnd (vmod s entry (set_flag 0 False)) (\<lambda>s. Inr (s, paddr))))))"

subsection \<open>Address spaces\<close>

fun share_loop :: "kmem \<Rightarrow> u32 \<Rightarrow> nat \<Rightarrow> nat \<Rightarrow> kmem res" where
  "share_loop s pte tidx 0 = Inr s"
| "share_loop s pte tidx (Suc n) =
     bnd (vread s (elem pte tidx)) (\<lambda>e.
     if \<not> present e then share_loop s pte (Suc tidx) n
     else bnd (rd (memory_map s) (frame e)) (\<lambda>r.
          bnd (assrt (r > 0)) (\<lambda>_.
          bnd (if \<not> shared e then vwrite s (elem pte tidx) (set_flag 1 False e) else Inr s) (\<lambda>s.
          bnd (wr (memory_map s) (frame e) (r + 1)) (\<lambda>mp.
          bnd (assrt (r + 1 < 255)) (\<lambda>_.
          share_loop (s\<lparr>memory_map := mp\<rparr>) pte (Suc tidx) n))))))"

fun copy_tables :: "kmem \<Rightarrow> u32 \<Rightarrow> nat \<Rightarrow> nat \<Rightarrow> kmem res" where
  "copy_tables s pde didx 0 = Inr s"
| "copy_tables s pde didx (Suc n) =
     bnd (vread s (elem pde didx)) (\<lambda>d.
     if \<not> present d then copy_tables s pde (Suc didx) n
     else let pte = PDE_MASK OR push_bit 12 (of_nat didx)
          in bnd (share_loop s pte 0 1024) (\<lambda>s.
             bnd (copy_page s pte) (\<lambda>(s, paddr).
             bnd (vmod s (elem pde didx) (set_index (IDX paddr))) (\<lambda>s.
             copy_tables s pde (Suc didx) n))))"

definition copy_pde :: "kmem \<Rightarrow> vtask \<Rightarrow> (kmem \<times> u32) res" where
  "copy_pde s task =
     bnd (alloc_kpage s 1) (\<lambda>(s, pde).
     bnd (page_copy s pde (t_pde task)) (\<lambda>s.
     bnd (vwrite s (elem pde 1023) (entry_init (IDX pde))) (\<lambda>s.
     bnd (copy_tables s pde (length KERNEL_PAGE_TABLE) (1023 - length KERNEL_PAGE_TABLE)) (\<lambda>s.
     bnd (set_cr3 s (t_pde task)) (\<lambda>s. Inr (s, pde))))))"

fun release_loop :: "kmem \<Rightarrow> u32 \<Rightarrow> nat \<Rightarrow> nat \<Rightarrow> kmem res" where
  "release_loop s pte tidx 0 = Inr s"
| "release_loop s pte tidx (Suc n) =
     bnd (vread s (elem pte tidx)) (\<lambda>e.
     if \<not> present e then release_loop s pte (Suc tidx) n
     else bnd (rd (memory_map s) (frame e)) (\<lambda>r.
          bnd (assrt (r > 0)) (\<lambda>_.
          bnd (put_page s (PAGE (of_nat (frame e)))) (\<lambda>s. release_loop s pte (Suc tidx) n))))"

fun free_tables :: "kmem \<Rightarrow> nat \<Rightarrow> nat \<Rightarrow> kmem res" where
  "free_tables s didx 0 = Inr s"
| "free_tables s didx (Suc n) =
     bnd (vread s (elem get_pde didx)) (\<lambda>d.
     if \<not> present d then free_tables s (Suc didx) n
     else bnd (release_loop s (PDE_MASK OR push_bit 12 (of_nat didx)) 0 1024) (\<lambda>s.
          bnd (vread s (elem get_pde didx)) (\<lambda>d.
          bnd (put_page s (PAGE (of_nat (frame d)))) (\<lambda>s. free_tables s (Suc didx) n))))"

definition free_pde :: "kmem \<Rightarrow> vtask \<Rightarrow> kmem res" where
  "free_pde s task =
     bnd (assrt (t_uid task \<noteq> KERNEL_USER)) (\<lambda>_.
     bnd (free_tables s (length KERNEL_PAGE_TABLE) (1023 - length KERNEL_PAGE_TABLE)) (\<lambda>s.
     free_kpage s (t_pde task) 1))"

subsection \<open>Mapped memory\<close>

text \<open>
  \<^verbatim>\<open>sys_mmap\<close> reads a file into the new pages with two system calls of the kernel's
  own; they are the arguments \<open>lseek\<close> and \<open>read\<close> (the file layer).  \<open>fd\<close> is
  compared with \<^verbatim>\<open>EOF\<close>.
\<close>

definition PROT_WRITE :: u32 where "PROT_WRITE = 2"
definition MAP_SHARED :: u32 where "MAP_SHARED = 1"
definition MAP_PRIVATE :: u32 where "MAP_PRIVATE = 2"

definition mmap_entry :: "u32 \<Rightarrow> u32 \<Rightarrow> page_entry \<Rightarrow> page_entry" where
  "mmap_entry prot flags e =
     (let e = set_flag 2 True e; e = set_flag 1 False e; e = set_flag 11 True e;
          e = (if prot AND PROT_WRITE \<noteq> 0 then set_flag 1 True (set_flag 11 False e) else e);
          e = (if flags AND MAP_SHARED \<noteq> 0 then set_flag 9 True e else e)
      in if flags AND MAP_PRIVATE \<noteq> 0 then set_flag 10 True e else e)"

fun mmap_loop_pages :: "kmem \<Rightarrow> vtask \<Rightarrow> u32 \<Rightarrow> u32 \<Rightarrow> u32 \<Rightarrow> nat \<Rightarrow> nat \<Rightarrow> (kmem \<times> vtask) res" where
  "mmap_loop_pages s task vaddr prot flags i 0 = Inr (s, task)"
| "mmap_loop_pages s task vaddr prot flags i (Suc n) =
     (let page = vaddr + PAGE_SIZE * of_nat i
      in bnd (link_page s page) (\<lambda>s.
         bnd (bitmap_set (t_vmap task) (IDX page) True) (\<lambda>m.
         bnd (get_entry s page False) (\<lambda>(s, entry).
         bnd (vmod s entry (mmap_entry prot flags)) (\<lambda>s.
         mmap_loop_pages s (task\<lparr>t_vmap := m\<rparr>) vaddr prot flags (Suc i) n)))))"

definition sys_mmap ::
  "(u32 \<Rightarrow> u32 \<Rightarrow> kmem \<Rightarrow> kmem res) \<Rightarrow> (u32 \<Rightarrow> u32 \<Rightarrow> u32 \<Rightarrow> kmem \<Rightarrow> kmem res) \<Rightarrow>
   kmem \<Rightarrow> vtask \<Rightarrow> u32 \<Rightarrow> u32 \<Rightarrow> u32 \<Rightarrow> u32 \<Rightarrow> u32 \<Rightarrow> u32 \<Rightarrow> (kmem \<times> vtask \<times> u32) res" where
  "sys_mmap lseek read s task address len prot flags fd off =
     bnd (assrt (page_aligned address)) (\<lambda>_.
     let count = div_round_up len PAGE_SIZE
     in bnd (if address = 0
             then bnd (scan_page (t_vmap task) count) (\<lambda>(m, v). Inr (task\<lparr>t_vmap := m\<rparr>, v))
             else Inr (task, address)) (\<lambda>(task, vaddr).
        bnd (assrt (USER_MMAP_ADDR \<le> vaddr \<and> vaddr < USER_STACK_BOTTOM)) (\<lambda>_.
        bnd (mmap_loop_pages s task vaddr prot flags 0 (unat count)) (\<lambda>(s, task).
        bnd (if fd \<noteq> EOF then bnd (lseek fd off s) (read fd vaddr len) else Inr s) (\<lambda>s.
        Inr (s, task, vaddr))))))"

fun munmap_loop :: "kmem \<Rightarrow> vtask \<Rightarrow> u32 \<Rightarrow> nat \<Rightarrow> nat \<Rightarrow> (kmem \<times> vtask) res" where
  "munmap_loop s task vaddr i 0 = Inr (s, task)"
| "munmap_loop s task vaddr i (Suc n) =
     (let page = vaddr + PAGE_SIZE * of_nat i
      in bnd (unlink_page s page) (\<lambda>s.
         bnd (bitmap_test (t_vmap task) (IDX page)) (\<lambda>set.
         bnd (assrt set) (\<lambda>_.
         bnd (bitmap_set (t_vmap task) (IDX page) False) (\<lambda>m.
         munmap_loop s (task\<lparr>t_vmap := m\<rparr>) vaddr (Suc i) n)))))"

definition sys_munmap :: "kmem \<Rightarrow> vtask \<Rightarrow> u32 \<Rightarrow> u32 \<Rightarrow> (kmem \<times> vtask \<times> u32) res" where
  "sys_munmap s task vaddr len =
     bnd (assrt (USER_MMAP_ADDR \<le> vaddr \<and> vaddr < USER_STACK_BOTTOM)) (\<lambda>_.
     bnd (assrt (page_aligned vaddr)) (\<lambda>_.
     bnd (munmap_loop s task vaddr 0 (unat (div_round_up len PAGE_SIZE))) (\<lambda>(s, task).
     Inr (s, task, 0))))"

subsection \<open>Faults and the heap\<close>

text \<open>
  The end of a fault: the instruction is tried again in the state given, or the task has
  exited with status -1 (\<^verbatim>\<open>task_exit\<close> does not come back).
\<close>

datatype fault_end = Retry kmem | Killed

definition page_fault :: "kmem \<Rightarrow> vtask \<Rightarrow> u32 \<Rightarrow> u32 \<Rightarrow> u32 \<Rightarrow> fault_end res" where
  "page_fault s task vector error vaddr =
     bnd (assrt (vector = 0xe)) (\<lambda>_.
     if vaddr < USER_EXEC_ADDR \<or> vaddr \<ge> USER_STACK_TOP
     then bnd (assrt (t_uid task \<noteq> 0)) (\<lambda>_. Inr Killed)
     else if bit error 0
     then bnd (assrt (bit error 1)) (\<lambda>_.
          bnd (get_entry s vaddr False) (\<lambda>(s, entry).
          bnd (vread s entry) (\<lambda>e.
          bnd (assrt (present e)) (\<lambda>_.
          bnd (assrt (\<not> shared e)) (\<lambda>_.
          bnd (assrt (\<not> readonly e)) (\<lambda>_.
          bnd (rd (memory_map s) (frame e)) (\<lambda>r.
          bnd (assrt (r > 0)) (\<lambda>_.
          if r = 1
          then bnd (vwrite s entry (set_flag 1 True e)) (\<lambda>s. Inr (Retry s))
          else bnd (copy_page s (PAGE (IDX vaddr))) (\<lambda>(s, paddr).
               bnd (vread s entry) (\<lambda>e.
               bnd (rd (memory_map s) (frame e)) (\<lambda>r.
               bnd (wr (memory_map s) (frame e) (r - 1)) (\<lambda>mp.
               bnd (vwrite (s\<lparr>memory_map := mp\<rparr>) entry (entry_init (IDX paddr))) (\<lambda>s.
               Inr (Retry s))))))))))))))
     else if vaddr < t_brk task \<or> vaddr \<ge> USER_STACK_BOTTOM
     then bnd (link_page s (PAGE (IDX vaddr))) (\<lambda>s. Inr (Retry s))
     else Inl Panic)"

partial_function (option) shrink_loop :: "kmem \<Rightarrow> u32 \<Rightarrow> u32 \<Rightarrow> kmem res option" where
  "shrink_loop s page old =
     (if page < old
      then (case unlink_page s page of
              Inl e \<Rightarrow> Some (Inl e)
            | Inr s \<Rightarrow> shrink_loop s (page + PAGE_SIZE) old)
      else Some (Inr s))"

definition sys_brk :: "kmem \<Rightarrow> vtask \<Rightarrow> u32 \<Rightarrow> (kmem \<times> vtask \<times> u32) res" where
  "sys_brk s task brk =
     bnd (assrt (page_aligned brk)) (\<lambda>_.
     bnd (assrt (t_uid task \<noteq> KERNEL_USER)) (\<lambda>_.
     bnd (assrt (t_end task \<le> brk \<and> brk \<le> USER_MMAP_ADDR)) (\<lambda>_.
     let old = t_brk task
     in if old > brk
        then bnd (run (shrink_loop s brk old)) (\<lambda>s. Inr (s, task\<lparr>t_brk := brk\<rparr>, 0))
        else if IDX (brk - old) > free_pages s then Inr (s, task, -1)
        else Inr (s, task\<lparr>t_brk := brk\<rparr>, 0))))"

end
