(* ===== verification/Vmem_Laws.thy ===== *)
theory Vmem_Laws
  imports Vmem
begin

text \<open>
  What the virtual memory operations do to the translation.  \<open>self_mapped\<close> is the
  recursive last entry of the directory; under it the virtual addresses the code computes
  reach the directory and the tables.  \<open>vm_wf\<close> adds that no two directory entries share
  a table frame and that no table frame counts as free.
\<close>

definition pde_at :: "kmem \<Rightarrow> nat \<Rightarrow> page_entry" where
  "pde_at s d = phys s (dir s) d"

definition self_mapped :: "kmem \<Rightarrow> bool" where
  "self_mapped s = (present (pde_at s 1023) \<and> frame (pde_at s 1023) = dir s)"

definition table_frames :: "kmem \<Rightarrow> nat set" where
  "table_frames s = {frame (pde_at s d) | d. d < 1024 \<and> present (pde_at s d)}"

definition tables_apart :: "kmem \<Rightarrow> bool" where
  "tables_apart s = (\<forall>d < 1024. \<forall>d' < 1024. d \<noteq> d' \<longrightarrow> present (pde_at s d) \<longrightarrow>
     present (pde_at s d') \<longrightarrow> frame (pde_at s d) \<noteq> frame (pde_at s d'))"

definition vm_wf :: "kmem \<Rightarrow> bool" where
  "vm_wf s = (self_mapped s \<and> tables_apart s \<and> pm_wf s \<and> table_frames s \<inter> free_frames s = {})"

text \<open>The entry of a virtual address, by directory and table number.\<close>

definition lookup :: "kmem \<Rightarrow> nat \<Rightarrow> nat \<Rightarrow> page_entry" where
  "lookup s d t = (if present (pde_at s d) then phys s (frame (pde_at s d)) t else 0)"

lemma translate_lookup:
  "translate s va = (let e = lookup s (unat (DIDX va)) (unat (TIDX va))
     in if present e then Some (frame e) else None)"
  by (simp add: translate_def lookup_def pde_at_def Let_def)

subsection \<open>The recursive mapping\<close>

lemma bit_PDE_MASK: "bit PDE_MASK n \<longleftrightarrow> 22 \<le> n \<and> n < 32"
proof -
  have "PDE_MASK = push_bit 22 (mask 10)"
    by (simp add: PDE_MASK_def mask_eq_exp_minus_1 push_bit_eq_mult)
  then have "bit PDE_MASK n \<longleftrightarrow> bit (push_bit 22 (mask 10) :: u32) n" by simp
  also have "\<dots> \<longleftrightarrow> 22 \<le> n \<and> n < 32"
    by (simp only: bit_push_bit_iff bit_mask_iff) auto
  finally show ?thesis .
qed

lemma table_addr:
  assumes "unat i < 1024"
  shows "unat (PDE_MASK OR push_bit 12 i) = 4290772992 + 4096 * unat i"
proof -
  have "take_bit 10 i = i"
    by (rule word_unat_eqI) (use assms in \<open>simp add: take_bit_eq_mod unat_mod\<close>)
  then have no: "\<not> bit i n" if "10 \<le> n" for n
    using that by (metis bit_take_bit_iff not_less)
  have "PDE_MASK AND push_bit 12 i = 0"
    by (rule bit_word_eqI) (use no in \<open>auto simp: bit_simps bit_PDE_MASK\<close>)
  then have "PDE_MASK OR push_bit 12 i = PDE_MASK + push_bit 12 i"
    using word_plus_and_or[of PDE_MASK "push_bit 12 i"] by simp
  moreover have "unat (push_bit 12 i) = 4096 * unat i"
    using assms by (simp add: push_bit_eq_mult unat_word_ariths)
  ultimately show ?thesis
    using assms by (simp add: unat_word_ariths PDE_MASK_def)
qed

lemma table_parts:
  assumes "unat i < 1024"
  shows "page_aligned (PDE_MASK OR push_bit 12 i)"
    "unat (DIDX (PDE_MASK OR push_bit 12 i)) = 1023"
    "unat (TIDX (PDE_MASK OR push_bit 12 i)) = unat i"
proof -
  have "(1047552 + unat i) mod 1024 = (unat i + 1024 * 1023) mod 1024"
    by (simp add: add.commute)
  also have "\<dots> = unat i" using assms by (simp only: mod_mult_self2) simp
  finally show "unat (TIDX (PDE_MASK OR push_bit 12 i)) = unat i"
    using assms by (simp add: unat_TIDX table_addr)
qed (use assms in \<open>simp_all add: page_aligned_iff unat_DIDX table_addr\<close>)

lemma get_pde_parts:
  "page_aligned get_pde" "unat (DIDX get_pde) = 1023" "unat (TIDX get_pde) = 1023"
  by (simp_all add: page_aligned_iff unat_DIDX unat_TIDX get_pde_def)

lemma translate_get_pde:
  assumes "self_mapped s"
  shows "translate s get_pde = Some (dir s)"
  using assms by (simp add: translate_lookup get_pde_parts lookup_def self_mapped_def pde_at_def)

lemma translate_table:
  assumes "self_mapped s" "unat i < 1024"
  shows "translate s (PDE_MASK OR push_bit 12 i)
    = (if present (pde_at s (unat i)) then Some (frame (pde_at s (unat i))) else None)"
  using assms by (simp add: translate_lookup table_parts lookup_def self_mapped_def pde_at_def)

lemma vread_elem:
  assumes "page_aligned b" "i < 1024" "translate s b = Some f"
  shows "vread s (elem b i) = Inr (phys s f i)" "vwrite s (elem b i) v = Inr (phys_write s f i v)"
  using assms by (simp_all add: vread_def vwrite_def translate_elem elem_parts)

lemma vread_pde:
  assumes "self_mapped s" "i < 1024"
  shows "vread s (elem get_pde i) = Inr (pde_at s i)"
    "vwrite s (elem get_pde i) v = Inr (phys_write s (dir s) i v)"
  using vread_elem[OF get_pde_parts(1) assms(2) translate_get_pde[OF assms(1)]]
  by (simp_all add: pde_at_def)

lemma vread_table:
  assumes "self_mapped s" "unat i < 1024" "j < 1024" "present (pde_at s (unat i))"
  shows "vread s (elem (PDE_MASK OR push_bit 12 i) j) = Inr (phys s (frame (pde_at s (unat i))) j)"
    "vwrite s (elem (PDE_MASK OR push_bit 12 i) j) v
      = Inr (phys_write s (frame (pde_at s (unat i))) j v)"
  using vread_elem[OF table_parts(1)[OF assms(2)] assms(3), of s] translate_table[OF assms(1,2)]
    assms(4) by simp_all

subsection \<open>Writing one word\<close>

lemma phys_write_simps [simp]:
  "phys (phys_write s f i v) f' i' = (if f' = f \<and> i' = i then v else phys s f' i')"
  "cr3 (phys_write s f i v) = cr3 s" "dir (phys_write s f i v) = dir s"
  "start_page (phys_write s f i v) = start_page s"
  "total_pages (phys_write s f i v) = total_pages s"
  "free_pages (phys_write s f i v) = free_pages s"
  "memory_map (phys_write s f i v) = memory_map s"
  "kernel_bitmap (phys_write s f i v) = kernel_bitmap s"
  "pm_wf (phys_write s f i v) = pm_wf s" "free_frames (phys_write s f i v) = free_frames s"
  by (auto simp: phys_write_def dir_def pm_wf_def free_frames_def)

lemma slack_write [simp]: "slack (phys_write s f i v) = slack s"
  by (simp add: slack_def)

lemma pde_at_write [simp]:
  "pde_at (phys_write s f i v) d = (if f = dir s \<and> d = i then v else pde_at s d)"
  by (simp add: pde_at_def)

lemma pde_at_take [simp]: "pde_at (take_frame s k) d = pde_at s d" "dir (take_frame s k) = dir s"
  by (simp_all add: pde_at_def dir_def)

lemma pde_at_drop [simp]: "pde_at (drop_ref s k) d = pde_at s d" "dir (drop_ref s k) = dir s"
  by (simp_all add: pde_at_def dir_def)

lemma lookup_take [simp]: "lookup (take_frame s k) d t = lookup s d t"
  "lookup (drop_ref s k) d t = lookup s d t"
  by (simp_all add: lookup_def)

lemma self_mapped_cong:
  "pde_at s' 1023 = pde_at s 1023 \<Longrightarrow> dir s' = dir s \<Longrightarrow> self_mapped s' = self_mapped s"
  by (simp add: self_mapped_def)

lemma table_not_dir:
  assumes "vm_wf s" "d < 1023" "present (pde_at s d)"
  shows "frame (pde_at s d) \<noteq> dir s"
proof -
  have d: "present (pde_at s 1023)" "frame (pde_at s 1023) = dir s" and "tables_apart s"
    using assms(1) by (auto simp: vm_wf_def self_mapped_def)
  have "frame (pde_at s d) \<noteq> frame (pde_at s 1023)"
    by (rule \<open>tables_apart s\<close>[unfolded tables_apart_def, rule_format])
      (use assms(2,3) d(1) in auto)
  then show ?thesis using d(2) by simp
qed

text \<open>A write into a table changes one entry and nothing else of the translation.\<close>

lemma lookup_write_table:
  assumes "vm_wf s" "d < 1023" "present (pde_at s d)" "d' < 1024"
  shows "lookup (phys_write s (frame (pde_at s d)) t v) d' t' =
    (if d' = d \<and> t' = t then v else lookup s d' t')"
proof -
  note nd = table_not_dir[OF assms(1-3)]
  have "frame (pde_at s d') \<noteq> frame (pde_at s d)" if "d' \<noteq> d" "present (pde_at s d')"
    using that assms by (auto simp: vm_wf_def tables_apart_def)
  then show ?thesis using nd assms(3) by (auto simp: lookup_def)
qed

lemma vm_wf_write_table:
  assumes "vm_wf s" "d < 1023" "present (pde_at s d)"
  shows "vm_wf (phys_write s (frame (pde_at s d)) t v)"
proof -
  note nd = table_not_dir[OF assms]
  have "pde_at (phys_write s (frame (pde_at s d)) t v) d' = pde_at s d'" for d'
    using nd by simp
  then show ?thesis
    using assms(1) nd
    by (auto simp: vm_wf_def tables_apart_def table_frames_def self_mapped_def)
qed

lemma vm_wf_take:
  assumes "vm_wf s" "k \<in> free_frames s"
  shows "vm_wf (take_frame s k)"
  using assms free_frames_take[of s k]
  by (auto simp: vm_wf_def tables_apart_def table_frames_def self_mapped_def)


subsection \<open>Clearing and copying a page\<close>

definition set_range :: "kmem \<Rightarrow> nat \<Rightarrow> nat \<Rightarrow> nat \<Rightarrow> (nat \<Rightarrow> u32) \<Rightarrow> kmem" where
  "set_range s f i n g = s\<lparr>phys := (phys s)(f := (\<lambda>j. if i \<le> j \<and> j < i + n then g j else phys s f j))\<rparr>"

lemma set_range_simps [simp]:
  "phys (set_range s f i n g) f' j = (if f' = f \<and> i \<le> j \<and> j < i + n then g j else phys s f' j)"
  "cr3 (set_range s f i n g) = cr3 s" "dir (set_range s f i n g) = dir s"
  "start_page (set_range s f i n g) = start_page s"
  "total_pages (set_range s f i n g) = total_pages s"
  "free_pages (set_range s f i n g) = free_pages s"
  "memory_map (set_range s f i n g) = memory_map s"
  "pm_wf (set_range s f i n g) = pm_wf s" "free_frames (set_range s f i n g) = free_frames s"
  by (auto simp: set_range_def dir_def pm_wf_def free_frames_def)

lemma set_range_0 [simp]: "set_range s f i 0 g = s"
proof -
  have "(\<lambda>j. if i \<le> j \<and> j < i then g j else phys s f j) = phys s f"
    by (rule ext) auto
  then show ?thesis by (simp add: set_range_def)
qed

lemma set_range_Suc:
  "set_range (phys_write s f i (g i)) f (Suc i) n g = set_range s f i (Suc n) g"
  by (auto simp: set_range_def phys_write_def fun_eq_iff intro!: kmem.equality)

lemma pde_at_set_range: "f \<noteq> dir s \<Longrightarrow> pde_at (set_range s f i n g) d = pde_at s d"
  by (simp add: pde_at_def)

lemma translate_write_other:
  assumes "f \<noteq> dir s" "present (pde_at s (unat (DIDX va))) \<Longrightarrow> f \<noteq> frame (pde_at s (unat (DIDX va)))"
  shows "translate (phys_write s f i v) va = translate s va"
  using assms by (cases "present (pde_at s (unat (DIDX va)))") (simp_all add: translate_lookup lookup_def Let_def)

lemma vzero_range:
  assumes "page_aligned b" "i + n \<le> 1024" "translate s b = Some f" "f \<noteq> dir s"
    "f \<noteq> frame (pde_at s (unat (DIDX b)))"
  shows "vzero s b i n = Inr (set_range s f i n (\<lambda>_. 0))"
  using assms
proof (induction n arbitrary: s i)
  case (Suc n)
  have "vwrite s (elem b i) 0 = Inr (phys_write s f i 0)"
    using Suc.prems by (intro vread_elem(2)) auto
  moreover have "vzero (phys_write s f i 0) b (Suc i) n
      = Inr (set_range (phys_write s f i 0) f (Suc i) n (\<lambda>_. 0))"
    using Suc.prems by (intro Suc.IH) (auto simp: translate_write_other)
  ultimately show ?case using set_range_Suc[of s f i "\<lambda>_. 0" n] by simp
qed simp

lemma vcopy_range:
  assumes "page_aligned b" "page_aligned c" "i + n \<le> 1024"
    "translate s b = Some f" "translate s c = Some h" "f \<noteq> h" "f \<noteq> dir s"
    "f \<noteq> frame (pde_at s (unat (DIDX b)))" "f \<noteq> frame (pde_at s (unat (DIDX c)))"
  shows "vcopy s b c i n = Inr (set_range s f i n (phys s h))"
  using assms
proof (induction n arbitrary: s i)
  case (Suc n)
  let ?s = "phys_write s f i (phys s h i)"
  have "vread s (elem c i) = Inr (phys s h i)" using Suc.prems by (intro vread_elem(1)) auto
  moreover have "vwrite s (elem b i) (phys s h i) = Inr ?s"
    using Suc.prems by (intro vread_elem(2)) auto
  moreover have "vcopy ?s b c (Suc i) n = Inr (set_range ?s f (Suc i) n (phys ?s h))"
    using Suc.prems by (intro Suc.IH) (auto simp: translate_write_other)
  moreover have "phys ?s h = phys s h" using Suc.prems(6) by auto
  ultimately show ?case using set_range_Suc[of s f i "phys s h" n] by simp
qed simp

subsection \<open>Reaching the entry of an address\<close>

definition table_va :: "u32 \<Rightarrow> u32" where
  "table_va va = PDE_MASK OR push_bit 12 (DIDX va)"

lemma get_entry_old:
  assumes "self_mapped s" "present (pde_at s (unat (DIDX va)))"
  shows "get_entry s va c = Inr (s, elem (table_va va) (unat (TIDX va)))"
  using assms DIDX_less[of va]
  by (simp add: get_entry_def get_pte_def Let_def vread_pde table_va_def)

lemma get_entry_absent:
  assumes "self_mapped s" "\<not> present (pde_at s (unat (DIDX va)))"
  shows "get_entry s va False = Inl Assertion"
  using assms DIDX_less[of va] by (simp add: get_entry_def get_pte_def Let_def vread_pde)

definition new_table :: "kmem \<Rightarrow> nat \<Rightarrow> nat \<Rightarrow> kmem" where
  "new_table s d k = set_range (phys_write (take_frame s k) (dir s) d (entry_init (of_nat k)))
     k 0 1024 (\<lambda>_. 0)"

lemma free_not_table:
  assumes "vm_wf s" "k \<in> free_frames s"
  shows "k \<noteq> dir s" "d < 1024 \<Longrightarrow> present (pde_at s d) \<Longrightarrow> frame (pde_at s d) \<noteq> k"
proof -
  show *: "d < 1024 \<Longrightarrow> present (pde_at s d) \<Longrightarrow> frame (pde_at s d) \<noteq> k" for d
    using assms by (auto simp: vm_wf_def table_frames_def)
  show "k \<noteq> dir s" using *[of 1023] assms(1) by (auto simp: vm_wf_def self_mapped_def)
qed

lemma pde_at_new_table:
  assumes "vm_wf s" "k \<in> free_frames s"
  shows "pde_at (new_table s d k) d' = (if d' = d then entry_init (of_nat k) else pde_at s d')"
  using free_not_table(1)[OF assms] by (simp add: new_table_def pde_at_set_range)

lemma get_entry_new:
  assumes wf: "vm_wf s" and d: "d = unat (DIDX va)" "d < 1023" and np: "\<not> present (pde_at s d)"
    and g: "get_page s = Inr (s1, pa)"
  defines "k \<equiv> Min (free_frames s)"
  shows "get_entry s va True = Inr (new_table s d k, elem (table_va va) (unat (TIDX va)))"
proof -
  have pm: "pm_wf s" and sm: "self_mapped s" using wf by (auto simp: vm_wf_def)
  note G = get_page_Inr[OF pm g]
  have k: "k \<in> free_frames s" using G(1) by (simp add: k_def)
  note K = free_frame_facts[OF pm k] and N = free_not_table[OF wf k]
  let ?s2 = "phys_write (take_frame s k) (dir s) d (entry_init (of_nat k))"
  have s1: "s1 = take_frame s k" "IDX pa = of_nat k"
    using G(2,3) K(6,7) by (auto simp: k_def intro: word_unat_eqI)
  have sm1: "self_mapped (take_frame s k)" using sm by (simp add: self_mapped_def)
  have sm2: "self_mapped ?s2" using sm d(2) by (simp add: self_mapped_def)
  have r: "vread s (elem get_pde d) = Inr (pde_at s d)" using sm d(2) by (simp add: vread_pde)
  have w: "vwrite s1 (elem get_pde d) (entry_init (IDX pa)) = Inr ?s2"
    using vread_pde(2)[OF sm1, of d] d(2) s1 by simp
  have d': "unat (DIDX va) < 1024" using d by simp
  have t: "translate ?s2 (table_va va) = Some k"
    using sm2 d' d K(1,6) by (simp add: table_va_def translate_table frame_entry_init)
  have z: "page_zero ?s2 (table_va va) = Inr (new_table s d k)"
    unfolding page_zero_def new_table_def
  proof (rule vzero_range)
    show "page_aligned (table_va va)" using table_parts(1)[OF d'] by (simp add: table_va_def)
    show "k \<noteq> frame (pde_at ?s2 (unat (DIDX (table_va va))))"
      using N(1) sm2 table_parts(2)[OF d'] by (simp add: table_va_def self_mapped_def)
  qed (use t N(1) in auto)
  show ?thesis
    using r w z np g by (simp add: get_entry_def get_pte_def Let_def d(1)[symmetric] table_va_def)
qed

lemma vm_wf_new_table:
  assumes wf: "vm_wf s" and k: "k \<in> free_frames s" and d: "d < 1023" "\<not> present (pde_at s d)"
  shows "vm_wf (new_table s d k)" "d' < 1023 \<Longrightarrow> t' < 1024 \<Longrightarrow> lookup (new_table s d k) d' t' = lookup s d' t'"
    "free_frames (new_table s d k) = free_frames s - {k}" "present (pde_at (new_table s d k) d)"
    "slack (new_table s d k) = slack s"
proof -
  have pm: "pm_wf s" and sm: "self_mapped s" and ta: "tables_apart s"
    and tf: "table_frames s \<inter> free_frames s = {}" using wf by (auto simp: vm_wf_def)
  note K = free_frame_facts[OF pm k] and N = free_not_table[OF wf k]
    and P = pde_at_new_table[OF wf k, of d]
  have fe: "frame (entry_init (of_nat k)) = k" using K(1,6) by (simp add: frame_entry_init)
  show ff: "free_frames (new_table s d k) = free_frames s - {k}"
    by (simp add: new_table_def free_frames_take[OF pm k])
  show "present (pde_at (new_table s d k) d)" by (simp add: P)
  have dr: "dir (new_table s d k) = dir s" by (simp add: new_table_def)
  have "self_mapped (new_table s d k)" using sm d(1) by (simp add: self_mapped_def P dr)
  moreover have "tables_apart (new_table s d k)"
    unfolding tables_apart_def
  proof (intro allI impI)
    fix a b :: nat assume ab: "a < 1024" "b < 1024" "a \<noteq> b" "present (pde_at (new_table s d k) a)"
      "present (pde_at (new_table s d k) b)"
    show "frame (pde_at (new_table s d k) a) \<noteq> frame (pde_at (new_table s d k) b)"
    proof (cases "a = d \<or> b = d")
      case True
      then show ?thesis using ab N(2)[of a] N(2)[of b] by (auto simp: P fe split: if_splits)
    next
      case False
      then show ?thesis using ab ta by (auto simp: P tables_apart_def)
    qed
  qed
  moreover have "table_frames (new_table s d k) \<subseteq> insert k (table_frames s)"
    by (auto simp: table_frames_def P fe split: if_splits)
  moreover have "pm_wf (new_table s d k)" using pm by (simp add: new_table_def)
  ultimately show "vm_wf (new_table s d k)" using tf by (auto simp: vm_wf_def ff)
  show "lookup (new_table s d k) d' t' = lookup s d' t'" if "d' < 1023" "t' < 1024"
  proof (cases "d' = d")
    case True
    have "phys (new_table s d k) k t' = 0" using that by (simp add: new_table_def)
    then show ?thesis using True d(2) by (simp add: lookup_def P fe)
  next
    case False
    then have "pde_at (new_table s d k) d' = pde_at s d'" by (simp add: P)
    moreover have "phys (new_table s d k) f t' = phys s f t'" if "f \<noteq> k" "f \<noteq> dir s" for f
      using that by (simp add: new_table_def)
    ultimately show ?thesis
      using that N(2)[of d'] table_not_dir[OF wf that(1)] by (simp add: lookup_def)
  qed
  have "slack (new_table s d k) = slack (take_frame s k)"
    by (simp add: slack_def new_table_def)
  then show "slack (new_table s d k) = slack s" by (simp add: slack_take[OF pm k])
qed


subsection \<open>The contract of \<open>get_entry\<close>\<close>

definition same_map :: "kmem \<Rightarrow> kmem \<Rightarrow> bool" where
  "same_map s s' = (\<forall>d < 1023. \<forall>t < 1024. lookup s' d t = lookup s d t)"

lemma get_entry_create:
  assumes wf: "vm_wf s" and d: "d = unat (DIDX va)" "d < 1023"
    and g: "get_entry s va True = Inr (s', ea)"
  shows "vm_wf s'" "ea = elem (table_va va) (unat (TIDX va))" "present (pde_at s' d)"
    "same_map s s'" "free_frames s' \<subseteq> free_frames s" "slack s' = slack s"
proof -
  have sm: "self_mapped s" and pm: "pm_wf s" using wf by (auto simp: vm_wf_def)
  have "vm_wf s' \<and> ea = elem (table_va va) (unat (TIDX va)) \<and> present (pde_at s' d) \<and> same_map s s'
      \<and> free_frames s' \<subseteq> free_frames s \<and> slack s' = slack s"
  proof (cases "present (pde_at s d)")
    case True
    then show ?thesis using g d wf get_entry_old[OF sm, of va True] by (auto simp: same_map_def)
  next
    case False
    have "is_ok (get_page s)"
    proof (rule ccontr)
      assume "\<not> is_ok (get_page s)"
      then obtain e where "get_page s = Inl e" by (cases "get_page s") auto
      moreover have "vread s (elem get_pde d) = Inr (pde_at s d)" using sm d by (simp add: vread_pde)
      ultimately show False
        using g False by (simp add: get_entry_def get_pte_def Let_def d(1)[symmetric])
    qed
    then obtain s1 pa where gp: "get_page s = Inr (s1, pa)" by (cases "get_page s") auto
    have "Min (free_frames s) \<in> free_frames s" using get_page_Inr(1)[OF pm gp] by simp
    note W = vm_wf_new_table[OF wf this d(2) False]
    show ?thesis
      using g get_entry_new[OF wf d False gp] W by (auto simp: same_map_def)
  qed
  then show "vm_wf s'" "ea = elem (table_va va) (unat (TIDX va))" "present (pde_at s' d)"
    "same_map s s'" "free_frames s' \<subseteq> free_frames s" "slack s' = slack s" by auto
qed

lemma entry_access:
  assumes "vm_wf s" "d = unat (DIDX va)" "d < 1023" "present (pde_at s d)"
  shows "vread s (elem (table_va va) (unat (TIDX va))) = Inr (lookup s d (unat (TIDX va)))"
    "vwrite s (elem (table_va va) (unat (TIDX va))) v
      = Inr (phys_write s (frame (pde_at s d)) (unat (TIDX va)) v)"
  using assms vread_table[of s "DIDX va" "unat (TIDX va)"] TIDX_less[of va]
  by (simp_all add: table_va_def lookup_def vm_wf_def)

text \<open>
  \<open>remap s s' d t e\<close>: the two states translate alike except that the entry of
  directory number \<open>d\<close> and table number \<open>t\<close> is now \<open>e\<close>.
\<close>

definition remap :: "kmem \<Rightarrow> kmem \<Rightarrow> nat \<Rightarrow> nat \<Rightarrow> page_entry \<Rightarrow> bool" where
  "remap s s' d t e = (\<forall>d' < 1023. \<forall>t' < 1024.
     lookup s' d' t' = (if d' = d \<and> t' = t then e else lookup s d' t'))"

lemma IDX_eqI:
  assumes "unat (DIDX va') = unat (DIDX va)" "unat (TIDX va') = unat (TIDX va)"
  shows "IDX va' = IDX va"
proof -
  have "unat va' div 4096 div 1024 = unat va div 4096 div 1024"
    "unat va' div 4096 mod 1024 = unat va div 4096 mod 1024"
    using assms by (simp_all add: unat_DIDX unat_TIDX div_mult2_eq[symmetric])
  then have "unat va' div 4096 = unat va div 4096" by (metis div_mult_mod_eq)
  then show ?thesis by (intro word_unat_eqI) (simp add: unat_IDX)
qed

lemma remap_translate:
  assumes "remap s s' (unat (DIDX va)) (unat (TIDX va)) e" "unat (DIDX va) < 1023"
  shows "translate s' va = (if present e then Some (frame e) else None)"
    "unat (DIDX va') < 1023 \<Longrightarrow> IDX va' \<noteq> IDX va \<Longrightarrow> translate s' va' = translate s va'"
proof -
  show "translate s' va = (if present e then Some (frame e) else None)"
    using assms TIDX_less[of va] by (simp add: remap_def translate_lookup)
  assume v: "unat (DIDX va') < 1023" "IDX va' \<noteq> IDX va"
  have "\<not> (unat (DIDX va') = unat (DIDX va) \<and> unat (TIDX va') = unat (TIDX va))"
    using v(2) IDX_eqI[of va' va] by blast
  then show "translate s' va' = translate s va'"
    using assms v(1) TIDX_less[of va'] by (auto simp: remap_def translate_lookup)
qed

lemma remap_write:
  assumes "vm_wf s'" "same_map s s'" "d < 1023" "present (pde_at s' d)"
  shows "remap s (phys_write s' (frame (pde_at s' d)) t e) d t e"
  using assms lookup_write_table[OF assms(1,3,4)] by (auto simp: remap_def same_map_def)

subsection \<open>\<open>link_page\<close> and \<open>unlink_page\<close>\<close>

lemma link_page_spec:
  assumes wf: "vm_wf s" and d: "d = unat (DIDX va)" "d < 1023"
    and l: "link_page s va = Inr s'"
  shows "page_aligned va" "vm_wf s'" "slack s' = slack s"
    "present (lookup s d (unat (TIDX va))) \<Longrightarrow> same_map s s'"
    "\<not> present (lookup s d (unat (TIDX va))) \<Longrightarrow>
       \<exists>k \<in> free_frames s. remap s s' d (unat (TIDX va)) (entry_init (of_nat k))
         \<and> memory_map s' ! k = 1"
proof -
  let ?t = "unat (TIDX va)"
  show "page_aligned va" using l by (simp add: link_page_def)
  obtain s1 ea where g: "get_entry s va True = Inr (s1, ea)"
    using l by (auto simp: link_page_def)
  note G = get_entry_create[OF wf d g]
  have lk: "lookup s1 d ?t = lookup s d ?t" using G(4) d(2) TIDX_less[of va] by (simp add: same_map_def)
  note A = entry_access[OF G(1) d G(3)]
  have "vm_wf s' \<and> slack s' = slack s \<and> (present (lookup s d ?t) \<longrightarrow> same_map s s') \<and>
    (\<not> present (lookup s d ?t) \<longrightarrow>
       (\<exists>k \<in> free_frames s. remap s s' d ?t (entry_init (of_nat k)) \<and> memory_map s' ! k = 1))"
  proof (cases "present (lookup s d ?t)")
    case True
    then have "s' = s1" using l g A(1) lk G(2) by (auto simp: link_page_def)
    then show ?thesis using G True by simp
  next
    case False
    obtain s2 pa where gp: "get_page s1 = Inr (s2, pa)"
      and w: "vwrite s2 ea (entry_init (IDX pa)) = Inr s'"
      using l g A(1) lk False G(2) by (auto simp: link_page_def)
    have pm1: "pm_wf s1" using G(1) by (simp add: vm_wf_def)
    note P = get_page_Inr[OF pm1 gp]
    define k where "k = Min (free_frames s1)"
    have k: "k \<in> free_frames s1" using P(1) by (simp add: k_def)
    note K = free_frame_facts[OF pm1 k]
    have pa: "IDX pa = of_nat k" using P(3) K(6,7) by (auto simp: k_def intro: word_unat_eqI)
    have s2: "s2 = take_frame s1 k" using P(2) by (simp add: k_def)
    have wf2: "vm_wf s2" using vm_wf_take[OF G(1) k] s2 by simp
    have p2: "present (pde_at s2 d)" using G(3) s2 by simp
    have s': "s' = phys_write s2 (frame (pde_at s2 d)) ?t (entry_init (of_nat k))"
      using w entry_access(2)[OF wf2 d p2] G(2) pa by simp
    have "same_map s s2" using G(4) s2 by (simp add: same_map_def)
    then have "remap s s' d ?t (entry_init (of_nat k))"
      unfolding s' by (rule remap_write[OF wf2 _ d(2) p2])
    moreover have "vm_wf s'" unfolding s' by (rule vm_wf_write_table[OF wf2 d(2) p2])
    moreover have "slack s' = slack s"
      using s' s2 slack_take[OF pm1 k] G(6) by simp
    moreover have "memory_map s' ! k = 1" using s' s2 K(2) by simp
    ultimately show ?thesis using False k G(5) by auto
  qed
  then show "vm_wf s'" "slack s' = slack s"
    "present (lookup s d ?t) \<Longrightarrow> same_map s s'"
    "\<not> present (lookup s d ?t) \<Longrightarrow>
       \<exists>k \<in> free_frames s. remap s s' d ?t (entry_init (of_nat k)) \<and> memory_map s' ! k = 1"
    by auto
qed

lemma vm_wf_drop:
  assumes "vm_wf s" "memory_map s ! i = 1 \<Longrightarrow> i \<notin> table_frames s"
    "unat (start_page s) \<le> i" "i < unat (total_pages s)" "memory_map s ! i \<noteq> 0"
  shows "vm_wf (drop_ref s i)"
proof -
  have pm: "pm_wf s" using assms(1) by (simp add: vm_wf_def)
  show ?thesis
    using assms(1,2) free_frames_drop[OF pm assms(3-5)]
    by (auto simp: vm_wf_def tables_apart_def table_frames_def self_mapped_def)
qed

lemma set_flag_frame_word: "of_nat (frame e) = (drop_bit 12 e :: u32)"
  by (simp add: frame_def)

lemma IDX_PAGE_frame: "IDX (PAGE (of_nat (frame e))) = of_nat (frame e)"
  "unat (IDX (PAGE (of_nat (frame e)))) = frame e"
proof -
  have u: "unat (of_nat (frame e) :: u32) = frame e"
    using frame_less[of e] by (simp add: unat_of_nat32)
  then show "IDX (PAGE (of_nat (frame e))) = of_nat (frame e)"
    using frame_less[of e] by (intro IDX_PAGE) simp
  then show "unat (IDX (PAGE (of_nat (frame e)))) = frame e" using u by simp
qed

text \<open>
  Unmapping clears the present bit and drops one reference.  The page must not be a page
  table itself when its last reference goes; user mappings never are.
\<close>

lemma unlink_page_spec:
  assumes wf: "vm_wf s" and d: "d = unat (DIDX va)" "d < 1023"
    and e: "e = lookup s d (unat (TIDX va))"
    and nt: "present e \<Longrightarrow> frame e \<notin> table_frames s"
    and u: "unlink_page s va = Inr s'"
  shows "vm_wf s'" "slack s' = slack s" "\<not> present e \<Longrightarrow> s' = s"
    "present e \<Longrightarrow> remap s s' d (unat (TIDX va)) (set_flag 0 False e)
       \<and> memory_map s' = (memory_map s)[frame e := memory_map s ! frame e - 1]"
proof -
  let ?t = "unat (TIDX va)"
  have sm: "self_mapped s" using wf by (simp add: vm_wf_def)
  have r: "vread s (elem get_pde d) = Inr (pde_at s d)" using sm d by (simp add: vread_pde)
  have "vm_wf s' \<and> slack s' = slack s \<and> (\<not> present e \<longrightarrow> s' = s) \<and>
    (present e \<longrightarrow> remap s s' d ?t (set_flag 0 False e)
       \<and> memory_map s' = (memory_map s)[frame e := memory_map s ! frame e - 1])"
  proof (cases "present e")
    case False
    have "s' = s"
    proof (cases "present (pde_at s d)")
      case True
      then show ?thesis
        using u r e False get_entry_old[OF sm, of va False] entry_access(1)[OF wf d True] d(1)
        by (simp add: unlink_page_def)
    next
      case False
      then show ?thesis using u r d(1) by (simp add: unlink_page_def)
    qed
    then show ?thesis using False wf by simp
  next
    case True
    have p: "present (pde_at s d)" using True e by (auto simp: lookup_def split: if_splits)
    let ?s1 = "phys_write s (frame (pde_at s d)) ?t (set_flag 0 False e)"
    have pp: "put_page ?s1 (PAGE (of_nat (frame e))) = Inr s'"
      using u r e True p get_entry_old[OF sm, of va False] entry_access[OF wf d p] d(1)
      by (simp add: unlink_page_def)
    note P = put_page_Inr[OF pp, unfolded IDX_PAGE_frame(2)]
    have s': "s' = drop_ref ?s1 (frame e)" using P(1) .
    have wf1: "vm_wf ?s1" by (rule vm_wf_write_table[OF wf d(2) p])
    have "table_frames ?s1 = table_frames s"
      using table_not_dir[OF wf d(2) p] by (simp add: table_frames_def)
    then have "vm_wf s'"
      unfolding s' using nt[OF True] P(3-5) by (intro vm_wf_drop[OF wf1]) auto
    moreover have "slack s' = slack s"
      unfolding s' using slack_drop[OF _ P(3-5)] wf1 by (simp add: vm_wf_def)
    moreover have "remap s ?s1 d ?t (set_flag 0 False e)"
      by (rule remap_write[OF wf _ d(2) p]) (simp add: same_map_def)
    ultimately show ?thesis using True by (simp add: s' remap_def)
  qed
  then show "vm_wf s'" "slack s' = slack s" "\<not> present e \<Longrightarrow> s' = s"
    "present e \<Longrightarrow> remap s s' d ?t (set_flag 0 False e)
       \<and> memory_map s' = (memory_map s)[frame e := memory_map s ! frame e - 1]" by auto
qed

text \<open>With two free frames \<open>link_page\<close> returns.\<close>

lemma link_page_ok:
  assumes wf: "vm_wf s" and al: "page_aligned va" and d: "d = unat (DIDX va)" "d < 1023"
    and f: "2 \<le> card (free_frames s)" "2 < free_pages s"
  shows "\<exists>s'. link_page s va = Inr s'"
proof -
  let ?t = "unat (TIDX va)"
  have sm: "self_mapped s" and pm: "pm_wf s" using wf by (auto simp: vm_wf_def)
  have ok: "\<exists>s' pa. get_page z = Inr (s', pa)" if "pm_wf z" "free_frames z \<noteq> {}" "free_pages z - 1 \<noteq> 0" for z
    using that by (auto simp: get_page_eq)
  have fin: "\<exists>s'. bnd (vread z (elem (table_va va) ?t)) (\<lambda>e. if present e then Inr z
      else bnd (get_page z) (\<lambda>(s, pa). vwrite s (elem (table_va va) ?t) (entry_init (IDX pa)))) = Inr s'"
    if z: "vm_wf z" "present (pde_at z d)" "free_frames z \<noteq> {}" "free_pages z - 1 \<noteq> 0" for z
  proof -
    have pz: "pm_wf z" using z(1) by (simp add: vm_wf_def)
    obtain z1 pa where g: "get_page z = Inr (z1, pa)" using ok[OF pz z(3,4)] by auto
    have z1: "z1 = take_frame z (Min (free_frames z))" using get_page_Inr[OF pz g] by simp
    have "vm_wf z1" unfolding z1 using z(1,3) by (intro vm_wf_take) simp_all
    then show ?thesis
      using g entry_access(1)[OF z(1) d z(2)] entry_access(2)[of z1 d va] d z(2) z1 by auto
  qed
  have nz: "free_pages s - 1 \<noteq> 0" "free_pages s - 1 - 1 \<noteq> 0" using f(2) by auto
  show ?thesis
  proof (cases "present (pde_at s d)")
    case True
    have "free_frames s \<noteq> {}" using f(1) by auto
    then show ?thesis
      using fin[OF wf True _ nz(1)] get_entry_old[OF sm, of va True] True d(1) al
      by (simp add: link_page_def)
  next
    case False
    let ?k = "Min (free_frames s)" let ?z = "new_table s d ?k"
    have ne: "free_frames s \<noteq> {}" using f(1) by auto
    then have k: "?k \<in> free_frames s" by simp
    obtain s1 pa where g: "get_page s = Inr (s1, pa)" using ok[OF pm ne nz(1)] by auto
    note W = vm_wf_new_table[OF wf k d(2) False]
    have "card (free_frames s - {?k}) \<noteq> 0" using f(1) k by simp
    then have "free_frames ?z \<noteq> {}" using W(3) by auto
    moreover have "free_pages ?z - 1 \<noteq> 0" using nz(2) by (simp add: new_table_def)
    ultimately show ?thesis
      using fin[OF W(1) W(4)] get_entry_new[OF wf d False g] al by (simp add: link_page_def)
  qed
qed

text \<open>A concrete address space: one user table with one page that two tasks share.\<close>

definition tiny :: kmem where
  "tiny = \<lparr>phys = (\<lambda>f i. if f = 1 \<and> i = 1023 then entry_init 1
       else if f = 1 \<and> i = 0 then entry_init 2
       else if f = 1 \<and> i = 8 then entry_init 300
       else if f = 300 \<and> i = 0 then set_flag 1 False (entry_init 301) else 0),
     cr3 = 0x1000, memory_base = MEMORY_BASE, memory_size = KERNEL_MEMORY_SIZE,
     total_pages = 320, free_pages = 18, start_page = 258,
     memory_map = replicate 301 1 @ [2] @ replicate 18 0, memory_map_pages = 2,
     kernel_bitmap = bitmap_make [] 0 256\<rparr>"

lemma tiny_dir: "dir tiny = 1"
  by (simp add: dir_def tiny_def unat_IDX)

lemma tiny_pde: "pde_at tiny d = (if d = 1023 then entry_init 1 else if d = 0 then entry_init 2
    else if d = 8 then entry_init 300 else 0)"
  by (simp add: pde_at_def tiny_dir) (simp add: tiny_def)

lemma tiny_frames [simp]: "frame (entry_init 1) = 1" "frame (entry_init 2) = 2"
  "frame (entry_init 300) = 300" "frame (entry_init 301) = 301"
  by (simp_all add: frame_entry_init)

lemma tiny_free: "free_frames tiny = {302..<320}"
  by (auto simp: free_frames_def tiny_def nth_append nth_Cons' split: if_splits)

lemma tiny_tables: "table_frames tiny = {1, 2, 300}"
proof -
  have "table_frames tiny = (\<lambda>d. frame (pde_at tiny d)) ` {1023, 0, 8}"
  proof
    show "table_frames tiny \<subseteq> (\<lambda>d. frame (pde_at tiny d)) ` {1023, 0, 8}"
      by (auto simp: table_frames_def tiny_pde split: if_splits)
    show "(\<lambda>d. frame (pde_at tiny d)) ` {1023, 0, 8} \<subseteq> table_frames tiny"
    proof
      fix f assume "f \<in> (\<lambda>d. frame (pde_at tiny d)) ` {1023, 0, 8}"
      then obtain d where "d \<in> {1023, 0, 8}" "f = frame (pde_at tiny d)" by blast
      moreover from this have "d < 1024" "present (pde_at tiny d)" by (auto simp: tiny_pde)
      ultimately show "f \<in> table_frames tiny" by (auto simp: table_frames_def)
    qed
  qed
  then show ?thesis by (simp add: tiny_pde)
qed

lemma tiny_wf: "vm_wf tiny"
proof -
  have "self_mapped tiny" by (simp add: self_mapped_def tiny_pde tiny_dir)
  moreover have "tables_apart tiny"
    unfolding tables_apart_def by (auto simp: tiny_pde split: if_splits)
  moreover have "pm_wf tiny" by (simp add: pm_wf_def tiny_def)
  ultimately show ?thesis by (simp add: vm_wf_def tiny_free tiny_tables)
qed

lemma tiny_lookup: "lookup tiny d t = (if d = 8 \<and> t = 0 then set_flag 1 False (entry_init 301)
    else if d = 1023 then pde_at tiny t else 0)" if "d < 1024" "t < 1024"
  using that by (auto simp: lookup_def tiny_pde) (simp_all add: tiny_def)

subsection \<open>Properties\<close>

text \<open>
  C7: under the recursive entry, the address \<^verbatim>\<open>get_pde\<close> computes for entry \<open>i\<close> reads
  word \<open>i\<close> of the page directory, and the address \<^verbatim>\<open>PDE_MASK | (idx << 12)\<close> of a present
  table reads the words of that table's frame.
\<close>

theorem recursive_mapping_reaches_tables:
  assumes "self_mapped s" "i < 1024" "unat idx < 1024"
  shows "vread s (elem get_pde i) = Inr (phys s (dir s) i)
    \<and> vread s (elem (PDE_MASK OR push_bit 12 idx) i) =
        (if present (phys s (dir s) (unat idx)) then Inr (phys s (frame (phys s (dir s) (unat idx))) i)
         else Inl Fault)"
proof
  show "vread s (elem get_pde i) = Inr (phys s (dir s) i)"
    using vread_pde(1)[OF assms(1,2)] by (simp add: pde_at_def)
  show "vread s (elem (PDE_MASK OR push_bit 12 idx) i) =
        (if present (phys s (dir s) (unat idx)) then Inr (phys s (frame (phys s (dir s) (unat idx))) i)
         else Inl Fault)"
    using vread_table(1)[OF assms(1,3,2)] translate_table[OF assms(1,3)]
      translate_elem[OF table_parts(1)[OF assms(3)] assms(2), of s]
    by (auto simp: pde_at_def vread_def)
qed

lemma recursive_mapping_reaches_tables_witness:
  "vread tiny (elem get_pde 8) = Inr (entry_init 300)
   \<and> vread tiny (elem (PDE_MASK OR push_bit 12 8) 0) = Inr (set_flag 1 False (entry_init 301))"
proof -
  have sm: "self_mapped tiny" using tiny_wf by (simp add: vm_wf_def)
  show ?thesis
    using recursive_mapping_reaches_tables[OF sm, of 8 0] recursive_mapping_reaches_tables[OF sm, of 0 8]
    by (simp add: tiny_dir) (simp add: tiny_def)
qed

text \<open>
  C4: in a well-formed address space with two frames left, \<^verbatim>\<open>link_page\<close> of an unmapped
  page returns; the page is then mapped to a frame that was free and now has one reference, no
  other page below the recursive window changes its translation, and the state stays well
  formed with the same counter slack.
\<close>

theorem link_page_maps:
  assumes "vm_wf s" "page_aligned va" "unat (DIDX va) < 1023" "translate s va = None"
    "2 \<le> card (free_frames s)" "2 < free_pages s"
  shows "\<exists>s'. link_page s va = Inr s' \<and> vm_wf s' \<and> slack s' = slack s
    \<and> (\<exists>k \<in> free_frames s. translate s' va = Some k \<and> memory_map s' ! k = 1)
    \<and> (\<forall>va'. unat (DIDX va') < 1023 \<longrightarrow> IDX va' \<noteq> IDX va \<longrightarrow> translate s' va' = translate s va')"
proof -
  obtain s' where l: "link_page s va = Inr s'"
    using link_page_ok[OF assms(1,2) refl assms(3,5,6)] by auto
  note L = link_page_spec[OF assms(1) refl assms(3) l]
  have np: "\<not> present (lookup s (unat (DIDX va)) (unat (TIDX va)))"
    using assms(4) by (auto simp: translate_lookup Let_def split: if_splits)
  obtain k where k: "k \<in> free_frames s" "memory_map s' ! k = 1"
    "remap s s' (unat (DIDX va)) (unat (TIDX va)) (entry_init (of_nat k))" using L(5)[OF np] by auto
  have "pm_wf s" using assms(1) by (simp add: vm_wf_def)
  note K = free_frame_facts[OF this k(1)]
  have "frame (entry_init (of_nat k)) = k" using K(1,6) by (simp add: frame_entry_init)
  then show ?thesis using l L(2,3) k remap_translate[OF k(3) assms(3)] by auto
qed

lemma link_page_maps_witness:
  "\<exists>s'. link_page tiny 0x2001000 = Inr s' \<and> (\<exists>k \<in> {302..<320}. translate s' 0x2001000 = Some k)"
proof -
  have t: "unat (DIDX 0x2001000) = 8" "unat (TIDX 0x2001000) = 1"
    by (simp_all add: unat_DIDX unat_TIDX)
  have "translate tiny 0x2001000 = None" by (simp add: translate_lookup t tiny_lookup)
  then show ?thesis
    using link_page_maps[OF tiny_wf, of "0x2001000"] t
    by (auto simp: tiny_free page_aligned_iff) (auto simp: tiny_def)
qed

text \<open>
  C5: \<^verbatim>\<open>unlink_page\<close> of a mapped page whose frame lies in the managed range and has a
  reference returns when the counter is in range; the page is unmapped afterwards, its frame
  has one reference less, every other page keeps its translation, and the counter slack is kept.
\<close>

theorem unlink_page_unmaps:
  assumes wf: "vm_wf s" and al: "page_aligned va" "unat (DIDX va) < 1023"
    and tr: "translate s va = Some f" "f \<notin> table_frames s"
    and rg: "unat (start_page s) \<le> f" "f < unat (total_pages s)" "memory_map s ! f \<noteq> 0"
    and fp: "0 < unat (free_pages s)" "unat (free_pages s) + 1 < unat (total_pages s)"
  shows "\<exists>s'. unlink_page s va = Inr s' \<and> vm_wf s' \<and> slack s' = slack s \<and> translate s' va = None
    \<and> memory_map s' = (memory_map s)[f := memory_map s ! f - 1]
    \<and> (\<forall>va'. unat (DIDX va') < 1023 \<longrightarrow> IDX va' \<noteq> IDX va \<longrightarrow> translate s' va' = translate s va')"
proof -
  let ?d = "unat (DIDX va)" and ?t = "unat (TIDX va)"
  define e where "e = lookup s ?d ?t"
  have e: "present e" "frame e = f" using tr(1) by (auto simp: translate_lookup e_def Let_def split: if_splits)
  have p: "present (pde_at s ?d)" using e(1) by (auto simp: e_def lookup_def split: if_splits)
  have sm: "self_mapped s" and pm: "pm_wf s" using wf by (auto simp: vm_wf_def)
  let ?s1 = "phys_write s (frame (pde_at s ?d)) ?t (set_flag 0 False e)"
  note A = entry_access[OF wf refl al(2) p] get_entry_old[OF sm p, of False]
  have fpd: "free_pages (drop_ref ?s1 f) = (if memory_map s ! f = 1 then free_pages s + 1 else free_pages s)"
    by (simp add: drop_ref_def Let_def)
  have u1: "unat (free_pages s + 1) = unat (free_pages s) + 1"
    using fp(2) unat_lt32[of "total_pages s"] by (subst unat_word_ariths) simp
  have i: "unat (IDX (PAGE (of_nat (frame e)))) = f" using IDX_PAGE_frame(2)[of e] e(2) by simp
  have "put_page ?s1 (PAGE (of_nat (frame e))) = Inr (drop_ref ?s1 (unat (IDX (PAGE (of_nat (frame e))))))"
  proof (rule put_page_eq)
    show "page_aligned (PAGE (of_nat (frame e)))"
      using frame_less[of e] by (intro page_aligned_PAGE) (simp add: unat_of_nat32)
    show "0 < free_pages (drop_ref ?s1 (unat (IDX (PAGE (of_nat (frame e))))))"
      unfolding i fpd using fp u1 by (auto simp: word_less_nat_alt)
    show "free_pages (drop_ref ?s1 (unat (IDX (PAGE (of_nat (frame e)))))) < total_pages ?s1"
      unfolding i fpd using fp u1 by (auto simp: word_less_nat_alt)
  qed (unfold i, use rg pm in simp_all)
  then have u: "unlink_page s va = Inr (drop_ref ?s1 f)"
    using A p al e sm vread_pde(1)[OF sm, of ?d]
    by (simp add: unlink_page_def i[unfolded e(2)] e_def[symmetric])
  note U = unlink_page_spec[OF wf refl al(2) e_def _ u]
  have nt: "frame e \<notin> table_frames s" using tr(2) e(2) by simp
  have R: "remap s (drop_ref ?s1 f) ?d ?t (set_flag 0 False e)" using U(4)[OF nt] e(1) by simp
  show ?thesis
    using u U(1,2)[OF nt] U(4)[OF nt] e remap_translate[OF R al(2)] by auto
qed

lemma unlink_page_unmaps_witness:
  "\<exists>s'. unlink_page tiny 0x2000000 = Inr s' \<and> translate s' 0x2000000 = None \<and> memory_map s' ! 301 = 1"
proof -
  have t: "unat (DIDX 0x2000000) = 8" "unat (TIDX 0x2000000) = 0"
    by (simp_all add: unat_DIDX unat_TIDX)
  have "translate tiny 0x2000000 = Some 301" by (simp add: translate_lookup t tiny_lookup)
  then obtain s' where "unlink_page tiny 0x2000000 = Inr s'" "translate s' 0x2000000 = None"
    "memory_map s' = (memory_map tiny)[301 := memory_map tiny ! 301 - 1]"
    using unlink_page_unmaps[OF tiny_wf, of "0x2000000" 301] t
    by (auto simp: tiny_tables page_aligned_iff) (auto simp: tiny_def nth_append)
  then show ?thesis by (simp add: tiny_def nth_append)
qed

end
