(* ===== verification/Cow.thy ===== *)
theory Cow
  imports Vmem_Laws
begin

text \<open>
  Copy on write: \<^verbatim>\<open>copy_page\<close> maps a new frame at page 0 for the time of the copy,
  and the page fault handler gives a writer of a shared frame its own copy.
\<close>

lemma zero_parts [simp]: "unat (DIDX 0) = 0" "unat (TIDX 0) = 0" "DIDX 0 = 0" "TIDX 0 = 0"
  by (simp_all add: unat_DIDX unat_TIDX DIDX_def TIDX_def)

lemma elem_0 [simp]: "elem b 0 = b"
  by (simp add: elem_def)

lemma page_aligned_0 [simp]: "page_aligned 0"
  by (simp add: page_aligned_def)

lemma vm_wf_set_range:
  assumes "vm_wf s" "k \<noteq> dir s"
  shows "vm_wf (set_range s k i n g)"
proof -
  have "pde_at (set_range s k i n g) d = pde_at s d" for d
    using assms(2) by (rule pde_at_set_range)
  then show ?thesis
    using assms(1) by (auto simp: vm_wf_def tables_apart_def table_frames_def self_mapped_def)
qed

lemma lookup_set_range:
  assumes "k \<noteq> dir s" "present (pde_at s d) \<Longrightarrow> k \<noteq> frame (pde_at s d)"
  shows "lookup (set_range s k i n g) d t = lookup s d t"
  using assms by (cases "present (pde_at s d)") (simp_all add: lookup_def pde_at_set_range)

lemma get_pte_old:
  assumes "self_mapped s" "present (pde_at s (unat (DIDX va)))"
  shows "get_pte s va c = Inr (s, table_va va)"
  using assms DIDX_less[of va] by (simp add: get_pte_def Let_def vread_pde table_va_def)

lemma copy_page_spec:
  assumes wf: "vm_wf s" and p0: "present (pde_at s 0)" and np: "\<not> present (lookup s 0 0)"
    and pg: "page_aligned page" and tr: "translate s page = Some h"
    and hf: "h \<notin> free_frames s" "h \<noteq> frame (pde_at s 0)" and g: "get_page s = Inr (s1, pa)"
  shows "\<exists>s'. \<exists>k \<in> free_frames s. copy_page s page = Inr (s', pa) \<and> pa = PAGE (of_nat k) \<and> vm_wf s' \<and> dir s' = dir s
    \<and> remap s s' 0 0 (set_flag 0 False (entry_init (of_nat k)))
    \<and> memory_map s' = (memory_map s)[k := 1] \<and> slack s' = slack s
    \<and> free_frames s' = free_frames s - {k}
    \<and> start_page s' = start_page s \<and> total_pages s' = total_pages s
    \<and> (\<forall>d. pde_at s' d = pde_at s d) \<and> (\<forall>j < 1024. phys s' k j = phys s h j)
    \<and> (\<forall>f. f \<noteq> k \<longrightarrow> f \<noteq> frame (pde_at s 0) \<longrightarrow> phys s' f = phys s f) \<and> cr3 s' = cr3 s
    \<and> kernel_bitmap s' = kernel_bitmap s"
proof -
  have pm: "pm_wf s" using wf by (simp add: vm_wf_def)
  note G = get_page_Inr[OF pm g]
  define k where "k = Min (free_frames s)"
  have k: "k \<in> free_frames s" using G(1) by (simp add: k_def)
  note K = free_frame_facts[OF pm k] and N = free_not_table[OF wf k]
  have s1: "s1 = take_frame s k" and pa: "pa = PAGE (of_nat k)" using G(2,3) by (simp_all add: k_def)
  have ip: "IDX pa = of_nat k" using pa K(6,7) by (auto intro: word_unat_eqI)
  have wf1: "vm_wf s1" using vm_wf_take[OF wf k] s1 by simp
  have sm1: "self_mapped s1" using wf1 by (simp add: vm_wf_def)
  let ?f0 = "frame (pde_at s 0)"
  have p1: "pde_at s1 d = pde_at s d" for d using s1 by simp
  define s2 where "s2 = phys_write s1 ?f0 0 (entry_init (of_nat k))"
  have f0: "?f0 \<noteq> dir s" using table_not_dir[OF wf _ p0] by simp
  have P2: "pde_at s2 d = pde_at s d" and D2: "dir s2 = dir s" for d
    using s1 f0 by (simp_all add: s2_def)
  have wf2: "vm_wf s2" using vm_wf_write_table[OF wf1, of 0] p0 p1 by (simp add: s2_def)
  have L2: "lookup s2 d t = (if d = 0 \<and> t = 0 then entry_init (of_nat k) else lookup s d t)"
    if "d < 1024" for d t
    using that lookup_write_table[OF wf1, of 0 d] p0 p1 s1 by (simp add: s2_def)
  have fk: "frame (entry_init (of_nat k)) = k" using K(1,6) by (simp add: frame_entry_init)
  have t0: "translate s2 0 = Some k" using L2[of 0 0] fk by (simp add: translate_lookup)
  have "\<not> (unat (DIDX page) = 0 \<and> unat (TIDX page) = 0)"
  proof
    assume "unat (DIDX page) = 0 \<and> unat (TIDX page) = 0"
    then have "translate s page = None" using np by (simp only: translate_lookup Let_def) simp
    with tr show False by simp
  qed
  then have "lookup s2 (unat (DIDX page)) (unat (TIDX page)) = lookup s (unat (DIDX page)) (unat (TIDX page))"
    using DIDX_less[of page] by (subst L2) (assumption, rule if_not_P)
  then have tp: "translate s2 page = Some h" using tr by (simp add: translate_lookup)
  have hk: "k \<noteq> h" using hf k by auto
  have ppg: "present (pde_at s (unat (DIDX page)))"
    using tr by (auto simp: translate_def pde_at_def Let_def split: if_splits)
  define s3 where "s3 = set_range s2 k 0 1024 (phys s2 h)"
  have cp: "page_copy s2 0 page = Inr s3"
    unfolding page_copy_def s3_def
    using pg t0 tp hk N(1) N(2)[OF _ p0] N(2)[OF DIDX_less ppg] D2 P2
    by (intro vcopy_range) auto
  have wf3: "vm_wf s3" unfolding s3_def using N(1) D2 by (intro vm_wf_set_range[OF wf2]) simp
  have P3: "pde_at s3 d = pde_at s d" and D3: "dir s3 = dir s" for d
    using N(1) D2 P2 by (simp_all add: s3_def pde_at_set_range)
  have L3: "lookup s3 d t = lookup s2 d t" if "d < 1024" for d t
    unfolding s3_def using that N D2 P2 by (intro lookup_set_range) auto
  have ea1: "vwrite s1 (table_va 0) (entry_init (IDX pa)) = Inr s2"
    using entry_access(2)[OF wf1, of 0 0] p1 p0 ip by (simp add: s2_def)
  have sm3: "present (pde_at s3 0)" using P3 p0 by simp
  have ea3: "vread s3 (table_va 0) = Inr (entry_init (of_nat k))"
    "vwrite s3 (table_va 0) v = Inr (phys_write s3 ?f0 0 v)" for v
    using entry_access[OF wf3, of 0 0] sm3 P3 L3[of 0 0] L2[of 0 0] by simp_all
  let ?e = "set_flag 0 False (entry_init (of_nat k))"
  define s' where "s' = phys_write s3 ?f0 0 ?e"
  note s' = this
  have c: "copy_page s page = Inr (s', pa)"
    using g get_pte_old[OF sm1, of 0 False] p1 p0 ea1 cp ea3
    by (simp add: copy_page_def vmod_def s')
  have wf': "vm_wf s'" using vm_wf_write_table[OF wf3, of 0] sm3 P3 s' by simp
  have "lookup s' d t = (if d = 0 \<and> t = 0 then ?e else lookup s d t)" if "d < 1024" for d t
    using that lookup_write_table[OF wf3, of 0 d] sm3 P3 s' L3 L2 by simp
  then have rm: "remap s s' 0 0 ?e" by (simp add: remap_def)
  have "phys s' k j = phys s h j" if "j < 1024" for j
  proof -
    have "?f0 \<noteq> k" using N(2)[OF _ p0] by simp
    then have "phys s' k j = phys s2 h j" using that s' by (simp add: s3_def)
    moreover have "phys s2 h j = phys s h j" using s1 hf(2) by (auto simp: s2_def)
    ultimately show ?thesis by simp
  qed
  moreover have "phys s' f = phys s f" if "f \<noteq> k" "f \<noteq> ?f0" for f
    using that s1 by (simp add: fun_eq_iff s' s3_def s2_def)
  moreover have "slack s' = slack s"
  proof -
    have "slack s' = slack s1" by (simp add: s' s3_def s2_def slack_def)
    then show ?thesis by (simp add: s1 slack_take[OF pm k])
  qed
  moreover have "memory_map s' = (memory_map s)[k := 1]" by (simp add: s' s3_def s2_def s1)
  moreover have "free_frames s' = free_frames s - {k}"
    using free_frames_take[OF pm k] by (simp add: s' s3_def s2_def s1)
  moreover have "dir s' = dir s" "pde_at s' d = pde_at s d" for d
    using D3 P3 f0 by (simp_all add: s')
  moreover have "start_page s' = start_page s" "total_pages s' = total_pages s" "cr3 s' = cr3 s"
    "kernel_bitmap s' = kernel_bitmap s"
    by (simp_all add: s' s3_def s2_def s1 set_range_def)
  ultimately show ?thesis using k pa wf' rm c by blast
qed


text \<open>The page of an address has the directory and table numbers of the address.\<close>

lemma page_parts:
  "page_aligned (PAGE (IDX va))" "DIDX (PAGE (IDX va)) = DIDX va" "TIDX (PAGE (IDX va)) = TIDX va"
proof -
  have l: "unat (IDX va) < 2 ^ 20" using unat_lt32[of va] by (simp add: unat_IDX)
  show "page_aligned (PAGE (IDX va))" using l by (rule page_aligned_PAGE)
  have u: "unat (PAGE (IDX va)) = 4096 * (unat va div 4096)" using unat_PAGE[OF l] by (simp add: unat_IDX)
  have "4096 * (unat va div 4096) div 4194304 = unat va div 4194304"
    using div_mult2_eq[of "4096 * (unat va div 4096)" 4096 1024] div_mult2_eq[of "unat va" 4096 1024]
    by simp
  then show "DIDX (PAGE (IDX va)) = DIDX va" by (intro word_unat_eqI) (simp add: unat_DIDX u)
  show "TIDX (PAGE (IDX va)) = TIDX va" by (intro word_unat_eqI) (simp add: unat_TIDX u)
qed

lemma translate_page: "translate s (PAGE (IDX va)) = translate s va"
  by (simp add: translate_lookup page_parts)

lemma drop_ref_shared:
  "memory_map s ! i \<noteq> 1 \<Longrightarrow>
   s\<lparr>memory_map := (memory_map s)[i := memory_map s ! i - 1]\<rparr> = drop_ref s i"
  by (simp add: drop_ref_def)

lemma user_didx:
  assumes "USER_EXEC_ADDR \<le> va" "va < USER_STACK_TOP"
  shows "4 \<le> unat (DIDX va)" "unat (DIDX va) < 64"
  using assms
  by (simp_all add: unat_DIDX USER_EXEC_ADDR_def USER_STACK_TOP_def KERNEL_MEMORY_SIZE_def
      word_le_nat_alt word_less_nat_alt less_eq_div_iff_mult_less_eq div_less_iff_less_mult)

lemma cow_spec:
  assumes wf: "vm_wf s" and p0: "present (pde_at s 0)" and np: "\<not> present (lookup s 0 0)"
    and d: "d = unat (DIDX va)" "0 < d" "d < 1023" and t: "t = unat (TIDX va)"
    and e: "e = lookup s d t" "present e"
    and nt: "frame e \<notin> table_frames s"
    and r: "memory_map s ! frame e \<noteq> 0" "memory_map s ! frame e \<noteq> 1"
    and rg: "unat (start_page s) \<le> frame e" "frame e < unat (total_pages s)"
    and c: "copy_page s (PAGE (IDX va)) = Inr (s1, pa)"
    and e1: "vread s1 (elem (table_va va) t) = Inr e1"
    and w: "vwrite (s1\<lparr>memory_map := (memory_map s1)[frame e1 := memory_map s1 ! frame e1 - 1]\<rparr>)
              (elem (table_va va) t) (entry_init (IDX pa)) = Inr s'"
  shows "\<exists>k \<in> free_frames s. vm_wf s' \<and> slack s' = slack s
    \<and> (\<forall>d' < 1023. \<forall>t' < 1024. (d', t') \<noteq> (0, 0) \<longrightarrow>
         lookup s' d' t' = (if d' = d \<and> t' = t then entry_init (of_nat k) else lookup s d' t'))
    \<and> \<not> present (lookup s' 0 0)
    \<and> memory_map s' = (memory_map s)[k := 1, frame e := memory_map s ! frame e - 1]
    \<and> (\<forall>j < 1024. phys s' k j = phys s (frame e) j)"
proof -
  have tr: "translate s (PAGE (IDX va)) = Some (frame e)"
    using e d t by (simp add: translate_lookup page_parts)
  have ef: "frame e \<notin> free_frames s" using r by (simp add: free_frames_def)
  have "frame (pde_at s 0) \<in> table_frames s" using p0 by (auto simp: table_frames_def)
  then have e0: "frame e \<noteq> frame (pde_at s 0)" using nt by auto
  obtain k where k: "k \<in> free_frames s" and C: "pa = PAGE (of_nat k)" "vm_wf s1" "dir s1 = dir s"
    "remap s s1 0 0 (set_flag 0 False (entry_init (of_nat k)))"
    "memory_map s1 = (memory_map s)[k := 1]" "slack s1 = slack s" "free_frames s1 = free_frames s - {k}"
    and st: "start_page s1 = start_page s" "total_pages s1 = total_pages s"
    and C': "\<And>d. pde_at s1 d = pde_at s d" "\<forall>j < 1024. phys s1 k j = phys s (frame e) j"
  proof -
    obtain s0 where g: "get_page s = Inr (s0, pa)" using c by (auto simp: copy_page_def)
    show thesis
      using copy_page_spec[OF wf p0 np page_parts(1) tr ef e0 g] c that by auto
  qed
  have pm: "pm_wf s" using wf by (simp add: vm_wf_def)
  note K = free_frame_facts[OF pm k] and N = free_not_table[OF wf k]
  have ip: "IDX pa = of_nat k" using C(1) K(6,7) by (auto intro: word_unat_eqI)
  have ke: "k \<noteq> frame e" using ef k by auto
  have m1: "memory_map s1 ! frame e = memory_map s ! frame e" using C(5) ke by simp
  let ?s2 = "drop_ref s1 (frame e)"
  have s2: "s1\<lparr>memory_map := (memory_map s1)[frame e := memory_map s1 ! frame e - 1]\<rparr> = ?s2"
    using r m1 drop_ref_shared[of s1 "frame e"] by simp
  have wf2: "vm_wf ?s2" using r m1 rg st by (intro vm_wf_drop[OF C(2)]) auto
  have p: "present (pde_at s d)" using e by (auto simp: lookup_def split: if_splits)
  then have p2: "present (pde_at ?s2 d)" using C'(1) by simp
  have "lookup s1 d t = e" using C(4) d e TIDX_less[of va] t by (simp add: remap_def)
  then have e1e: "e1 = e" using e1 entry_access(1)[OF C(2) d(1,3)] C'(1) p t by simp
  have s': "s' = phys_write ?s2 (frame (pde_at s d)) t (entry_init (of_nat k))"
    using w[unfolded e1e] entry_access(2)[OF wf2 d(1,3) p2] C'(1) t by (simp add: s2 ip)
  have "vm_wf s'" using vm_wf_write_table[OF wf2 d(3) p2] C'(1) s' by simp
  moreover have "slack s' = slack s"
    using slack_drop[of s1 "frame e"] C(2,6) r m1 rg st by (simp add: s' vm_wf_def)
  moreover have L: "lookup s' d' t' = (if d' = d \<and> t' = t then entry_init (of_nat k) else lookup s1 d' t')"
    if "d' < 1023" for d' t'
    using lookup_write_table[OF wf2 d(3) p2, of d'] that C'(1) by (simp add: s')
  moreover have "lookup s1 d' t' = lookup s d' t'"
    if "d' < 1023" "t' < 1024" "(d', t') \<noteq> (0, 0)" for d' t'
    using C(4) that by (auto simp: remap_def)
  moreover have "\<not> present (lookup s1 0 0)" using C(4) by (simp add: remap_def)
  moreover have "memory_map s' = (memory_map s)[k := 1, frame e := memory_map s ! frame e - 1]"
    using m1 C(5) by (simp add: s')
  moreover have "\<forall>j < 1024. phys s' k j = phys s (frame e) j"
    using C'(2) N(2)[OF _ p] d(3) by (simp add: s')
  ultimately show ?thesis using k d(2) by (intro bexI[of _ k]) auto
qed


text \<open>The branch of the handler a write to a shared, writable page takes.\<close>

lemma page_fault_write:
  assumes wf: "vm_wf s" and d: "d = unat (DIDX va)" and t: "t = unat (TIDX va)"
    and va: "USER_EXEC_ADDR \<le> va" "va < USER_STACK_TOP" and err: "bit error 0"
    and e: "e = lookup s d t" "present e"
    and f: "page_fault s task 0xe error va = Inr r"
  shows "bit error 1" "\<not> shared e" "\<not> readonly e" "memory_map s ! frame e \<noteq> 0"
    "frame e < length (memory_map s)"
    "memory_map s ! frame e = 1 \<Longrightarrow>
       r = Retry (phys_write s (frame (pde_at s d)) t (set_flag 1 True e))"
    "memory_map s ! frame e \<noteq> 1 \<Longrightarrow> \<exists>s1 pa e1 s'.
       copy_page s (PAGE (IDX va)) = Inr (s1, pa) \<and> vread s1 (elem (table_va va) t) = Inr e1 \<and>
       vwrite (s1\<lparr>memory_map := (memory_map s1)[frame e1 := memory_map s1 ! frame e1 - 1]\<rparr>)
         (elem (table_va va) t) (entry_init (IDX pa)) = Inr s' \<and> r = Retry s'"
proof -
  have sm: "self_mapped s" using wf by (simp add: vm_wf_def)
  note u = user_didx[OF va]
  have p: "present (pde_at s d)" using e by (auto simp: lookup_def split: if_splits)
  have range: "\<not> (va < USER_EXEC_ADDR \<or> USER_STACK_TOP \<le> va)" using va by auto
  have d1: "d < 1023" using u(2) d by simp
  note A = entry_access[OF wf d d1 p] get_entry_old[OF sm, of va False]
  show 1: "bit error 1" "\<not> shared e" "\<not> readonly e" "memory_map s ! frame e \<noteq> 0"
    "frame e < length (memory_map s)"
    using f range err A p d t e by (auto simp: page_fault_def)
  show "r = Retry (phys_write s (frame (pde_at s d)) t (set_flag 1 True e))"
    if "memory_map s ! frame e = 1"
    using that f range err A p d t e 1 by (auto simp: page_fault_def)
  show "\<exists>s1 pa e1 s'.
       copy_page s (PAGE (IDX va)) = Inr (s1, pa) \<and> vread s1 (elem (table_va va) t) = Inr e1 \<and>
       vwrite (s1\<lparr>memory_map := (memory_map s1)[frame e1 := memory_map s1 ! frame e1 - 1]\<rparr>)
         (elem (table_va va) t) (entry_init (IDX pa)) = Inr s' \<and> r = Retry s'"
    if "memory_map s ! frame e \<noteq> 1"
    using that f range err A p d t e 1 by (auto simp: page_fault_def)
qed

lemma get_page_ok:
  assumes "pm_wf s" "free_frames s \<noteq> {}" "1 < free_pages s"
  shows "\<exists>s' pa. get_page s = Inr (s', pa)"
  using assms by (auto simp: get_page_eq)

text \<open>With a frame left the handler returns on the copying branch.\<close>

lemma page_fault_cow_ok:
  assumes wf: "vm_wf s" and p0: "present (pde_at s 0)" and np: "\<not> present (lookup s 0 0)"
    and d: "d = unat (DIDX va)" and t: "t = unat (TIDX va)"
    and va: "USER_EXEC_ADDR \<le> va" "va < USER_STACK_TOP" and err: "bit error 0" "bit error 1"
    and e: "e = lookup s d t" "present e" "\<not> shared e" "\<not> readonly e"
    and nt: "frame e \<notin> table_frames s"
    and r: "memory_map s ! frame e \<noteq> 0" "memory_map s ! frame e \<noteq> 1"
    and rg: "unat (start_page s) \<le> frame e" "frame e < unat (total_pages s)"
    and ff: "free_frames s \<noteq> {}" "1 < free_pages s"
  shows "\<exists>s'. page_fault s task 0xe error va = Inr (Retry s')"
proof -
  have pm: "pm_wf s" and sm: "self_mapped s" using wf by (auto simp: vm_wf_def)
  note u = user_didx[OF va]
  have d1: "0 < d" "d < 1023" using u d by simp_all
  have p: "present (pde_at s d)" using e by (auto simp: lookup_def split: if_splits)
  have tr: "translate s (PAGE (IDX va)) = Some (frame e)"
    using e d t by (simp add: translate_lookup page_parts)
  have ef: "frame e \<notin> free_frames s" using r by (simp add: free_frames_def)
  have "frame (pde_at s 0) \<in> table_frames s" using p0 by (auto simp: table_frames_def)
  then have e0: "frame e \<noteq> frame (pde_at s 0)" using nt by auto
  obtain s0 pa where g: "get_page s = Inr (s0, pa)" using get_page_ok[OF pm ff] by auto
  obtain s1 k where c: "copy_page s (PAGE (IDX va)) = Inr (s1, pa)" and k: "k \<in> free_frames s"
    and wf1: "vm_wf s1" and rm: "remap s s1 0 0 (set_flag 0 False (entry_init (of_nat k)))"
    and mm: "memory_map s1 = (memory_map s)[k := 1]"
    and P1: "\<And>d. pde_at s1 d = pde_at s d"
    using copy_page_spec[OF wf p0 np page_parts(1) tr ef e0 g] by blast
  have e1: "lookup s1 d t = e" using rm d1 e TIDX_less[of va] t by (simp add: remap_def)
  have len: "frame e < length (memory_map s)" using rg(2) pm by (simp add: pm_wf_def)
  have ke: "k \<noteq> frame e" using k ef by auto
  have p1: "present (pde_at s1 d)" using p P1 by simp
  note A = entry_access[OF wf d d1(2) p] and A1 = entry_access[OF wf1 d d1(2) p1]
  let ?s2 = "s1\<lparr>memory_map := (memory_map s1)[frame e := memory_map s ! frame e - 1]\<rparr>"
  have "translate ?s2 a = translate s1 a" for a by (simp add: translate_def dir_def Let_def)
  then have w: "\<exists>s'. vwrite ?s2 (elem (table_va va) t) v = Inr s'" for v
    using A1(2)[of v] t by (auto simp: vwrite_def split: option.splits)
  have range: "\<not> (va < USER_EXEC_ADDR \<or> USER_STACK_TOP \<le> va)" using va by auto
  have ge: "get_entry s va False = Inr (s, elem (table_va va) t)"
    using get_entry_old[OF sm, of va False] p d t by simp
  have R: "vread s (elem (table_va va) t) = Inr e" "vread s1 (elem (table_va va) t) = Inr e"
    using A(1) A1(1) e e1 t by simp_all
  have r0: "memory_map s ! frame e > 0" using r(1) word_neq_0_conv by blast
  have m1: "rd (memory_map s1) (frame e) = Inr (memory_map s ! frame e)" using mm ke len by simp
  have m2: "wr (memory_map s1) (frame e) v = Inr ((memory_map s1)[frame e := v])" for v
    using mm len by simp
  have "page_fault s task 0xe error va = bnd (vwrite ?s2 (elem (table_va va) t) (entry_init (IDX pa))) (\<lambda>s. Inr (Retry s))"
    unfolding page_fault_def using range err ge R e(2-4) len r r0 c m1 m2 by simp
  then show ?thesis using w by auto
qed

subsection \<open>Properties\<close>

text \<open>
  C1: a write fault on a present user page that is neither shared nor read-only and whose frame
  has other owners returns to the instruction with the page mapped, writable, to a frame that
  was free and now holds a copy of the 1024 words; the old frame keeps its contents' other
  owners with one reference less, and no other mapped page below the recursive window moves.
\<close>

theorem page_fault_copies_on_write:
  assumes wf: "vm_wf s" and p0: "present (pde_at s 0)" and np: "translate s 0 = None"
    and va: "USER_EXEC_ADDR \<le> va" "va < USER_STACK_TOP" and err: "bit error 0" "bit error 1"
    and e: "e = lookup s (unat (DIDX va)) (unat (TIDX va))" "present e" "\<not> shared e" "\<not> readonly e"
    and nt: "frame e \<notin> table_frames s" and r: "1 < refs s (frame e)"
    and rg: "unat (start_page s) \<le> frame e" "frame e < unat (total_pages s)"
    and ff: "free_frames s \<noteq> {}" "1 < free_pages s"
  shows "\<exists>s' k. page_fault s task 0xe error va = Inr (Retry s') \<and> vm_wf s' \<and> slack s' = slack s
    \<and> k \<in> free_frames s \<and> translate s' va = Some k
    \<and> writable (lookup s' (unat (DIDX va)) (unat (TIDX va)))
    \<and> (\<forall>j < 1024. phys s' k j = phys s (frame e) j)
    \<and> refs s' k = 1 \<and> refs s' (frame e) = refs s (frame e) - 1
    \<and> (\<forall>va'. unat (DIDX va') < 1023 \<longrightarrow> IDX va' \<noteq> IDX va \<longrightarrow> IDX va' \<noteq> 0 \<longrightarrow> translate s' va' = translate s va')"
proof -
  let ?d = "unat (DIDX va)" and ?t = "unat (TIDX va)"
  have np': "\<not> present (lookup s 0 0)" using np by (auto simp: translate_lookup Let_def split: if_splits)
  have r': "memory_map s ! frame e \<noteq> 0" "memory_map s ! frame e \<noteq> 1" using r by (auto simp: refs_def)
  note u = user_didx[OF va]
  have d: "0 < ?d" "?d < 1023" using u by simp_all
  obtain s' where f: "page_fault s task 0xe error va = Inr (Retry s')"
    using page_fault_cow_ok[OF wf p0 np' refl refl va err e nt r' rg ff] by blast
  obtain s1 pa e1 s2 where c: "copy_page s (PAGE (IDX va)) = Inr (s1, pa)"
    and e1: "vread s1 (elem (table_va va) ?t) = Inr e1"
    and w: "vwrite (s1\<lparr>memory_map := (memory_map s1)[frame e1 := memory_map s1 ! frame e1 - 1]\<rparr>)
         (elem (table_va va) ?t) (entry_init (IDX pa)) = Inr s2" and s2: "Retry s' = Retry s2"
    using page_fault_write(7)[OF wf refl refl va err(1) e(1,2) f r'(2)] by blast
  obtain k where k: "k \<in> free_frames s" "vm_wf s'" "slack s' = slack s" "\<not> present (lookup s' 0 0)"
    and L: "\<And>d' t'. d' < 1023 \<Longrightarrow> t' < 1024 \<Longrightarrow> (d', t') \<noteq> (0, 0) \<Longrightarrow>
         lookup s' d' t' = (if d' = ?d \<and> t' = ?t then entry_init (of_nat k) else lookup s d' t')"
    and m: "memory_map s' = (memory_map s)[k := 1, frame e := memory_map s ! frame e - 1]"
    and ph: "\<forall>j < 1024. phys s' k j = phys s (frame e) j"
    using cow_spec[OF wf p0 np' refl d refl e(1,2) nt r' rg c e1 w] s2 by auto
  have pm: "pm_wf s" using wf by (simp add: vm_wf_def)
  note K = free_frame_facts[OF pm k(1)]
  have fe: "frame (entry_init (of_nat k)) = k" using K(1,6) by (simp add: frame_entry_init)
  have len: "frame e < length (memory_map s)" using rg(2) pm by (simp add: pm_wf_def)
  have ke: "k \<noteq> frame e" using K(5) r'(1) by auto
  have le: "lookup s' ?d ?t = entry_init (of_nat k)" using L[of ?d ?t] d TIDX_less[of va] by simp
  have tr: "translate s' va = Some k" using le fe by (simp add: translate_lookup)
  have other: "translate s' va' = translate s va'"
    if v: "unat (DIDX va') < 1023" "IDX va' \<noteq> IDX va" "IDX va' \<noteq> 0" for va'
  proof -
    have "\<not> (unat (DIDX va') = ?d \<and> unat (TIDX va') = ?t)"
      using v(2) IDX_eqI[of va' va] by blast
    moreover have "\<not> (unat (DIDX va') = 0 \<and> unat (TIDX va') = 0)"
      using v(3) IDX_eqI[of va' 0] by (auto simp: IDX_def)
    ultimately have "lookup s' (unat (DIDX va')) (unat (TIDX va')) = lookup s (unat (DIDX va')) (unat (TIDX va'))"
      using L[OF v(1) TIDX_less[of va']] by auto
    then show ?thesis by (simp add: translate_lookup)
  qed
  have rk: "refs s' k = 1" using m K(2) ke by (simp add: refs_def)
  have re: "refs s' (frame e) = refs s (frame e) - 1"
    using m len r'(1) unat_minus_one[of "memory_map s ! frame e"] by (simp add: refs_def)
  show ?thesis
    using f k(1-3) tr le rk re other ph by (intro exI[of _ s'] exI[of _ k]) auto
qed

definition tiny_task :: vtask where
  "tiny_task = \<lparr>t_pde = 0x1000, t_uid = 1000, t_end = 0, t_brk = 0, t_vmap = bitmap_make [] 0 0\<rparr>"

lemma page_fault_copies_on_write_witness:
  "\<exists>s' k. page_fault tiny tiny_task
      0xe 7 0x2000abc = Inr (Retry s') \<and> translate s' 0x2000abc = Some k \<and> refs s' 301 = 1"
proof -
  have t: "unat (DIDX 0x2000abc) = 8" "unat (TIDX 0x2000abc) = 0"
    by (simp_all add: unat_DIDX unat_TIDX)
  have l: "lookup tiny 8 0 = set_flag 1 False (entry_init 301)" by (simp add: tiny_lookup)
  have tz: "translate tiny 0 = None" by (simp add: translate_lookup tiny_lookup)
  have u: "USER_EXEC_ADDR \<le> 0x2000abc" "0x2000abc < USER_STACK_TOP"
    by (simp_all add: USER_EXEC_ADDR_def KERNEL_MEMORY_SIZE_def USER_STACK_TOP_def)
  have p: "present (pde_at tiny 0)" by (simp add: tiny_pde)
  have b: "bit (7 :: u32) 0" "bit (7 :: u32) 1" by (simp_all add: bit_numeral_rec(2) bit_1_iff)
  have r: "refs tiny 301 = 2" by (simp add: refs_def tiny_def nth_append)
  have m: "unat (start_page tiny) = 258" "unat (total_pages tiny) = 320" "free_pages tiny = 18"
    by (simp_all add: tiny_def)
  show ?thesis
    using page_fault_copies_on_write[OF tiny_wf p tz u b refl, where task = tiny_task, unfolded t l, simplified,
        unfolded r m tiny_free tiny_tables, simplified]
    by auto
qed

end
