(* ===== verification/Boot.thy ===== *)
theory Boot
  imports Cow
begin

text \<open>
  What \<^verbatim>\<open>mapping_init\<close> leaves: the first 16 MB mapped one to one, page 0 unmapped, the
  directory in its own last entry; and what it does to the page counter.
\<close>

definition kernel_entry :: "nat \<Rightarrow> page_entry" where
  "kernel_entry i = set_flag 2 False (entry_init (of_nat i))"

lemma kernel_entry_simps:
  assumes "i < 2 ^ 20"
  shows "present (kernel_entry i)" "\<not> user (kernel_entry i)" "frame (kernel_entry i) = i"
  using assms by (simp_all add: kernel_entry_def frame_entry_init unat_of_nat32)

lemma identity_loop_effect:
  assumes "identity_loop s pte t i n = Inr s'"
  shows "phys s' f k = (if f = unat (IDX pte) \<and> t \<le> k \<and> k < t + n \<and> i + (k - t) \<noteq> 0
           then kernel_entry (i + (k - t)) else phys s f k)"
    "length (memory_map s') = length (memory_map s)"
    "memory_map s' ! j = (if i \<le> j \<and> j < i + n \<and> j \<noteq> 0 then 1 else memory_map s ! j)"
    "n = 0 \<or> i + n \<le> length (memory_map s) \<or> (i = 0 \<and> n = 1)"
    "start_page s' = start_page s" "total_pages s' = total_pages s" "free_pages s' = free_pages s"
    "cr3 s' = cr3 s" "kernel_bitmap s' = kernel_bitmap s"
proof -
  have "(\<forall>f k. phys s' f k = (if f = unat (IDX pte) \<and> t \<le> k \<and> k < t + n \<and> i + (k - t) \<noteq> 0
           then kernel_entry (i + (k - t)) else phys s f k))
    \<and> length (memory_map s') = length (memory_map s)
    \<and> (\<forall>j. memory_map s' ! j = (if i \<le> j \<and> j < i + n \<and> j \<noteq> 0 then 1 else memory_map s ! j))
    \<and> (n = 0 \<or> i + n \<le> length (memory_map s) \<or> (i = 0 \<and> n = 1))
    \<and> start_page s' = start_page s \<and> total_pages s' = total_pages s \<and> free_pages s' = free_pages s
    \<and> cr3 s' = cr3 s \<and> kernel_bitmap s' = kernel_bitmap s"
    using assms
  proof (induction s pte t i n rule: identity_loop.induct)
    case (2 s pte t i n)
    show ?case
    proof (cases "i = 0")
      case True
      then have l: "identity_loop s pte (Suc t) (Suc i) n = Inr s'" using "2.prems" by simp
      have IH: "(\<forall>f k. phys s' f k = (if f = unat (IDX pte) \<and> Suc t \<le> k \<and> k < Suc t + n \<and> Suc i + (k - Suc t) \<noteq> 0
             then kernel_entry (Suc i + (k - Suc t)) else phys s f k))
        \<and> length (memory_map s') = length (memory_map s)
        \<and> (\<forall>j. memory_map s' ! j = (if Suc i \<le> j \<and> j < Suc i + n \<and> j \<noteq> 0 then 1 else memory_map s ! j))
        \<and> (n = 0 \<or> Suc i + n \<le> length (memory_map s) \<or> (Suc i = 0 \<and> n = 1))
        \<and> start_page s' = start_page s \<and> total_pages s' = total_pages s \<and> free_pages s' = free_pages s
        \<and> cr3 s' = cr3 s \<and> kernel_bitmap s' = kernel_bitmap s"
        using "2.IH"(1)[OF True l] .
      have e: "Suc i + (k - Suc t) = i + (k - t)" if "Suc t \<le> k" for k using that by simp
      show ?thesis using IH True e by (auto simp: le_eq_less_or_eq Suc_le_eq)
    next
      case False
      let ?s = "phys_write s (unat (IDX pte)) t (kernel_entry i)"
      obtain "i < length (memory_map s)" and
        l: "identity_loop (?s\<lparr>memory_map := (memory_map s)[i := 1]\<rparr>) pte (Suc t) (Suc i) n = Inr s'"
        using "2.prems" False by (auto simp: Let_def kernel_entry_def)
      note w = this(1)
      have IH: "(\<forall>f k. phys s' f k = (if f = unat (IDX pte) \<and> Suc t \<le> k \<and> k < Suc t + n \<and> Suc i + (k - Suc t) \<noteq> 0
             then kernel_entry (Suc i + (k - Suc t)) else phys ?s f k))
        \<and> length (memory_map s') = length (memory_map s)
        \<and> (\<forall>j. memory_map s' ! j = (if Suc i \<le> j \<and> j < Suc i + n \<and> j \<noteq> 0 then 1 else (memory_map s)[i := 1] ! j))
        \<and> (n = 0 \<or> Suc i + n \<le> length (memory_map s) \<or> (Suc i = 0 \<and> n = 1))
        \<and> start_page s' = start_page s \<and> total_pages s' = total_pages s \<and> free_pages s' = free_pages s
        \<and> cr3 s' = cr3 s \<and> kernel_bitmap s' = kernel_bitmap s"
        using "2.IH"(2)[OF False refl, of "(memory_map s)[i := 1]"] l w
        by (auto simp: kernel_entry_def)
      have e: "Suc i + (k - Suc t) = i + (k - t)" if "Suc t \<le> k" for k using that by simp
      have p: "phys s' f k = (if f = unat (IDX pte) \<and> t \<le> k \<and> k < t + Suc n \<and> i + (k - t) \<noteq> 0
             then kernel_entry (i + (k - t)) else phys s f k)" for f k
        using IH False e[of k] by (cases "k = t") auto
      have m: "memory_map s' ! j = (if i \<le> j \<and> j < i + Suc n \<and> j \<noteq> 0 then 1 else memory_map s ! j)" for j
        using IH False w by (cases "j = i") auto
      show ?thesis using p m IH w by auto
    qed
  qed auto
  then show "phys s' f k = (if f = unat (IDX pte) \<and> t \<le> k \<and> k < t + n \<and> i + (k - t) \<noteq> 0
           then kernel_entry (i + (k - t)) else phys s f k)"
    "length (memory_map s') = length (memory_map s)"
    "memory_map s' ! j = (if i \<le> j \<and> j < i + n \<and> j \<noteq> 0 then 1 else memory_map s ! j)"
    "n = 0 \<or> i + n \<le> length (memory_map s) \<or> (i = 0 \<and> n = 1)"
    "start_page s' = start_page s" "total_pages s' = total_pages s" "free_pages s' = free_pages s"
    "cr3 s' = cr3 s" "kernel_bitmap s' = kernel_bitmap s" by blast+
qed


text \<open>One round of the loop over the tables, for a table outside the directory's frame.\<close>

definition same_counts :: "kmem \<Rightarrow> kmem \<Rightarrow> bool" where
  "same_counts s s' = (length (memory_map s') = length (memory_map s) \<and> start_page s' = start_page s
     \<and> total_pages s' = total_pages s \<and> free_pages s' = free_pages s)"

definition table_built :: "kmem \<Rightarrow> kmem \<Rightarrow> nat \<Rightarrow> nat \<Rightarrow> nat \<Rightarrow> bool" where
  "table_built s s1 n d i = (same_counts s s1
    \<and> (\<forall>f k. phys s1 f k =
         (if f = n \<and> k < 1024 then (if i + k = 0 then 0 else kernel_entry (i + k))
          else if f = 1 \<and> k = d then kernel_entry n else phys s f k))
    \<and> (\<forall>j. memory_map s1 ! j = (if i \<le> j \<and> j < i + 1024 \<and> j \<noteq> 0 then 1 else memory_map s ! j))
    \<and> i + 1024 \<le> length (memory_map s))"

lemma tables_loop_step:
  assumes "tables_loop s (pte # ptes) d i = Inr s'" "unat (IDX pte) = n" "n \<noteq> 1" "d < 1024"
  shows "\<exists>s1. tables_loop s1 ptes (Suc d) (i + 1024) = Inr s' \<and> table_built s s1 n d i"
proof -
  let ?s = "phys_write (zero_frame s pte) (unat (IDX KERNEL_PAGE_DIR)) d (set_flag 2 False (entry_init (IDX pte)))"
  obtain s1 where l: "identity_loop ?s pte 0 i 1024 = Inr s1"
    and r: "tables_loop s1 ptes (Suc d) (i + 1024) = Inr s'"
    using assms(1) by (auto simp: Let_def)
  note E = identity_loop_effect[OF l]
  have dir: "unat (IDX KERNEL_PAGE_DIR) = 1" by (simp add: KERNEL_PAGE_DIR_def unat_IDX)
  have e: "set_flag 2 False (entry_init (IDX pte)) = kernel_entry (unat (IDX pte))"
    by (simp add: kernel_entry_def)
  have "phys s1 f k =
         (if f = unat (IDX pte) \<and> k < 1024 then (if i + k = 0 then 0 else kernel_entry (i + k))
          else if f = 1 \<and> k = d then kernel_entry (unat (IDX pte)) else phys s f k)" for f k
    using E(1)[of f k] assms(2,3) by (auto simp: zero_frame_def dir e)
  moreover have "memory_map s1 ! j = (if i \<le> j \<and> j < i + 1024 \<and> j \<noteq> 0 then 1 else memory_map s ! j)" for j
    using E(3)[of j] by (simp add: zero_frame_def)
  moreover have "same_counts s s1" using E by (simp add: same_counts_def zero_frame_def)
  moreover have "i + 1024 \<le> length (memory_map s)" using E(4) by (simp add: zero_frame_def)
  ultimately show ?thesis using r assms(2) unfolding table_built_def by blast
qed

lemma page_table_frames:
  "unat (IDX 0x2000) = 2" "unat (IDX 0x3000) = 3" "unat (IDX 0x4000) = 4" "unat (IDX 0x5000) = 5"
  "unat (IDX KERNEL_PAGE_DIR) = 1"
  by (simp_all add: unat_IDX KERNEL_PAGE_DIR_def)

lemma mapping_init_effect:
  assumes "mapping_init s = Inr s'"
  shows "dir s' = 1"
    "\<And>d. d < 1024 \<Longrightarrow> phys s' 1 d = (if d = 1023 then entry_init 1
       else if d < 4 then kernel_entry (2 + d) else 0)"
    "\<And>d t. d < 4 \<Longrightarrow> t < 1024 \<Longrightarrow> phys s' (2 + d) t =
       (if 1024 * d + t = 0 then 0 else kernel_entry (1024 * d + t))"
    "\<And>j. memory_map s' ! j = (if j < 4096 \<and> j \<noteq> 0 then 1 else memory_map s ! j)"
    "same_counts s s'" "4096 \<le> length (memory_map s)"
proof -
  let ?s0 = "zero_frame s KERNEL_PAGE_DIR"
  obtain s4 where l: "tables_loop ?s0 [0x2000, 0x3000, 0x4000, 0x5000] 0 0 = Inr s4"
    and c: "set_cr3 (phys_write s4 (unat (IDX KERNEL_PAGE_DIR)) 1023 (entry_init (IDX KERNEL_PAGE_DIR)))
      KERNEL_PAGE_DIR = Inr s'"
    using assms by (auto simp: mapping_init_def Let_def KERNEL_PAGE_TABLE_def)
  note t = page_table_frames
  obtain s1 where l1: "tables_loop s1 [0x3000, 0x4000, 0x5000] (Suc 0) (0 + 1024) = Inr s4"
    and b1: "table_built ?s0 s1 2 0 0" using tables_loop_step[OF l t(1)] by auto
  obtain s2 where l2: "tables_loop s2 [0x4000, 0x5000] (Suc (Suc 0)) (0 + 1024 + 1024) = Inr s4"
    and b2: "table_built s1 s2 3 (Suc 0) (0 + 1024)" using tables_loop_step[OF l1 t(2)] by auto
  obtain s3 where l3: "tables_loop s3 [0x5000] (Suc (Suc (Suc 0))) (0 + 1024 + 1024 + 1024) = Inr s4"
    and b3: "table_built s2 s3 4 (Suc (Suc 0)) (0 + 1024 + 1024)"
    using tables_loop_step[OF l2 t(3)] by auto
  have b4: "table_built s3 s4 5 (Suc (Suc (Suc 0))) (0 + 1024 + 1024 + 1024)"
    using tables_loop_step[OF l3 t(4)] by auto
  note p1 = b1[unfolded table_built_def, THEN conjunct2, THEN conjunct1, rule_format]
  note p2 = b2[unfolded table_built_def, THEN conjunct2, THEN conjunct1, rule_format]
  note p3 = b3[unfolded table_built_def, THEN conjunct2, THEN conjunct1, rule_format]
  note p4 = b4[unfolded table_built_def, THEN conjunct2, THEN conjunct1, rule_format]
  note m1 = b1[unfolded table_built_def, THEN conjunct2, THEN conjunct2, THEN conjunct1, rule_format]
  note m2 = b2[unfolded table_built_def, THEN conjunct2, THEN conjunct2, THEN conjunct1, rule_format]
  note m3 = b3[unfolded table_built_def, THEN conjunct2, THEN conjunct2, THEN conjunct1, rule_format]
  note m4 = b4[unfolded table_built_def, THEN conjunct2, THEN conjunct2, THEN conjunct1, rule_format]
  have sc: "same_counts ?s0 s1" "same_counts s1 s2" "same_counts s2 s3" "same_counts s3 s4"
    and len: "4096 \<le> length (memory_map s3)"
    using b1 b2 b3 b4 by (simp_all add: table_built_def)
  have s': "s' = (phys_write s4 1 1023 (entry_init 1))\<lparr>cr3 := KERNEL_PAGE_DIR\<rparr>"
    using c by (auto simp: set_cr3_def t(5)) (simp add: KERNEL_PAGE_DIR_def IDX_def drop_bit_eq_div)
  show "dir s' = 1" by (simp add: s' dir_def t(5))
  show "phys s' 1 d = (if d = 1023 then entry_init 1 else if d < 4 then kernel_entry (2 + d) else 0)"
    if "d < 1024" for d
  proof -
    consider "d = 0" | "d = 1" | "d = 2" | "d = 3" | "d = 1023" | "4 \<le> d \<and> d \<noteq> 1023" by fastforce
    then show ?thesis
      using that t(5) by cases (simp_all add: s' p1 p2 p3 p4 zero_frame_def numeral_3_eq_3[symmetric])
  qed
  have s45: "phys s' f k = phys s4 f k" if "f \<noteq> 1" for f k using that by (simp add: s')
  show "phys s' (2 + d) t = (if 1024 * d + t = 0 then 0 else kernel_entry (1024 * d + t))"
    if d: "d < 4" and t: "t < 1024" for d t
  proof -
    consider "d = 0" | "d = 1" | "d = 2" | "d = 3" using d by fastforce
    then show ?thesis using t by cases (simp_all add: s45 p1 p2 p3 p4)
  qed
  show "memory_map s' ! j = (if j < 4096 \<and> j \<noteq> 0 then 1 else memory_map s ! j)" for j
    by (simp add: s' m1 m2 m3 m4 zero_frame_def)
  show "same_counts s s'" using sc by (simp add: s' same_counts_def zero_frame_def)
  show "4096 \<le> length (memory_map s)" using sc len by (simp add: same_counts_def zero_frame_def)
qed


subsection \<open>Properties\<close>

text \<open>
  C6: when \<^verbatim>\<open>mapping_init\<close> returns, the directory maps itself, page 0 is unmapped, and
  every other address below 16 MB translates to its own frame.
\<close>

theorem mapping_init_identity:
  assumes "mapping_init s = Inr s'"
  shows "self_mapped s' \<and> (\<forall>va. unat va < 4096 \<longrightarrow> translate s' va = None)
    \<and> (\<forall>va. 4096 \<le> unat va \<and> va < KERNEL_MEMORY_SIZE \<longrightarrow> translate s' va = Some (unat (IDX va)))"
proof (intro conjI allI impI)
  note E = mapping_init_effect[OF assms]
  have f1: "frame (entry_init 1) = 1" by (simp add: frame_entry_init)
  show "self_mapped s'" using E(2)[of 1023] f1 by (simp add: self_mapped_def pde_at_def E(1))
  have L: "lookup s' d t = (if 1024 * d + t = 0 then 0 else kernel_entry (1024 * d + t))"
    if "d < 4" "t < 1024" for d t
  proof -
    have "pde_at s' d = kernel_entry (2 + d)" using that E(2)[of d] by (simp add: pde_at_def E(1))
    then show ?thesis
      using that E(3)[OF that] kernel_entry_simps[of "2 + d"] by (simp add: lookup_def)
  qed
  fix va :: u32
  let ?d = "unat (DIDX va)" and ?t = "unat (TIDX va)"
  have i: "1024 * ?d + ?t = unat va div 4096"
    using div_mult2_eq[of "unat va" 4096 1024] by (simp add: unat_DIDX unat_TIDX)
  show "translate s' va = None" if "unat va < 4096"
    using that L[of ?d ?t] TIDX_less[of va] i by (simp add: translate_lookup unat_DIDX)
  assume v: "4096 \<le> unat va \<and> va < KERNEL_MEMORY_SIZE"
  then have d: "?d < 4" by (simp add: unat_DIDX KERNEL_MEMORY_SIZE_def word_less_nat_alt
        div_less_iff_less_mult)
  have "lookup s' ?d ?t = kernel_entry (unat va div 4096)"
  proof -
    have "0 < unat va div 4096" using v by (simp add: div_greater_zero_iff)
    then have "1024 * ?d + ?t \<noteq> 0" using i by simp
    then show ?thesis using L[OF d TIDX_less, of va] i by (simp only: if_False)
  qed
  moreover have "unat va div 4096 < 2 ^ 20" using unat_lt32[of va] by simp
  ultimately show "translate s' va = Some (unat (IDX va))"
    by (simp add: translate_lookup kernel_entry_simps unat_IDX)
qed

text \<open>A machine of 16 MB as \<open>memory_init\<close> and \<open>memory_map_init\<close> leave it.\<close>

definition machine :: kmem where
  "machine = \<lparr>phys = (\<lambda>_ _. 0), cr3 = 0, memory_base = MEMORY_BASE, memory_size = KERNEL_MEMORY_SIZE,
     total_pages = 4352, free_pages = 4094, start_page = 258,
     memory_map = replicate 258 1 @ replicate 7934 0, memory_map_pages = 2,
     kernel_bitmap = bitmap_make [] 0 256\<rparr>"

text \<open>Enough room in the map is all the loops need.\<close>

lemma identity_loop_ok:
  "i + n \<le> length (memory_map s) \<Longrightarrow> \<exists>s'. identity_loop s pte t i n = Inr s'"
proof (induction n arbitrary: s t i)
  case (Suc n)
  then have i: "i < length (memory_map s)" by simp
  show ?case
    using Suc.prems i Suc.IH[of "Suc i"] by (cases "i = 0") (auto simp: Let_def)
qed simp

lemma tables_loop_ok:
  "i + 1024 * length ptes \<le> length (memory_map s) \<Longrightarrow> \<exists>s'. tables_loop s ptes d i = Inr s'"
proof (induction ptes arbitrary: s d i)
  case (Cons pte ptes)
  let ?s = "phys_write (zero_frame s pte) (unat (IDX KERNEL_PAGE_DIR)) d (set_flag 2 False (entry_init (IDX pte)))"
  have m: "memory_map ?s = memory_map s" by (simp add: zero_frame_def)
  obtain s1 where s1: "identity_loop ?s pte 0 i 1024 = Inr s1"
    using identity_loop_ok[of i 1024 ?s pte 0] Cons.prems m by auto
  have "length (memory_map s1) = length (memory_map s)"
    using identity_loop_effect(2)[OF s1] m by simp
  then have "\<exists>s'. tables_loop s1 ptes (Suc d) (i + 1024) = Inr s'"
    using Cons.prems by (intro Cons.IH) simp
  then show ?case using s1 by simp
qed simp

lemma mapping_init_ok:
  assumes "4096 \<le> length (memory_map s)"
  shows "\<exists>s'. mapping_init s = Inr s'"
proof -
  have "memory_map (zero_frame s KERNEL_PAGE_DIR) = memory_map s" by (simp add: zero_frame_def)
  then obtain s1 where "tables_loop (zero_frame s KERNEL_PAGE_DIR) KERNEL_PAGE_TABLE 0 0 = Inr s1"
    using tables_loop_ok[of 0 KERNEL_PAGE_TABLE "zero_frame s KERNEL_PAGE_DIR" 0] assms
    by (auto simp: KERNEL_PAGE_TABLE_def)
  then show ?thesis
    by (simp add: mapping_init_def Let_def set_cr3_def page_aligned_def KERNEL_PAGE_DIR_def)
qed

lemma mapping_init_identity_witness:
  "\<exists>s'. mapping_init machine = Inr s' \<and> self_mapped s' \<and> translate s' 0x7fff = Some 7"
proof -
  obtain s' where s': "mapping_init machine = Inr s'"
    using mapping_init_ok[of machine] by (auto simp: machine_def)
  note I = mapping_init_identity[OF s']
  have "translate s' 0x7fff = Some (unat (IDX (0x7fff :: u32)))"
    using I by (simp add: KERNEL_MEMORY_SIZE_def)
  then show ?thesis using s' I by (simp add: unat_IDX)
qed

text \<open>
  On a machine whose frames from \<^verbatim>\<open>start_page\<close> to 4095 are free, \<^verbatim>\<open>mapping_init\<close>
  marks them used without touching \<^verbatim>\<open>free_pages\<close>, so from then on the counter exceeds the
  number of free frames by \<open>4096 - start_page\<close>.
\<close>

theorem mapping_init_overcounts:
  assumes "mapping_init s = Inr s'" "pm_wf s" "unat (start_page s) \<le> 4096" "4096 \<le> unat (total_pages s)"
    "\<And>j. unat (start_page s) \<le> j \<Longrightarrow> j < 4096 \<Longrightarrow> memory_map s ! j = 0" "0 < unat (start_page s)"
  shows "slack s' = slack s + (4096 - start_page s)"
proof -
  note E = mapping_init_effect[OF assms(1)]
  let ?K = "{unat (start_page s)..<4096}"
  have sub: "?K \<subseteq> free_frames s" using assms(4,5) by (auto simp: free_frames_def)
  have "free_frames s' = free_frames s - ?K"
    using E(4,5) assms(6) by (auto simp: free_frames_def same_counts_def split: if_splits)
  then have "card (free_frames s') = card (free_frames s) - (4096 - unat (start_page s))"
    using sub by (simp add: card_Diff_subset)
  moreover have "4096 - unat (start_page s) \<le> card (free_frames s)"
    using card_mono[OF finite_free_frames sub] by simp
  ultimately have c: "card (free_frames s) = card (free_frames s') + (4096 - unat (start_page s))" by simp
  have "(of_nat (4096 - unat (start_page s)) :: u32) = 4096 - start_page s"
    using assms(3) by (simp add: of_nat_diff)
  then show ?thesis using E(5) c by (simp add: slack_def same_counts_def)
qed

lemma mapping_init_overcounts_witness:
  "\<exists>s'. mapping_init machine = Inr s' \<and> slack s' = slack machine + 3838"
proof -
  obtain s' where s': "mapping_init machine = Inr s'"
    using mapping_init_ok[of machine] by (auto simp: machine_def)
  have "slack s' = slack machine + (4096 - start_page machine)"
  proof (rule mapping_init_overcounts[OF s'])
    show "memory_map machine ! j = 0" if "unat (start_page machine) \<le> j" "j < 4096" for j
      using that by (simp add: machine_def nth_append)
  qed (simp_all add: machine_def pm_wf_def)
  then show ?thesis using s' by (simp add: machine_def)
qed

end
