(* ===== verification/Fork_Laws.thy ===== *)
theory Fork_Laws
  imports Cow
begin

text \<open>
  What \<^verbatim>\<open>copy_pde\<close> does at a fork: parent and child get tables of their own with the same
  entries, the frames of all pages that are not shared become read-only in both, and every frame
  counts its new references.
\<close>

subsection \<open>Sharing the pages of one table\<close>

text \<open>An entry after the fork, and how often a frame is mapped by some entries.\<close>

definition cow_entry :: "page_entry \<Rightarrow> page_entry" where
  "cow_entry e = (if present e \<and> \<not> shared e then set_flag 1 False e else e)"

definition maps :: "nat \<Rightarrow> page_entry \<Rightarrow> bool" where
  "maps f e = (present e \<and> frame e = f)"

definition uses :: "kmem \<Rightarrow> nat \<Rightarrow> nat \<Rightarrow> nat list \<Rightarrow> nat" where
  "uses s f d js = length (filter (\<lambda>j. maps f (lookup s d j)) js)"

definition users :: "kmem \<Rightarrow> nat \<Rightarrow> nat list \<Rightarrow> nat" where
  "users s f ds = sum_list (map (\<lambda>d. uses s f d [0..<1024]) ds)"

lemma cow_entry_simps [simp]:
  "present (cow_entry e) = present e" "frame (cow_entry e) = frame e" "shared (cow_entry e) = shared e"
  by (auto simp: cow_entry_def)

lemma cow_entry_writable: "present e \<Longrightarrow> writable (cow_entry e) \<Longrightarrow> shared e"
  by (auto simp: cow_entry_def split: if_splits)

lemma maps_cow [simp]: "maps f (cow_entry e) = maps f e"
  by (simp add: maps_def)

text \<open>A state with one reference more for a frame.\<close>

definition add_ref :: "nat \<Rightarrow> kmem \<Rightarrow> kmem" where
  "add_ref f s = s\<lparr>memory_map := (memory_map s)[f := memory_map s ! f + 1]\<rparr>"

lemma add_ref_simps [simp]:
  "phys (add_ref f s) = phys s" "cr3 (add_ref f s) = cr3 s" "dir (add_ref f s) = dir s"
  "pde_at (add_ref f s) d = pde_at s d" "lookup (add_ref f s) d t = lookup s d t"
  "start_page (add_ref f s) = start_page s" "total_pages (add_ref f s) = total_pages s"
  "free_pages (add_ref f s) = free_pages s" "pm_wf (add_ref f s) = pm_wf s"
  "length (memory_map (add_ref f s)) = length (memory_map s)" "kernel_bitmap (add_ref f s) = kernel_bitmap s"
  by (simp_all add: add_ref_def dir_def pde_at_def lookup_def pm_wf_def)

lemma refs_add:
  assumes "f < length (memory_map s)" "refs s f < 255"
  shows "refs (add_ref f s) g = refs s g + (if g = f then 1 else 0)"
proof -
  have "unat (memory_map s ! f + 1) = unat (memory_map s ! f) + 1"
    using assms(2) by (intro unat_add_lem[THEN iffD1, THEN trans]) (simp_all add: refs_def)
  then show ?thesis using assms(1) by (simp add: refs_def add_ref_def)
qed

lemma free_add:
  assumes "f < length (memory_map s)" "0 < refs s f" "refs s f < 255"
  shows "free_frames (add_ref f s) = free_frames s"
proof -
  have z: "memory_map r ! i = 0 \<longleftrightarrow> refs r i = 0" for r i by (simp add: refs_def unat_eq_0)
  show ?thesis using assms(2) refs_add[OF assms(1,3)] by (auto simp: free_frames_def z)
qed

text \<open>What does not change: the control register, the bounds of memory, the directory and every frame but some.\<close>

definition beyond :: "nat set \<Rightarrow> kmem \<Rightarrow> kmem \<Rightarrow> bool" where
  "beyond F s s' = (cr3 s' = cr3 s \<and> kernel_bitmap s' = kernel_bitmap s \<and> start_page s' = start_page s \<and> total_pages s' = total_pages s
     \<and> length (memory_map s') = length (memory_map s) \<and> (\<forall>f. f \<notin> F \<longrightarrow> phys s' f = phys s f))"

lemma beyond_refl [simp]: "beyond F s s"
  by (simp add: beyond_def)

lemma beyond_trans: "beyond F s s' \<Longrightarrow> beyond F s' s'' \<Longrightarrow> beyond F s s''"
  by (simp add: beyond_def)

lemma beyond_mono: "beyond F s s' \<Longrightarrow> F \<subseteq> G \<Longrightarrow> beyond G s s'"
  by (auto simp: beyond_def)

lemma beyondD: "beyond F s s' \<Longrightarrow> cr3 s' = cr3 s" "beyond F s s' \<Longrightarrow> dir s' = dir s"
  "beyond F s s' \<Longrightarrow> start_page s' = start_page s" "beyond F s s' \<Longrightarrow> total_pages s' = total_pages s"
  "beyond F s s' \<Longrightarrow> length (memory_map s') = length (memory_map s)"
  "beyond F s s' \<Longrightarrow> f \<notin> F \<Longrightarrow> phys s' f = phys s f"
  "beyond F s s' \<Longrightarrow> dir s \<notin> F \<Longrightarrow> pde_at s' d = pde_at s d"
  by (simp_all add: beyond_def dir_def pde_at_def)

definition shareable :: "kmem \<Rightarrow> nat \<Rightarrow> nat list \<Rightarrow> bool" where
  "shareable s d js = ((\<forall>j\<in>set js. present (lookup s d j) \<longrightarrow> frame (lookup s d j) < length (memory_map s)
       \<and> 0 < refs s (frame (lookup s d j)))
     \<and> (\<forall>f. 0 < uses s f d js \<longrightarrow> refs s f + uses s f d js < 255))"

lemma uses_Cons: "uses s f d (j # js) = (if maps f (lookup s d j) then 1 else 0) + uses s f d js"
  by (simp add: uses_def)

lemma vm_wf_add:
  assumes "vm_wf s" "f < length (memory_map s)" "0 < refs s f" "refs s f < 255"
  shows "vm_wf (add_ref f s)"
  using assms(1) free_add[OF assms(2-4)]
  by (simp add: vm_wf_def self_mapped_def tables_apart_def table_frames_def)

text \<open>One present entry: its frame gets a reference, and it becomes read-only unless it is shared.\<close>

lemma share_step:
  assumes wf: "vm_wf s" and d: "d < 1023" "present (pde_at s d)" and t: "t < 1024"
    and e: "e = lookup s d t" "present e" "frame e < length (memory_map s)" "0 < refs s (frame e)" "refs s (frame e) + 1 < 255"
    and s': "s' = add_ref (frame e) (if \<not> shared e then phys_write s (frame (pde_at s d)) t (set_flag 1 False e) else s)"
  shows "share_loop s (PDE_MASK OR push_bit 12 (of_nat d)) t (Suc n)
      = share_loop s' (PDE_MASK OR push_bit 12 (of_nat d)) (Suc t) n"
    "vm_wf s'" "beyond {frame (pde_at s d)} s s'" "free_pages s' = free_pages s" "free_frames s' = free_frames s"
    "d' < 1024 \<Longrightarrow> lookup s' d' j = (if d' = d \<and> j = t then cow_entry e else lookup s d' j)"
    "refs s' f = refs s f + (if maps f e then 1 else 0)"
proof -
  have sm: "self_mapped s" using wf by (simp add: vm_wf_def)
  have u: "unat (of_nat d :: u32) = d" using d by (simp add: unat_of_nat32)
  let ?w = "if \<not> shared e then phys_write s (frame (pde_at s d)) t (set_flag 1 False e) else s"
  have r: "vread s (elem (PDE_MASK OR push_bit 12 (of_nat d)) t) = Inr e"
    "vwrite s (elem (PDE_MASK OR push_bit 12 (of_nat d)) t) v = Inr (phys_write s (frame (pde_at s d)) t v)" for v
    using vread_table[OF sm, of "of_nat d" t] u d t e(1) by (simp_all add: lookup_def)
  have wfw: "vm_wf ?w" using wf vm_wf_write_table[OF wf d] by simp
  have rw: "refs ?w = refs s" "memory_map ?w = memory_map s" by (auto simp: refs_def)
  have m: "memory_map s ! frame e > 0" "memory_map s ! frame e + 1 < 255"
  proof -
    show "memory_map s ! frame e > 0" using e(4) by (simp add: refs_def unat_gt_0 word_neq_0_conv)
    have "unat (memory_map s ! frame e + 1) = unat (memory_map s ! frame e) + 1"
      using e(5) by (intro unat_add_lem[THEN iffD1, THEN trans]) (simp_all add: refs_def)
    then show "memory_map s ! frame e + 1 < 255" using e(5) by (simp add: refs_def word_less_nat_alt)
  qed
  have w: "(if \<not> shared e then vwrite s (elem (PDE_MASK OR push_bit 12 (of_nat d)) t) (set_flag 1 False e) else Inr s) = Inr ?w"
    using r by simp
  have mm: "wr (memory_map ?w) (frame e) (memory_map s ! frame e + 1) = Inr ((memory_map ?w)[frame e := memory_map ?w ! frame e + 1])"
    using e(3) rw(2) by simp
  have rdm: "rd (memory_map s) (frame e) = Inr (memory_map s ! frame e)" using e(3) by simp
  show "share_loop s (PDE_MASK OR push_bit 12 (of_nat d)) t (Suc n)
      = share_loop s' (PDE_MASK OR push_bit 12 (of_nat d)) (Suc t) n"
    using m e(2) unfolding share_loop.simps r(1) bnd_simps rdm w mm s' add_ref_def by simp
  have L: "frame e < length (memory_map ?w)" "0 < refs ?w (frame e)" "refs ?w (frame e) < 255"
    using e rw by simp_all
  show "vm_wf s'" unfolding s' by (rule vm_wf_add[OF wfw L])
  show "beyond {frame (pde_at s d)} s s'" by (auto simp: beyond_def s' fun_eq_iff)
  show "free_pages s' = free_pages s" by (simp add: s')
  show "free_frames s' = free_frames s" unfolding s' free_add[OF L] by simp
  show "lookup s' d' j = (if d' = d \<and> j = t then cow_entry e else lookup s d' j)" if "d' < 1024"
    using lookup_write_table[OF wf d that, of t "set_flag 1 False e" j] e(1,2) by (auto simp: s' cow_entry_def)
  show "refs s' f = refs s f + (if maps f e then 1 else 0)"
    using refs_add[OF L(1,3), of f] rw e(2) by (auto simp: s' maps_def)
qed

text \<open>All entries of a table.\<close>

definition shared_table :: "kmem \<Rightarrow> nat \<Rightarrow> nat list \<Rightarrow> kmem \<Rightarrow> bool" where
  "shared_table s d js s' = (vm_wf s' \<and> beyond {frame (pde_at s d)} s s' \<and> free_pages s' = free_pages s
     \<and> free_frames s' = free_frames s
     \<and> (\<forall>d'<1024. \<forall>j. lookup s' d' j = (if d' = d \<and> j \<in> set js then cow_entry (lookup s d j) else lookup s d' j))
     \<and> (\<forall>f. refs s' f = refs s f + uses s f d js))"

lemma shared_table_step:
  assumes d: "d < 1023" "frame (pde_at s d) \<noteq> dir s" and t: "t \<notin> set js"
    and a: "beyond {frame (pde_at s d)} s u" "free_pages u = free_pages s" "free_frames u = free_frames s"
      "\<And>d' j. d' < 1024 \<Longrightarrow> lookup u d' j = (if d' = d \<and> j = t then cow_entry (lookup s d t) else lookup s d' j)"
      "\<And>f. refs u f = refs s f + (if maps f (lookup s d t) then 1 else 0)"
    and b: "shared_table u d js s'"
  shows "shared_table s d (t # js) s'"
proof -
  have p: "pde_at u d = pde_at s d" using beyondD(7)[OF a(1)] d(2) by auto
  have L: "lookup u d j = (if j = t then cow_entry (lookup s d t) else lookup s d j)" for j using a(4)[of d j] d(1) by simp
  have us: "uses u f d js = uses s f d js" for f
    unfolding uses_def using L t by (intro arg_cong[of _ _ length] filter_cong) auto
  have o: "beyond {frame (pde_at s d)} s s'" using beyond_trans[OF a(1)] b p by (simp add: shared_table_def)
  show ?thesis
    unfolding shared_table_def using b a(2-5) o us L t p by (auto simp: shared_table_def uses_Cons)
qed

lemma shareable_Cons:
  assumes "shareable s d (t # js)" "t \<notin> set js" "present (lookup s d t)"
    and L: "\<And>j. lookup u d j = (if j = t then cow_entry (lookup s d t) else lookup s d j)"
    and r: "\<And>f. refs u f = refs s f + (if maps f (lookup s d t) then 1 else 0)"
    and m: "length (memory_map u) = length (memory_map s)"
  shows "frame (lookup s d t) < length (memory_map s)" "0 < refs s (frame (lookup s d t))"
    "refs s (frame (lookup s d t)) + 1 < 255" "shareable u d js"
proof -
  note sh = assms(1)[unfolded shareable_def]
  show "frame (lookup s d t) < length (memory_map s)" "0 < refs s (frame (lookup s d t))" using sh assms(3) by simp_all
  have "uses s (frame (lookup s d t)) d (t # js) \<ge> 1" using assms(3) by (simp add: uses_Cons maps_def)
  then show "refs s (frame (lookup s d t)) + 1 < 255" using sh by (metis add_le_cancel_left le_less_trans less_le_trans zero_less_one)
  have us: "uses u f d js = uses s f d js" for f
    unfolding uses_def using L assms(2) by (intro arg_cong[of _ _ length] filter_cong) auto
  have "refs u f + uses u f d js < 255" if "0 < uses u f d js" for f
    using sh[THEN conjunct2, rule_format, of f] that unfolding us r uses_Cons by linarith
  moreover have "present (lookup u d j) \<longrightarrow> frame (lookup u d j) < length (memory_map u) \<and> 0 < refs u (frame (lookup u d j))"
    if "j \<in> set js" for j
    using sh that assms(2) L[of j] m by (auto simp: r)
  ultimately show "shareable u d js" by (simp add: shareable_def)
qed

lemma share_loop_ok:
  assumes "vm_wf s" "d < 1023" "present (pde_at s d)" "t + n \<le> 1024" "shareable s d [t..<t + n]"
  shows "\<exists>s'. share_loop s (PDE_MASK OR push_bit 12 (of_nat d)) t n = Inr s' \<and> shared_table s d [t..<t + n] s'"
  using assms
proof (induction n arbitrary: s t)
  case 0
  then show ?case by (auto simp: shared_table_def uses_def)
next
  case (Suc n)
  let ?p = "PDE_MASK OR push_bit 12 (of_nat d) :: u32"
  have t: "t < 1024" using Suc.prems(4) by simp
  have up: "[t..<t + Suc n] = t # [Suc t..<Suc t + n]" by (simp add: upt_conv_Cons del: upt_Suc)
  note nd = table_not_dir[OF Suc.prems(1-3)]
  have sm: "self_mapped s" and u: "unat (of_nat d :: u32) = d" using Suc.prems(1,2) by (simp_all add: vm_wf_def unat_of_nat32)
  have r: "vread s (elem ?p t) = Inr (lookup s d t)"
    using vread_table(1)[OF sm, of "of_nat d" t] u Suc.prems(2,3) t by (simp add: lookup_def)
  show ?case
  proof (cases "present (lookup s d t)")
    case False
    have 1: "share_loop s ?p t (Suc n) = share_loop s ?p (Suc t) n" using r False by simp
    have "\<not> maps f (lookup s d t)" for f using False by (simp add: maps_def)
    then have "shareable s d [Suc t..<Suc t + n]"
      using Suc.prems(5) unfolding up shareable_def by (auto simp: uses_Cons)
    then obtain s' where "share_loop s ?p (Suc t) n = Inr s'" "shared_table s d [Suc t..<Suc t + n] s'"
      using Suc.IH[of s "Suc t"] Suc.prems by auto
    then show ?thesis
      unfolding 1 up using False Suc.prems(2) nd
      by (intro exI[of _ s'] conjI shared_table_step[of d s "t" _ s]) (auto simp: maps_def cow_entry_def)
  next
    case True
    let ?e = "lookup s d t"
    let ?u = "add_ref (frame ?e) (if \<not> shared ?e then phys_write s (frame (pde_at s d)) t (set_flag 1 False ?e) else s)"
    note fr = Suc.prems(5)[unfolded up shareable_def]
    have pre: "frame ?e < length (memory_map s)" "0 < refs s (frame ?e)" using fr True by simp_all
    have "uses s (frame ?e) d (t # [Suc t..<Suc t + n]) \<ge> 1" using True by (simp add: uses_Cons maps_def)
    then have "refs s (frame ?e) + 1 < 255" using fr by (metis add_le_cancel_left le_less_trans less_le_trans zero_less_one)
    note S = share_step[OF Suc.prems(1-3) t refl True pre this refl]
    have L: "lookup ?u d j = (if j = t then cow_entry ?e else lookup s d j)" for j using S(6)[of d j] Suc.prems(2) by simp
    have "shareable ?u d [Suc t..<Suc t + n]"
      by (rule shareable_Cons(4)[OF Suc.prems(5)[unfolded up] _ True L S(7) beyondD(5)[OF S(3)]]) simp
    moreover have "present (pde_at ?u d)" using beyondD(7)[OF S(3)] nd Suc.prems(3) by auto
    ultimately obtain s' where "share_loop ?u ?p (Suc t) n = Inr s'" "shared_table ?u d [Suc t..<Suc t + n] s'"
      using Suc.IH[of ?u "Suc t"] S(2) Suc.prems(2,4) by auto
    then show ?thesis
      unfolding S(1) up using shared_table_step[OF Suc.prems(2) nd _ S(3-7)] by (intro exI[of _ s']) auto
  qed
qed

subsection \<open>The tables of the child\<close>

text \<open>Where \<^verbatim>\<open>copy_pde\<close> starts: \<open>pde\<close> is the child's directory, a page of its own
  in the part the kernel maps one to one.\<close>

definition fork_ready :: "kmem \<Rightarrow> u32 \<Rightarrow> bool" where
  "fork_ready s pde = (vm_wf s \<and> present (pde_at s 0) \<and> \<not> present (lookup s 0 0) \<and> page_aligned pde
     \<and> unat (DIDX pde) < 4 \<and> translate s pde = Some (unat (IDX pde))
     \<and> unat (IDX pde) \<notin> table_frames s \<and> unat (IDX pde) \<notin> free_frames s)"

definition low_tables :: "kmem \<Rightarrow> nat set" where
  "low_tables s = {frame (pde_at s d) | d. d < 1023 \<and> present (pde_at s d)}"

text \<open>The child's table of the addresses of directory number \<open>d\<close>.\<close>

definition own_table :: "kmem \<Rightarrow> nat \<Rightarrow> kmem \<Rightarrow> nat \<Rightarrow> bool" where
  "own_table s0 c s d = (let k = frame (phys s c d) in phys s c d = set_index (of_nat k) (pde_at s0 d)
     \<and> k \<in> free_frames s0 \<and> k \<notin> free_frames s \<and> (\<forall>t<1024. phys s k t = lookup s d t))"

text \<open>The state after the directory numbers \<open>ds\<close> are done.\<close>

definition user_dirs :: "nat list" where
  "user_dirs = [4..<1023]"

lemma set_user_dirs [simp]: "d \<in> set user_dirs \<longleftrightarrow> 4 \<le> d \<and> d < 1023"
  by (simp only: user_dirs_def set_upt) simp

definition tables_of :: "kmem \<Rightarrow> nat list \<Rightarrow> nat list" where
  "tables_of s ds = filter (\<lambda>d. present (pde_at s d)) ds"

definition forked_entries :: "kmem \<Rightarrow> nat list \<Rightarrow> kmem \<Rightarrow> bool" where
  "forked_entries s0 ds s = (\<not> present (lookup s 0 0) \<and> (\<forall>d<1023. \<forall>t<1024. (d, t) \<noteq> (0, 0) \<longrightarrow>
     lookup s d t = (if d \<in> set ds then cow_entry (lookup s0 d t) else lookup s0 d t)))"

definition forked_tables :: "kmem \<Rightarrow> nat \<Rightarrow> nat list \<Rightarrow> kmem \<Rightarrow> bool" where
  "forked_tables s0 c ds s = ((\<forall>d\<in>set (tables_of s0 ds). own_table s0 c s d)
     \<and> inj_on (\<lambda>d. frame (phys s c d)) (set (tables_of s0 ds))
     \<and> (\<forall>d<1023. d \<notin> set (tables_of s0 ds) \<longrightarrow> phys s c d = pde_at s0 d)
     \<and> phys s c 1023 = entry_init (of_nat c))"

text \<open>How often a frame is a table of the child.\<close>

definition kids :: "kmem \<Rightarrow> nat \<Rightarrow> nat list \<Rightarrow> nat \<Rightarrow> nat" where
  "kids s c ds f = length (filter (\<lambda>d. frame (phys s c d) = f) ds)"

definition forked_memory :: "kmem \<Rightarrow> nat \<Rightarrow> nat list \<Rightarrow> kmem \<Rightarrow> bool" where
  "forked_memory s0 c ds s = ((\<forall>f. refs s f = refs s0 f + users s0 f ds + kids s c (tables_of s0 ds) f)
     \<and> free_frames s \<subseteq> free_frames s0 \<and> slack s = slack s0
     \<and> card (free_frames s0) = card (free_frames s) + length (tables_of s0 ds))"

definition forked :: "kmem \<Rightarrow> nat \<Rightarrow> nat list \<Rightarrow> kmem \<Rightarrow> bool" where
  "forked s0 c ds s = (vm_wf s \<and> beyond (insert c (free_frames s0 \<union> low_tables s0)) s0 s
     \<and> forked_entries s0 ds s \<and> forked_tables s0 c ds s \<and> forked_memory s0 c ds s)"

lemma own_tableD:
  assumes "own_table s0 c s d"
  shows "frame (phys s c d) \<in> free_frames s0 - free_frames s" "present (phys s c d) = present (pde_at s0 d)"
    "t < 1024 \<Longrightarrow> phys s (frame (phys s c d)) t = lookup s d t"
  using assms flags_set_index(1) unfolding own_table_def Let_def by (blast, metis, blast)

lemma low_tables_facts:
  assumes "vm_wf s"
  shows "dir s \<notin> low_tables s" "low_tables s \<subseteq> table_frames s" "dir s \<in> table_frames s" "dir s \<notin> free_frames s"
    "table_frames s \<inter> free_frames s = {}"
proof -
  show "dir s \<notin> low_tables s" unfolding low_tables_def by (clarsimp, metis table_not_dir[OF assms])
  show "low_tables s \<subseteq> table_frames s" by (fastforce simp: low_tables_def table_frames_def)
  have "present (pde_at s 1023)" "frame (pde_at s 1023) = dir s" using assms by (simp_all add: vm_wf_def self_mapped_def)
  then show d: "dir s \<in> table_frames s" unfolding table_frames_def by force
  show "table_frames s \<inter> free_frames s = {}" using assms by (simp add: vm_wf_def)
  then show "dir s \<notin> free_frames s" using d by auto
qed

text \<open>During the fork the directory, the place of the child's directory and what may be written stay.\<close>

lemma forked_fixed:
  assumes r: "fork_ready s0 pde" and f: "forked s0 (unat (IDX pde)) ds s" and ds: "\<forall>d\<in>set ds. 4 \<le> d"
  shows "dir s = dir s0" "pde_at s d = pde_at s0 d" "translate s pde = Some (unat (IDX pde))"
    "unat (IDX pde) \<notin> table_frames s" "unat (IDX pde) \<notin> free_frames s" "table_frames s = table_frames s0"
proof -
  note R = r[unfolded fork_ready_def] and F = f[unfolded forked_def]
  note low = low_tables_facts[of s0]
  show 1: "dir s = dir s0" using F beyondD(2) by blast
  have c: "dir s0 \<noteq> unat (IDX pde)" using R low(3) by auto
  then show 2: "pde_at s d = pde_at s0 d" for d
    using F R low(1,4) by (intro beyondD(7)[of "insert (unat (IDX pde)) (free_frames s0 \<union> low_tables s0)"]) auto
  show 3: "table_frames s = table_frames s0" by (simp add: table_frames_def 2)
  show "unat (IDX pde) \<notin> table_frames s" "unat (IDX pde) \<notin> free_frames s" using R F 3 by (auto simp: forked_memory_def)
  have "lookup s0 (unat (DIDX pde)) (unat (TIDX pde)) \<noteq> lookup s0 0 0"
    using R by (auto simp: translate_lookup Let_def split: if_splits)
  then have "(unat (DIDX pde), unat (TIDX pde)) \<noteq> (0, 0)" by (metis prod.inject)
  moreover have "unat (DIDX pde) \<notin> set ds" "unat (DIDX pde) < 1023" using ds R by auto
  ultimately have "lookup s (unat (DIDX pde)) (unat (TIDX pde)) = lookup s0 (unat (DIDX pde)) (unat (TIDX pde))"
    using F TIDX_less[of pde] by (auto simp: forked_entries_def)
  then show "translate s pde = Some (unat (IDX pde))" using R by (simp add: translate_lookup)
qed

text \<open>One table: its pages are shared, and a fresh frame \<open>k\<close> gets a copy of it.\<close>

definition table_copied :: "kmem \<Rightarrow> nat \<Rightarrow> nat \<Rightarrow> kmem \<Rightarrow> bool" where
  "table_copied s d k s2 = (k \<in> free_frames s \<and> vm_wf s2 \<and> beyond {k, frame (pde_at s d), frame (pde_at s 0)} s s2
     \<and> \<not> present (lookup s2 0 0) \<and> (\<forall>d'<1023. \<forall>t<1024. (d', t) \<noteq> (0, 0) \<longrightarrow>
          lookup s2 d' t = (if d' = d then cow_entry (lookup s d t) else lookup s d' t))
     \<and> (\<forall>t<1024. phys s2 k t = lookup s2 d t) \<and> free_frames s2 = free_frames s - {k} \<and> slack s2 = slack s
     \<and> refs s2 k = 1 \<and> (\<forall>f. f \<noteq> k \<longrightarrow> refs s2 f = refs s f + uses s f d [0..<1024]))"

lemma copy_table_ok:
  assumes wf: "vm_wf s" and p0: "present (pde_at s 0)" and np: "\<not> present (lookup s 0 0)"
    and d: "4 \<le> d" "d < 1023" "present (pde_at s d)" and sh: "shareable s d [0..<1024]"
    and fr: "free_frames s \<noteq> {}" "1 < free_pages s"
  shows "\<exists>s1 s2 k. share_loop s (PDE_MASK OR push_bit 12 (of_nat d)) 0 1024 = Inr s1
    \<and> copy_page s1 (PDE_MASK OR push_bit 12 (of_nat d)) = Inr (s2, PAGE (of_nat k)) \<and> table_copied s d k s2"
proof -
  let ?p = "PDE_MASK OR push_bit 12 (of_nat d) :: u32"
  obtain s1 where s1: "share_loop s ?p 0 1024 = Inr s1" "shared_table s d [0..<1024] s1"
    using share_loop_ok[OF wf d(2,3), of 0 1024] sh by auto
  note S = s1(2)[unfolded shared_table_def]
  have wf1: "vm_wf s1" and o1: "beyond {frame (pde_at s d)} s s1" using S by blast+
  have pd: "pde_at s1 d' = pde_at s d'" for d' using beyondD(7)[OF o1] table_not_dir[OF wf d(2,3)] by simp
  have L1: "lookup s1 d' t = (if d' = d then cow_entry (lookup s d t) else lookup s d' t)" if "d' < 1023" "t < 1024" for d' t
    using S that by simp
  have u: "unat (of_nat d :: u32) = d" using d by (simp add: unat_of_nat32)
  have tr: "translate s1 ?p = Some (frame (pde_at s d))"
    using translate_table[of s1 "of_nat d"] wf1 u d(2,3) pd by (simp add: vm_wf_def)
  have h: "frame (pde_at s d) \<notin> free_frames s1" "frame (pde_at s d) \<noteq> frame (pde_at s1 0)"
    using free_not_table(2)[OF wf, of _ d] S d wf p0 pd by (auto simp: vm_wf_def tables_apart_def)
  have np1: "\<not> present (lookup s1 0 0)" using L1[of 0 0] np d by simp
  obtain s1' pa where g: "get_page s1 = Inr (s1', pa)"
    using get_page_ok[of s1] wf1 S fr by (auto simp: vm_wf_def)
  have pg: "page_aligned ?p" using table_parts(1)[of "of_nat d"] u d by simp
  obtain s2 k where k: "k \<in> free_frames s1" "copy_page s1 ?p = Inr (s2, pa)" "pa = PAGE (of_nat k)" "vm_wf s2" "dir s2 = dir s1"
    and rm: "remap s1 s2 0 0 (set_flag 0 False (entry_init (of_nat k)))" and mm: "memory_map s2 = (memory_map s1)[k := 1]"
    and sl: "slack s2 = slack s1" and ff: "free_frames s2 = free_frames s1 - {k}"
    and st: "start_page s2 = start_page s1" "total_pages s2 = total_pages s1"
    and ct: "\<forall>j < 1024. phys s2 k j = phys s1 (frame (pde_at s d)) j"
    and ou: "\<forall>f. f \<noteq> k \<longrightarrow> f \<noteq> frame (pde_at s1 0) \<longrightarrow> phys s2 f = phys s1 f" and c3: "cr3 s2 = cr3 s1" "kernel_bitmap s2 = kernel_bitmap s1"
    using copy_page_spec[OF wf1 _ np1 pg tr h g] p0 pd by metis
  have L2: "lookup s2 d' t = (if d' = d then cow_entry (lookup s d t) else lookup s d' t)"
    if "d' < 1023" "t < 1024" "(d', t) \<noteq> (0, 0)" for d' t
    using rm L1 that by (auto simp: remap_def)
  have o2: "beyond {k, frame (pde_at s d), frame (pde_at s 0)} s s2"
    using o1 ou pd mm st c3 by (auto simp: beyond_def)
  have "phys s2 k t = lookup s2 d t" if "t < 1024" for t
    using ct L1[of d t] L2[of d t] that d pd[of d] by (simp add: lookup_def)
  moreover have "refs s2 f = refs s f + uses s f d [0..<1024]" if "f \<noteq> k" for f
    using S mm that by (simp add: refs_def)
  moreover have "k < length (memory_map s1)" using free_frame_facts(2)[OF _ k(1)] wf1 by (simp add: vm_wf_def)
  then have "refs s2 k = 1" by (simp add: refs_def mm)
  moreover have "slack s1 = slack s" using S by (simp add: slack_def)
  moreover have "\<not> present (lookup s2 0 0)" using rm by (simp add: remap_def)
  ultimately have "table_copied s d k s2"
    unfolding table_copied_def using k S o2 L2 sl ff by simp
  then show ?thesis using s1 k by blast
qed

text \<open>One directory number, present or not.\<close>

lemma forked_absent:
  assumes "forked s0 c ds s" "\<not> present (pde_at s0 d)"
  shows "forked s0 c (ds @ [d]) s"
proof -
  have t: "tables_of s0 (ds @ [d]) = tables_of s0 ds" using assms(2) by (simp add: tables_of_def)
  have "lookup s0 d t = 0" for t using assms(2) by (simp add: lookup_def)
  then have z: "uses s0 f d [0..<1024] = 0" "cow_entry (lookup s0 d t) = lookup s0 d t" for f t
    by (simp_all add: uses_def maps_def cow_entry_def)
  have "users s0 f (ds @ [d]) = users s0 f ds" for f by (simp add: users_def z)
  then show ?thesis
    using assms(1) z(2) by (simp add: forked_def forked_entries_def forked_tables_def forked_memory_def t)
qed

text \<open>No entry of the user part maps a free frame.\<close>

definition mapped_in_use :: "kmem \<Rightarrow> bool" where
  "mapped_in_use s = (\<forall>d t. 4 \<le> d \<longrightarrow> d < 1023 \<longrightarrow> t < 1024 \<longrightarrow> present (lookup s d t) \<longrightarrow>
     frame (lookup s d t) \<notin> free_frames s)"

lemma free_unused:
  assumes "mapped_in_use s" "k \<in> free_frames s"
  shows "4 \<le> d \<Longrightarrow> d < 1023 \<Longrightarrow> uses s k d [0..<1024] = 0" "\<forall>d\<in>set ds. 4 \<le> d \<and> d < 1023 \<Longrightarrow> users s k ds = 0"
proof -
  show 1: "4 \<le> d \<Longrightarrow> d < 1023 \<Longrightarrow> uses s k d [0..<1024] = 0" for d
    using assms by (auto simp: uses_def filter_empty_conv maps_def mapped_in_use_def)
  show "\<forall>d\<in>set ds. 4 \<le> d \<and> d < 1023 \<Longrightarrow> users s k ds = 0" using 1 by (auto simp: users_def)
qed

lemma frame_fresh:
  assumes "pm_wf s" "k \<in> free_frames s"
  shows "frame (set_index (of_nat k) e) = k" "IDX (PAGE (of_nat k)) = of_nat k"
  using free_frame_facts[OF assms] by (auto simp: frame_set_index intro: word_unat_eqI)

lemma write_apart:
  assumes "vm_wf s" "c \<notin> table_frames s"
  shows "vm_wf (phys_write s c i v)" "d < 1024 \<Longrightarrow> lookup (phys_write s c i v) d t = lookup s d t"
proof -
  have c: "c \<noteq> dir s" using low_tables_facts(3)[OF assms(1)] assms(2) by auto
  then show "vm_wf (phys_write s c i v)"
    using assms(1) by (simp add: vm_wf_def self_mapped_def tables_apart_def table_frames_def)
  show "lookup (phys_write s c i v) d t = lookup s d t" if "d < 1024"
    using assms(2) that c by (auto simp: lookup_def table_frames_def)
qed

lemma table_copied_keeps:
  assumes r: "fork_ready s0 pde" and f: "forked s0 (unat (IDX pde)) ds s" and ds: "\<forall>d\<in>set ds. 4 \<le> d"
    and d: "4 \<le> d" "d < 1023" "d \<notin> set ds" "present (pde_at s0 d)" and tc: "table_copied s d k s2"
  shows "pde_at s2 d' = pde_at s0 d'" "table_frames s2 = table_frames s0" "translate s2 pde = Some (unat (IDX pde))"
    "phys s2 (unat (IDX pde)) = phys s (unat (IDX pde))" "k \<noteq> unat (IDX pde)" "k \<in> free_frames s0" "dir s2 = dir s0"
proof -
  note R = r[unfolded fork_ready_def] and F = f[unfolded forked_def] and X = forked_fixed[OF r f ds]
    and T = tc[unfolded table_copied_def]
  have wf: "vm_wf s" and wf0: "vm_wf s0" using F R by blast+
  have lo: "frame (pde_at s d) \<in> table_frames s" "frame (pde_at s 0) \<in> table_frames s"
    using d R X(2) by (auto simp: table_frames_def)
  have nd: "frame (pde_at s d) \<noteq> dir s" "frame (pde_at s 0) \<noteq> dir s"
    using table_not_dir[OF wf, of d] table_not_dir[OF wf, of 0] d R X(2) by auto
  show k: "k \<noteq> unat (IDX pde)" "k \<in> free_frames s0" using T F X(5) by (auto simp: forked_memory_def)
  have kd: "k \<noteq> dir s" using free_not_table(1)[OF wf] T by blast
  have o: "beyond {k, frame (pde_at s d), frame (pde_at s 0)} s s2" using T by blast
  show "dir s2 = dir s0" using beyondD(2)[OF o] X(1) by simp
  have "pde_at s2 d' = pde_at s d'" for d' using beyondD(7)[OF o] kd nd by simp
  then show p: "pde_at s2 d' = pde_at s0 d'" for d' using X(2) by simp
  then show "table_frames s2 = table_frames s0" by (simp add: table_frames_def)
  show "phys s2 (unat (IDX pde)) = phys s (unat (IDX pde))"
    using beyondD(6)[OF o] k(1) lo X(4) by (metis insertE singletonD)
  have pl: "unat (DIDX pde) < 1023" "unat (DIDX pde) \<noteq> d" using R d by auto
  have "\<not> present (lookup s 0 0)" using F by (simp add: forked_entries_def)
  then have "lookup s (unat (DIDX pde)) (unat (TIDX pde)) \<noteq> lookup s 0 0"
    using X(3) by (auto simp: translate_lookup Let_def split: if_splits)
  then have "(unat (DIDX pde), unat (TIDX pde)) \<noteq> (0, 0)" by (metis prod.inject)
  then have "lookup s2 (unat (DIDX pde)) (unat (TIDX pde)) = lookup s (unat (DIDX pde)) (unat (TIDX pde))"
    using T pl TIDX_less[of pde] by auto
  then show "translate s2 pde = Some (unat (IDX pde))" using X(3) by (simp add: translate_lookup)
qed

lemma forked_present:
  assumes r: "fork_ready s0 pde" and f: "forked s0 (unat (IDX pde)) ds s" and ds: "\<forall>d\<in>set ds. 4 \<le> d \<and> d < 1023"
    and d: "4 \<le> d" "d < 1023" "d \<notin> set ds" "present (pde_at s0 d)" and tc: "table_copied s d k s2" and mu: "mapped_in_use s0"
  shows "forked s0 (unat (IDX pde)) (ds @ [d]) (phys_write s2 (unat (IDX pde)) d (set_index (of_nat k) (pde_at s0 d)))"
proof -
  let ?c = "unat (IDX pde)"
  let ?s = "phys_write s2 ?c d (set_index (of_nat k) (pde_at s0 d))"
  have ds4: "\<forall>d\<in>set ds. 4 \<le> d" using ds by blast
  note R = r[unfolded fork_ready_def] and F = f[unfolded forked_def] and X = forked_fixed[OF r f ds4]
    and T = tc[unfolded table_copied_def] and K = table_copied_keeps[OF r f ds4 d tc]
  have wf: "vm_wf s" and wf0: "vm_wf s0" and wf2: "vm_wf s2" using F R T by blast+
  have ct: "?c \<notin> table_frames s2" using R K(2) by simp
  note W = write_apart[OF wf2 ct]
  have pm: "pm_wf s" using wf by (simp add: vm_wf_def)
  have fk: "frame (set_index (of_nat k) e) = k" for e using frame_fresh(1)[OF pm] T by blast
  have tb: "tables_of s0 (ds @ [d]) = tables_of s0 ds @ [d]" using d by (simp add: tables_of_def)
  have nt: "d \<notin> set (tables_of s0 ds)" using d by (simp add: tables_of_def)
  have lo: "frame (pde_at s d) \<in> low_tables s0" "frame (pde_at s 0) \<in> low_tables s0"
    using d R X(2) by (auto simp: low_tables_def)
  have o2: "beyond {k, frame (pde_at s d), frame (pde_at s 0)} s s2" using T by blast
  let ?F = "insert ?c (free_frames s0 \<union> low_tables s0)"
  have "beyond ?F s0 s" using F by blast
  moreover have "beyond ?F s s2" by (rule beyond_mono[OF o2]) (use lo K(6) in auto)
  moreover have "beyond ?F s2 ?s" by (auto simp: beyond_def fun_eq_iff)
  ultimately have o: "beyond ?F s0 ?s" by (blast intro: beyond_trans)
  have L: "lookup ?s d' t = (if d' = d then cow_entry (lookup s d t) else lookup s d' t)"
    if "d' < 1023" "t < 1024" "(d', t) \<noteq> (0, 0)" for d' t
  proof -
    have "lookup s2 d' t = (if d' = d then cow_entry (lookup s d t) else lookup s d' t)" using T that by blast
    then show ?thesis using W(2)[of d'] that(1) by simp
  qed
  have L0: "lookup s d' t = (if d' \<in> set ds then cow_entry (lookup s0 d' t) else lookup s0 d' t)"
    if "d' < 1023" "t < 1024" "(d', t) \<noteq> (0, 0)" for d' t
    using F that unfolding forked_entries_def by blast
  have "\<not> present (lookup ?s 0 0)" using W(2)[of 0] T by simp
  moreover have "lookup ?s d' t = (if d' \<in> set (ds @ [d]) then cow_entry (lookup s0 d' t) else lookup s0 d' t)"
    if "d' < 1023" "t < 1024" "(d', t) \<noteq> (0, 0)" for d' t
    using L[OF that] L0[OF that] L0[of d t] that d by auto
  ultimately have e: "forked_entries s0 (ds @ [d]) ?s" unfolding forked_entries_def by blast
  have fs: "free_frames ?s = free_frames s - {k}" using T by simp
  have FT: "forked_tables s0 ?c ds s" using F by blast
  have pc: "phys ?s ?c d' = (if d' = d then set_index (of_nat k) (pde_at s0 d) else phys s ?c d')" for d'
    using K(4) by simp
  have old: "own_table s0 ?c ?s d'" if m: "d' \<in> set (tables_of s0 ds)" for d'
  proof -
    have dd: "d' \<noteq> d" "d' \<in> set ds" "present (pde_at s0 d')" "4 \<le> d'" "d' < 1023"
      using m nt ds by (auto simp: tables_of_def)
    let ?k = "frame (phys s ?c d')"
    have ow: "phys s ?c d' = set_index (of_nat ?k) (pde_at s0 d')" "?k \<in> free_frames s0" "?k \<notin> free_frames s"
      "\<forall>t<1024. phys s ?k t = lookup s d' t" using FT m by (simp_all add: forked_tables_def own_table_def Let_def)
    have nk: "?k \<noteq> ?c" "?k \<noteq> k" using ow(2,3) R T by auto
    have "?k \<notin> low_tables s0" using ow(2) low_tables_facts(2,5)[OF wf0] by auto
    then have "?k \<notin> {k, frame (pde_at s d), frame (pde_at s 0)}" using nk lo by auto
    then have "phys s2 ?k = phys s ?k" by (rule beyondD(6)[OF o2])
    then have "phys ?s ?k = phys s ?k" using nk by auto
    moreover have "lookup ?s d' t = lookup s d' t" if "t < 1024" for t using L[of d' t] that dd by auto
    ultimately have "\<forall>t<1024. phys ?s ?k t = lookup ?s d' t" using ow(4) by metis
    then show ?thesis unfolding own_table_def Let_def pc[of d'] if_not_P[OF dd(1)] fs using ow nk by blast
  qed
  have new: "own_table s0 ?c ?s d"
    unfolding own_table_def Let_def pc fk fs
    using K(5,6) T W(2)[of d] d fk by simp
  have fr: "frame (phys ?s ?c d') = (if d' = d then k else frame (phys s ?c d'))" for d' using pc[of d'] fk by simp
  have "k \<noteq> frame (phys s ?c d')" if "d' \<in> set (tables_of s0 ds)" for d'
    using FT that T by (auto simp: forked_tables_def own_table_def Let_def)
  then have "inj_on (\<lambda>d'. frame (phys ?s ?c d')) (set (tables_of s0 (ds @ [d])))"
    using FT nt unfolding tb fr by (auto simp: forked_tables_def inj_on_def)
  moreover have "own_table s0 ?c ?s d'" if "d' \<in> set (tables_of s0 (ds @ [d]))" for d'
    using that old new unfolding tb by (cases "d' = d") simp_all
  moreover have "phys ?s ?c d' = pde_at s0 d'" if "d' < 1023" "d' \<notin> set (tables_of s0 (ds @ [d]))" for d'
    using that FT unfolding tb pc by (simp add: forked_tables_def)
  moreover have "phys ?s ?c 1023 = entry_init (of_nat ?c)"
    using FT d unfolding pc by (simp add: forked_tables_def)
  ultimately have t: "forked_tables s0 ?c (ds @ [d]) ?s" unfolding forked_tables_def by blast
  have "card (free_frames s) = Suc (card (free_frames s - {k}))"
    using T by (intro card.remove) auto
  moreover have "refs ?s f = refs s0 f + users s0 f (ds @ [d]) + kids ?s ?c (tables_of s0 (ds @ [d])) f" for f
  proof -
    have us: "uses s f d [0..<1024] = uses s0 f d [0..<1024]" for f
      unfolding uses_def using L0[of d] d by (intro arg_cong[of _ _ length] filter_cong) auto
    have "kids ?s ?c (tables_of s0 ds) f = kids s ?c (tables_of s0 ds) f"
      unfolding kids_def fr using nt by (intro arg_cong[of _ _ length] filter_cong) auto
    then have kd: "kids ?s ?c (tables_of s0 (ds @ [d])) f = kids s ?c (tables_of s0 ds) f + (if f = k then 1 else 0)"
      unfolding tb kids_def filter_append length_append filter.simps(2) fr by simp
    have rs: "refs s f = refs s0 f + users s0 f ds + kids s ?c (tables_of s0 ds) f"
      using F by (simp add: forked_memory_def)
    have r2: "refs ?s f = refs s2 f" by (simp add: refs_def)
    show ?thesis
    proof (cases "f = k")
      case True
      have "refs s k = 0" using T by (simp add: free_frames_def refs_def)
      then have "refs s0 k = 0" "kids s ?c (tables_of s0 ds) k = 0" using rs True by simp_all
      moreover have "users s0 k (ds @ [d]) = 0" using free_unused(2)[OF mu K(6)] ds d by auto
      ultimately show ?thesis using T True kd r2 by simp
    next
      case False
      have "refs s2 f = refs s f + uses s f d [0..<1024]" using T False by blast
      then show ?thesis using False kd r2 rs us by (simp add: users_def)
    qed
  qed
  ultimately have "forked_memory s0 ?c (ds @ [d]) ?s"
    using F T unfolding forked_memory_def tb fs by auto
  then show ?thesis using W(1) o e t by (simp add: forked_def)
qed

lemma fork_step:
  assumes r: "fork_ready s0 pde" and f: "forked s0 (unat (IDX pde)) ds s" and ds: "\<forall>d\<in>set ds. 4 \<le> d \<and> d < 1023"
    and d: "4 \<le> d" "d < 1023" "d \<notin> set ds" and sh: "present (pde_at s0 d) \<Longrightarrow> shareable s d [0..<1024]"
    and fr: "present (pde_at s0 d) \<Longrightarrow> free_frames s \<noteq> {} \<and> 1 < free_pages s" and mu: "mapped_in_use s0"
  shows "\<exists>s'. copy_tables s pde d (Suc n) = copy_tables s' pde (Suc d) n \<and> forked s0 (unat (IDX pde)) (ds @ [d]) s'"
proof -
  let ?c = "unat (IDX pde)"
  let ?p = "PDE_MASK OR push_bit 12 (of_nat d) :: u32"
  have ds4: "\<forall>d\<in>set ds. 4 \<le> d" using ds by blast
  note R = r[unfolded fork_ready_def] and F = f[unfolded forked_def] and X = forked_fixed[OF r f ds4]
  have "d \<notin> set (tables_of s0 ds)" using d by (simp add: tables_of_def)
  then have pc: "phys s ?c d = pde_at s0 d" using F d by (simp add: forked_tables_def)
  have rd: "vread s (elem pde d) = Inr (pde_at s0 d)"
    using vread_elem(1)[of pde d s ?c] R X(3) d pc by simp
  show ?thesis
  proof (cases "present (pde_at s0 d)")
    case False
    then show ?thesis using forked_absent[OF f False] rd by (intro exI[of _ s]) simp
  next
    case True
    have wf: "vm_wf s" and np: "\<not> present (lookup s 0 0)" using F by (simp_all add: forked_entries_def)
    have p: "present (pde_at s d)" "present (pde_at s 0)" using True R X(2) by simp_all
    obtain s1 s2 k where S: "share_loop s ?p 0 1024 = Inr s1" "copy_page s1 ?p = Inr (s2, PAGE (of_nat k))"
      and tc: "table_copied s d k s2"
      using copy_table_ok[OF wf p(2) np d(1,2) p(1) sh[OF True]] fr[OF True] by blast
    note K = table_copied_keeps[OF r f ds4 d True tc]
    have "pm_wf s" "k \<in> free_frames s" using wf tc by (simp_all add: vm_wf_def table_copied_def)
    note fk = frame_fresh(2)[OF this]
    have "vmod s2 (elem pde d) (set_index (IDX (PAGE (of_nat k))))
        = Inr (phys_write s2 ?c d (set_index (of_nat k) (pde_at s0 d)))"
      using vread_elem[of pde d s2 ?c] R K(3,4) d pc fk by (simp add: vmod_def)
    then have "copy_tables s pde d (Suc n)
        = copy_tables (phys_write s2 ?c d (set_index (of_nat k) (pde_at s0 d))) pde (Suc d) n"
      using S rd True by (simp add: Let_def)
    then show ?thesis using forked_present[OF r f ds d True tc mu] by blast
  qed
qed

text \<open>All pages can be shared, and there are frames for the tables.\<close>

definition room_to_fork :: "kmem \<Rightarrow> bool" where
  "room_to_fork s = ((\<forall>d. 4 \<le> d \<and> d < 1023 \<longrightarrow> (\<forall>t<1024. present (lookup s d t) \<longrightarrow>
       frame (lookup s d t) < length (memory_map s) \<and> 0 < refs s (frame (lookup s d t))
       \<and> refs s (frame (lookup s d t)) + users s (frame (lookup s d t)) user_dirs < 255))
     \<and> length (tables_of s user_dirs) \<le> card (free_frames s)
     \<and> length (tables_of s user_dirs) < unat (free_pages s))"

lemma room_in_use: "room_to_fork s \<Longrightarrow> mapped_in_use s"
proof -
  assume r: "room_to_fork s"
  have "memory_map s ! frame (lookup s d t) \<noteq> 0" if "4 \<le> d" "d < 1023" "t < 1024" "present (lookup s d t)" for d t
    using r that by (fastforce simp: room_to_fork_def refs_def)
  then show ?thesis by (simp add: mapped_in_use_def free_frames_def)
qed

lemma users_append: "users s f (ds @ es) = users s f ds + users s f es"
  by (simp add: users_def)

lemma uses_pos: "0 < uses s f d js \<longleftrightarrow> (\<exists>t\<in>set js. maps f (lookup s d t))"
  by (auto simp: uses_def filter_empty_conv)

lemma forked_pages:
  assumes f: "forked_memory s0 c ds s" and n: "length (tables_of s0 ds) \<le> unat (free_pages s0)"
  shows "unat (free_pages s) = unat (free_pages s0) - length (tables_of s0 ds)"
proof -
  let ?n = "length (tables_of s0 ds)"
  have c: "card (free_frames s0) = card (free_frames s) + ?n" and sl: "slack s = slack s0"
    using f by (simp_all add: forked_memory_def)
  have fp: "free_pages s = free_pages s0 - of_nat ?n"
    using sl unfolding slack_def c by (simp add: algebra_simps)
  have u: "unat (of_nat ?n :: u32) = ?n" using n unat_lt32[of "free_pages s0"] by (simp add: unat_of_nat32)
  then show "unat (free_pages s) = unat (free_pages s0) - ?n"
    unfolding fp using n by (subst unat_sub) (simp_all add: word_le_nat_alt)
qed

lemma forked_room:
  assumes r: "fork_ready s0 pde" and f: "forked s0 (unat (IDX pde)) [4..<d] s" and m: "room_to_fork s0"
    and d: "4 \<le> d" "d < 1023" "present (pde_at s0 d)"
  shows "shareable s d [0..<1024]" "free_frames s \<noteq> {}" "1 < free_pages s"
proof -
  note R = r[unfolded fork_ready_def] and F = f[unfolded forked_def] and M = m[unfolded room_to_fork_def]
  have L: "lookup s d t = lookup s0 d t" if "t < 1024" for t
    using F d that by (auto simp: forked_entries_def)
  have us: "uses s g d [0..<1024] = uses s0 g d [0..<1024]" for g
    unfolding uses_def using L by (intro arg_cong[of _ _ length] filter_cong) auto
  have up: "user_dirs = [4..<d] @ d # [Suc d..<1023]"
    unfolding user_dirs_def using d upt_add_eq_append[of 4 d "1023 - d"] by (simp add: upt_conv_Cons)
  have fm: "forked_memory s0 (unat (IDX pde)) [4..<d] s" and wf: "vm_wf s" and o: "length (memory_map s) = length (memory_map s0)"
    using F beyondD(5) by blast+
  have A: "frame e < length (memory_map s) \<and> 0 < refs s (frame e) \<and> refs s (frame e) + uses s (frame e) d [0..<1024] < 255"
    if e: "e = lookup s d t" "t < 1024" "present e" for e t
  proof -
    have b: "frame e < length (memory_map s0)" "0 < refs s0 (frame e)" "refs s0 (frame e) + users s0 (frame e) user_dirs < 255"
      using M d e L[of t] by auto
    then have "frame e \<notin> free_frames s0" by (auto simp: free_frames_def refs_def)
    then have "kids s (unat (IDX pde)) (tables_of s0 [4..<d]) (frame e) = 0"
      using F own_tableD(1) by (fastforce simp: kids_def filter_empty_conv forked_tables_def)
    then have "refs s (frame e) = refs s0 (frame e) + users s0 (frame e) [4..<d]" using fm by (simp add: forked_memory_def)
    moreover have "users s0 (frame e) user_dirs = users s0 (frame e) [4..<d] + (uses s0 (frame e) d [0..<1024] + users s0 (frame e) [Suc d..<1023])"
      unfolding up users_append by (simp add: users_def)
    ultimately show ?thesis using b o us by simp
  qed
  show "shareable s d [0..<1024]"
    unfolding shareable_def uses_pos using A by (auto simp: maps_def)
  have "tables_of s0 user_dirs = tables_of s0 [4..<d] @ d # tables_of s0 [Suc d..<1023]"
    unfolding up using d by (simp add: tables_of_def)
  then have n: "length (tables_of s0 [4..<d]) < length (tables_of s0 user_dirs)" by simp
  have c: "card (free_frames s0) = card (free_frames s) + length (tables_of s0 [4..<d])"
    using fm by (simp add: forked_memory_def)
  have "0 < card (free_frames s)" using c n M by linarith
  then show "free_frames s \<noteq> {}" by auto
  have "length (tables_of s0 [4..<d]) + 1 < unat (free_pages s0)" using n M by linarith
  then show "1 < free_pages s" using forked_pages[OF fm] by (simp add: word_less_nat_alt)
qed

lemma copy_tables_ok:
  assumes r: "fork_ready s0 pde" and m: "room_to_fork s0" and f: "forked s0 (unat (IDX pde)) [4..<d] s"
    and d: "4 \<le> d" "d + n = 1023"
  shows "\<exists>s'. copy_tables s pde d n = Inr s' \<and> forked s0 (unat (IDX pde)) user_dirs s'"
  using f d
proof (induction n arbitrary: s d)
  case (Suc n)
  have up: "[4..<Suc d] = [4..<d] @ [d]" using Suc.prems(2) by simp
  obtain s' where s': "copy_tables s pde d (Suc n) = copy_tables s' pde (Suc d) n" "forked s0 (unat (IDX pde)) [4..<Suc d] s'"
    using fork_step[OF r Suc.prems(1), of d n] room_in_use[OF m] forked_room[OF r Suc.prems(1) m] Suc.prems(2,3) unfolding up by auto
  then show ?case using Suc.IH[OF s'(2)] Suc.prems(2,3) by auto
qed (simp add: user_dirs_def)

subsection \<open>The fork\<close>

lemma bitmap_apart [simp]:
  "dir (s\<lparr>kernel_bitmap := b\<rparr>) = dir s" "pde_at (s\<lparr>kernel_bitmap := b\<rparr>) d = pde_at s d"
  "lookup (s\<lparr>kernel_bitmap := b\<rparr>) d t = lookup s d t" "table_frames (s\<lparr>kernel_bitmap := b\<rparr>) = table_frames s"
  "free_frames (s\<lparr>kernel_bitmap := b\<rparr>) = free_frames s" "translate (s\<lparr>kernel_bitmap := b\<rparr>) va = translate s va"
  "refs (s\<lparr>kernel_bitmap := b\<rparr>) f = refs s f" "vm_wf (s\<lparr>kernel_bitmap := b\<rparr>) = vm_wf s"
  "users (s\<lparr>kernel_bitmap := b\<rparr>) f ds = users s f ds" "tables_of (s\<lparr>kernel_bitmap := b\<rparr>) ds = tables_of s ds"
  by (simp_all add: dir_def pde_at_def lookup_def table_frames_def free_frames_def translate_def Let_def refs_def vm_wf_def
      self_mapped_def tables_apart_def pm_wf_def users_def uses_def tables_of_def)

lemma bitmap_fork:
  "fork_ready (s\<lparr>kernel_bitmap := b\<rparr>) pde = fork_ready s pde" "room_to_fork (s\<lparr>kernel_bitmap := b\<rparr>) = room_to_fork s"
  by (simp_all add: fork_ready_def room_to_fork_def)

text \<open>The child's directory is a copy that ends with an entry for itself.\<close>

lemma new_directory:
  assumes r: "fork_ready s pde" and t: "page_aligned (cr3 s)" "translate s (cr3 s) = Some (dir s)"
  shows "\<exists>s1 s2. page_copy s pde (cr3 s) = Inr s1 \<and> vwrite s1 (elem pde 1023) (entry_init (IDX pde)) = Inr s2
    \<and> forked s (unat (IDX pde)) [] s2"
proof -
  let ?c = "unat (IDX pde)"
  let ?s1 = "set_range s ?c 0 1024 (phys s (dir s))"
  let ?s2 = "phys_write ?s1 ?c 1023 (entry_init (IDX pde))"
  note R = r[unfolded fork_ready_def]
  have wf: "vm_wf s" using R by blast
  have c: "?c \<noteq> dir s" "\<And>d. d < 1024 \<Longrightarrow> present (pde_at s d) \<Longrightarrow> ?c \<noteq> frame (pde_at s d)"
    using R low_tables_facts(3)[OF wf] by (auto simp: table_frames_def)
  have p: "present (pde_at s (unat (DIDX va)))" if "translate s va = Some f" for va f
    using that by (auto simp: translate_def pde_at_def Let_def split: if_splits)
  have 1: "page_copy s pde (cr3 s) = Inr ?s1"
    unfolding page_copy_def
    using R t c p[OF t(2)] p[of pde] DIDX_less by (intro vcopy_range) auto
  have pd: "pde_at ?s1 d = pde_at s d" for d using c(1) by (simp add: pde_at_set_range)
  have wf1: "vm_wf ?s1" using vm_wf_set_range[OF wf c(1)] .
  have L1: "lookup ?s1 d t = lookup s d t" if "d < 1024" for d t
    using c that by (intro lookup_set_range) auto
  have tf: "?c \<notin> table_frames ?s1" using R pd by (simp add: table_frames_def)
  have "translate ?s1 pde = Some ?c" using R L1[OF DIDX_less] by (simp add: translate_lookup)
  then have 2: "vwrite ?s1 (elem pde 1023) (entry_init (IDX pde)) = Inr ?s2"
    using R by (intro vread_elem(2)) auto
  note W = write_apart[OF wf1 tf]
  have "beyond (insert ?c (free_frames s \<union> low_tables s)) s ?s2" by (auto simp: beyond_def fun_eq_iff set_range_def)
  moreover have "forked_entries s [] ?s2" using W(2) L1 R by (simp add: forked_entries_def)
  moreover have "forked_tables s ?c [] ?s2" by (simp add: forked_tables_def tables_of_def pde_at_def)
  moreover have "refs ?s2 f = refs s f" for f by (simp add: refs_def)
  then have "forked_memory s ?c [] ?s2" by (simp add: forked_memory_def users_def tables_of_def kids_def slack_def)
  ultimately show ?thesis using 1 2 W(1) by (auto simp: forked_def)
qed

text \<open>What a completed fork means for parent and child.\<close>

lemma child_space:
  assumes r: "fork_ready s0 pde" and f: "forked s0 (unat (IDX pde)) user_dirs s"
  defines "ch \<equiv> s\<lparr>cr3 := pde\<rparr>"
  shows "d < 4 \<Longrightarrow> lookup ch d t = lookup s d t"
    "4 \<le> d \<Longrightarrow> d < 1023 \<Longrightarrow> t < 1024 \<Longrightarrow> lookup ch d t = cow_entry (lookup s0 d t)"
    "4 \<le> d \<Longrightarrow> d < 1023 \<Longrightarrow> t < 1024 \<Longrightarrow> lookup s d t = cow_entry (lookup s0 d t)"
    "4 \<le> d \<Longrightarrow> d < 1023 \<Longrightarrow> present (pde_at ch d) \<Longrightarrow> frame (pde_at ch d) \<in> free_frames s0 - free_frames s"
    "vm_wf ch"
    "d < 1023 \<Longrightarrow> present (pde_at ch d) = present (pde_at s0 d)"
proof -
  let ?c = "unat (IDX pde)" and ?T = "set (tables_of s0 user_dirs)"
  note R = r[unfolded fork_ready_def] and F = f[unfolded forked_def] and X = forked_fixed[OF r f]
  have wf: "vm_wf s" and wf0: "vm_wf s0" using F R by blast+
  have FT: "forked_tables s0 ?c user_dirs s" and FM: "forked_memory s0 ?c user_dirs s" using F by blast+
  have T: "d \<in> ?T \<longleftrightarrow> 4 \<le> d \<and> d < 1023 \<and> present (pde_at s0 d)" for d by (auto simp: tables_of_def)
  have pc: "pde_at ch d = phys s ?c d" "phys ch = phys s" for d by (simp_all add: ch_def pde_at_def dir_def)
  have own: "own_table s0 ?c s d" if "d \<in> ?T" for d using FT that by (simp add: forked_tables_def)
  have other: "phys s ?c d = pde_at s0 d" if "d < 1023" "d \<notin> ?T" for d using FT that by (simp add: forked_tables_def)
  have last: "pde_at ch 1023 = entry_init (IDX pde)" using FT by (simp add: forked_tables_def pc)
  show L: "4 \<le> d \<Longrightarrow> d < 1023 \<Longrightarrow> t < 1024 \<Longrightarrow> lookup s d t = cow_entry (lookup s0 d t)" for d t
    using F by (simp add: forked_entries_def)
  show "d < 4 \<Longrightarrow> lookup ch d t = lookup s d t" for d t
    using other[of d] T[of d] X(2) by (simp add: lookup_def pc)
  show pr: "present (pde_at ch d) = present (pde_at s0 d)" if "d < 1023" for d
    unfolding pc using own_tableD(2)[OF own] other[OF that] by (cases "d \<in> ?T") simp_all
  show "4 \<le> d \<Longrightarrow> d < 1023 \<Longrightarrow> present (pde_at ch d) \<Longrightarrow> frame (pde_at ch d) \<in> free_frames s0 - free_frames s" for d
    using own_tableD(1)[OF own[of d]] T[of d] pr[of d] by (simp add: pc)
  show "lookup ch d t = cow_entry (lookup s0 d t)" if "4 \<le> d" "d < 1023" "t < 1024" for d t
  proof (cases "d \<in> ?T")
    case True
    then show ?thesis using own_tableD(3)[OF own[OF True] that(3)] that L pr[of d] T[of d] by (simp add: lookup_def[of ch] pc)
  next
    case False
    then show ?thesis using that T[of d] pr[of d] by (simp add: lookup_def cow_entry_def)
  qed
  have b: "?c < 2 ^ 20" using frame_less[of pde] by (simp add: frame_def IDX_def)
  have dc: "dir ch = ?c" "free_frames ch = free_frames s" "pm_wf ch = pm_wf s"
    by (simp_all add: ch_def dir_def free_frames_def pm_wf_def)
  have sm: "self_mapped ch" using last b dc by (simp add: self_mapped_def frame_entry_init)
  let ?g = "\<lambda>d. frame (pde_at ch d)"
  have g: "?g 1023 = ?c" "d \<in> ?T \<Longrightarrow> ?g d \<in> free_frames s0 - free_frames s"
    "d < 1023 \<Longrightarrow> d \<notin> ?T \<Longrightarrow> present (pde_at ch d) \<Longrightarrow> ?g d = frame (pde_at s0 d) \<and> ?g d \<in> table_frames s0" for d
  proof -
    show "?g 1023 = ?c" using last b by (simp add: frame_entry_init)
    show "d \<in> ?T \<Longrightarrow> ?g d \<in> free_frames s0 - free_frames s" using own_tableD(1)[OF own] by (simp add: pc)
    show "d < 1023 \<Longrightarrow> d \<notin> ?T \<Longrightarrow> present (pde_at ch d) \<Longrightarrow> ?g d = frame (pde_at s0 d) \<and> ?g d \<in> table_frames s0"
      using other[of d] by (auto simp: pc table_frames_def)
  qed
  have dj: "?c \<notin> free_frames s0" "?c \<notin> table_frames s0" "table_frames s0 \<inter> free_frames s0 = {}"
    using R low_tables_facts(5)[OF wf0] by blast+
  have "inj_on (\<lambda>d. frame (phys s ?c d)) ?T" using FT by (simp add: forked_tables_def)
  then have inj: "inj_on ?g ?T" by (simp add: pc)
  have ne: "?g d \<noteq> ?g d'"
    if "d < 1024" "d' < 1024" "d < d'" "present (pde_at ch d)" "present (pde_at ch d')" for d d'
  proof -
    have lt: "d < 1023" and dc: "d' = 1023 \<or> d' < 1023" using that(2,3) by linarith+
    consider "d' = 1023" | "d' < 1023" "d \<in> ?T" "d' \<in> ?T" | "d' < 1023" "d \<in> ?T" "d' \<notin> ?T"
      | "d' < 1023" "d \<notin> ?T" "d' \<in> ?T" | "d' < 1023" "d \<notin> ?T" "d' \<notin> ?T" using dc by blast
    then show ?thesis
    proof cases
      case 1
      then show ?thesis using g(1) g(2)[of d] g(3)[of d, OF lt _ that(4)] dj(1,2) by fastforce
    next
      case 2
      then show ?thesis using inj that(3) by (auto simp: inj_on_def)
    next
      case 3
      then show ?thesis using g(2)[of d] g(3)[of d', OF _ _ that(5)] dj(3) by fastforce
    next
      case 4
      then show ?thesis using g(2)[of d'] g(3)[of d, OF lt _ that(4)] dj(3) by fastforce
    next
      case 5
      have "frame (pde_at s0 d) \<noteq> frame (pde_at s0 d')"
        using wf0 that(1-3) pr[OF lt] pr[OF 5(1)] that(4,5) by (auto simp: vm_wf_def tables_apart_def)
      then show ?thesis using 5 g(3)[of d, OF lt _ that(4)] g(3)[of d', OF _ _ that(5)] by simp
    qed
  qed
  have "tables_apart ch"
    unfolding tables_apart_def by (intro allI impI) (metis ne linorder_neqE_nat)
  moreover have "?g d \<notin> free_frames s" if "d < 1024" "present (pde_at ch d)" for d
  proof -
    have fs: "free_frames s \<subseteq> free_frames s0" using FM by (simp add: forked_memory_def)
    have dc: "d = 1023 \<or> d < 1023" using that(1) by linarith
    consider "d = 1023" | "d \<in> ?T" | "d < 1023" "d \<notin> ?T" using dc by blast
    then show ?thesis
    proof cases
      case 1
      then show ?thesis using g(1) dj(1) fs by auto
    next
      case 2
      then show ?thesis using g(2) by blast
    next
      case 3
      then show ?thesis using g(3)[OF 3 that(2)] dj(3) fs by auto
    qed
  qed
  then have "table_frames ch \<inter> free_frames ch = {}" unfolding dc(2) by (auto simp: table_frames_def)
  ultimately show "vm_wf ch" using sm wf dc(3) by (simp add: vm_wf_def)
qed

lemma copy_pde_ok:
  assumes r: "fork_ready s pde" and al: "alloc_kpage s 1 = Inr (sa, pde)"
    and t: "t_pde task = cr3 s" "page_aligned (cr3 s)" "translate s (cr3 s) = Some (dir s)" and m: "room_to_fork s"
  shows "\<exists>s'. copy_pde s task = Inr (s', pde) \<and> forked sa (unat (IDX pde)) user_dirs s'"
proof -
  obtain b where sa: "sa = s\<lparr>kernel_bitmap := b\<rparr>" using al by (auto simp: alloc_kpage_def split: prod.splits)
  have ra: "fork_ready sa pde" "room_to_fork sa" "page_aligned (cr3 sa)" "translate sa (cr3 sa) = Some (dir sa)"
    using r m t by (simp_all add: sa bitmap_fork)
  obtain s1 s2 where s2: "page_copy sa pde (cr3 sa) = Inr s1" "vwrite s1 (elem pde 1023) (entry_init (IDX pde)) = Inr s2"
    "forked sa (unat (IDX pde)) [] s2" using new_directory[OF ra(1,3,4)] by blast
  then obtain s3 where s3: "copy_tables s2 pde 4 1019 = Inr s3" "forked sa (unat (IDX pde)) user_dirs s3"
    using copy_tables_ok[OF ra(1,2), of 4 s2 1019] by auto
  have c: "cr3 sa = cr3 s" "cr3 s3 = cr3 s" using beyondD(1) s3(2) by (auto simp: forked_def sa)
  have four: "length KERNEL_PAGE_TABLE = 4" by (simp add: KERNEL_PAGE_TABLE_def)
  have "set_cr3 s3 (t_pde task) = Inr s3" using t c by (simp add: set_cr3_def)
  then show ?thesis
    using al s2 s3 c t(1) by (intro exI[of _ s3]) (simp add: copy_pde_def four)
qed

text \<open>C2: \<^verbatim>\<open>copy_pde\<close>, on a task whose pages can all be shared and with frames left for the
  tables, returns a directory that is well-formed like the parent's.  Every user address is
  translated as before in both; the entries are the same in both, read-only unless the page is
  shared; no table frame of the user part belongs to both; and every frame in use has gained as many
  references as entries map it.\<close>

theorem fork_shares_pages:
  assumes "fork_ready s pde" "alloc_kpage s 1 = Inr (sa, pde)" "t_pde task = cr3 s" "page_aligned (cr3 s)"
    "translate s (cr3 s) = Some (dir s)" "room_to_fork s"
  shows "\<exists>s' child. copy_pde s task = Inr (s', pde) \<and> child = s'\<lparr>cr3 := pde\<rparr> \<and> vm_wf s' \<and> vm_wf child
    \<and> (\<forall>va. 4 \<le> unat (DIDX va) \<longrightarrow> unat (DIDX va) < 1023 \<longrightarrow>
         translate s' va = translate s va \<and> translate child va = translate s va)
    \<and> (\<forall>d t. 4 \<le> d \<longrightarrow> d < 1023 \<longrightarrow> t < 1024 \<longrightarrow> lookup child d t = lookup s' d t
         \<and> (present (lookup s' d t) \<longrightarrow> writable (lookup s' d t) \<longrightarrow> shared (lookup s' d t)))
    \<and> (\<forall>d d'. 4 \<le> d \<longrightarrow> d < 1023 \<longrightarrow> 4 \<le> d' \<longrightarrow> d' < 1023 \<longrightarrow> present (pde_at child d) \<longrightarrow> present (pde_at s' d') \<longrightarrow>
         frame (pde_at child d) \<noteq> frame (pde_at s' d'))
    \<and> (\<forall>f. f \<notin> free_frames s \<longrightarrow> refs s' f = refs s f + users s f user_dirs)"
proof -
  obtain b where sa: "sa = s\<lparr>kernel_bitmap := b\<rparr>" using assms(2) by (auto simp: alloc_kpage_def split: prod.splits)
  have ra: "fork_ready sa pde" using assms(1) by (simp add: sa bitmap_fork)
  obtain s' where s': "copy_pde s task = Inr (s', pde)" "forked sa (unat (IDX pde)) user_dirs s'"
    using copy_pde_ok[OF assms] by blast
  let ?ch = "s'\<lparr>cr3 := pde\<rparr>"
  note C = child_space[OF ra s'(2)]
  have wf: "vm_wf sa" using ra by (simp add: fork_ready_def)
  have tf: "table_frames s' = table_frames sa" using forked_fixed(6)[OF ra s'(2)] by simp
  have tr: "translate s' va = translate s va \<and> translate ?ch va = translate s va"
    if "4 \<le> unat (DIDX va)" "unat (DIDX va) < 1023" for va
    using C(2,3)[OF that TIDX_less[of va]] by (simp add: translate_lookup sa)
  have en: "lookup ?ch d t = lookup s' d t \<and> (present (lookup s' d t) \<longrightarrow> writable (lookup s' d t) \<longrightarrow> shared (lookup s' d t))"
    if "4 \<le> d" "d < 1023" "t < 1024" for d t
    using C(2,3)[OF that] cow_entry_writable by simp
  have ap: "frame (pde_at ?ch d) \<noteq> frame (pde_at s' d')"
    if "4 \<le> d" "d < 1023" "d' < 1023" "present (pde_at ?ch d)" "present (pde_at s' d')" for d d'
  proof -
    have "frame (pde_at s' d') \<in> table_frames s'" using that(3,5) by (fastforce simp: table_frames_def)
    then have "frame (pde_at s' d') \<in> table_frames sa" by (simp only: tf)
    then show ?thesis using C(4)[OF that(1,2,4)] low_tables_facts(5)[OF wf] by fastforce
  qed
  have "refs s' f = refs s f + users s f user_dirs" if "f \<notin> free_frames s" for f
  proof -
    have "kids s' (unat (IDX pde)) (tables_of sa user_dirs) f = 0"
      using s'(2) that own_tableD(1) by (fastforce simp: kids_def filter_empty_conv forked_def forked_tables_def sa)
    then show ?thesis using s'(2) by (simp add: forked_def forked_memory_def sa)
  qed
  then show ?thesis
    using s' C(5) tr en ap by (intro exI[of _ s'] exI[of _ ?ch]) (simp add: forked_def)
qed

subsection \<open>An address space of one page\<close>

definition fork_mem :: kmem where
  "fork_mem = tiny\<lparr>phys := (\<lambda>f i. if f = 2 \<and> (i = 1 \<or> i = 256) then entry_init (of_nat i) else phys tiny f i),
     kernel_bitmap := bitmap_make [0] 1 256\<rparr>"

lemma fork_mem_dir [simp]: "dir fork_mem = 1" "cr3 fork_mem = 0x1000"
  by (simp_all add: fork_mem_def tiny_def dir_def unat_IDX)

lemma fork_mem_pde [simp]: "pde_at fork_mem d = pde_at tiny d"
  by (simp add: pde_at_def tiny_dir) (simp add: fork_mem_def)

lemma fork_mem_frames [simp]: "free_frames fork_mem = free_frames tiny" "table_frames fork_mem = table_frames tiny"
  "pm_wf fork_mem = pm_wf tiny" "memory_map fork_mem = memory_map tiny" "free_pages fork_mem = 18"
  by (simp_all add: free_frames_def table_frames_def pm_wf_def) (simp_all add: fork_mem_def tiny_def)

lemma fork_mem_lookup: "d < 1024 \<Longrightarrow> t < 1024 \<Longrightarrow>
  lookup fork_mem d t = (if d = 0 \<and> (t = 1 \<or> t = 256) then entry_init (of_nat t) else lookup tiny d t)"
  by (auto simp: lookup_def tiny_pde) (auto simp: fork_mem_def tiny_def)

lemma fork_mem_user:
  "4 \<le> d \<Longrightarrow> d < 1023 \<Longrightarrow> t < 1024 \<Longrightarrow>
   lookup fork_mem d t = (if d = 8 \<and> t = 0 then set_flag 1 False (entry_init 301) else 0)"
  by (simp add: fork_mem_lookup tiny_lookup)

lemma fork_mem_uses: "4 \<le> d \<Longrightarrow> d < 1023 \<Longrightarrow> uses fork_mem 301 d [0..<1024] = (if d = 8 then 1 else 0)"
proof -
  assume d: "4 \<le> d" "d < 1023"
  let ?js = "filter (\<lambda>j. maps 301 (lookup fork_mem d j)) [0..<1024]"
  have "length ?js = card (set ?js)" by (rule distinct_card[symmetric]) (intro distinct_filter distinct_upt)
  moreover have "set ?js = (if d = 8 then {0} else {})"
    unfolding set_filter set_upt using d by (auto simp: fork_mem_user maps_def split: if_splits)
  ultimately show ?thesis by (simp add: uses_def)
qed

lemma fork_mem_users: "users fork_mem 301 user_dirs = 1"
proof -
  have "users fork_mem 301 user_dirs = sum (\<lambda>d. uses fork_mem 301 d [0..<1024]) (set user_dirs)"
    unfolding users_def by (rule sum_list_distinct_conv_sum_set) (simp only: user_dirs_def distinct_upt)
  also have "\<dots> = sum (\<lambda>d. if d = 8 then 1 else 0) (set user_dirs)" by (intro sum.cong) (simp_all add: fork_mem_uses)
  finally show ?thesis by simp
qed

lemma fork_mem_ok: "fork_ready fork_mem 0x100000" "room_to_fork fork_mem"
  "translate fork_mem (cr3 fork_mem) = Some (dir fork_mem)" "page_aligned (cr3 fork_mem)"
proof -
  have p: "unat (DIDX 0x100000) = 0" "unat (TIDX 0x100000) = 256" "unat (IDX 0x100000) = 256"
    "unat (DIDX 0x1000) = 0" "unat (TIDX 0x1000) = 1" by (simp_all add: unat_DIDX unat_TIDX unat_IDX)
  have wf: "vm_wf fork_mem" using tiny_wf by (simp add: vm_wf_def self_mapped_def tables_apart_def tiny_dir)
  show "fork_ready fork_mem 0x100000"
    using wf by (simp add: fork_ready_def p page_aligned_iff translate_lookup fork_mem_lookup tiny_lookup tiny_pde tiny_tables tiny_free frame_entry_init)
  show "translate fork_mem (cr3 fork_mem) = Some (dir fork_mem)" "page_aligned (cr3 fork_mem)"
    by (simp_all add: p page_aligned_iff translate_lookup fork_mem_lookup)
  have "set (tables_of fork_mem user_dirs) = {8}" by (auto simp: tables_of_def tiny_pde)
  moreover have "distinct (tables_of fork_mem user_dirs)"
    unfolding tables_of_def user_dirs_def by (intro distinct_filter distinct_upt)
  ultimately have "length (tables_of fork_mem user_dirs) = 1" using distinct_card by fastforce
  then show "room_to_fork fork_mem"
    by (auto simp: room_to_fork_def fork_mem_user fork_mem_users tiny_free refs_def split: if_splits) (simp_all add: tiny_def nth_append)
qed

lemma fork_mem_page: "\<exists>sa. alloc_kpage fork_mem 1 = Inr (sa, 0x100000)"
proof -
  have "map_sum id snd (bitmap_scan (bitmap_make [0] 1 256) 1) = Inr 256" by code_simp
  then obtain m where m: "bitmap_scan (bitmap_make [0] 1 256) 1 = Inr (m, 256)"
    by (cases "bitmap_scan (bitmap_make [0] 1 256) 1") auto
  have "kernel_bitmap fork_mem = bitmap_make [0] 1 256" by (simp add: fork_mem_def)
  then show ?thesis using m by (simp add: alloc_kpage_def scan_page_def EOF_def PAGE_def push_bit_eq_mult)
qed

lemma fork_shares_pages_witness:
  "\<exists>s' child. copy_pde fork_mem tiny_task = Inr (s', 0x100000) \<and> child = s'\<lparr>cr3 := 0x100000\<rparr> \<and> vm_wf child
     \<and> translate s' 0x2000abc = Some 301 \<and> translate child 0x2000abc = Some 301 \<and> refs s' 301 = 3"
proof -
  obtain sa where sa: "alloc_kpage fork_mem 1 = Inr (sa, 0x100000)" using fork_mem_page by blast
  have t: "t_pde tiny_task = cr3 fork_mem" by (simp add: tiny_task_def)
  have u: "unat (DIDX 0x2000abc) = 8" "unat (TIDX 0x2000abc) = 0" by (simp_all add: unat_DIDX unat_TIDX)
  have tr: "translate fork_mem 0x2000abc = Some 301" by (simp add: translate_lookup u fork_mem_user)
  have r: "refs fork_mem 301 = 2" by (simp add: refs_def) (simp add: tiny_def nth_append)
  have "301 \<notin> free_frames fork_mem" by (simp add: tiny_free)
  then show ?thesis
    using fork_shares_pages[OF fork_mem_ok(1) sa t fork_mem_ok(4,3,2)] u tr r fork_mem_users by fastforce
qed

end
