(* ===== verification/Kpages.thy ===== *)
theory Kpages
  imports Vmem_Laws
begin

text \<open>
  The kernel's pages: \<^verbatim>\<open>alloc_kpage\<close> marks a run of pages of the kernel's bitmap that
  were not marked, and \<^verbatim>\<open>free_kpage\<close> takes the marks away.
\<close>

subsection \<open>Kernel pages\<close>

text \<open>The page numbers marked in the kernel's bitmap, which starts behind the first megabyte.\<close>

definition kpages :: "kmem \<Rightarrow> nat set" where
  "kpages m = (\<lambda>k. unat (offset (kernel_bitmap m)) + k) ` bm_used (kernel_bitmap m)"

definition base_page :: "kmem \<Rightarrow> nat" where
  "base_page m = unat (offset (kernel_bitmap m))"

definition kmap_ok :: "kmem \<Rightarrow> bool" where
  "kmap_ok m = (bm_wf (kernel_bitmap m) \<and> 1 \<le> base_page m \<and> base_page m + bm_size (kernel_bitmap m) \<le> 2 ^ 20)"

lemma kpages_below: "kmap_ok m \<Longrightarrow> f \<in> kpages m \<Longrightarrow> base_page m \<le> f \<and> f < 2 ^ 20"
  by (auto simp: kpages_def kmap_ok_def base_page_def bm_used_def)

lemma kpages_bit:
  "f \<in> kpages m \<longleftrightarrow> base_page m \<le> f \<and> f < base_page m + bm_size (kernel_bitmap m) \<and> bm_bit (kernel_bitmap m) (f - base_page m)"
  by (force simp: kpages_def base_page_def bm_used_def image_iff)

definition page_at :: "nat \<Rightarrow> u32" where
  "page_at f = of_nat (4096 * f)"

lemma page_at_simps:
  assumes "f < 2 ^ 20"
  shows "unat (page_at f) = 4096 * f" "PAGE (of_nat f) = page_at f" "page_aligned (page_at f)" "IDX (page_at f) = of_nat f"
proof -
  have f: "unat (of_nat f :: u32) = f" using assms by (simp add: unat_of_nat32)
  then show 1: "unat (page_at f) = 4096 * f" using assms unfolding page_at_def by (subst unat_of_nat32) simp_all
  show 2: "PAGE (of_nat f) = page_at f"
    using unat_PAGE[of "of_nat f"] f assms 1 by (intro word_unat_eqI) simp
  show "page_aligned (page_at f)" using page_aligned_PAGE[of "of_nat f"] 2 f assms by simp
  show "IDX (page_at f) = of_nat f" using unat_IDX[of "page_at f"] 1 f by (intro word_unat_eqI) simp
qed

definition kmarks :: "kmem \<Rightarrow> nat set \<Rightarrow> kmem \<Rightarrow> bool" where
  "kmarks m P m' = (kpages m' = P \<and> kmap_ok m' \<and> base_page m' = base_page m
     \<and> bm_size (kernel_bitmap m') = bm_size (kernel_bitmap m))"

text \<open>There is no run of \<open>n\<close> free kernel pages.\<close>

definition kfull :: "kmem \<Rightarrow> nat \<Rightarrow> bool" where
  "kfull m n = (\<forall>f. base_page m \<le> f \<and> f + n \<le> base_page m + bm_size (kernel_bitmap m) \<longrightarrow> {f..<f + n} \<inter> kpages m \<noteq> {})"

lemma alloc_kpage_cases:
  assumes "kmap_ok m" "0 < n" "n < 2 ^ 32"
  shows "alloc_kpage m (of_nat n) = Inl Panic \<and> kfull m n \<or> (\<exists>f m'. alloc_kpage m (of_nat n) = Inr (m', page_at f)
    \<and> {f..<f + n} \<inter> kpages m = {} \<and> kmarks m (kpages m \<union> {f..<f + n}) m' \<and> base_page m \<le> f \<and> f + n \<le> 2 ^ 20)"
proof -
  let ?b = "kernel_bitmap m"
  have wf: "bm_wf ?b" using assms(1) by (simp add: kmap_ok_def)
  have n0: "(of_nat n :: u32) > 0" using assms(2,3) by (simp add: word_less_nat_alt unat_of_nat32)
  from bitmap_scan_cases[OF wf assms(2,3)] show ?thesis
  proof
    assume none: "bitmap_scan ?b (of_nat n) = Inr (?b, EOF) \<and> (\<forall>t. \<not> free_run ?b t n)"
    then have "alloc_kpage m (of_nat n) = Inl Panic" using n0 by (simp add: alloc_kpage_def scan_page_def)
    moreover have "kfull m n"
      unfolding kfull_def
    proof (intro allI impI)
      fix f assume f: "base_page m \<le> f \<and> f + n \<le> base_page m + bm_size ?b"
      then obtain j where "j < n" "bm_bit ?b (f - base_page m + j)"
        using none[THEN conjunct2, THEN spec, of "f - base_page m"] by (auto simp: free_run_def)
      then have "f + j \<in> kpages m" using f by (auto simp: kpages_bit)
      moreover have "f + j \<in> {f..<f + n}" using \<open>j < n\<close> by simp
      ultimately show "{f..<f + n} \<inter> kpages m \<noteq> {}" by blast
    qed
    ultimately show ?thesis by blast
  next
    assume "\<exists>b' s. bitmap_scan ?b (of_nat n) = Inr (b', offset ?b + of_nat s) \<and> scan_ok ?b n b' s"
    then obtain b' s where s: "bitmap_scan ?b (of_nat n) = Inr (b', offset ?b + of_nat s)" "scan_ok ?b n b' s" by blast
    let ?f = "base_page m + s" and ?m = "m\<lparr>kernel_bitmap := b'\<rparr>"
    have sz: "s + n \<le> bm_size ?b" using s(2) by (simp add: scan_ok_def free_run_def)
    then have f: "base_page m \<le> ?f" "?f + n \<le> 2 ^ 20" "?f < 2 ^ 20" using assms(1,2) by (auto simp: kmap_ok_def)
    have idx: "offset ?b + of_nat s = of_nat ?f" by (simp add: base_page_def)
    have "(of_nat ?f :: u32) \<noteq> EOF"
    proof
      assume "(of_nat ?f :: u32) = EOF"
      then have "unat (of_nat ?f :: u32) = unat (- 1 :: u32)" by (simp only: EOF_def)
      then show False using unat_of_nat32[of ?f] f(3) by (simp add: unsigned_minus_1_eq_mask mask_eq_exp_minus_1)
    qed
    then have "alloc_kpage m (of_nat n) = Inr (?m, page_at ?f)"
      using s(1) n0 page_at_simps(2)[OF f(3)] unfolding idx by (simp add: alloc_kpage_def scan_page_def)
    moreover have used: "bm_used b' = bm_used ?b \<union> {s..<s + n}" "bm_used ?b \<inter> {s..<s + n} = {}"
      using scan_ok_used[OF s(2)] by auto
    have "kmap_ok ?m" "base_page ?m = base_page m" "bm_size (kernel_bitmap ?m) = bm_size ?b"
      using scan_ok_wf[OF wf s(2)] s(2) assms(1) by (auto simp: kmap_ok_def base_page_def scan_ok_def bm_size_def)
    moreover have "kpages ?m = kpages m \<union> {?f..<?f + n}"
      using s(2) used(1) by (auto simp: kpages_def base_page_def scan_ok_def image_Un ac_simps)
    moreover have "{?f..<?f + n} \<inter> kpages m = {}" using used(2) by (auto simp: kpages_def base_page_def)
    ultimately show ?thesis using f(1,2) by (intro disjI2 exI[of _ ?f] exI[of _ ?m]) (simp add: kmarks_def)
  qed
qed

lemma reset_loop_bits:
  assumes "bm_wf b" "s + i + n \<le> bm_size b" "\<forall>j<n. bm_bit b (s + i + j)"
  shows "\<exists>b'. reset_loop b (offset b + of_nat s) i n = Inr b' \<and> blen b' = blen b \<and> offset b' = offset b
    \<and> length (bits b') = length (bits b) \<and> (\<forall>j. bm_bit b' j = (bm_bit b j \<and> \<not> (s + i \<le> j \<and> j < s + i + n)))"
  using assms
proof (induction n arbitrary: b i)
  case (Suc n)
  have k: "s + i < bm_size b" "bm_bit b (s + i)" using Suc.prems(2,3) by (auto dest: spec[of _ 0])
  note t = bitmap_test_bit[OF Suc.prems(1) k(1)]
  obtain b1 where b1: "bitmap_set b (offset b + of_nat (s + i)) False = Inr b1" "blen b1 = blen b" "offset b1 = offset b"
    "length (bits b1) = length (bits b)" "\<forall>j. bm_bit b1 j = (if j = s + i then False else bm_bit b j)"
    using bitmap_set_bit[OF Suc.prems(1) k(1), of False] by blast
  have "bm_wf b1" "s + Suc i + n \<le> bm_size b1" using Suc.prems(1,2) b1(2-4) by (auto simp: bm_wf_def bm_size_def)
  moreover have "\<forall>j<n. bm_bit b1 (s + Suc i + j)"
  proof (intro allI impI)
    fix j assume "j < n"
    then have "bm_bit b (s + i + Suc j)" using Suc.prems(3) by blast
    then show "bm_bit b1 (s + Suc i + j)" using b1(5) by simp
  qed
  ultimately obtain b2 where b2: "reset_loop b1 (offset b1 + of_nat s) (Suc i) n = Inr b2" "blen b2 = blen b1" "offset b2 = offset b1"
    "length (bits b2) = length (bits b1)" "\<forall>j. bm_bit b2 j = (bm_bit b1 j \<and> \<not> (s + Suc i \<le> j \<and> j < s + Suc i + n))"
    using Suc.IH by blast
  have "reset_loop b (offset b + of_nat s) i (Suc n) = Inr b2"
    using t k(2) b1(1,3) b2(1) by (simp add: ac_simps)
  moreover have "bm_bit b2 j = (bm_bit b j \<and> \<not> (s + i \<le> j \<and> j < s + i + Suc n))" for j
    using b2(5) b1(5) by auto
  ultimately show ?case using b1 b2 by auto
qed auto

lemma free_kpage_ok:
  assumes ok: "kmap_ok m" and n: "0 < n" "n < 2 ^ 32" and sub: "{f..<f + n} \<subseteq> kpages m"
  shows "\<exists>m'. free_kpage m (page_at f) (of_nat n) = Inr m' \<and> kmarks m (kpages m - {f..<f + n}) m'"
proof -
  let ?b = "kernel_bitmap m" and ?s = "f - base_page m"
  have bit: "base_page m \<le> g \<and> g < base_page m + bm_size ?b \<and> bm_bit ?b (g - base_page m)" if "f \<le> g" "g < f + n" for g
    using sub that kpages_bit by auto
  have f: "base_page m \<le> f" "f + n \<le> base_page m + bm_size ?b" "f < 2 ^ 20"
    using bit[of f] bit[of "f + n - 1"] n(1) ok by (auto simp: kmap_ok_def simp del: One_nat_def) linarith
  have wf: "bm_wf ?b" using ok by (simp add: kmap_ok_def)
  have n0: "(of_nat n :: u32) > 0" "unat (of_nat n :: u32) = n" using n by (simp_all add: word_less_nat_alt unat_of_nat32)
  have "\<forall>j<n. bm_bit ?b (?s + 0 + j)" using bit[of "f + j" for j] f(1) by (auto simp: Nat.add_diff_assoc2)
  moreover have le: "?s + 0 + n \<le> bm_size ?b" using f(1,2) by linarith
  ultimately obtain b' where b': "reset_loop ?b (offset ?b + of_nat ?s) 0 n = Inr b'" "blen b' = blen ?b" "offset b' = offset ?b"
    "length (bits b') = length (bits ?b)" "\<forall>j. bm_bit b' j = (bm_bit ?b j \<and> \<not> (?s + 0 \<le> j \<and> j < ?s + 0 + n))"
    using reset_loop_bits[OF wf, of ?s 0 n] le by blast
  let ?m = "m\<lparr>kernel_bitmap := b'\<rparr>"
  have "offset ?b + of_nat ?s = of_nat f" using f(1) by (simp add: base_page_def of_nat_diff)
  then have "free_kpage m (page_at f) (of_nat n) = Inr ?m"
    using b'(1) n0 page_at_simps[OF f(3)] by (simp add: free_kpage_def reset_page_def)
  moreover have same: "base_page ?m = base_page m" "bm_size b' = bm_size ?b"
    using b'(2,3) by (simp_all add: base_page_def bm_size_def)
  have "kpages ?m = kpages m - {f..<f + n}"
  proof (rule set_eqI)
    fix g
    have "?s + 0 \<le> g - base_page m \<and> g - base_page m < ?s + 0 + n \<longleftrightarrow> f \<le> g \<and> g < f + n" if "base_page m \<le> g"
      using f(1) that by linarith
    then show "g \<in> kpages ?m \<longleftrightarrow> g \<in> kpages m - {f..<f + n}"
      unfolding kpages_bit same Diff_iff atLeastLessThan_iff using b'(5) same(2) by simp blast
  qed
  moreover have "kmap_ok ?m"
    using ok same b'(2-4) unfolding kmap_ok_def bm_wf_def by simp
  ultimately show ?thesis using same by (intro exI[of _ ?m]) (simp add: kmarks_def)
qed

end
