(* ===== verification/Exit_Laws.thy ===== *)
theory Exit_Laws
  imports Fork_Laws Kpages
begin

text \<open>
  What \<^verbatim>\<open>free_pde\<close> does at the end of a task: every frame loses one reference for each
  entry of the user part that maps it and for each table it is.  A fork followed by the end of the
  child gives back exactly what it took.
\<close>

subsection \<open>Dropping references\<close>

text \<open>The references \<open>g\<close> can be dropped, with at most \<open>n\<close> calls of
  \<^verbatim>\<open>put_page\<close>; and the state after that.\<close>

definition releasable :: "kmem \<Rightarrow> (nat \<Rightarrow> nat) \<Rightarrow> nat \<Rightarrow> bool" where
  "releasable s g n = (pm_wf s \<and> 0 < free_pages s \<and> unat (free_pages s) + n < unat (total_pages s)
     \<and> (\<forall>f. 0 < g f \<longrightarrow> unat (start_page s) \<le> f \<and> f < unat (total_pages s) \<and> g f \<le> refs s f))"

definition released :: "kmem \<Rightarrow> (nat \<Rightarrow> nat) \<Rightarrow> nat \<Rightarrow> kmem \<Rightarrow> bool" where
  "released s g n s' = (phys s' = phys s \<and> cr3 s' = cr3 s \<and> start_page s' = start_page s
     \<and> total_pages s' = total_pages s \<and> kernel_bitmap s' = kernel_bitmap s \<and> pm_wf s' \<and> slack s' = slack s
     \<and> 0 < free_pages s' \<and> unat (free_pages s') \<le> unat (free_pages s) + n \<and> (\<forall>f. refs s' f = refs s f - g f))"

lemma released_refl: "releasable s g n \<Longrightarrow> released s (\<lambda>_. 0) 0 s"
  by (simp add: released_def releasable_def)

lemma released_trans: "released s g n u \<Longrightarrow> released u h m s' \<Longrightarrow> released s (\<lambda>f. g f + h f) (n + m) s'"
  by (simp add: released_def)

lemma releasable_split:
  assumes "releasable s (\<lambda>f. g f + h f) (n + m)"
  shows "releasable s g n" "released s g n u \<Longrightarrow> releasable u h m"
proof -
  note A = assms[unfolded releasable_def]
  have le: "unat (start_page s) \<le> f \<and> f < unat (total_pages s) \<and> g f + h f \<le> refs s f" if "0 < g f + h f" for f
    using conjunct2[OF conjunct2[OF conjunct2[OF A]], rule_format, OF that] by simp
  have "unat (start_page s) \<le> f \<and> f < unat (total_pages s) \<and> g f \<le> refs s f" if "0 < g f" for f
    using le[of f] that by auto
  then show "releasable s g n" unfolding releasable_def using A by simp
  assume r: "released s g n u"
  have "unat (start_page s) \<le> f \<and> f < unat (total_pages s) \<and> h f \<le> refs s f - g f" if "0 < h f" for f
    using le[of f] that by auto
  moreover have "unat (free_pages u) + m < unat (total_pages s)"
    using A r unfolding released_def by linarith
  ultimately show "releasable u h m" using r by (simp add: releasable_def released_def)
qed

lemma released_same:
  assumes "released s g n s'"
  shows "dir s' = dir s" "pde_at s' d = pde_at s d" "lookup s' d t = lookup s d t" "self_mapped s' = self_mapped s"
    "uses s' f d js = uses s f d js"
  using assms by (simp_all add: released_def dir_def pde_at_def lookup_def self_mapped_def uses_def)

lemma put_page_released:
  assumes r: "releasable s (\<lambda>f. if f = frame e then 1 else 0) 1"
  shows "put_page s (PAGE (of_nat (frame e))) = Inr (drop_ref s (frame e))"
    "released s (\<lambda>f. if f = frame e then 1 else 0) 1 (drop_ref s (frame e))"
proof -
  let ?f = "frame e" and ?s = "drop_ref s (frame e)"
  have R: "pm_wf s" "0 < free_pages s" "unat (free_pages s) + 1 < unat (total_pages s)"
    "unat (start_page s) \<le> ?f" "?f < unat (total_pages s)" "0 < refs s ?f"
    using r by (auto simp: releasable_def split: if_splits)
  have z: "memory_map s ! ?f \<noteq> 0" using R(6) by (auto simp: refs_def)
  have fp: "free_pages ?s = (if memory_map s ! ?f = 1 then free_pages s + 1 else free_pages s)"
    by (simp add: drop_ref_def Let_def)
  have u: "unat (free_pages s + 1) = unat (free_pages s) + 1"
    using R(3) unat_lt32[of "total_pages s"] by (intro unat_add_lem[THEN iffD1, THEN trans]) simp_all
  have b: "0 < free_pages ?s" "unat (free_pages ?s) \<le> unat (free_pages s) + 1" "free_pages ?s < total_pages s"
    using R(2,3) u by (auto simp: fp word_less_nat_alt)
  have "page_aligned (PAGE (of_nat ?f))" using frame_less[of e] by (simp add: page_aligned_PAGE unat_of_nat32)
  then show "put_page s (PAGE (of_nat ?f)) = Inr ?s"
    using put_page_eq[OF R(1), of "PAGE (of_nat ?f)"] R(4,5) z b(1,3) by (simp add: IDX_PAGE_frame(2))
  have len: "?f < length (memory_map s)" using R(1,5) by (simp add: pm_wf_def)
  have "refs ?s g = refs s g - (if g = ?f then 1 else 0)" for g
    using len z unat_minus_one[of "memory_map s ! ?f"] by (auto simp: refs_def)
  then show "released s (\<lambda>f. if f = ?f then 1 else 0) 1 ?s"
    using R b slack_drop[OF R(1,4,5) z] by (simp add: released_def)
qed

subsection \<open>One table\<close>

definition here :: "page_entry \<Rightarrow> nat \<Rightarrow> nat" where
  "here e f = (if maps f e then 1 else 0)"

lemma here_present [simp]: "present e \<Longrightarrow> here e = (\<lambda>f. if f = frame e then 1 else 0)" "\<not> present e \<Longrightarrow> here e = (\<lambda>_. 0)"
  by (auto simp: here_def maps_def fun_eq_iff)

definition entries :: "kmem \<Rightarrow> nat \<Rightarrow> nat list \<Rightarrow> nat" where
  "entries s d js = length (filter (\<lambda>j. present (lookup s d j)) js)"

lemma uses_step: "(\<lambda>f. uses s f d (j # js)) = (\<lambda>f. here (lookup s d j) f + uses s f d js)"
  by (simp add: uses_Cons here_def)

lemma release_loop_ok:
  assumes "self_mapped s" "d < 1023" "present (pde_at s d)" "t + n \<le> 1024"
    "releasable s (\<lambda>f. uses s f d [t..<t + n]) (entries s d [t..<t + n])"
  shows "\<exists>s'. release_loop s (PDE_MASK OR push_bit 12 (of_nat d)) t n = Inr s'
    \<and> released s (\<lambda>f. uses s f d [t..<t + n]) (entries s d [t..<t + n]) s'"
  using assms
proof (induction n arbitrary: s t)
  case 0
  then show ?case using released_refl by (auto simp: uses_def entries_def)
next
  case (Suc n)
  let ?p = "PDE_MASK OR push_bit 12 (of_nat d) :: u32" and ?e = "lookup s d t"
  have up: "[t..<t + Suc n] = t # [Suc t..<Suc t + n]" by (simp add: upt_conv_Cons del: upt_Suc)
  have u: "unat (of_nat d :: u32) = d" using Suc.prems(2) by (simp add: unat_of_nat32)
  have r: "vread s (elem ?p t) = Inr ?e"
    using vread_table(1)[OF Suc.prems(1), of "of_nat d" t] u Suc.prems(2-4) by (simp add: lookup_def)
  note R = Suc.prems(5)[unfolded up uses_step]
  show ?case
  proof (cases "present ?e")
    case False
    then have 1: "release_loop s ?p t (Suc n) = release_loop s ?p (Suc t) n" using r by simp
    have "entries s d (t # [Suc t..<Suc t + n]) = entries s d [Suc t..<Suc t + n]" using False by (simp add: entries_def)
    then show ?thesis
      unfolding 1 up uses_step using False Suc.IH[OF Suc.prems(1-3), of "Suc t"] Suc.prems(4) R by simp
  next
    case True
    have en: "entries s d (t # [Suc t..<Suc t + n]) = 1 + entries s d [Suc t..<Suc t + n]" using True by (simp add: entries_def)
    note S = releasable_split[OF R[unfolded en]]
    have one: "releasable s (\<lambda>f. if f = frame ?e then 1 else 0) 1" using S(1) True by simp
    note P = put_page_released[OF one]
    let ?s = "drop_ref s (frame ?e)"
    have rest: "releasable ?s (\<lambda>f. uses s f d [Suc t..<Suc t + n]) (entries s d [Suc t..<Suc t + n])"
      using S(2) P(2) True by simp
    have ref: "frame ?e < length (memory_map s)" "0 < memory_map s ! frame ?e"
    proof -
      have "pm_wf s" "frame ?e < unat (total_pages s)" "0 < refs s (frame ?e)"
        using one by (auto simp: releasable_def split: if_splits)
      then show "frame ?e < length (memory_map s)" "0 < memory_map s ! frame ?e"
        by (auto simp: pm_wf_def refs_def unat_gt_0 word_neq_0_conv)
    qed
    have 1: "release_loop s ?p t (Suc n) = release_loop ?s ?p (Suc t) n"
      using r True ref P(1) by simp
    note same = released_same[OF P(2)]
    have us: "uses ?s f d js = uses s f d js" "entries ?s d js = entries s d js" for f js
      by (simp_all add: uses_def entries_def)
    have "self_mapped ?s" "present (pde_at ?s d)" using same(4) Suc.prems(1,3) by simp_all
    then obtain s' where s': "release_loop ?s ?p (Suc t) n = Inr s'"
      "released ?s (\<lambda>f. uses s f d [Suc t..<Suc t + n]) (entries s d [Suc t..<Suc t + n]) s'"
      using Suc.IH[of ?s "Suc t"] rest Suc.prems(2,4) us by auto
    show ?thesis
      unfolding 1 up uses_step en using s' released_trans[OF P(2) s'(2)] True by (intro exI[of _ s']) simp
  qed
qed

subsection \<open>All tables\<close>

text \<open>How often the user part refers to a frame, through its entries and as a table.\<close>

definition owners :: "kmem \<Rightarrow> nat list \<Rightarrow> nat \<Rightarrow> nat" where
  "owners s ds f = sum_list (map (\<lambda>d. uses s f d [0..<1024] + here (pde_at s d) f) ds)"

definition puts :: "kmem \<Rightarrow> nat list \<Rightarrow> nat" where
  "puts s ds = sum_list (map (\<lambda>d. entries s d [0..<1024] + (if present (pde_at s d) then 1 else 0)) ds)"

lemma owners_Cons:
  "owners s (d # ds) = (\<lambda>f. uses s f d [0..<1024] + (here (pde_at s d) f + owners s ds f))"
  "puts s (d # ds) = entries s d [0..<1024] + ((if present (pde_at s d) then 1 else 0) + puts s ds)"
  by (simp_all add: owners_def puts_def fun_eq_iff)

lemma no_table:
  assumes "\<not> present (pde_at s d)"
  shows "uses s f d js = 0" "entries s d js = 0"
proof -
  have "lookup s d t = 0" for t using assms by (simp add: lookup_def)
  then show "uses s f d js = 0" "entries s d js = 0" by (simp_all add: uses_def entries_def maps_def)
qed

lemma owners_same:
  assumes "released s g n s'"
  shows "owners s' ds = owners s ds" "puts s' ds = puts s ds"
  using released_same[OF assms] by (simp_all add: owners_def puts_def entries_def fun_eq_iff)

lemma free_tables_ok:
  assumes "self_mapped s" "d + n \<le> 1023" "releasable s (owners s [d..<d + n]) (puts s [d..<d + n])"
  shows "\<exists>s'. free_tables s d n = Inr s' \<and> released s (owners s [d..<d + n]) (puts s [d..<d + n]) s'"
  using assms
proof (induction n arbitrary: s d)
  case 0
  have "owners s [] = (\<lambda>_. 0)" by (simp add: owners_def fun_eq_iff)
  then show ?case using 0 released_refl by (auto simp: puts_def)
next
  case (Suc n)
  let ?p = "PDE_MASK OR push_bit 12 (of_nat d) :: u32"
  have d: "d < 1023" using Suc.prems(2) by simp
  have up: "[d..<d + Suc n] = d # [Suc d..<Suc d + n]" by (simp add: upt_conv_Cons del: upt_Suc)
  have r: "vread s (elem get_pde d) = Inr (pde_at s d)" using vread_pde(1)[OF Suc.prems(1)] d by simp
  note R = Suc.prems(3)[unfolded up owners_Cons]
  show ?case
  proof (cases "present (pde_at s d)")
    case False
    then have 1: "free_tables s d (Suc n) = free_tables s (Suc d) n" using r by simp
    show ?thesis
      unfolding 1 up owners_Cons using Suc.IH[of s "Suc d"] Suc.prems(1,2) R False by (simp add: no_table)
  next
    case True
    note S = releasable_split[OF R]
    obtain s1 where s1: "release_loop s ?p 0 1024 = Inr s1"
      "released s (\<lambda>f. uses s f d [0..<1024]) (entries s d [0..<1024]) s1"
      using release_loop_ok[OF Suc.prems(1) d True, of 0 1024] S(1) by auto
    note S1 = releasable_split[OF S(2)[OF s1(2)]] and same = released_same[OF s1(2)]
    have pd: "pde_at s1 d = pde_at s d" and sm1: "self_mapped s1" using same(2,4) Suc.prems(1) by simp_all
    have one: "releasable s1 (\<lambda>f. if f = frame (pde_at s d) then 1 else 0) 1" using S1(1) True by simp
    note P = put_page_released[OF one]
    let ?s = "drop_ref s1 (frame (pde_at s d))"
    have rel: "released s (\<lambda>f. uses s f d [0..<1024] + here (pde_at s d) f) (entries s d [0..<1024] + 1) ?s"
      using released_trans[OF s1(2) P(2)] True by simp
    note same2 = owners_same[OF rel]
    have "self_mapped ?s" using released_same(4)[OF rel] Suc.prems(1) by simp
    moreover have "releasable ?s (owners ?s [Suc d..<Suc d + n]) (puts ?s [Suc d..<Suc d + n])"
      using S1(2)[of ?s] P(2) True same2 by simp
    ultimately obtain s' where s': "free_tables ?s (Suc d) n = Inr s'"
      "released ?s (owners s [Suc d..<Suc d + n]) (puts s [Suc d..<Suc d + n]) s'"
      using Suc.IH[of ?s "Suc d"] Suc.prems(2) same2 by auto
    have "vread s1 (elem get_pde d) = Inr (pde_at s d)" using vread_pde(1)[OF sm1] d pd by simp
    then have "free_tables s d (Suc n) = Inr s'" using r True s1(1) P(1) s'(1) by simp
    then show ?thesis
      unfolding up owners_Cons using released_trans[OF rel s'(2)] True by (intro exI[of _ s']) (simp add: add.assoc)
  qed
qed

text \<open>The end of an address space.\<close>

lemma free_pde_ok:
  assumes "self_mapped s" "t_uid task \<noteq> KERNEL_USER" "releasable s (owners s user_dirs) (puts s user_dirs)"
    "free_kpage s (t_pde task) 1 = Inr u"
  shows "\<exists>s'. free_pde s task = Inr s' \<and> released s (owners s user_dirs) (puts s user_dirs) (s'\<lparr>kernel_bitmap := kernel_bitmap s\<rparr>)
    \<and> kernel_bitmap s' = kernel_bitmap u"
proof -
  obtain s1 where s1: "free_tables s 4 1019 = Inr s1" "released s (owners s user_dirs) (puts s user_dirs) s1"
    using free_tables_ok[OF assms(1), of 4 1019] assms(3) by (auto simp: user_dirs_def)
  have kb: "kernel_bitmap s1 = kernel_bitmap s" using s1(2) by (simp add: released_def)
  have "free_kpage s1 (t_pde task) 1 = Inr (s1\<lparr>kernel_bitmap := kernel_bitmap u\<rparr>)"
    using assms(4) kb by (auto simp: free_kpage_def)
  moreover have "length KERNEL_PAGE_TABLE = 4" by (simp add: KERNEL_PAGE_TABLE_def)
  moreover have "s1\<lparr>kernel_bitmap := kernel_bitmap u, kernel_bitmap := kernel_bitmap s\<rparr> = s1" using kb by simp
  ultimately show ?thesis
    using s1 assms(2) by (intro exI[of _ "s1\<lparr>kernel_bitmap := kernel_bitmap u\<rparr>"]) (simp add: free_pde_def)
qed

subsection \<open>A fork and the end of the child\<close>

text \<open>The child refers to every frame as often as the fork counted for it.\<close>

lemma tables_count:
  assumes "\<forall>d\<in>set ds. present (pde_at ch d) = present (pde_at s0 d)" "pde_at ch = phys s c"
  shows "sum_list (map (\<lambda>d. here (pde_at ch d) f) ds) = kids s c (tables_of s0 ds) f"
  using assms(1) by (induction ds) (auto simp: kids_def tables_of_def here_def maps_def assms(2)[symmetric])

lemma child_owners:
  assumes r: "fork_ready s0 pde" and f: "forked s0 (unat (IDX pde)) user_dirs s"
  shows "owners (s\<lparr>cr3 := pde\<rparr>) user_dirs g = users s0 g user_dirs + kids s (unat (IDX pde)) (tables_of s0 user_dirs) g"
    "puts (s\<lparr>cr3 := pde\<rparr>) user_dirs = puts s0 user_dirs"
proof -
  let ?ch = "s\<lparr>cr3 := pde\<rparr>"
  note C = child_space[OF r f]
  have us: "uses ?ch g d [0..<1024] = uses s0 g d [0..<1024]" if "d \<in> set user_dirs" for d g
    unfolding uses_def using C(2)[of d] that by (intro arg_cong[of _ _ length] filter_cong) auto
  have en: "entries ?ch d [0..<1024] = entries s0 d [0..<1024]" if "d \<in> set user_dirs" for d
    unfolding entries_def using C(2)[of d] that by (intro arg_cong[of _ _ length] filter_cong) auto
  have pr: "present (pde_at ?ch d) = present (pde_at s0 d)" if "d \<in> set user_dirs" for d using C(6) that by simp
  have "pde_at ?ch = phys s (unat (IDX pde))" by (simp add: fun_eq_iff pde_at_def dir_def)
  then have "sum_list (map (\<lambda>d. here (pde_at ?ch d) g) user_dirs) = kids s (unat (IDX pde)) (tables_of s0 user_dirs) g"
    using pr by (intro tables_count) auto
  moreover have "sum_list (map (\<lambda>d. uses ?ch g d [0..<1024]) user_dirs) = sum_list (map (\<lambda>d. uses s0 g d [0..<1024]) user_dirs)"
    using us by (intro arg_cong[of _ _ sum_list] map_cong) auto
  ultimately show "owners ?ch user_dirs g = users s0 g user_dirs + kids s (unat (IDX pde)) (tables_of s0 user_dirs) g"
    unfolding owners_def users_def sum_list_addf by (simp only:)
  show "puts ?ch user_dirs = puts s0 user_dirs"
    unfolding puts_def using pr en by (intro arg_cong[of _ _ sum_list] map_cong) auto
qed

text \<open>The pages of the user part are pages \<^verbatim>\<open>put_page\<close> may be asked to free, and
  their number does not carry the count of free pages over the end of memory.\<close>

definition room_to_exit :: "kmem \<Rightarrow> bool" where
  "room_to_exit s = ((\<forall>d t. 4 \<le> d \<longrightarrow> d < 1023 \<longrightarrow> t < 1024 \<longrightarrow> present (lookup s d t) \<longrightarrow>
       unat (start_page s) \<le> frame (lookup s d t) \<and> frame (lookup s d t) < unat (total_pages s))
     \<and> unat (free_pages s) + puts s user_dirs < unat (total_pages s))"

lemma child_releasable:
  assumes r: "fork_ready s0 pde" and f: "forked s0 (unat (IDX pde)) user_dirs s"
    and m: "room_to_fork s0" "room_to_exit s0"
  defines "ch \<equiv> s\<lparr>cr3 := pde\<rparr>"
  shows "releasable ch (owners ch user_dirs) (puts ch user_dirs)"
proof -
  let ?c = "unat (IDX pde)"
  note F = f[unfolded forked_def] and O = child_owners[OF r f, folded ch_def]
  have fm: "forked_memory s0 ?c user_dirs s" and ft: "forked_tables s0 ?c user_dirs s" and wf: "vm_wf s" using F by blast+
  have eq: "start_page s = start_page s0" "total_pages s = total_pages s0" using F beyondD(3,4) by blast+
  have n: "length (tables_of s0 user_dirs) < unat (free_pages s0)" using m(1) by (simp add: room_to_fork_def)
  note fp = forked_pages[OF fm less_imp_le[OF n]]
  have g: "unat (start_page s0) \<le> g \<and> g < unat (total_pages s0)" if "0 < owners ch user_dirs g" for g
  proof (cases "users s0 g user_dirs = 0")
    case True
    then have "0 < kids s ?c (tables_of s0 user_dirs) g" using that O(1) by simp
    then have "g \<in> free_frames s0" using ft own_tableD(1) by (fastforce simp: kids_def filter_empty_conv forked_tables_def)
    then show ?thesis by (simp add: free_frames_def)
  next
    case False
    then obtain d where d: "d \<in> set user_dirs" "0 < uses s0 g d [0..<1024]" by (auto simp: users_def)
    then obtain t where "t < 1024" "maps g (lookup s0 d t)" unfolding uses_pos set_upt by auto
    with d(1) have "4 \<le> d" "d < 1023" "t < 1024" "maps g (lookup s0 d t)" by simp_all
    then show ?thesis using m(2) by (auto simp: room_to_exit_def maps_def)
  qed
  have "refs ch g = refs s0 g + owners ch user_dirs g" for g
    using fm O(1) by (simp add: forked_memory_def refs_def ch_def)
  then have "unat (start_page ch) \<le> h \<and> h < unat (total_pages ch) \<and> owners ch user_dirs h \<le> refs ch h"
    if "0 < owners ch user_dirs h" for h using g[OF that] eq by (simp add: ch_def)
  moreover have "pm_wf ch" using wf by (simp add: ch_def vm_wf_def pm_wf_def)
  moreover have "0 < free_pages ch" using fp n by (simp add: ch_def word_less_nat_alt)
  moreover have "unat (free_pages ch) + puts ch user_dirs < unat (total_pages ch)"
  proof -
    have same: "free_pages ch = free_pages s" "total_pages ch = total_pages s0" by (simp_all add: ch_def eq)
    have le: "unat (free_pages s) \<le> unat (free_pages s0)" using fp by simp
    have "unat (free_pages s0) + puts s0 user_dirs < unat (total_pages s0)" using m(2) by (simp add: room_to_exit_def)
    then show ?thesis unfolding O(2) same using le by linarith
  qed
  ultimately show ?thesis unfolding releasable_def by blast
qed

text \<open>The page of the child's directory is given back too.\<close>

lemma child_page:
  assumes k: "kmap_ok s" and al: "alloc_kpage s 1 = Inr (sa, pde)" and ch: "kernel_bitmap ch = kernel_bitmap sa"
  shows "\<exists>u. free_kpage ch pde 1 = Inr u \<and> kpages u = kpages s"
proof -
  obtain f m where m: "alloc_kpage s 1 = Inr (m, page_at f)" "{f..<f + 1} \<inter> kpages s = {}" "kmarks s (kpages s \<union> {f..<f + 1}) m"
    using alloc_kpage_cases[OF k, of 1] al by auto
  then have sa: "m = sa" "pde = page_at f" using al by simp_all
  have "kpages ch = kpages sa" "kmap_ok ch = kmap_ok sa" using ch by (simp_all add: kpages_def kmap_ok_def base_page_def)
  then have "kmap_ok ch" "{f..<f + 1} \<subseteq> kpages ch" using m(3) sa(1) by (simp_all add: kmarks_def)
  then obtain u where "free_kpage ch (page_at f) 1 = Inr u" "kmarks ch (kpages ch - {f..<f + 1}) u"
    using free_kpage_ok[of ch 1 f] by auto
  moreover have "kpages ch - {f..<f + 1} = kpages s" using \<open>kpages ch = kpages sa\<close> m(2,3) sa(1) by (auto simp: kmarks_def)
  ultimately show ?thesis using sa(2) by (auto simp: kmarks_def)
qed

lemma refs_free:
  assumes "\<And>f. refs s' f = refs s f" "start_page s' = start_page s" "total_pages s' = total_pages s" "slack s' = slack s"
  shows "free_frames s' = free_frames s" "free_pages s' = free_pages s"
proof -
  have z: "memory_map r ! i = 0 \<longleftrightarrow> refs r i = 0" for r i by (simp add: refs_def unat_eq_0)
  show "free_frames s' = free_frames s" using assms by (simp add: free_frames_def z)
  then show "free_pages s' = free_pages s" using assms(4) by (simp add: slack_def)
qed

text \<open>C3: a task forks and the child ends: \<^verbatim>\<open>copy_pde\<close> and then, in the child's address space,
  \<^verbatim>\<open>free_pde\<close> both return, and afterwards every frame has as many references as before, the same
  frames and the same kernel pages are free, the counter of free pages is what it was, and the parent's user
  addresses are translated as before.\<close>

theorem fork_exit_restores:
  assumes r: "fork_ready s pde" and al: "alloc_kpage s 1 = Inr (sa, pde)"
    and t: "t_pde task = cr3 s" "page_aligned (cr3 s)" "translate s (cr3 s) = Some (dir s)"
    and m: "room_to_fork s" "room_to_exit s" and k: "kmap_ok s"
    and c: "t_pde ctask = pde" "t_uid ctask \<noteq> KERNEL_USER"
  shows "\<exists>s' s''. copy_pde s task = Inr (s', pde) \<and> free_pde (s'\<lparr>cr3 := pde\<rparr>) ctask = Inr s''
    \<and> (\<forall>f. refs s'' f = refs s f) \<and> free_frames s'' = free_frames s \<and> free_pages s'' = free_pages s
    \<and> kpages s'' = kpages s
    \<and> (\<forall>va. 4 \<le> unat (DIDX va) \<longrightarrow> unat (DIDX va) < 1023 \<longrightarrow> translate (s''\<lparr>cr3 := cr3 s\<rparr>) va = translate s va)"
proof -
  obtain b where sa: "sa = s\<lparr>kernel_bitmap := b\<rparr>" using al by (auto simp: alloc_kpage_def split: prod.splits)
  have ra: "fork_ready sa pde" "room_to_fork sa" using r m by (simp_all add: sa bitmap_fork)
  have re: "room_to_exit sa" using m(2) by (simp add: sa room_to_exit_def puts_def entries_def)
  obtain s' where s': "copy_pde s task = Inr (s', pde)" "forked sa (unat (IDX pde)) user_dirs s'"
    using copy_pde_ok[OF r al t m(1)] by blast
  let ?ch = "s'\<lparr>cr3 := pde\<rparr>"
  note C = child_space[OF ra(1) s'(2)] and O = child_owners[OF ra(1) s'(2)] and R = child_releasable[OF ra(1) s'(2) ra(2) re]
  have eq: "start_page s' = start_page s" "total_pages s' = total_pages s" "kernel_bitmap s' = kernel_bitmap sa" "cr3 s' = cr3 s"
    using s'(2) by (simp_all add: forked_def beyond_def sa)
  obtain u where u: "free_kpage ?ch pde 1 = Inr u" "kpages u = kpages s"
    using child_page[OF k al, of ?ch] eq(3) by auto
  have "self_mapped ?ch" using C(5) by (simp add: vm_wf_def)
  then obtain s'' where s'': "free_pde ?ch ctask = Inr s''" "kernel_bitmap s'' = kernel_bitmap u"
    "released ?ch (owners ?ch user_dirs) (puts ?ch user_dirs) (s''\<lparr>kernel_bitmap := kernel_bitmap ?ch\<rparr>)"
    using free_pde_ok[OF _ c(2) R] c(1) u(1) by auto
  note D = s''(3)[unfolded released_def]
  have fm: "forked_memory sa (unat (IDX pde)) user_dirs s'" using s'(2) by (simp add: forked_def)
  have rf: "refs s'' f = refs s f" for f
  proof -
    have "refs s'' f = refs ?ch f - owners ?ch user_dirs f" using D by (simp add: refs_def)
    moreover have "refs ?ch f = refs sa f + owners ?ch user_dirs f" using fm O(1) by (simp add: forked_memory_def refs_def)
    ultimately show ?thesis by (simp add: sa)
  qed
  have sl: "slack (x\<lparr>kernel_bitmap := y\<rparr>) = slack x" "slack (x\<lparr>cr3 := z\<rparr>) = slack x" for x y z
    by (simp_all add: slack_def free_frames_def)
  have "slack s'' = slack s'" using D by (simp only: sl)
  moreover have "slack s' = slack s" using fm by (simp add: forked_memory_def sa sl)
  ultimately have "slack s'' = slack s" by simp
  then have free: "free_frames s'' = free_frames s" "free_pages s'' = free_pages s"
    using refs_free[OF rf] D eq by simp_all
  have "kpages s'' = kpages s" using s''(2) u(2) by (simp add: kpages_def)
  moreover have "translate (s''\<lparr>cr3 := cr3 s\<rparr>) va = translate s va" if "4 \<le> unat (DIDX va)" "unat (DIDX va) < 1023" for va
  proof -
    have "phys s'' = phys s'" using D by simp
    then have "translate (s''\<lparr>cr3 := cr3 s\<rparr>) va = translate s' va" using eq(4) by (simp add: translate_def dir_def Let_def)
    then show ?thesis using C(3)[OF that TIDX_less[of va]] by (simp add: translate_lookup sa)
  qed
  ultimately show ?thesis using s'(1) s''(1) rf free by blast
qed

subsection \<open>The address space of one page\<close>

lemma fork_mem_entries: "4 \<le> d \<Longrightarrow> d < 1023 \<Longrightarrow> entries fork_mem d [0..<1024] = (if d = 8 then 1 else 0)"
proof -
  assume d: "4 \<le> d" "d < 1023"
  let ?js = "filter (\<lambda>j. present (lookup fork_mem d j)) [0..<1024]"
  have "length ?js = card (set ?js)" by (rule distinct_card[symmetric]) (intro distinct_filter distinct_upt)
  moreover have "set ?js = (if d = 8 then {0} else {})"
    unfolding set_filter set_upt using d by (auto simp: fork_mem_user split: if_splits)
  ultimately show ?thesis by (simp add: entries_def)
qed

lemma fork_mem_puts: "puts fork_mem user_dirs = 2"
proof -
  have "puts fork_mem user_dirs = sum (\<lambda>d. entries fork_mem d [0..<1024] + (if present (pde_at fork_mem d) then 1 else 0)) (set user_dirs)"
    unfolding puts_def by (rule sum_list_distinct_conv_sum_set) (simp only: user_dirs_def distinct_upt)
  also have "\<dots> = sum (\<lambda>d. if d = 8 then 2 else 0) (set user_dirs)"
    by (intro sum.cong) (simp_all add: fork_mem_entries tiny_pde)
  finally show ?thesis by simp
qed

lemma fork_mem_exit: "room_to_exit fork_mem" "kmap_ok fork_mem"
proof -
  have t: "start_page fork_mem = 258" "total_pages fork_mem = 320" by (simp_all add: fork_mem_def tiny_def)
  show "room_to_exit fork_mem" by (auto simp: room_to_exit_def fork_mem_puts fork_mem_user t split: if_splits)
  have "kernel_bitmap fork_mem = bitmap_make [0] 1 256" by (simp add: fork_mem_def)
  then show "kmap_ok fork_mem" by (simp add: kmap_ok_def bm_wf_def base_page_def bm_size_def bitmap_make_def)
qed

lemma fork_exit_restores_witness:
  "\<exists>s' s''. copy_pde fork_mem tiny_task = Inr (s', 0x100000)
     \<and> free_pde (s'\<lparr>cr3 := 0x100000\<rparr>) (tiny_task\<lparr>t_pde := 0x100000\<rparr>) = Inr s''
     \<and> refs s'' 301 = 2 \<and> free_frames s'' = {302..<320} \<and> free_pages s'' = 18"
proof -
  obtain sa where sa: "alloc_kpage fork_mem 1 = Inr (sa, 0x100000)" using fork_mem_page by blast
  have t: "t_pde tiny_task = cr3 fork_mem" "t_uid (tiny_task\<lparr>t_pde := 0x100000\<rparr>) \<noteq> KERNEL_USER"
    by (simp_all add: tiny_task_def KERNEL_USER_def)
  have "refs fork_mem 301 = 2" by (simp add: refs_def) (simp add: tiny_def nth_append)
  then show ?thesis
    using fork_exit_restores[OF fork_mem_ok(1) sa t(1) fork_mem_ok(4,3,2) fork_mem_exit, of "tiny_task\<lparr>t_pde := 0x100000\<rparr>"] t(2)
    by (auto simp: tiny_free)
qed

end
