(* ===== verification/Lists.thy ===== *)
theory Lists
  imports Prelude
begin

text \<open>
  The intrusive doubly linked list of \<^verbatim>\<open>lib/list.c\<close>.  Nodes are addresses, the two
  pointer fields of every node are a field-split heap, and \<^verbatim>\<open>list_t\<close> at address
  \<open>l\<close> is its head node at \<open>l\<close> followed by its tail node at \<open>l + 8\<close>.  A
  walk over a list runs until it meets the tail node: on a cyclic or broken list it never
  returns, so the walks are partial functions.

  \<open>dll h l xs\<close> says that the heap holds at \<open>l\<close> a well-formed list with exactly the
  nodes \<open>xs\<close>; every operation is proved to act on \<open>xs\<close> as the corresponding
  operation on HOL lists.
\<close>

record heap =
  nprev :: "addr \<Rightarrow> addr"
  nnext :: "addr \<Rightarrow> addr"

definition set_prev :: "heap \<Rightarrow> addr \<Rightarrow> addr \<Rightarrow> heap" where
  "set_prev h n p = h\<lparr>nprev := (nprev h)(n := p)\<rparr>"

definition set_next :: "heap \<Rightarrow> addr \<Rightarrow> addr \<Rightarrow> heap" where
  "set_next h n p = h\<lparr>nnext := (nnext h)(n := p)\<rparr>"

definition head_of :: "addr \<Rightarrow> addr" where
  "head_of l = l"

definition tail_of :: "addr \<Rightarrow> addr" where
  "tail_of l = l + 8"

subsection \<open>The operations\<close>

definition list_init :: "heap \<Rightarrow> addr \<Rightarrow> heap" where
  "list_init h l =
     (let h = set_prev h (head_of l) 0;
          h = set_next h (tail_of l) 0;
          h = set_next h (head_of l) (tail_of l)
      in set_prev h (tail_of l) (head_of l))"

definition list_insert_before :: "heap \<Rightarrow> addr \<Rightarrow> addr \<Rightarrow> heap res" where
  "list_insert_before h anchor node =
     bnd (deref anchor) (\<lambda>_.
     bnd (deref node) (\<lambda>_.
     let h = set_prev h node (nprev h anchor);
         h = set_next h node anchor
     in bnd (deref (nprev h anchor)) (\<lambda>_.
        let h = set_next h (nprev h anchor) node
        in Inr (set_prev h anchor node))))"

definition list_insert_after :: "heap \<Rightarrow> addr \<Rightarrow> addr \<Rightarrow> heap res" where
  "list_insert_after h anchor node =
     bnd (deref anchor) (\<lambda>_.
     bnd (deref node) (\<lambda>_.
     let h = set_prev h node anchor;
         h = set_next h node (nnext h anchor)
     in bnd (deref (nnext h anchor)) (\<lambda>_.
        let h = set_prev h (nnext h anchor) node
        in Inr (set_next h anchor node))))"

partial_function (option) search_loop :: "heap \<Rightarrow> addr \<Rightarrow> addr \<Rightarrow> addr \<Rightarrow> bool res option" where
  "search_loop h tail node p =
     (if p = tail then Some (Inr False)
      else if p = node then Some (Inr True)
      else if p = 0 then Some (Inl Fault)
      else search_loop h tail node (nnext h p))"

definition list_search :: "heap \<Rightarrow> addr \<Rightarrow> addr \<Rightarrow> bool res" where
  "list_search h l node = run (search_loop h (tail_of l) node (nnext h (head_of l)))"

definition list_remove :: "heap \<Rightarrow> addr \<Rightarrow> heap res" where
  "list_remove h node =
     bnd (deref node) (\<lambda>_.
     bnd (assrt (nprev h node \<noteq> 0)) (\<lambda>_.
     bnd (assrt (nnext h node \<noteq> 0)) (\<lambda>_.
     let h = set_next h (nprev h node) (nnext h node);
         h = set_prev h (nnext h node) (nprev h node);
         h = set_next h node 0
     in Inr (set_prev h node 0))))"

definition list_empty :: "heap \<Rightarrow> addr \<Rightarrow> bool" where
  "list_empty h l = (nnext h (head_of l) = tail_of l)"

definition list_push :: "heap \<Rightarrow> addr \<Rightarrow> addr \<Rightarrow> heap res" where
  "list_push h l node =
     bnd (list_search h l node) (\<lambda>found.
     bnd (assrt (\<not> found)) (\<lambda>_.
     list_insert_after h (head_of l) node))"

definition list_pop :: "heap \<Rightarrow> addr \<Rightarrow> (heap \<times> addr) res" where
  "list_pop h l =
     bnd (assrt (\<not> list_empty h l)) (\<lambda>_.
     let node = nnext h (head_of l)
     in bnd (list_remove h node) (\<lambda>h. Inr (h, node)))"

definition list_pushback :: "heap \<Rightarrow> addr \<Rightarrow> addr \<Rightarrow> heap res" where
  "list_pushback h l node =
     bnd (list_search h l node) (\<lambda>found.
     bnd (assrt (\<not> found)) (\<lambda>_.
     list_insert_before h (tail_of l) node))"

definition list_popback :: "heap \<Rightarrow> addr \<Rightarrow> (heap \<times> addr) res" where
  "list_popback h l =
     bnd (assrt (\<not> list_empty h l)) (\<lambda>_.
     let node = nprev h (tail_of l)
     in bnd (list_remove h node) (\<lambda>h. Inr (h, node)))"

partial_function (option) size_loop :: "heap \<Rightarrow> addr \<Rightarrow> u32 \<Rightarrow> addr \<Rightarrow> u32 res option" where
  "size_loop h tail n p =
     (if p = tail then Some (Inr n)
      else if p = 0 then Some (Inl Fault)
      else size_loop h tail (n + 1) (nnext h p))"

definition list_size :: "heap \<Rightarrow> addr \<Rightarrow> u32 res" where
  "list_size h l = run (size_loop h (tail_of l) 0 (nnext h (head_of l)))"

text \<open>
  \<^verbatim>\<open>element_node_key(node, offset)\<close> reads the signed 32-bit key of the structure that
  embeds the node; the memory it reads is the argument \<open>key\<close>, from node address to value.
\<close>

partial_function (option) anchor_loop ::
    "heap \<Rightarrow> addr \<Rightarrow> (addr \<Rightarrow> int) \<Rightarrow> int \<Rightarrow> addr \<Rightarrow> addr res option" where
  "anchor_loop h tail key k p =
     (if p = tail then Some (Inr tail)
      else if p = 0 then Some (Inl Fault)
      else if key p > k then Some (Inr p)
      else anchor_loop h tail key k (nnext h p))"

definition list_insert_sort :: "heap \<Rightarrow> addr \<Rightarrow> addr \<Rightarrow> (addr \<Rightarrow> int) \<Rightarrow> heap res" where
  "list_insert_sort h l node key =
     bnd (run (anchor_loop h (tail_of l) key (key node) (nnext h (head_of l)))) (\<lambda>anchor.
     bnd (deref node) (\<lambda>_.
     bnd (assrt (nnext h node = 0)) (\<lambda>_.
     bnd (assrt (nprev h node = 0)) (\<lambda>_.
     list_insert_before h anchor node))))"


subsection \<open>Well-formed lists\<close>

primrec chain :: "heap \<Rightarrow> addr \<Rightarrow> addr list \<Rightarrow> addr \<Rightarrow> bool" where
  "chain h a [] b = (nnext h a = b \<and> nprev h b = a)"
| "chain h a (x # xs) b = (nnext h a = x \<and> nprev h x = a \<and> chain h x xs b)"

definition dll :: "heap \<Rightarrow> addr \<Rightarrow> addr list \<Rightarrow> bool" where
  "dll h l xs = (chain h l xs (l + 8) \<and> distinct (l # xs @ [l + 8]) \<and> l \<noteq> 0 \<and> 0 \<notin> set xs
     \<and> nprev h l = 0 \<and> nnext h (l + 8) = 0)"

definition detached :: "heap \<Rightarrow> addr \<Rightarrow> bool" where
  "detached h n = (nnext h n = 0 \<and> nprev h n = 0)"

text \<open>The nodes a list at \<open>l\<close> with the nodes \<open>xs\<close> occupies.\<close>

definition nodes :: "addr \<Rightarrow> addr list \<Rightarrow> addr set" where
  "nodes l xs = insert l (insert (l + 8) (set xs))"

lemmas list_heap_defs = set_prev_def set_next_def head_of_def tail_of_def

lemma chain_append:
  "chain h a (xs @ y # ys) b \<longleftrightarrow> chain h a xs y \<and> chain h y ys b"
  by (induction xs arbitrary: a) auto

lemma chain_last: "chain h a xs b \<Longrightarrow> nprev h b = last (a # xs) \<and> nnext h (last (a # xs)) = b"
  by (induction xs arbitrary: a) auto

lemma chain_first: "chain h a xs b \<Longrightarrow> nnext h a = hd (xs @ [b])"
  by (cases xs) auto

lemma chain_frame:
  assumes "\<And>n. n \<in> set (a # xs) \<Longrightarrow> nnext h' n = nnext h n"
    and "\<And>n. n \<in> set (xs @ [b]) \<Longrightarrow> nprev h' n = nprev h n"
  shows "chain h' a xs b = chain h a xs b"
  using assms by (induction xs arbitrary: a) auto

lemma dll_frame:
  assumes "\<And>n. n \<in> nodes l xs \<Longrightarrow> nnext h' n = nnext h n \<and> nprev h' n = nprev h n"
  shows "dll h' l xs = dll h l xs"
proof -
  have "chain h' l xs (l + 8) = chain h l xs (l + 8)"
    by (rule chain_frame) (use assms in \<open>auto simp: nodes_def\<close>)
  then show ?thesis using assms by (simp add: dll_def nodes_def)
qed

text \<open>The heap with the node \<open>n\<close> linked between \<open>p\<close> and \<open>q\<close>, and unlinked.\<close>

definition link :: "heap \<Rightarrow> addr \<Rightarrow> addr \<Rightarrow> addr \<Rightarrow> heap" where
  "link h p n q = h\<lparr>nprev := (nprev h)(n := p, q := n), nnext := (nnext h)(n := q, p := n)\<rparr>"

definition unlink :: "heap \<Rightarrow> addr \<Rightarrow> addr \<Rightarrow> addr \<Rightarrow> heap" where
  "unlink h p n q = h\<lparr>nprev := (nprev h)(q := p, n := 0), nnext := (nnext h)(p := q, n := 0)\<rparr>"

lemma hd_snoc_in: "hd (ys @ [b]) \<in> insert b (set ys)"
  by (cases ys) auto

lemma hd_snoc_neq: "n \<noteq> b \<Longrightarrow> n \<notin> set ys \<Longrightarrow> hd (ys @ [b]) \<noteq> n"
  using hd_snoc_in[of ys b] by auto

lemma last_cons_neq: "n \<noteq> a \<Longrightarrow> n \<notin> set xs \<Longrightarrow> last (a # xs) \<noteq> n"
  by (cases xs rule: rev_cases) auto

lemma chain_link:
  assumes "chain h a (xs @ ys) b" and "distinct (a # xs @ ys @ [b])"
    and "n \<notin> set (a # xs @ ys @ [b])"
  shows "chain (link h (last (a # xs)) n (hd (ys @ [b]))) a (xs @ n # ys) b"
  using assms
proof (induction xs arbitrary: a)
  case Nil
  have "chain (link h a n (hd (ys @ [b]))) n ys b"
  proof (cases ys)
    case Nil
    with Nil.prems show ?thesis by (auto simp: link_def)
  next
    case (Cons y zs)
    have "chain (link h a n y) y zs b = chain h y zs b"
      by (rule chain_frame) (use Nil.prems Cons in \<open>auto simp: link_def\<close>)
    with Nil.prems Cons show ?thesis by (auto simp: link_def)
  qed
  with Nil.prems show ?case
    using hd_snoc_neq[of n b ys] chain_first[of h a ys b] by (auto simp: link_def)
next
  case (Cons x xs)
  have "chain (link h (last (x # xs)) n (hd (ys @ [b]))) x (xs @ n # ys) b"
    by (rule Cons.IH) (use Cons.prems in auto)
  moreover have "a \<noteq> last (x # xs)" "a \<noteq> n" "x \<noteq> n" "x \<noteq> hd (ys @ [b])"
    using Cons.prems by (auto simp: hd_append)
  ultimately show ?case using Cons.prems by (auto simp: link_def)
qed

lemma chain_unlink:
  assumes "chain h a (xs @ n # ys) b" and "distinct (a # xs @ n # ys @ [b])"
  shows "chain (unlink h (last (a # xs)) n (hd (ys @ [b]))) a (xs @ ys) b"
  using assms
proof (induction xs arbitrary: a)
  case Nil
  show ?case
  proof (cases ys)
    case Nil
    with Nil.prems show ?thesis by (auto simp: unlink_def)
  next
    case (Cons y zs)
    have "chain (unlink h a n y) y zs b = chain h y zs b"
      by (rule chain_frame) (use Nil.prems Cons in \<open>auto simp: unlink_def\<close>)
    with Nil.prems Cons show ?thesis by (auto simp: unlink_def)
  qed
next
  case (Cons x xs)
  have "chain (unlink h (last (x # xs)) n (hd (ys @ [b]))) x (xs @ ys) b"
    by (rule Cons.IH) (use Cons.prems in auto)
  moreover have "a \<noteq> last (x # xs)" "a \<noteq> n" "x \<noteq> n" "x \<noteq> hd (ys @ [b])"
    using Cons.prems by (auto simp: hd_append)
  ultimately show ?case using Cons.prems by (auto simp: unlink_def)
qed

lemma dll_split_node:
  assumes "dll h l (xs @ n # ys)"
  shows "nprev h n = last (l # xs)" "nnext h n = hd (ys @ [l + 8])"
  using assms chain_last[of h l xs n] chain_first[of h n ys "l + 8"]
  by (auto simp: dll_def chain_append)

lemma dll_ends:
  assumes "dll h l xs"
  shows "nnext h l = hd (xs @ [l + 8])" "nprev h (l + 8) = last (l # xs)"
    "nprev h l = 0" "nnext h (l + 8) = 0"
  using assms chain_last[of h l xs "l + 8"] chain_first[of h l xs "l + 8"]
  by (auto simp: dll_def)

lemma dll_D:
  assumes "dll h l xs"
  shows "l \<noteq> 0" "0 \<notin> set xs" "distinct xs" "l \<notin> set xs" "l + 8 \<notin> set xs"
  using assms by (auto simp: dll_def)

lemma dll_link:
  assumes "dll h l (xs @ ys)" and "n \<noteq> 0" and "n \<notin> nodes l (xs @ ys)"
  shows "dll (link h (last (l # xs)) n (hd (ys @ [l + 8]))) l (xs @ n # ys)"
proof -
  let ?h = "link h (last (l # xs)) n (hd (ys @ [l + 8]))"
  have "chain ?h l (xs @ n # ys) (l + 8)"
    by (rule chain_link) (use assms in \<open>auto simp: dll_def nodes_def\<close>)
  moreover have "nprev ?h l = 0" "nnext ?h (l + 8) = 0"
    using assms by (auto simp: dll_def link_def nodes_def hd_append split: if_splits list.splits)
  ultimately show ?thesis using assms by (auto simp: dll_def nodes_def)
qed

lemma dll_unlink:
  assumes "dll h l (xs @ n # ys)"
  shows "dll (unlink h (last (l # xs)) n (hd (ys @ [l + 8]))) l (xs @ ys)"
proof -
  let ?h = "unlink h (last (l # xs)) n (hd (ys @ [l + 8]))"
  have "chain ?h l (xs @ ys) (l + 8)"
    by (rule chain_unlink) (use assms in \<open>auto simp: dll_def\<close>)
  moreover have "nprev ?h l = 0" "nnext ?h (l + 8) = 0"
    using assms by (auto simp: dll_def unlink_def hd_append split: if_splits list.splits)
  ultimately show ?thesis using assms by (auto simp: dll_def)
qed


subsection \<open>What the operations do to the list\<close>

lemma dll_init:
  assumes "l \<noteq> 0"
  shows "dll (list_init h l) l []"
  using assms by (simp add: list_init_def list_heap_defs dll_def Let_def)

lemma insert_before_eq:
  assumes "anchor \<noteq> 0" "n \<noteq> 0" "n \<noteq> anchor" "nprev h anchor \<noteq> 0" "nprev h anchor \<noteq> n"
  shows "list_insert_before h anchor n = Inr (link h (nprev h anchor) n anchor)"
  using assms by (simp add: list_insert_before_def list_heap_defs link_def Let_def)

lemma insert_after_eq:
  assumes "anchor \<noteq> 0" "n \<noteq> 0" "n \<noteq> anchor" "nnext h anchor \<noteq> 0" "nnext h anchor \<noteq> n"
  shows "list_insert_after h anchor n = Inr (link h anchor n (nnext h anchor))"
  using assms by (simp add: list_insert_after_def list_heap_defs link_def Let_def)

lemma remove_eq:
  assumes "n \<noteq> 0" "nprev h n \<noteq> 0" "nnext h n \<noteq> 0" "nprev h n \<noteq> n" "nnext h n \<noteq> n"
  shows "list_remove h n = Inr (unlink h (nprev h n) n (nnext h n))"
  using assms by (simp add: list_remove_def list_heap_defs unlink_def Let_def)

lemma search_loop_chain:
  assumes "chain h a xs b" "b \<notin> set xs" "0 \<notin> set xs"
  shows "search_loop h b n (nnext h a) = Some (Inr (n \<in> set xs \<and> n \<noteq> b))"
  using assms
proof (induction xs arbitrary: a)
  case Nil
  then show ?case by (simp add: search_loop.simps)
next
  case (Cons x xs)
  then show ?case
    by (subst search_loop.simps) auto
qed

lemma dll_search:
  assumes "dll h l xs"
  shows "list_search h l n = Inr (n \<in> set xs)"
  using search_loop_chain[of h l xs "l + 8" n] assms
  by (auto simp: list_search_def dll_def tail_of_def head_of_def)

lemma dll_empty:
  assumes "dll h l xs"
  shows "list_empty h l = (xs = [])"
  using dll_ends(1)[OF assms] dll_D[OF assms]
  by (cases xs) (auto simp: list_empty_def head_of_def tail_of_def)

lemma size_loop_chain:
  assumes "chain h a xs b" "b \<notin> set xs" "0 \<notin> set xs"
  shows "size_loop h b k (nnext h a) = Some (Inr (k + of_nat (length xs)))"
  using assms
proof (induction xs arbitrary: a k)
  case Nil
  then show ?case by (simp add: size_loop.simps)
next
  case (Cons x xs)
  then show ?case
    by (subst size_loop.simps) (auto simp: algebra_simps)
qed

lemma dll_size:
  assumes "dll h l xs"
  shows "list_size h l = Inr (of_nat (length xs))"
  using size_loop_chain[of h l xs "l + 8" 0] assms
  by (auto simp: list_size_def dll_def tail_of_def head_of_def)

lemma dll_push:
  assumes "dll h l xs" and "n \<noteq> 0" and "n \<notin> nodes l xs"
  shows "\<exists>h'. list_push h l n = Inr h' \<and> dll h' l (n # xs)
    \<and> h' = link h l n (hd (xs @ [l + 8]))"
proof -
  have "hd (xs @ [l + 8]) \<noteq> 0"
    by (rule hd_snoc_neq) (use dll_D[OF assms(1)] in auto)
  moreover have "hd (xs @ [l + 8]) \<noteq> n"
    by (rule hd_snoc_neq) (use assms in \<open>auto simp: nodes_def\<close>)
  ultimately have "list_insert_after h l n = Inr (link h l n (hd (xs @ [l + 8])))"
    using assms dll_D[OF assms(1)] dll_ends(1)[OF assms(1)]
    by (subst insert_after_eq) (auto simp: nodes_def)
  moreover have "dll (link h l n (hd (xs @ [l + 8]))) l (n # xs)"
    using dll_link[of h l "[]" xs n] assms by simp
  ultimately show ?thesis
    using assms by (simp add: list_push_def dll_search head_of_def nodes_def)
qed

lemma dll_pushback:
  assumes "dll h l xs" and "n \<noteq> 0" and "n \<notin> nodes l xs"
  shows "\<exists>h'. list_pushback h l n = Inr h' \<and> dll h' l (xs @ [n])
    \<and> h' = link h (last (l # xs)) n (l + 8)"
proof -
  have "last (l # xs) \<noteq> 0"
    by (rule last_cons_neq) (use dll_D[OF assms(1)] in auto)
  moreover have "last (l # xs) \<noteq> n"
    by (rule last_cons_neq) (use assms in \<open>auto simp: nodes_def\<close>)
  ultimately have "list_insert_before h (l + 8) n = Inr (link h (last (l # xs)) n (l + 8))"
    using assms dll_D[OF assms(1)] dll_ends(2)[OF assms(1)]
    by (subst insert_before_eq) (auto simp: nodes_def)
  moreover have "dll (link h (last (l # xs)) n (l + 8)) l (xs @ [n])"
    using dll_link[of h l xs "[]" n] assms by simp
  ultimately show ?thesis
    using assms by (simp add: list_pushback_def dll_search tail_of_def nodes_def)
qed

lemma dll_remove:
  assumes "dll h l (xs @ n # ys)"
  shows "\<exists>h'. list_remove h n = Inr h' \<and> dll h' l (xs @ ys) \<and> detached h' n
    \<and> h' = unlink h (last (l # xs)) n (hd (ys @ [l + 8]))"
proof -
  let ?p = "last (l # xs)" and ?q = "hd (ys @ [l + 8])"
  have "?p \<in> insert l (set xs)" by (cases xs rule: rev_cases) auto
  moreover have "?q \<in> insert (l + 8) (set ys)" by (rule hd_snoc_in)
  ultimately have "?p \<noteq> 0" "?q \<noteq> 0" "?p \<noteq> n" "?q \<noteq> n" "n \<noteq> 0" "?p \<noteq> ?q"
    using assms by (auto simp: dll_def)
  then have "list_remove h n = Inr (unlink h ?p n ?q)"
    using dll_split_node[OF assms] by (subst remove_eq) auto
  moreover have "detached (unlink h ?p n ?q) n"
    using \<open>?p \<noteq> n\<close> \<open>?q \<noteq> n\<close> by (simp add: detached_def unlink_def)
  ultimately show ?thesis using dll_unlink[OF assms] by simp
qed

lemma dll_pop:
  assumes "dll h l (n # xs)"
  shows "\<exists>h'. list_pop h l = Inr (h', n) \<and> dll h' l xs \<and> detached h' n"
proof -
  have "nnext h l = n" using dll_ends(1)[OF assms] by simp
  moreover have "\<not> list_empty h l" using dll_empty[OF assms] by simp
  ultimately show ?thesis
    using dll_remove[of h l "[]" n xs] assms by (auto simp: list_pop_def head_of_def Let_def)
qed

lemma dll_popback:
  assumes "dll h l (xs @ [n])"
  shows "\<exists>h'. list_popback h l = Inr (h', n) \<and> dll h' l xs \<and> detached h' n"
proof -
  have "nprev h (l + 8) = n" using dll_ends(2)[OF assms] by simp
  moreover have "\<not> list_empty h l" using dll_empty[OF assms] by simp
  ultimately show ?thesis
    using dll_remove[of h l xs n "[]"] assms by (auto simp: list_popback_def tail_of_def Let_def)
qed

lemma empty_pop: "dll h l [] \<Longrightarrow> list_pop h l = Inl Assertion \<and> list_popback h l = Inl Assertion"
  by (simp add: list_pop_def list_popback_def dll_empty)

lemma remove_detached: "n \<noteq> 0 \<Longrightarrow> detached h n \<Longrightarrow> list_remove h n = Inl Assertion"
  by (simp add: list_remove_def detached_def)


subsection \<open>Sorted insertion\<close>

definition sort_front :: "(addr \<Rightarrow> int) \<Rightarrow> int \<Rightarrow> addr list \<Rightarrow> addr list" where
  "sort_front key k xs = takeWhile (\<lambda>x. key x \<le> k) xs"

definition sort_back :: "(addr \<Rightarrow> int) \<Rightarrow> int \<Rightarrow> addr list \<Rightarrow> addr list" where
  "sort_back key k xs = dropWhile (\<lambda>x. key x \<le> k) xs"

lemma sort_split: "sort_front key k xs @ sort_back key k xs = xs"
  by (simp add: sort_front_def sort_back_def)

lemma anchor_loop_chain:
  assumes "chain h a xs b" "b \<notin> set xs" "0 \<notin> set xs"
  shows "anchor_loop h b key k (nnext h a) = Some (Inr (hd (sort_back key k xs @ [b])))"
  using assms
proof (induction xs arbitrary: a)
  case Nil
  then show ?case by (simp add: anchor_loop.simps sort_back_def)
next
  case (Cons x xs)
  then show ?case
    by (subst anchor_loop.simps) (auto simp: sort_back_def)
qed

lemma dll_insert_sort:
  assumes l: "dll h l xs" and n: "n \<noteq> 0" "n \<notin> nodes l xs" "detached h n"
  shows "\<exists>h'. list_insert_sort h l n key = Inr h'
    \<and> dll h' l (sort_front key (key n) xs @ n # sort_back key (key n) xs)
    \<and> h' = link h (last (l # sort_front key (key n) xs)) n (hd (sort_back key (key n) xs @ [l + 8]))"
proof -
  let ?f = "sort_front key (key n) xs" and ?b = "sort_back key (key n) xs"
  let ?p = "last (l # ?f)" and ?q = "hd (?b @ [l + 8])"
  have split: "dll h l (?f @ ?b)" using l by (simp add: sort_split)
  have mem: "set ?f \<subseteq> set xs" "set ?b \<subseteq> set xs"
    by (metis sort_split set_append Un_upper1) (metis sort_split set_append Un_upper2)
  have p: "nprev h ?q = ?p"
  proof (cases ?b)
    case Nil
    then show ?thesis using dll_ends(2)[of h l ?f] split by simp
  next
    case (Cons y ys)
    then show ?thesis using dll_split_node(1)[of h l ?f y ys] split by simp
  qed
  have "?p \<noteq> 0" by (rule last_cons_neq) (use dll_D[OF l] mem in auto)
  moreover have "?p \<noteq> n" by (rule last_cons_neq) (use n mem in \<open>auto simp: nodes_def\<close>)
  moreover have "?q \<noteq> 0" by (rule hd_snoc_neq) (use dll_D[OF l] mem in auto)
  moreover have "?q \<noteq> n" by (rule hd_snoc_neq) (use n mem in \<open>auto simp: nodes_def\<close>)
  ultimately have "list_insert_before h ?q n = Inr (link h ?p n ?q)"
    using p n by (subst insert_before_eq) auto
  moreover have "dll (link h ?p n ?q) l (?f @ n # ?b)"
    by (rule dll_link[OF split]) (use n in \<open>simp_all add: sort_split\<close>)
  moreover have "anchor_loop h (l + 8) key (key n) (nnext h l) = Some (Inr ?q)"
    by (rule anchor_loop_chain) (use l dll_D[OF l] in \<open>auto simp: dll_def\<close>)
  ultimately show ?thesis
    using n by (simp add: list_insert_sort_def tail_of_def head_of_def detached_def)
qed

lemma sort_front_le: "x \<in> set (sort_front key k xs) \<Longrightarrow> key x \<le> k"
  by (auto simp: sort_front_def dest: set_takeWhileD)

lemma sort_back_gt:
  assumes "sorted (map key xs)" "x \<in> set (sort_back key k xs)"
  shows "k < key x"
  using assms by (induction xs) (auto simp: sort_back_def split: if_splits)

lemma sorted_insert:
  assumes "sorted (map key xs)"
  shows "sorted (map key (sort_front key (key n) xs @ n # sort_back key (key n) xs))"
proof -
  have "sorted (map key (sort_front key (key n) xs @ sort_back key (key n) xs))"
    using assms by (simp only: sort_split)
  moreover have "\<forall>x\<in>set (sort_front key (key n) xs). key x \<le> key n"
    by (simp add: sort_front_le)
  moreover have "\<forall>x\<in>set (sort_back key (key n) xs). key n \<le> key x"
    using sort_back_gt[OF assms, of _ "key n"] by (auto intro: less_imp_le)
  ultimately show ?thesis by (auto simp: sorted_append)
qed

subsection \<open>Frames\<close>

lemma dll_link_frame:
  assumes "dll h m ys" "p \<notin> nodes m ys" "n \<notin> nodes m ys" "q \<notin> nodes m ys"
  shows "dll (link h p n q) m ys"
  using assms by (subst dll_frame[where h = h]) (auto simp: link_def)

lemma dll_unlink_frame:
  assumes "dll h m ys" "p \<notin> nodes m ys" "n \<notin> nodes m ys" "q \<notin> nodes m ys"
  shows "dll (unlink h p n q) m ys"
  using assms by (subst dll_frame[where h = h]) (auto simp: unlink_def)

lemma dll_push_frame:
  assumes "dll h l xs" "dll h m ys" "n \<noteq> 0" "n \<notin> nodes l xs" "n \<notin> nodes m ys"
    and "nodes l xs \<inter> nodes m ys = {}" and "list_push h l n = Inr h'"
  shows "dll h' m ys"
proof -
  have "hd (xs @ [l + 8]) \<in> nodes l xs"
    using hd_snoc_in[of xs "l + 8"] by (auto simp: nodes_def)
  then have "hd (xs @ [l + 8]) \<notin> nodes m ys" "l \<notin> nodes m ys"
    using assms(6) by (auto simp: nodes_def)
  then show ?thesis
    using dll_push[OF assms(1,3,4)] assms(2,5,7) by (auto intro: dll_link_frame)
qed

lemma dll_remove_frame:
  assumes "dll h l (xs @ n # zs)" "dll h m ys"
    and "nodes l (xs @ n # zs) \<inter> nodes m ys = {}" and "list_remove h n = Inr h'"
  shows "dll h' m ys"
proof -
  have "hd (zs @ [l + 8]) \<in> nodes l (xs @ n # zs)"
    using hd_snoc_in[of zs "l + 8"] by (auto simp: nodes_def)
  moreover have "last (l # xs) \<in> nodes l (xs @ n # zs)"
    by (cases xs rule: rev_cases) (auto simp: nodes_def)
  moreover have "n \<in> nodes l (xs @ n # zs)" by (simp add: nodes_def)
  ultimately have "last (l # xs) \<notin> nodes m ys" "n \<notin> nodes m ys" "hd (zs @ [l + 8]) \<notin> nodes m ys"
    using assms(3) by blast+
  then show ?thesis
    using dll_remove[OF assms(1)] assms(2,4) by (auto intro: dll_unlink_frame)
qed

subsection \<open>Detached nodes\<close>

lemma chain_linked:
  "chain h a xs b \<Longrightarrow> a \<noteq> 0 \<Longrightarrow> 0 \<notin> set xs \<Longrightarrow> x \<in> set (xs @ [b]) \<Longrightarrow> nprev h x \<noteq> 0"
  by (induction xs arbitrary: a) auto

lemma detached_not_in:
  assumes "dll h l xs" "detached h u"
  shows "u \<notin> nodes l xs"
proof
  assume "u \<in> nodes l xs"
  then consider "u = l" | "u \<in> set (xs @ [l + 8])" by (auto simp: nodes_def)
  then show False
  proof cases
    case 1
    have "nnext h l = hd (xs @ [l + 8])" using assms(1) chain_first by (auto simp: dll_def)
    moreover have "hd (xs @ [l + 8]) \<noteq> 0" by (rule hd_snoc_neq) (use assms(1) in \<open>auto simp: dll_def\<close>)
    ultimately show False using assms(2) 1 by (simp add: detached_def)
  next
    case 2
    then have "nprev h u \<noteq> 0" using assms(1) chain_linked[of h l xs "l + 8" u] by (auto simp: dll_def)
    then show False using assms(2) by (simp add: detached_def)
  qed
qed

lemma list_push_detached:
  assumes "dll h l xs" "n \<noteq> 0" "n \<notin> nodes l xs" "list_push h l n = Inr h'" "detached h u" "u \<noteq> n"
  shows "detached h' u"
proof -
  have h': "h' = link h l n (hd (xs @ [l + 8]))" using dll_push[OF assms(1-3)] assms(4) by auto
  have "u \<notin> nodes l xs" by (rule detached_not_in[OF assms(1,5)])
  then have "u \<noteq> l" "u \<noteq> hd (xs @ [l + 8])" using hd_snoc_in[of xs "l + 8"] by (auto simp: nodes_def)
  then show ?thesis using assms(5,6) by (simp add: h' link_def detached_def)
qed

lemma list_remove_detached:
  assumes "dll h l (xs @ n # ys)" "list_remove h n = Inr h'" "detached h u"
  shows "detached h' u"
proof -
  have h': "h' = unlink h (last (l # xs)) n (hd (ys @ [l + 8]))" using dll_remove[OF assms(1)] assms(2) by auto
  have u: "u \<notin> nodes l (xs @ n # ys)" by (rule detached_not_in[OF assms(1,3)])
  have "last (l # xs) \<in> insert l (set xs)" by (cases xs rule: rev_cases) auto
  then have "u \<noteq> last (l # xs)" "u \<noteq> hd (ys @ [l + 8])"
    using u hd_snoc_in[of ys "l + 8"] by (auto simp: nodes_def)
  then show ?thesis using assms(3) by (simp add: h' unlink_def detached_def)
qed

subsection \<open>The waiting-queue discipline\<close>

text \<open>
  The kernel uses the list as a queue: a waiter is pushed after the head node and taken
  from before the tail node (\<^verbatim>\<open>kernel/mutex.c\<close>, \<^verbatim>\<open>kernel/buffer.c\<close>).  The
  interface a client of that discipline relies on, and what it gives: first in, first out.
\<close>

fun push_all :: "('h \<Rightarrow> addr \<Rightarrow> addr \<Rightarrow> 'h res) \<Rightarrow> 'h \<Rightarrow> addr \<Rightarrow> addr list \<Rightarrow> 'h res" where
  "push_all push h l [] = Inr h"
| "push_all push h l (n # ns) = bnd (push h l n) (\<lambda>h. push_all push h l ns)"

fun pop_all :: "('h \<Rightarrow> addr \<Rightarrow> ('h \<times> addr) res) \<Rightarrow> 'h \<Rightarrow> addr \<Rightarrow> nat \<Rightarrow> ('h \<times> addr list) res" where
  "pop_all pop h l 0 = Inr (h, [])"
| "pop_all pop h l (Suc k) =
     bnd (pop h l) (\<lambda>(h, n). bnd (pop_all pop h l k) (\<lambda>(h, ns). Inr (h, n # ns)))"

locale wait_queue =
  fixes rep :: "'h \<Rightarrow> addr \<Rightarrow> addr list \<Rightarrow> bool"
    and push :: "'h \<Rightarrow> addr \<Rightarrow> addr \<Rightarrow> 'h res"
    and popback :: "'h \<Rightarrow> addr \<Rightarrow> ('h \<times> addr) res"
  assumes push: "rep h l xs \<Longrightarrow> n \<noteq> 0 \<Longrightarrow> n \<notin> nodes l xs \<Longrightarrow>
      \<exists>h'. push h l n = Inr h' \<and> rep h' l (n # xs)"
    and popback: "rep h l (xs @ [n]) \<Longrightarrow> \<exists>h'. popback h l = Inr (h', n) \<and> rep h' l xs"
begin

lemma push_all_rep:
  assumes "rep h l xs" "distinct ns" "0 \<notin> set ns" "set ns \<inter> nodes l xs = {}"
  shows "\<exists>h'. push_all push h l ns = Inr h' \<and> rep h' l (rev ns @ xs)"
  using assms
proof (induction ns arbitrary: h xs)
  case Nil
  then show ?case by simp
next
  case (Cons n ns)
  obtain h1 where "push h l n = Inr h1" "rep h1 l (n # xs)"
    using push[of h l xs n] Cons.prems by auto
  moreover have "set ns \<inter> nodes l (n # xs) = {}" using Cons.prems by (auto simp: nodes_def)
  ultimately show ?case using Cons.IH[of h1 "n # xs"] Cons.prems by simp
qed

lemma pop_all_rep:
  assumes "rep h l (xs @ rev ns)"
  shows "\<exists>h'. pop_all popback h l (length ns) = Inr (h', ns) \<and> rep h' l xs"
  using assms
proof (induction ns arbitrary: h)
  case Nil
  then show ?case by simp
next
  case (Cons n ns)
  obtain h1 where "popback h l = Inr (h1, n)" "rep h1 l (xs @ rev ns)"
    using popback[of h l "xs @ rev ns" n] Cons.prems by auto
  then show ?case using Cons.IH[of h1] by auto
qed

lemma first_in_first_out:
  assumes "rep h l []" "distinct ns" "0 \<notin> set ns" "set ns \<inter> nodes l [] = {}"
  shows "\<exists>h1 h2. push_all push h l ns = Inr h1
    \<and> pop_all popback h1 l (length ns) = Inr (h2, ns) \<and> rep h2 l []"
  using push_all_rep[OF assms] pop_all_rep[of _ l "[]" ns] by fastforce

end

interpretation lq: wait_queue dll list_push list_popback
proof unfold_locales
  show "\<exists>h'. list_push h l n = Inr h' \<and> dll h' l (n # xs)"
    if "dll h l xs" "n \<noteq> 0" "n \<notin> nodes l xs" for h l xs n
    using dll_push[OF that] by blast
  show "\<exists>h'. list_popback h l = Inr (h', n) \<and> dll h' l xs" if "dll h l (xs @ [n])" for h l xs n
    using dll_popback[OF that] by blast
qed

subsection \<open>Properties\<close>

definition one_list :: heap where
  "one_list = list_init \<lparr>nprev = (\<lambda>_. 0), nnext = (\<lambda>_. 0)\<rparr> 100"

lemma one_list_dll: "dll one_list 100 []" "detached one_list 200" "200 \<notin> nodes 100 []"
proof -
  show "dll one_list 100 []" unfolding one_list_def by (rule dll_init) simp
qed (simp_all add: one_list_def nodes_def detached_def list_init_def list_heap_defs Let_def)

text \<open>
  C30: sorted insertion (\<^verbatim>\<open>list_insert_sort\<close>) of a node that is in no list returns, keeps
  the list well formed, puts the node among the old nodes without disturbing their order, and
  keeps a list sorted by its key sorted.
\<close>

theorem list_insert_sort_keeps_order:
  assumes "dll h l xs" "n \<noteq> 0" "n \<notin> nodes l xs" "detached h n"
  shows "\<exists>h' us vs. list_insert_sort h l n key = Inr h' \<and> xs = us @ vs \<and> dll h' l (us @ n # vs)
    \<and> (sorted (map key xs) \<longrightarrow> sorted (map key (us @ n # vs)))"
  using dll_insert_sort[OF assms, of key] sort_split[of key "key n" xs] sorted_insert[of key xs n]
  by metis

lemma list_insert_sort_keeps_order_witness:
  "\<exists>h' us vs. list_insert_sort one_list 100 200 (\<lambda>_. 7) = Inr h' \<and> [] = us @ vs
    \<and> dll h' 100 (us @ 200 # vs) \<and> (sorted (map (\<lambda>_. 7 :: int) []) \<longrightarrow> sorted (map (\<lambda>_. 7 :: int) (us @ 200 # vs)))"
  using list_insert_sort_keeps_order[OF one_list_dll(1) _ one_list_dll(3,2), of "\<lambda>_. 7"]
  by simp

text \<open>
  C31: nodes pushed on an empty list with \<^verbatim>\<open>list_push\<close> come back from
  \<^verbatim>\<open>list_popback\<close> in the order they were pushed, and leave the list empty.
\<close>

theorem push_popback_fifo:
  assumes "dll h l []" "distinct ns" "0 \<notin> set ns" "set ns \<inter> nodes l [] = {}"
  shows "\<exists>h1 h2. push_all list_push h l ns = Inr h1
    \<and> pop_all list_popback h1 l (length ns) = Inr (h2, ns) \<and> dll h2 l []"
  using assms by (rule lq.first_in_first_out)

lemma push_popback_fifo_witness:
  "\<exists>h1 h2. push_all list_push one_list 100 [200, 300, 250] = Inr h1
    \<and> pop_all list_popback h1 100 (length [200, 300, 250 :: nat]) = Inr (h2, [200, 300, 250]) \<and> dll h2 100 []"
  by (rule push_popback_fifo[OF one_list_dll(1)]) (simp_all add: nodes_def)

text \<open>
  Removing a node from the middle of a list joins its neighbours, clears the node's two
  links, and a second \<^verbatim>\<open>list_remove\<close> of the same node stops at an assertion.
\<close>

theorem list_remove_once:
  assumes "dll h l (xs @ n # ys)"
  shows "\<exists>h'. list_remove h n = Inr h' \<and> dll h' l (xs @ ys) \<and> nprev h' n = 0 \<and> nnext h' n = 0
    \<and> list_remove h' n = Inl Assertion"
proof -
  have "n \<noteq> 0" using assms by (auto simp: dll_def)
  then show ?thesis
    using dll_remove[OF assms] remove_detached[of n] by (auto simp: detached_def)
qed

lemma list_remove_once_witness:
  "\<exists>h h'. dll h 100 [200] \<and> list_remove h 200 = Inr h' \<and> dll h' 100 [] \<and> list_remove h' 200 = Inl Assertion"
proof -
  obtain h where h: "dll h 100 [200]"
    using dll_push[OF one_list_dll(1) _ one_list_dll(3)] by auto
  then show ?thesis using list_remove_once[of h 100 "[]" 200 "[]"] by auto
qed

end
