(* ===== verification/Interrupts.thy ===== *)
theory Interrupts
  imports Prelude
begin

text \<open>
  \<^verbatim>\<open>kernel/interrupt.c\<close> and the port instructions it uses.  \<open>ports\<close> holds the byte
  an \<^verbatim>\<open>inb\<close> of each port returns and the list of \<^verbatim>\<open>outb\<close> operations, oldest first;
  a data port of the interrupt controller returns what was last written there.  The flag that
  \<^verbatim>\<open>cli\<close> and \<^verbatim>\<open>sti\<close> change is an argument of the operations that test it.
\<close>

subsection \<open>Ports\<close>

record ports =
  pval :: "u16 \<Rightarrow> u8"
  trace :: "(u16 \<times> u8) list"

definition outb :: "u16 \<Rightarrow> u8 \<Rightarrow> ports \<Rightarrow> ports" where
  "outb p v io = io\<lparr>pval := (pval io)(p := v), trace := trace io @ [(p, v)]\<rparr>"

definition inb :: "u16 \<Rightarrow> ports \<Rightarrow> u8" where
  "inb p io = pval io p"

subsection \<open>The interrupt controller\<close>

definition PIC_M_CTRL :: u16 where "PIC_M_CTRL = 0x20"
definition PIC_M_DATA :: u16 where "PIC_M_DATA = 0x21"
definition PIC_S_CTRL :: u16 where "PIC_S_CTRL = 0xa0"
definition PIC_S_DATA :: u16 where "PIC_S_DATA = 0xa1"
definition PIC_EOI :: u8 where "PIC_EOI = 0x20"

definition send_eoi :: "int \<Rightarrow> ports \<Rightarrow> ports" where
  "send_eoi vector io =
     (let io = (if vector \<ge> 0x20 \<and> vector < 0x28 then outb PIC_M_CTRL PIC_EOI io else io)
      in if vector \<ge> 0x28 \<and> vector < 0x30
         then outb PIC_S_CTRL PIC_EOI (outb PIC_M_CTRL PIC_EOI io) else io)"

definition set_interrupt_mask :: "nat \<Rightarrow> bool \<Rightarrow> ports \<Rightarrow> ports res" where
  "set_interrupt_mask irq enable io =
     bnd (assrt (irq < 16)) (\<lambda>_.
     let (port, irq) = (if irq < 8 then (PIC_M_DATA, irq) else (PIC_S_DATA, irq - 8));
         v = inb port io
     in Inr (if enable then outb port (v AND NOT (push_bit irq 1)) io
             else outb port (v OR push_bit irq 1) io))"

definition pic_init :: "ports \<Rightarrow> ports" where
  "pic_init io = fold (\<lambda>(p, v). outb p v)
     [(PIC_M_CTRL, 0x11), (PIC_M_DATA, 0x20), (PIC_M_DATA, 4), (PIC_M_DATA, 1),
      (PIC_S_CTRL, 0x11), (PIC_S_DATA, 0x28), (PIC_S_DATA, 2), (PIC_S_DATA, 1),
      (PIC_M_DATA, 0xff), (PIC_S_DATA, 0xff)] io"

subsection \<open>Gates and handlers\<close>

record gate =
  offset0 :: u16
  selector :: u16
  gtype :: nat
  segment :: bool
  DPL :: nat
  gpresent :: bool
  offset1 :: u16

definition make_gate :: "u32 \<Rightarrow> nat \<Rightarrow> gate" where
  "make_gate handler dpl = \<lparr>offset0 = ucast (handler AND 0xffff), selector = push_bit 3 1, gtype = 14,
     segment = False, DPL = dpl, gpresent = True,
     offset1 = ucast (drop_bit 16 handler AND 0xffff)\<rparr>"

datatype handler = Exception_handler | Page_fault | Default_handler | Driver u32

record idt_state =
  idt :: "gate list"
  handler_table :: "handler list"

fun gate_loop :: "gate list \<Rightarrow> u32 list \<Rightarrow> nat \<Rightarrow> gate list res" where
  "gate_loop g [] i = Inr g"
| "gate_loop g (h # hs) i = bnd (wr g i (make_gate h 0)) (\<lambda>g. gate_loop g hs (Suc i))"

fun handler_loop :: "handler list \<Rightarrow> handler \<Rightarrow> nat \<Rightarrow> nat \<Rightarrow> handler list res" where
  "handler_loop t h i 0 = Inr t"
| "handler_loop t h i (Suc n) = bnd (wr t i h) (\<lambda>t. handler_loop t h (Suc i) n)"

text \<open>
  \<open>entries\<close> is the assembly file's \<^verbatim>\<open>handler_entry_table\<close> of 48 addresses and
  \<open>syscall_handler\<close> the address of its system call entry.
\<close>

definition ENTRY_SIZE :: nat where "ENTRY_SIZE = 0x30"

definition idt_init :: "u32 list \<Rightarrow> u32 \<Rightarrow> idt_state \<Rightarrow> idt_state res" where
  "idt_init entries syscall_handler s =
     bnd (if ENTRY_SIZE \<le> length entries then Inr (take ENTRY_SIZE entries) else Inl Fault) (\<lambda>es.
     bnd (gate_loop (idt s) es 0) (\<lambda>g.
     bnd (handler_loop (handler_table s) Exception_handler 0 0x20) (\<lambda>t.
     bnd (wr t 0xe Page_fault) (\<lambda>t.
     bnd (handler_loop t Default_handler 0x20 (ENTRY_SIZE - 0x20)) (\<lambda>t.
     bnd (wr g 0x80 (make_gate syscall_handler 3)) (\<lambda>g.
     Inr (s\<lparr>idt := g, handler_table := t\<rparr>)))))))"

definition interrupt_init :: "u32 list \<Rightarrow> u32 \<Rightarrow> ports \<times> idt_state \<Rightarrow> (ports \<times> idt_state) res" where
  "interrupt_init entries syscall_handler = (\<lambda>(io, s).
     let io = pic_init io in bnd (idt_init entries syscall_handler s) (\<lambda>s. Inr (io, s)))"

definition IRQ_MASTER_NR :: nat where "IRQ_MASTER_NR = 0x20"

definition set_interrupt_handler :: "nat \<Rightarrow> handler \<Rightarrow> idt_state \<Rightarrow> idt_state res" where
  "set_interrupt_handler irq h s =
     bnd (assrt (irq < 16)) (\<lambda>_.
     bnd (wr (handler_table s) (IRQ_MASTER_NR + irq) h) (\<lambda>t. Inr (s\<lparr>handler_table := t\<rparr>)))"

definition default_handler :: "int \<Rightarrow> ports \<Rightarrow> ports" where
  "default_handler vector io = send_eoi vector io"

subsection \<open>Lemmas\<close>

lemma gate_loop_nth:
  "gate_loop g hs i = Inr g' \<Longrightarrow> length g' = length g \<and>
   (\<forall>k. g' ! k = (if i \<le> k \<and> k < i + length hs then make_gate (hs ! (k - i)) 0 else g ! k))
   \<and> (hs = [] \<or> i + length hs \<le> length g)"
proof (induction hs arbitrary: g i)
  case (Cons h hs)
  then have i: "i < length g" and l: "gate_loop (g[i := make_gate h 0]) hs (Suc i) = Inr g'" by auto
  show ?case
    using Cons.IH[OF l] i by (auto simp: nth_list_update nth_Cons' Suc_le_eq le_less)
qed auto

lemma handler_loop_nth:
  "handler_loop t h i n = Inr t' \<Longrightarrow> length t' = length t \<and>
   (\<forall>k. t' ! k = (if i \<le> k \<and> k < i + n then h else t ! k)) \<and> (n = 0 \<or> i + n \<le> length t)"
proof (induction n arbitrary: t i)
  case (Suc n)
  then have i: "i < length t" and l: "handler_loop (t[i := h]) h (Suc i) n = Inr t'" by auto
  show ?case using Suc.IH[OF l] i by (auto simp: nth_list_update Suc_le_eq le_less)
qed auto

lemma gate_target:
  "(ucast (offset1 (make_gate h d)) :: u32) * 2 ^ 16 + ucast (offset0 (make_gate h d)) = h"
proof -
  have "push_bit 16 (drop_bit 16 h) + take_bit 16 h = h"
    by (metis bits_ident)
  moreover have m: "w AND 0xffff = take_bit 16 w" for w :: u32
    by (simp add: take_bit_eq_mask mask_eq_exp_minus_1)
  have u: "ucast (ucast (take_bit 16 w) :: u16) = take_bit 16 w" for w :: u32
    by (rule bit_word_eqI) (auto simp: bit_simps)
  have "take_bit 16 (drop_bit 16 h) = drop_bit 16 h"
    by (rule bit_word_eqI) (auto simp: bit_simps dest: bit_imp_le_length)
  then have "(ucast (offset1 (make_gate h d)) :: u32) = drop_bit 16 h"
    "(ucast (offset0 (make_gate h d)) :: u32) = take_bit 16 h"
    using u[of h] u[of "drop_bit 16 h"] by (simp_all add: make_gate_def m)
  ultimately show ?thesis by (simp add: push_bit_eq_mult)
qed


subsection \<open>Properties\<close>

text \<open>
  \<^verbatim>\<open>set_interrupt_mask\<close> changes the mask bit of its request line in the data port of
  the controller the line belongs to, and no other bit of either port.
\<close>

theorem set_interrupt_mask_one_bit:
  assumes "irq < 16" "set_interrupt_mask irq enable io = Inr io'"
  shows "bit (pval io' (if irq < 8 then PIC_M_DATA else PIC_S_DATA)) (irq mod 8) = (\<not> enable)
    \<and> (\<forall>n. n \<noteq> irq mod 8 \<longrightarrow> bit (pval io' (if irq < 8 then PIC_M_DATA else PIC_S_DATA)) n
          = bit (pval io (if irq < 8 then PIC_M_DATA else PIC_S_DATA)) n)
    \<and> (\<forall>p. p \<noteq> (if irq < 8 then PIC_M_DATA else PIC_S_DATA) \<longrightarrow> pval io' p = pval io p)"
proof -
  have m: "irq mod 8 = (if irq < 8 then irq else irq - 8)" using assms(1) by (simp add: mod_if)
  have b: "bit (2 ^ k :: u8) n \<longleftrightarrow> n = k \<and> n < 8" for k n
    by (auto simp: bit_exp_iff)
  have l: "n < 8" if "bit (w :: u8) n" for w n using bit_imp_le_length[OF that] by simp
  show ?thesis
    using assms by (auto simp: set_interrupt_mask_def m outb_def inb_def Let_def bit_or_iff bit_and_iff bit_not_iff b
        split: if_splits dest: l)
qed

lemma set_interrupt_mask_one_bit_witness:
  "\<exists>io'. set_interrupt_mask 14 True (pic_init \<lparr>pval = (\<lambda>_. 0), trace = []\<rparr>) = Inr io'
    \<and> \<not> bit (pval io' PIC_S_DATA) 6"
  using set_interrupt_mask_one_bit[of 14 True "pic_init \<lparr>pval = (\<lambda>_. 0), trace = []\<rparr>"]
  by (auto simp: set_interrupt_mask_def Let_def)

text \<open>
  After \<^verbatim>\<open>idt_init\<close> the gate of each of the 48 entry points jumps to that entry at
  kernel privilege, the system call gate 0x80 jumps to the system call entry and is the only one
  user code may call, and every vector has the handler of its group.
\<close>

theorem idt_init_gates:
  assumes "idt_init entries sc s = Inr s'"
  shows "(\<forall>i < 48. idt s' ! i = make_gate (entries ! i) 0)
    \<and> idt s' ! 0x80 = make_gate sc 3 \<and> DPL (idt s' ! 0x80) = 3
    \<and> (\<forall>i < 48. (ucast (offset1 (idt s' ! i)) :: u32) * 2 ^ 16 + ucast (offset0 (idt s' ! i)) = entries ! i)
    \<and> (\<forall>i < 48. handler_table s' ! i =
         (if i = 14 then Page_fault else if i < 32 then Exception_handler else Default_handler))"
proof -
  obtain es g t1 t2 t3 g' where len: "48 \<le> length entries" and es: "es = take 48 entries"
    and g: "gate_loop (idt s) es 0 = Inr g"
    and t1: "handler_loop (handler_table s) Exception_handler 0 0x20 = Inr t1"
    and t2: "wr t1 0xe Page_fault = Inr t2" and t3: "handler_loop t2 Default_handler 0x20 16 = Inr t3"
    and g': "wr g 0x80 (make_gate sc 3) = Inr g'" and s': "s' = s\<lparr>idt := g', handler_table := t3\<rparr>"
    using assms by (auto simp: idt_init_def ENTRY_SIZE_def split: if_splits)
  have G: "g ! i = make_gate (entries ! i) 0" if "i < 48" for i
    using gate_loop_nth[OF g] len es that by simp
  have i: "idt s' ! i = make_gate (entries ! i) 0" if "i < 48" for i
    using G[OF that] g' that by (simp add: s')
  have sc: "idt s' ! 0x80 = make_gate sc 3" using g' by (auto simp: s')
  have h: "handler_table s' ! i =
         (if i = 14 then Page_fault else if i < 32 then Exception_handler else Default_handler)"
    if "i < 48" for i
    using handler_loop_nth[OF t1] handler_loop_nth[OF t3] t2 that by (auto simp: s' nth_list_update)
  show ?thesis using i sc h gate_target by (simp add: make_gate_def[of sc])
qed

lemma gate_loop_ok: "i + length hs \<le> length g \<Longrightarrow> \<exists>g'. gate_loop g hs i = Inr g'"
  by (induction hs arbitrary: g i) auto

lemma handler_loop_ok: "i + n \<le> length t \<Longrightarrow> \<exists>t'. handler_loop t h i n = Inr t'"
  by (induction n arbitrary: t i) auto

lemma idt_init_ok:
  assumes "length (idt s) = 256" "length (handler_table s) = 256" "48 \<le> length entries"
  shows "\<exists>s'. idt_init entries sc s = Inr s'"
proof -
  obtain g where g: "gate_loop (idt s) (take 48 entries) 0 = Inr g"
    using gate_loop_ok[of 0 "take 48 entries" "idt s"] assms by auto
  obtain t1 where t1: "handler_loop (handler_table s) Exception_handler 0 0x20 = Inr t1"
    using handler_loop_ok[of 0 32 "handler_table s"] assms by auto
  have l: "length t1 = 256" "length g = 256"
    using handler_loop_nth[OF t1] gate_loop_nth[OF g] assms by auto
  obtain t3 where t3: "handler_loop (t1[14 := Page_fault]) Default_handler 0x20 16 = Inr t3"
    using handler_loop_ok[of 32 16 "t1[14 := Page_fault]"] l by auto
  show ?thesis using g t1 t3 l assms by (simp add: idt_init_def ENTRY_SIZE_def)
qed

definition blank_idt :: idt_state where
  "blank_idt = \<lparr>idt = replicate 256 (make_gate 0 0), handler_table = replicate 256 Default_handler\<rparr>"

lemma idt_init_gates_witness:
  "\<exists>s'. idt_init (replicate 48 0x12345678) 0xabcd blank_idt = Inr s' \<and> DPL (idt s' ! 0x80) = 3
    \<and> handler_table s' ! 14 = Page_fault"
proof -
  obtain s' where "idt_init (replicate 48 0x12345678) 0xabcd blank_idt = Inr s'"
    using idt_init_ok[of blank_idt "replicate 48 0x12345678" "0xabcd"] by (auto simp: blank_idt_def)
  with idt_init_gates[OF this] show ?thesis by auto
qed

end
