(* ===== verification/Task.thy ===== *)
theory Task
  imports Lists Vmem Interrupts
begin

text \<open>
  Tasks and the scheduler: \<^verbatim>\<open>kernel/task.c\<close>.  A task control block is at the start of
  its kernel page and the record \<open>task\<close> keeps its fields; the list node in it, four bytes
  from the start, is in the node heap of theory \<open>Lists\<close>.  \<open>sched\<close> holds the file's
  static variables, the running task (the page of the stack pointer), the interrupt flag, the
  kernel memory and the reference counts of files and inodes by address.

  \<^verbatim>\<open>task_switch\<close> makes the next task the running one.  What a blocked task does when it is
  switched to again is the code after its call; the operations that loop around a call that may
  block are steps, with a value that says whether they go round again.
\<close>

subsection \<open>State\<close>

datatype task_state =
  TASK_INIT | TASK_RUNNING | TASK_READY | TASK_BLOCKED | TASK_SLEEPING | TASK_WAITING | TASK_DIED

text \<open>The bitmap a task's \<^verbatim>\<open>vmap\<close> points to: the kernel's, or one of its own with the page
  its bits are in.\<close>

datatype vmap_ref = Kernel_map | Own_map u32 bitmap

record task_frame =
  fr_edi :: u32
  fr_esi :: u32
  fr_ebx :: u32
  fr_ebp :: u32
  fr_eip :: u32

record intr_frame =
  i_vector :: u32
  i_edi :: u32
  i_esi :: u32
  i_ebp :: u32
  i_esp_dummy :: u32
  i_ebx :: u32
  i_edx :: u32
  i_ecx :: u32
  i_eax :: u32
  i_gs :: u32
  i_fs :: u32
  i_es :: u32
  i_ds :: u32
  i_vector0 :: u32
  i_error :: u32
  i_eip :: u32
  i_cs :: u32
  i_eflags :: u32
  i_esp :: u32
  i_ss :: u32

text \<open>
  The two frames a task's stack page holds while it is switched out: the one
  \<^verbatim>\<open>task_switch\<close> pops, and the interrupt frame at the very top.
\<close>

record task =
  state :: task_state
  priority :: u32
  ticks :: u32
  tjiffies :: u32
  tname :: "u8 list"
  uid :: u32
  gid :: u32
  pid :: int
  ppid :: int
  pde :: u32
  vmap :: vmap_ref
  text_at :: u32
  data_at :: u32
  end_at :: u32
  brk :: u32
  status :: u32
  waitpid :: int
  pwd_page :: u32
  pwd :: "u8 list"
  ipwd :: addr
  iroot :: addr
  iexec :: addr
  umask :: u16
  files :: "addr list"
  sframe :: task_frame
  iframe :: intr_frame
  stack_at :: u32
  magic :: u32

record sched =
  nodes_at :: heap
  tcb :: "addr \<Rightarrow> task"
  task_table :: "addr list"
  block_list :: addr
  sleep_list :: addr
  idle_task :: addr
  current :: addr
  intr :: bool
  jiffies :: u32
  tss_esp0 :: u32
  mm :: kmem
  icount :: "addr \<Rightarrow> u32"
  fcount :: "addr \<Rightarrow> u32"

definition NR_TASKS :: nat where "NR_TASKS = 64"
definition TASK_FILE_NR :: nat where "TASK_FILE_NR = 16"
definition NORMAL_USER :: u32 where "NORMAL_USER = 1000"
definition jiffy :: u32 where "jiffy = 10"

definition node_of :: "addr \<Rightarrow> addr" where "node_of t = t + 4"
definition task_of :: "addr \<Rightarrow> addr" where "task_of n = n - 4"

definition upd_task :: "addr \<Rightarrow> (task \<Rightarrow> task) \<Rightarrow> sched \<Rightarrow> sched" where
  "upd_task t f s = s\<lparr>tcb := (tcb s)(t := f (tcb s t))\<rparr>"

text \<open>The fields of the running task that the memory code uses.\<close>

definition vtask_of :: "sched \<Rightarrow> task \<Rightarrow> vtask" where
  "vtask_of s t = \<lparr>t_pde = pde t, t_uid = uid t, t_end = end_at t, t_brk = brk t,
     t_vmap = (case vmap t of Kernel_map \<Rightarrow> kernel_bitmap (mm s) | Own_map p b \<Rightarrow> b)\<rparr>"

definition zero_frame_regs :: task_frame where
  "zero_frame_regs = \<lparr>fr_edi = 0, fr_esi = 0, fr_ebx = 0, fr_ebp = 0, fr_eip = 0\<rparr>"

definition zero_iframe :: intr_frame where
  "zero_iframe = \<lparr>i_vector = 0, i_edi = 0, i_esi = 0, i_ebp = 0, i_esp_dummy = 0, i_ebx = 0, i_edx = 0,
     i_ecx = 0, i_eax = 0, i_gs = 0, i_fs = 0, i_es = 0, i_ds = 0, i_vector0 = 0, i_error = 0, i_eip = 0, i_cs = 0,
     i_eflags = 0, i_esp = 0, i_ss = 0\<rparr>"

definition blank_task :: task where
  "blank_task = \<lparr>state = TASK_INIT, priority = 0, ticks = 0, tjiffies = 0, tname = [], uid = 0, gid = 0,
     pid = 0, ppid = 0, pde = 0, vmap = Own_map 0 \<lparr>bits = [], blen = 0, offset = 0\<rparr>, text_at = 0,
     data_at = 0, end_at = 0, brk = 0, status = 0, waitpid = 0, pwd_page = 0, pwd = [], ipwd = 0,
     iroot = 0, iexec = 0, umask = 0, files = replicate 16 0, sframe = zero_frame_regs,
     iframe = zero_iframe, stack_at = 0, magic = 0\<rparr>"

subsection \<open>The task table\<close>

fun free_slot :: "addr list \<Rightarrow> nat \<Rightarrow> nat \<Rightarrow> nat option" where
  "free_slot tab i 0 = None"
| "free_slot tab i (Suc n) = (if tab ! i = 0 then Some i else free_slot tab (Suc i) n)"

definition get_free_task :: "sched \<Rightarrow> (sched \<times> addr) res" where
  "get_free_task s =
     (case free_slot (task_table s) 0 NR_TASKS of
        None \<Rightarrow> Inl Panic
      | Some i \<Rightarrow>
          bnd (alloc_kpage (mm s) 1) (\<lambda>(m, page).
          let t = unat page;
              h = set_prev (set_next (nodes_at s) (node_of t) 0) (node_of t) 0
          in Inr (s\<lparr>mm := m, nodes_at := h, tcb := (tcb s)(t := blank_task\<lparr>pid := int i\<rparr>),
                    task_table := (task_table s)[i := t]\<rparr>, t)))"

fun fd_loop :: "addr list \<Rightarrow> nat \<Rightarrow> nat \<Rightarrow> nat" where
  "fd_loop fs i 0 = i"
| "fd_loop fs i (Suc n) = (if fs ! i = 0 then i else fd_loop fs (Suc i) n)"

definition task_get_fd :: "task \<Rightarrow> nat res" where
  "task_get_fd t =
     (let i = fd_loop (files t) 3 (TASK_FILE_NR - 3)
      in if i = TASK_FILE_NR then Inl Panic else Inr i)"

definition task_put_fd :: "task \<Rightarrow> nat \<Rightarrow> task res" where
  "task_put_fd t fd =
     bnd (assrt (fd < TASK_FILE_NR)) (\<lambda>_.
     bnd (wr (files t) fd 0) (\<lambda>fs. Inr (t\<lparr>files := fs\<rparr>)))"

text \<open>
  One candidate against the best so far: a comparison of the signed time slices, or of the
  unsigned times of the last run.
\<close>

definition better :: "sched \<Rightarrow> addr \<Rightarrow> addr \<Rightarrow> bool" where
  "better s best p =
     (best = 0 \<or> sint (ticks (tcb s best)) < sint (ticks (tcb s p)) \<or>
      tjiffies (tcb s p) < tjiffies (tcb s best))"

fun search_tasks :: "sched \<Rightarrow> task_state \<Rightarrow> addr list \<Rightarrow> addr \<Rightarrow> addr" where
  "search_tasks s st [] best = best"
| "search_tasks s st (p # ps) best =
     (if p = 0 then search_tasks s st ps best
      else if state (tcb s p) \<noteq> st then search_tasks s st ps best
      else if current s = p then search_tasks s st ps best
      else search_tasks s st ps (if better s best p then p else best))"

definition task_search :: "sched \<Rightarrow> task_state \<Rightarrow> addr res" where
  "task_search s st =
     bnd (assrt (\<not> intr s)) (\<lambda>_.
     let t = search_tasks s st (task_table s) 0
     in Inr (if t = 0 \<and> st = TASK_READY then idle_task s else t))"

subsection \<open>Scheduling\<close>

definition task_activate :: "sched \<Rightarrow> addr \<Rightarrow> sched res" where
  "task_activate s t =
     bnd (assrt (magic (tcb s t) = YUI_MAGIC)) (\<lambda>_.
     bnd (if pde (tcb s t) \<noteq> cr3 (mm s) then set_cr3 (mm s) (pde (tcb s t)) else Inr (mm s)) (\<lambda>m.
     let s = s\<lparr>mm := m\<rparr>
     in Inr (if uid (tcb s t) \<noteq> KERNEL_USER then s\<lparr>tss_esp0 := of_nat t + PAGE_SIZE\<rparr> else s)))"

definition task_switch :: "sched \<Rightarrow> addr \<Rightarrow> sched" where
  "task_switch s t = s\<lparr>current := t\<rparr>"

definition schedule :: "sched \<Rightarrow> sched res" where
  "schedule s =
     bnd (assrt (\<not> intr s)) (\<lambda>_.
     let cur = current s
     in bnd (task_search s TASK_READY) (\<lambda>nxt.
        bnd (assrt (nxt \<noteq> 0)) (\<lambda>_.
        bnd (assrt (magic (tcb s nxt) = YUI_MAGIC)) (\<lambda>_.
        let s = (if state (tcb s cur) = TASK_RUNNING then upd_task cur (\<lambda>t. t\<lparr>state := TASK_READY\<rparr>) s else s);
            s = (if ticks (tcb s cur) = 0 then upd_task cur (\<lambda>t. t\<lparr>ticks := priority t\<rparr>) s else s);
            s = upd_task nxt (\<lambda>t. t\<lparr>state := TASK_RUNNING\<rparr>) s
        in if nxt = cur then Inr s
           else bnd (task_activate s nxt) (\<lambda>s. Inr (task_switch s nxt))))))"

definition task_yield :: "sched \<Rightarrow> sched res" where
  "task_yield s = schedule s"

definition task_block :: "sched \<Rightarrow> addr \<Rightarrow> addr \<Rightarrow> task_state \<Rightarrow> sched res" where
  "task_block s t blist st =
     bnd (assrt (\<not> intr s)) (\<lambda>_.
     bnd (assrt (nnext (nodes_at s) (node_of t) = 0)) (\<lambda>_.
     bnd (assrt (nprev (nodes_at s) (node_of t) = 0)) (\<lambda>_.
     let blist = (if blist = 0 then block_list s else blist)
     in bnd (list_push (nodes_at s) blist (node_of t)) (\<lambda>h.
        bnd (assrt (st \<noteq> TASK_READY \<and> st \<noteq> TASK_RUNNING)) (\<lambda>_.
        let s = upd_task t (\<lambda>k. k\<lparr>state := st\<rparr>) (s\<lparr>nodes_at := h\<rparr>)
        in if current s = t then schedule s else Inr s)))))"

definition task_unblock :: "sched \<Rightarrow> addr \<Rightarrow> sched res" where
  "task_unblock s t =
     bnd (assrt (\<not> intr s)) (\<lambda>_.
     bnd (list_remove (nodes_at s) (node_of t)) (\<lambda>h.
     bnd (assrt (nnext h (node_of t) = 0)) (\<lambda>_.
     bnd (assrt (nprev h (node_of t) = 0)) (\<lambda>_.
     Inr (upd_task t (\<lambda>k. k\<lparr>state := TASK_READY\<rparr>) (s\<lparr>nodes_at := h\<rparr>))))))"

subsection \<open>Sleeping\<close>

definition task_sleep :: "sched \<Rightarrow> u32 \<Rightarrow> sched res" where
  "task_sleep s ms =
     bnd (assrt (\<not> intr s)) (\<lambda>_.
     let n = ms div jiffy; n = (if n > 0 then n else 1); cur = current s;
         s = upd_task cur (\<lambda>t. t\<lparr>ticks := jiffies s + n\<rparr>) s
     in bnd (list_insert_sort (nodes_at s) (sleep_list s) (node_of cur)
               (\<lambda>p. sint (ticks (tcb s (task_of p))))) (\<lambda>h.
        schedule (upd_task cur (\<lambda>t. t\<lparr>state := TASK_SLEEPING\<rparr>) (s\<lparr>nodes_at := h\<rparr>))))"

partial_function (option) wakeup_loop :: "sched \<Rightarrow> addr \<Rightarrow> sched res option" where
  "wakeup_loop s ptr =
     (if ptr = tail_of (sleep_list s) then Some (Inr s)
      else if ptr = 0 then Some (Inl Fault)
      else if ticks (tcb s (task_of ptr)) > jiffies s then Some (Inr s)
      else case task_unblock (upd_task (task_of ptr) (\<lambda>t. t\<lparr>ticks := 0\<rparr>) s) (task_of ptr) of
             Inl e \<Rightarrow> Some (Inl e)
           | Inr s' \<Rightarrow> wakeup_loop s' (nnext (nodes_at s) ptr))"

definition task_wakeup :: "sched \<Rightarrow> sched res" where
  "task_wakeup s =
     bnd (assrt (\<not> intr s)) (\<lambda>_.
     run (wakeup_loop s (nnext (nodes_at s) (head_of (sleep_list s)))))"

subsection \<open>Creating tasks\<close>

definition KERNEL_MAP_BITS :: u32 where "KERNEL_MAP_BITS = 0x6000"
definition TASK_FRAME_SIZE :: u32 where "TASK_FRAME_SIZE = 20"
definition INTR_FRAME_SIZE :: u32 where "INTR_FRAME_SIZE = 80"

definition count_up :: "(addr \<Rightarrow> u32) \<Rightarrow> addr \<Rightarrow> (addr \<Rightarrow> u32)" where
  "count_up c a = c(a := c a + 1)"

text \<open>
  \<open>target\<close> is the address of the task's function, \<open>root\<close> what \<^verbatim>\<open>get_root_inode\<close>
  returns and \<open>std\<close> the addresses of the first three entries of \<^verbatim>\<open>file_table\<close>.
\<close>

definition task_create ::
  "addr \<Rightarrow> (nat \<Rightarrow> addr) \<Rightarrow> sched \<Rightarrow> u32 \<Rightarrow> u8 list \<Rightarrow> u32 \<Rightarrow> u32 \<Rightarrow> (sched \<times> addr) res" where
  "task_create root std s target name prio usr =
     bnd (get_free_task s) (\<lambda>(s, t).
     let fr = \<lparr>fr_edi = 0x33333333, fr_esi = 0x22222222, fr_ebx = 0x11111111, fr_ebp = 0x44444444, fr_eip = target\<rparr>;
         s = upd_task t (\<lambda>k. k\<lparr>sframe := fr, tname := name,
               stack_at := of_nat t + PAGE_SIZE - TASK_FRAME_SIZE, priority := prio, ticks := prio,
               tjiffies := 0, state := TASK_READY, uid := usr, gid := 0, vmap := Kernel_map,
               pde := KERNEL_PAGE_DIR, brk := USER_EXEC_ADDR, text_at := USER_EXEC_ADDR,
               data_at := USER_EXEC_ADDR, end_at := USER_EXEC_ADDR, iexec := 0,
               iroot := root, ipwd := root\<rparr>) s;
         s = s\<lparr>icount := (icount s)(root := icount s root + 2)\<rparr>
     in bnd (alloc_kpage (mm s) 1) (\<lambda>(m, page).
        let s = upd_task t (\<lambda>k. k\<lparr>pwd_page := page, pwd := [47], umask := 18,
                  files := (files k)[0 := std 0, 1 := std 1, 2 := std 2], magic := YUI_MAGIC\<rparr>) (s\<lparr>mm := m\<rparr>)
        in Inr (s\<lparr>fcount := count_up (count_up (count_up (fcount s) (std 0)) (std 1)) (std 2)\<rparr>, t)))"

definition task_setup :: "sched \<Rightarrow> sched" where
  "task_setup s =
     (upd_task (current s) (\<lambda>t. t\<lparr>magic := YUI_MAGIC, ticks := 1\<rparr>) s)\<lparr>task_table := replicate NR_TASKS 0\<rparr>"

definition task_init ::
  "addr \<Rightarrow> (nat \<Rightarrow> addr) \<Rightarrow> u32 \<Rightarrow> u32 \<Rightarrow> u32 \<Rightarrow> sched \<Rightarrow> sched res" where
  "task_init root std idle_thread init_thread test_thread s =
     (let h = list_init (list_init (nodes_at s) (block_list s)) (sleep_list s);
          s = task_setup (s\<lparr>nodes_at := h\<rparr>)
      in bnd (task_create root std s idle_thread [105, 100, 108, 101] 1 KERNEL_USER) (\<lambda>(s, t).
         bnd (task_create root std (s\<lparr>idle_task := t\<rparr>) init_thread [105, 110, 105, 116] 5 NORMAL_USER) (\<lambda>(s, _).
         bnd (task_create root std s test_thread [116, 101, 115, 116] 5 NORMAL_USER) (\<lambda>(s, _). Inr s))))"

subsection \<open>Fork\<close>

definition task_build_stack :: "u32 \<Rightarrow> addr \<Rightarrow> sched \<Rightarrow> sched" where
  "task_build_stack interrupt_exit t s =
     upd_task t (\<lambda>k. k\<lparr>iframe := (iframe k)\<lparr>i_eax := 0\<rparr>,
       sframe := \<lparr>fr_edi = 0xaa55aa55, fr_esi = 0xaa55aa55, fr_ebx = 0xaa55aa55, fr_ebp = 0xaa55aa55,
                  fr_eip = interrupt_exit\<rparr>,
       stack_at := of_nat t + PAGE_SIZE - INTR_FRAME_SIZE - TASK_FRAME_SIZE\<rparr>) s"

fun share_files :: "(addr \<Rightarrow> u32) \<Rightarrow> addr list \<Rightarrow> (addr \<Rightarrow> u32)" where
  "share_files c [] = c"
| "share_files c (f # fs) = share_files (if f \<noteq> 0 then count_up c f else c) fs"

definition vmap_bits :: "sched \<Rightarrow> vmap_ref \<Rightarrow> bitmap" where
  "vmap_bits s v = (case v of Kernel_map \<Rightarrow> kernel_bitmap (mm s) | Own_map p b \<Rightarrow> b)"

definition task_fork :: "u32 \<Rightarrow> sched \<Rightarrow> (sched \<times> int) res" where
  "task_fork interrupt_exit s =
     (let cur = current s
      in bnd (assrt (nnext (nodes_at s) (node_of cur) = 0 \<and> nprev (nodes_at s) (node_of cur) = 0
                \<and> state (tcb s cur) = TASK_RUNNING)) (\<lambda>_.
         bnd (get_free_task s) (\<lambda>(s, child).
         let cpid = pid (tcb s child); task = tcb s cur;
             h = set_prev (set_next (nodes_at s) (node_of child) (nnext (nodes_at s) (node_of cur)))
                   (node_of child) (nprev (nodes_at s) (node_of cur));
             s = s\<lparr>nodes_at := h, tcb := (tcb s)(child := task\<lparr>pid := cpid, ppid := pid task,
                    ticks := priority task, state := TASK_READY\<rparr>)\<rparr>
         in bnd (alloc_kpage (mm s) 1) (\<lambda>(m, buf).
            let s = upd_task child (\<lambda>k. k\<lparr>vmap := Own_map buf (vmap_bits s (vmap task))\<rparr>) (s\<lparr>mm := m\<rparr>)
            in bnd (copy_pde (mm s) (vtask_of s task)) (\<lambda>(m, dir).
            let s = upd_task child (\<lambda>k. k\<lparr>pde := dir\<rparr>) (s\<lparr>mm := m\<rparr>)
            in bnd (alloc_kpage (mm s) 1) (\<lambda>(m, page).
            let s = upd_task child (\<lambda>k. k\<lparr>pwd_page := page, pwd := take (unat PAGE_SIZE - 1) (pwd task)\<rparr>) (s\<lparr>mm := m\<rparr>);
                c = count_up (count_up (icount s) (ipwd task)) (iroot task);
                c = (if iexec task \<noteq> 0 then count_up c (iexec task) else c);
                s = s\<lparr>icount := c, fcount := share_files (fcount s) (files (tcb s child))\<rparr>
            in Inr (task_build_stack interrupt_exit child s, pid (tcb s child))))))))"

subsection \<open>Waiting and exiting\<close>

datatype scan = Dead nat addr | Alive | None_left

fun wait_scan :: "sched \<Rightarrow> int \<Rightarrow> int \<Rightarrow> nat \<Rightarrow> nat \<Rightarrow> bool \<Rightarrow> scan" where
  "wait_scan s me wanted i 0 has_child = (if has_child then Alive else None_left)"
| "wait_scan s me wanted i (Suc n) has_child =
     (let ptr = task_table s ! i in
      if ptr = 0 then wait_scan s me wanted (Suc i) n has_child
      else if ppid (tcb s ptr) \<noteq> me then wait_scan s me wanted (Suc i) n has_child
      else if wanted \<noteq> pid (tcb s ptr) \<and> wanted \<noteq> -1 then wait_scan s me wanted (Suc i) n has_child
      else if state (tcb s ptr) = TASK_DIED then Dead i ptr
      else wait_scan s me wanted (Suc i) n True)"

text \<open>
  One round of the loop: the task has blocked and will come round again, or the call returns
  a pid with the status stored for the caller.
\<close>

datatype wait_end = Blocked sched | Reaped sched int u32

definition task_waitpid_step :: "sched \<Rightarrow> int \<Rightarrow> wait_end res" where
  "task_waitpid_step s wanted =
     (let cur = current s
      in case wait_scan s (pid (tcb s cur)) wanted 2 (NR_TASKS - 2) False of
           Dead i child \<Rightarrow>
             let s = s\<lparr>task_table := (task_table s)[i := 0]\<rparr>
             in bnd (free_kpage (mm s) (of_nat child) 1) (\<lambda>m.
                Inr (Reaped (s\<lparr>mm := m\<rparr>) (pid (tcb s child)) (status (tcb s child))))
         | Alive \<Rightarrow>
             bnd (task_block (upd_task cur (\<lambda>t. t\<lparr>waitpid := wanted\<rparr>) s) cur 0 TASK_WAITING) (\<lambda>s.
             Inr (Blocked s))
         | None_left \<Rightarrow> Inl Fault)"

fun reparent :: "sched \<Rightarrow> int \<Rightarrow> int \<Rightarrow> addr list \<Rightarrow> sched" where
  "reparent s me up [] = s"
| "reparent s me up (c # cs) =
     (if c = 0 then reparent s me up cs
      else if ppid (tcb s c) \<noteq> me then reparent s me up cs
      else reparent (upd_task c (\<lambda>t. t\<lparr>ppid := up\<rparr>) s) me up cs)"

fun close_files :: "(nat \<Rightarrow> sched \<Rightarrow> sched res) \<Rightarrow> addr \<Rightarrow> sched \<Rightarrow> nat \<Rightarrow> nat \<Rightarrow> sched res" where
  "close_files close t s i 0 = Inr s"
| "close_files close t s i (Suc n) =
     bnd (rd (files (tcb s t)) i) (\<lambda>f.
     bnd (if f \<noteq> 0 then close i s else Inr s) (\<lambda>s. close_files close t s (Suc i) n))"

definition vmap_page :: "vmap_ref \<Rightarrow> u32" where
  "vmap_page v = (case v of Kernel_map \<Rightarrow> KERNEL_MAP_BITS | Own_map p b \<Rightarrow> p)"

text \<open>\<open>iput\<close> and \<open>close\<close> are the calls into the file layer.\<close>

definition task_exit ::
  "(addr \<Rightarrow> sched \<Rightarrow> sched res) \<Rightarrow> (nat \<Rightarrow> sched \<Rightarrow> sched res) \<Rightarrow> sched \<Rightarrow> u32 \<Rightarrow> sched res" where
  "task_exit iput close s st =
     (let cur = current s
      in bnd (assrt (nprev (nodes_at s) (node_of cur) = 0 \<and> nnext (nodes_at s) (node_of cur) = 0
                \<and> state (tcb s cur) = TASK_RUNNING)) (\<lambda>_.
         let s = upd_task cur (\<lambda>t. t\<lparr>state := TASK_DIED, status := st\<rparr>) s; task = tcb s cur
         in bnd (free_pde (mm s) (vtask_of s task)) (\<lambda>m.
            bnd (free_kpage m (vmap_page (vmap task)) 1) (\<lambda>m.
            bnd (free_kpage m (pwd_page task) 1) (\<lambda>m.
            bnd (iput (ipwd task) (s\<lparr>mm := m\<rparr>)) (\<lambda>s.
            bnd (iput (iroot task) s) (\<lambda>s.
            bnd (iput (iexec task) s) (\<lambda>s.
            bnd (close_files close cur s 0 TASK_FILE_NR) (\<lambda>s.
            let s = reparent s (pid task) (ppid task) (task_table s)
            in bnd (rd (task_table s) (nat (ppid (tcb s cur)))) (\<lambda>parent.
               bnd (deref parent) (\<lambda>_.
               bnd (if state (tcb s parent) = TASK_WAITING \<and>
                       (waitpid (tcb s parent) = -1 \<or> waitpid (tcb s parent) = pid (tcb s cur))
                    then task_unblock s parent else Inr s) (\<lambda>s.
               schedule s))))))))))))"

definition sys_getpid :: "sched \<Rightarrow> int" where "sys_getpid s = pid (tcb s (current s))"
definition sys_getppid :: "sched \<Rightarrow> int" where "sys_getppid s = ppid (tcb s (current s))"

subsection \<open>Entering user mode\<close>

definition USER_CODE_SELECTOR :: u32 where "USER_CODE_SELECTOR = 0x23"
definition USER_DATA_SELECTOR :: u32 where "USER_DATA_SELECTOR = 0x2b"

definition user_iframe :: "intr_frame \<Rightarrow> intr_frame" where
  "user_iframe f = f\<lparr>i_vector := 0x20, i_edi := 1, i_esi := 2, i_ebp := 3, i_esp_dummy := 4, i_ebx := 5,
     i_edx := 6, i_ecx := 7, i_eax := 8, i_gs := 0, i_ds := USER_DATA_SELECTOR, i_es := USER_DATA_SELECTOR,
     i_fs := USER_DATA_SELECTOR, i_ss := USER_DATA_SELECTOR, i_cs := USER_CODE_SELECTOR,
     i_error := YUI_MAGIC, i_eip := 0, i_eflags := 0x202, i_esp := USER_STACK_TOP\<rparr>"

text \<open>\<open>execve\<close> gives \<open>Inl s\<close> when the program runs, \<open>Inr s\<close> when the call comes back.\<close>

definition task_to_user_mode :: "(sched \<Rightarrow> sched + sched) \<Rightarrow> sched \<Rightarrow> sched res" where
  "task_to_user_mode execve s =
     (let cur = current s
      in bnd (alloc_kpage (mm s) 1) (\<lambda>(m, buf).
         bnd (bitmap_init (replicate (unat PAGE_SIZE) 0) 0x1000 0x8000) (\<lambda>b.
         let s = upd_task cur (\<lambda>t. t\<lparr>vmap := Own_map buf b\<rparr>) (s\<lparr>mm := m\<rparr>)
         in bnd (copy_pde (mm s) (vtask_of s (tcb s cur))) (\<lambda>(m, dir).
            bnd (set_cr3 m dir) (\<lambda>m.
            let s = upd_task cur (\<lambda>t. t\<lparr>pde := dir, iframe := user_iframe (iframe t)\<rparr>) (s\<lparr>mm := m\<rparr>)
            in case execve s of Inl s \<Rightarrow> Inr s | Inr s \<Rightarrow> Inl Panic)))))"

end
