(* ===== verification/Mutex.thy ===== *)
theory Mutex
  imports Task
begin

text \<open>
  Mutexes and re-entrant locks: \<^verbatim>\<open>kernel/mutex.c\<close>.  A call that may block is one round
  of its loop; \<open>Waits\<close> means the task has been switched out inside \<^verbatim>\<open>task_block\<close> and
  runs the same round again when it is scheduled.  The interrupt flag a call saved on entry is
  the argument \<open>old\<close>; an unlock that yields restores it only when its task runs again.
\<close>

record mutex =
  mvalue :: bool
  waiters :: addr

record lock =
  holder :: addr
  repeat :: u32
  mutex :: mutex

definition mutex_init :: "addr \<Rightarrow> sched \<Rightarrow> mutex \<times> sched" where
  "mutex_init w s = (\<lparr>mvalue = False, waiters = w\<rparr>, s\<lparr>nodes_at := list_init (nodes_at s) w\<rparr>)"

datatype lock_end = Waits sched | Locked mutex sched

definition mutex_lock_round :: "mutex \<Rightarrow> bool \<Rightarrow> sched \<Rightarrow> lock_end res" where
  "mutex_lock_round m old s =
     (if mvalue m
      then bnd (task_block s (current s) (waiters m) TASK_BLOCKED) (\<lambda>s. Inr (Waits s))
      else let m = m\<lparr>mvalue := True\<rparr>
           in bnd (assrt (mvalue m)) (\<lambda>_. Inr (Locked m (s\<lparr>intr := old\<rparr>))))"

definition mutex_lock :: "mutex \<Rightarrow> sched \<Rightarrow> lock_end res" where
  "mutex_lock m s = mutex_lock_round m (intr s) (s\<lparr>intr := False\<rparr>)"

datatype unlock_end = Unlocked mutex sched | Yielded mutex sched bool

definition mutex_unlock :: "mutex \<Rightarrow> sched \<Rightarrow> unlock_end res" where
  "mutex_unlock m s =
     (let old = intr s; s = s\<lparr>intr := False\<rparr>
      in bnd (assrt (mvalue m)) (\<lambda>_.
         let m = m\<lparr>mvalue := False\<rparr>
         in if \<not> list_empty (nodes_at s) (waiters m)
            then let t = task_of (nprev (nodes_at s) (tail_of (waiters m)))
                 in bnd (assrt (magic (tcb s t) = YUI_MAGIC)) (\<lambda>_.
                    bnd (task_unblock s t) (\<lambda>s.
                    bnd (task_yield s) (\<lambda>s. Inr (Yielded m s old))))
            else Inr (Unlocked m (s\<lparr>intr := old\<rparr>))))"

subsection \<open>Re-entrant locks\<close>

definition lock_init :: "addr \<Rightarrow> sched \<Rightarrow> lock \<times> sched" where
  "lock_init w s = (let (m, s) = mutex_init w s in (\<lparr>holder = 0, repeat = 0, mutex = m\<rparr>, s))"

datatype acquire_end = Lock_waits sched | Acquired lock sched

text \<open>The rest of \<^verbatim>\<open>lock_acquire\<close> once the mutex is held.\<close>

definition acquire_held :: "lock \<Rightarrow> addr \<Rightarrow> mutex \<Rightarrow> sched \<Rightarrow> acquire_end res" where
  "acquire_held l cur m s =
     bnd (assrt (repeat l = 0)) (\<lambda>_. Inr (Acquired (l\<lparr>mutex := m, holder := cur, repeat := 1\<rparr>) s))"

definition lock_acquire :: "lock \<Rightarrow> sched \<Rightarrow> acquire_end res" where
  "lock_acquire l s =
     (let cur = current s
      in if holder l \<noteq> cur
         then bnd (mutex_lock (mutex l) s) (\<lambda>r.
              case r of Waits s \<Rightarrow> Inr (Lock_waits s) | Locked m s \<Rightarrow> acquire_held l cur m s)
         else Inr (Acquired (l\<lparr>repeat := repeat l + 1\<rparr>) s))"

datatype release_end = Released lock sched | Release_yielded lock sched bool

definition lock_release :: "lock \<Rightarrow> sched \<Rightarrow> release_end res" where
  "lock_release l s =
     bnd (assrt (holder l = current s)) (\<lambda>_.
     if repeat l > 1 then Inr (Released (l\<lparr>repeat := repeat l - 1\<rparr>) s)
     else bnd (assrt (repeat l = 1)) (\<lambda>_.
          let l = l\<lparr>holder := 0, repeat := 0\<rparr>
          in bnd (mutex_unlock (mutex l) s) (\<lambda>u.
             case u of Unlocked m s \<Rightarrow> Inr (Released (l\<lparr>mutex := m\<rparr>) s)
                     | Yielded m s old \<Rightarrow> Inr (Release_yielded (l\<lparr>mutex := m\<rparr>) s old))))"

end
