(* ===== verification/Task_Laws.thy ===== *)
theory Task_Laws
  imports Mutex
begin

text \<open>
  Lemmas on scheduling: what \<open>task_search\<close> returns, that \<open>schedule\<close> leaves exactly one
  running task, what sleeping and waking do to the sleep list, and mutual exclusion of
  \<open>mutex\<close> over every interleaving of its operations.
\<close>

lemma upd_task_simps [simp]:
  "tcb (upd_task t f s) u = (if u = t then f (tcb s t) else tcb s u)"
  "current (upd_task t f s) = current s" "intr (upd_task t f s) = intr s"
  "nodes_at (upd_task t f s) = nodes_at s" "mm (upd_task t f s) = mm s"
  "task_table (upd_task t f s) = task_table s" "idle_task (upd_task t f s) = idle_task s"
  "sleep_list (upd_task t f s) = sleep_list s" "block_list (upd_task t f s) = block_list s"
  "jiffies (upd_task t f s) = jiffies s"
  by (simp_all add: upd_task_def)

subsection \<open>The choice of the next task\<close>

definition candidate :: "sched \<Rightarrow> task_state \<Rightarrow> addr \<Rightarrow> bool" where
  "candidate s st p = (p \<noteq> 0 \<and> p \<noteq> current s \<and> state (tcb s p) = st)"

lemma search_tasks_result:
  "search_tasks s st ps best \<in> insert best {p \<in> set ps. candidate s st p}"
  "best \<noteq> 0 \<Longrightarrow> search_tasks s st ps best \<noteq> 0"
  "(\<exists>p \<in> set ps. candidate s st p) \<Longrightarrow> search_tasks s st ps best \<noteq> 0"
proof (induction ps arbitrary: best)
  case (Cons p ps)
  note IH = Cons.IH
  {
    case 1 show ?case using IH(1)[of best] IH(1)[of p] by (auto simp: candidate_def)
  next
    case 2 then show ?case using IH(2)[of best] IH(2)[of p] by (auto simp: candidate_def)
  next
    case 3
    show ?case
    proof (cases "candidate s st p")
      case True
      then have "(if better s best p then p else best) \<noteq> 0"
        by (auto simp: candidate_def better_def)
      then show ?thesis using True IH(2) by (auto simp: candidate_def)
    next
      case False
      then have "\<exists>p \<in> set ps. candidate s st p" using 3 by auto
      then show ?thesis using IH(3) by auto
    qed
  }
qed auto

definition tasks_ok :: "sched \<Rightarrow> bool" where
  "tasks_ok s = (idle_task s \<noteq> 0 \<and>
     (\<forall>t \<in> insert (idle_task s) (set (task_table s)). t \<noteq> 0 \<longrightarrow>
        magic (tcb s t) = YUI_MAGIC \<and> page_aligned (pde (tcb s t))))"

lemma task_search_ready:
  assumes "\<not> intr s"
  shows "\<exists>t. task_search s TASK_READY = Inr t \<and>
    (if \<exists>p \<in> set (task_table s). candidate s TASK_READY p
     then t \<in> set (task_table s) \<and> candidate s TASK_READY t else t = idle_task s)"
proof -
  let ?r = "search_tasks s TASK_READY (task_table s) 0"
  have r: "?r = 0 \<or> (?r \<in> set (task_table s) \<and> candidate s TASK_READY ?r)"
    using search_tasks_result(1)[of s TASK_READY "task_table s" 0] by auto
  show ?thesis
  proof (cases "\<exists>p \<in> set (task_table s). candidate s TASK_READY p")
    case True
    then have "?r \<noteq> 0" by (rule search_tasks_result(3))
    then show ?thesis using r True assms by (simp add: task_search_def Let_def)
  next
    case False
    then have "?r = 0" using r by (auto simp: candidate_def)
    then show ?thesis using False assms by (simp add: task_search_def Let_def)
  qed
qed

text \<open>What \<open>schedule\<close> leaves: the chosen task runs and nothing else changed but the states.\<close>

definition demoted :: "sched \<Rightarrow> sched" where
  "demoted s =
     (let cur = current s;
          s = (if state (tcb s cur) = TASK_RUNNING then upd_task cur (\<lambda>t. t\<lparr>state := TASK_READY\<rparr>) s else s)
      in if ticks (tcb s cur) = 0 then upd_task cur (\<lambda>t. t\<lparr>ticks := priority t\<rparr>) s else s)"

lemma schedule_demoted:
  "schedule s =
     bnd (assrt (\<not> intr s)) (\<lambda>_.
     bnd (task_search s TASK_READY) (\<lambda>nxt.
     bnd (assrt (nxt \<noteq> 0)) (\<lambda>_.
     bnd (assrt (magic (tcb s nxt) = YUI_MAGIC)) (\<lambda>_.
     if nxt = current s then Inr (upd_task nxt (\<lambda>t. t\<lparr>state := TASK_RUNNING\<rparr>) (demoted s))
     else bnd (task_activate (upd_task nxt (\<lambda>t. t\<lparr>state := TASK_RUNNING\<rparr>) (demoted s)) nxt)
            (\<lambda>s. Inr (task_switch s nxt))))))"
  unfolding schedule_def demoted_def Let_def by (rule refl)

lemma demoted_simps [simp]:
  "current (demoted s) = current s" "intr (demoted s) = intr s" "nodes_at (demoted s) = nodes_at s"
  "task_table (demoted s) = task_table s" "idle_task (demoted s) = idle_task s"
  "sleep_list (demoted s) = sleep_list s" "jiffies (demoted s) = jiffies s" "mm (demoted s) = mm s"
  "magic (tcb (demoted s) t) = magic (tcb s t)" "pde (tcb (demoted s) t) = pde (tcb s t)"
  "uid (tcb (demoted s) t) = uid (tcb s t)"
  "state (tcb (demoted s) t) = (if t = current s \<and> state (tcb s t) = TASK_RUNNING then TASK_READY else state (tcb s t))"
  "t \<noteq> current s \<Longrightarrow> tcb (demoted s) t = tcb s t"
  by (auto simp: demoted_def Let_def)

lemma set_cr3_Inr: "set_cr3 m p = Inr m' \<longleftrightarrow> page_aligned p \<and> m' = m\<lparr>cr3 := p\<rparr>"
  by (auto simp: set_cr3_def)

lemma schedule_effect:
  assumes "schedule s = Inr s'"
  shows "\<exists>nxt. task_search s TASK_READY = Inr nxt \<and> nxt \<noteq> 0 \<and> current s' = nxt
    \<and> (\<forall>t. tcb s' t = (if t = nxt then (tcb (demoted s) t)\<lparr>state := TASK_RUNNING\<rparr> else tcb (demoted s) t))
    \<and> nodes_at s' = nodes_at s \<and> task_table s' = task_table s \<and> intr s' = intr s
    \<and> idle_task s' = idle_task s \<and> sleep_list s' = sleep_list s \<and> jiffies s' = jiffies s
    \<and> (nxt \<noteq> current s \<longrightarrow> cr3 (mm s') = pde (tcb s nxt))"
proof -
  obtain nxt where n: "task_search s TASK_READY = Inr nxt" "nxt \<noteq> 0" "magic (tcb s nxt) = YUI_MAGIC"
    using assms by (auto simp: schedule_demoted)
  let ?d = "upd_task nxt (\<lambda>t. t\<lparr>state := TASK_RUNNING\<rparr>) (demoted s)"
  have i: "\<not> intr s" using assms by (simp add: schedule_demoted)
  have s': "(if nxt = current s then Inr ?d else bnd (task_activate ?d nxt) (\<lambda>s. Inr (task_switch s nxt))) = Inr s'"
    using assms n i by (simp add: schedule_demoted)
  show ?thesis
  proof (cases "nxt = current s")
    case True
    then have "s' = ?d" using s' by simp
    then show ?thesis using n True by simp
  next
    case False
    then obtain z where z: "task_activate ?d nxt = Inr z" "s' = task_switch z nxt" using s' by auto
    then have "tcb z = tcb ?d \<and> nodes_at z = nodes_at s \<and> task_table z = task_table s \<and> intr z = intr s
      \<and> idle_task z = idle_task s \<and> sleep_list z = sleep_list s \<and> jiffies z = jiffies s
      \<and> cr3 (mm z) = pde (tcb s nxt)"
      by (auto simp: task_activate_def Let_def set_cr3_Inr split: if_splits)
    then show ?thesis using n False z(2) by (simp add: task_switch_def)
  qed
qed

lemma schedule_ok:
  assumes "\<not> intr s" "tasks_ok s"
  shows "\<exists>s'. schedule s = Inr s'"
proof -
  obtain n where n: "task_search s TASK_READY = Inr n" "n \<in> insert (idle_task s) (set (task_table s))" "n \<noteq> 0"
    using task_search_ready[OF assms(1)] assms(2) by (auto simp: tasks_ok_def candidate_def split: if_splits)
  then have m: "magic (tcb s n) = YUI_MAGIC" "page_aligned (pde (tcb s n))"
    using assms(2) by (auto simp: tasks_ok_def)
  let ?d = "upd_task n (\<lambda>t. t\<lparr>state := TASK_RUNNING\<rparr>) (demoted s)"
  have "\<exists>z. task_activate ?d n = Inr z"
    using m by (auto simp: task_activate_def Let_def set_cr3_def)
  then show ?thesis
    using n m assms(1) by (cases "n = current s") (auto simp: schedule_demoted)
qed

definition one_running :: "sched \<Rightarrow> bool" where
  "one_running s = (\<forall>t. state (tcb s t) = TASK_RUNNING \<longleftrightarrow> t = current s)"

lemma schedule_one:
  assumes "schedule s = Inr s'" "\<And>t. t \<noteq> current s \<Longrightarrow> state (tcb s t) \<noteq> TASK_RUNNING"
  shows "one_running s'"
proof -
  obtain nxt where n: "current s' = nxt"
    "\<forall>t. tcb s' t = (if t = nxt then (tcb (demoted s) t)\<lparr>state := TASK_RUNNING\<rparr> else tcb (demoted s) t)"
    using schedule_effect[OF assms(1)] by blast
  have "state (tcb (demoted s) t) \<noteq> TASK_RUNNING" for t
    using assms(2)[of t] by (cases "t = current s") auto
  then show ?thesis using n by (simp add: one_running_def)
qed

subsection \<open>Nodes of tasks\<close>

lemma node_of_inj [simp]: "node_of t = node_of u \<longleftrightarrow> t = u"
  by (simp add: node_of_def)

lemma task_of_node [simp]: "task_of (node_of t) = t"
  by (simp add: node_of_def task_of_def)

subsection \<open>Waking the sleepers\<close>

definition due :: "sched \<Rightarrow> addr \<Rightarrow> bool" where
  "due s t = (ticks (tcb s t) \<le> jiffies s)"

definition woken :: "sched \<Rightarrow> addr list \<Rightarrow> sched \<Rightarrow> bool" where
  "woken s ts s' =
     (dll (nodes_at s') (sleep_list s) (map node_of (dropWhile (due s) ts))
      \<and> (\<forall>t. tcb s' t = (if t \<in> set (takeWhile (due s) ts)
            then (tcb s t)\<lparr>ticks := 0, state := TASK_READY\<rparr> else tcb s t))
      \<and> (\<forall>t \<in> set (takeWhile (due s) ts). detached (nodes_at s') (node_of t))
      \<and> (\<forall>u. detached (nodes_at s) u \<longrightarrow> detached (nodes_at s') u)
      \<and> current s' = current s \<and> intr s' = intr s \<and> task_table s' = task_table s
      \<and> idle_task s' = idle_task s \<and> sleep_list s' = sleep_list s \<and> jiffies s' = jiffies s \<and> mm s' = mm s)"

lemma due_upd: "u \<noteq> t \<Longrightarrow> due (upd_task t f s) u = due s u"
  by (simp add: due_def)

lemma wakeup_loop_woken:
  assumes "dll (nodes_at s) (sleep_list s) (map node_of ts)" "\<not> intr s"
  shows "\<exists>s'. wakeup_loop s (hd (map node_of ts @ [sleep_list s + 8])) = Some (Inr s') \<and> woken s ts s'"
  using assms
proof (induction ts arbitrary: s)
  case Nil
  then show ?case by (simp add: wakeup_loop.simps woken_def tail_of_def)
next
  case (Cons t ts)
  let ?l = "sleep_list s"
  have nt: "node_of t \<noteq> ?l + 8" "node_of t \<noteq> 0" using Cons.prems(1) by (auto simp: dll_def)
  show ?case
  proof (cases "due s t")
    case False
    then have "wakeup_loop s (node_of t) = Some (Inr s)"
      using nt by (subst wakeup_loop.simps) (simp add: tail_of_def due_def not_le)
    then show ?thesis using False Cons.prems by (simp add: woken_def)
  next
    case True
    have L: "dll (nodes_at s) ?l ([] @ node_of t # map node_of ts)" using Cons.prems(1) by simp
    obtain h where h: "list_remove (nodes_at s) (node_of t) = Inr h" "dll h ?l (map node_of ts)"
      "detached h (node_of t)" using dll_remove[OF L] by auto
    define s1 where "s1 = upd_task t (\<lambda>k. k\<lparr>state := TASK_READY\<rparr>)
      ((upd_task t (\<lambda>t. t\<lparr>ticks := 0\<rparr>) s)\<lparr>nodes_at := h\<rparr>)"
    have f: "nodes_at s1 = h" "sleep_list s1 = ?l" "intr s1 = intr s" "current s1 = current s"
      "task_table s1 = task_table s" "idle_task s1 = idle_task s" "jiffies s1 = jiffies s" "mm s1 = mm s"
      by (simp_all add: s1_def)
    have tc: "tcb s1 u = (if u = t then (tcb s t)\<lparr>ticks := 0, state := TASK_READY\<rparr> else tcb s u)" for u
      by (simp add: s1_def)
    have ub: "task_unblock (upd_task t (\<lambda>t. t\<lparr>ticks := 0\<rparr>) s) t = Inr s1"
      using h Cons.prems(2) by (simp add: task_unblock_def s1_def detached_def)
    have nx: "nnext (nodes_at s) (node_of t) = hd (map node_of ts @ [?l + 8])"
      using Cons.prems(1) chain_first[of "nodes_at s" "node_of t" "map node_of ts" "?l + 8"]
      by (simp add: dll_def)
    have notin: "t \<notin> set ts" using Cons.prems(1) by (auto simp: dll_def)
    have d: "due s1 u = due s u" if "u \<in> set ts" for u using that notin by (auto simp: due_def tc f)
    have tw: "takeWhile (due s1) ts = takeWhile (due s) ts" "dropWhile (due s1) ts = dropWhile (due s) ts"
      using d by (auto cong: takeWhile_cong dropWhile_cong)
    obtain s' where s': "wakeup_loop s1 (hd (map node_of ts @ [?l + 8])) = Some (Inr s')" "woken s1 ts s'"
      using Cons.IH[of s1] h(2) f Cons.prems(2) by auto
    have "wakeup_loop s (node_of t) = Some (Inr s')"
    proof -
      have "\<not> ticks (tcb s t) > jiffies s" using True by (simp add: due_def not_less)
      then show ?thesis using nt ub nx s'(1) by (subst wakeup_loop.simps) (simp add: tail_of_def)
    qed
    moreover have "woken s (t # ts) s'"
    proof -
      have "t \<notin> set (takeWhile (due s) ts)" using notin by (auto dest: set_takeWhileD)
      then have "tcb s' u = (if u \<in> set (takeWhile (due s) (t # ts))
            then (tcb s u)\<lparr>ticks := 0, state := TASK_READY\<rparr> else tcb s u)" for u
        using s'(2) True by (simp add: woken_def tw tc)
      moreover have "detached (nodes_at s') u" if "detached (nodes_at s) u" for u
        using s'(2) list_remove_detached[OF L h(1) that] by (simp add: woken_def f)
      moreover have "detached (nodes_at s') (node_of t)" using s'(2) h(3) by (simp add: woken_def f)
      ultimately show ?thesis using s'(2) True by (simp add: woken_def tw f)
    qed
    ultimately show ?thesis by auto
  qed
qed

lemma task_wakeup_woken:
  assumes "dll (nodes_at s) (sleep_list s) (map node_of ts)" "\<not> intr s"
  shows "\<exists>s'. task_wakeup s = Inr s' \<and> woken s ts s'"
proof -
  have "nnext (nodes_at s) (sleep_list s) = hd (map node_of ts @ [sleep_list s + 8])"
    using assms(1) chain_first by (auto simp: dll_def)
  then show ?thesis using wakeup_loop_woken[OF assms] assms(2) by (auto simp: task_wakeup_def head_of_def)
qed


subsection \<open>Steps of the scheduler\<close>

text \<open>
  The operations interleaved in any order, each on the lists the kernel keeps well formed: a
  task blocks on a list it is not in, a task that is unblocked is in a list, and the idle task
  neither blocks nor sleeps.
\<close>

inductive sched_step :: "sched \<Rightarrow> sched \<Rightarrow> bool" where
  yield: "task_yield s = Inr s' \<Longrightarrow> sched_step s s'"
| block: "dll (nodes_at s) (if blist = 0 then block_list s else blist) xs \<Longrightarrow>
    node_of t \<notin> nodes (if blist = 0 then block_list s else blist) xs \<Longrightarrow>
    t \<noteq> idle_task s \<Longrightarrow> task_block s t blist st = Inr s' \<Longrightarrow> sched_step s s'"
| unblock: "dll (nodes_at s) l (xs @ node_of t # ys) \<Longrightarrow> task_unblock s t = Inr s' \<Longrightarrow> sched_step s s'"
| sleep: "dll (nodes_at s) (sleep_list s) (map node_of ts) \<Longrightarrow>
    current s \<noteq> idle_task s \<Longrightarrow> task_sleep s ms = Inr s' \<Longrightarrow> sched_step s s'"
| wakeup: "dll (nodes_at s) (sleep_list s) (map node_of ts) \<Longrightarrow>
    task_wakeup s = Inr s' \<Longrightarrow> sched_step s s'"

inductive sched_run :: "sched \<Rightarrow> sched \<Rightarrow> bool" where
  none: "sched_run s s"
| more: "sched_step s s' \<Longrightarrow> sched_run s' s'' \<Longrightarrow> sched_run s s''"

definition active :: "task_state \<Rightarrow> bool" where
  "active st = (st = TASK_READY \<or> st = TASK_RUNNING)"

text \<open>
  One task runs, the node of a ready or running task is in no list, and the idle task is always
  ready or running.
\<close>

definition sched_inv :: "sched \<Rightarrow> bool" where
  "sched_inv s = (one_running s \<and> active (state (tcb s (idle_task s))) \<and>
     (\<forall>t. active (state (tcb s t)) \<longrightarrow> detached (nodes_at s) (node_of t)))"

lemma node_of_nonzero [simp]: "node_of t \<noteq> 0"
  by (simp add: node_of_def)

lemma schedule_inv:
  assumes "schedule s = Inr s'" "\<And>t. t \<noteq> current s \<Longrightarrow> state (tcb s t) \<noteq> TASK_RUNNING"
    "\<And>t. active (state (tcb s t)) \<Longrightarrow> detached (nodes_at s) (node_of t)"
    "active (state (tcb s (idle_task s)))"
  shows "sched_inv s'"
proof -
  obtain nxt where n: "task_search s TASK_READY = Inr nxt" "current s' = nxt"
    "\<forall>t. tcb s' t = (if t = nxt then (tcb (demoted s) t)\<lparr>state := TASK_RUNNING\<rparr> else tcb (demoted s) t)"
    "nodes_at s' = nodes_at s" "idle_task s' = idle_task s"
    using schedule_effect[OF assms(1)] by blast
  have "\<not> intr s" using assms(1) by (simp add: schedule_demoted)
  then have "detached (nodes_at s) (node_of nxt)"
    using task_search_ready[of s] n(1) assms(3,4) by (auto simp: candidate_def active_def split: if_splits)
  moreover have "active (state (tcb (demoted s) t)) \<longleftrightarrow> active (state (tcb s t))" for t
    by (auto simp: active_def split: if_splits)
  ultimately show ?thesis
    using n assms(3,4) schedule_one[OF assms(1,2)] by (auto simp: sched_inv_def active_def)
qed

lemma list_sort_detached:
  assumes "dll h l xs" "n \<noteq> 0" "n \<notin> nodes l xs" "detached h n"
    "list_insert_sort h l n key = Inr h'" "detached h u" "u \<noteq> n"
  shows "detached h' u"
proof -
  let ?f = "sort_front key (key n) xs" and ?b = "sort_back key (key n) xs"
  have h': "h' = link h (last (l # ?f)) n (hd (?b @ [l + 8]))"
    using dll_insert_sort[OF assms(1-4), of key] assms(5) by auto
  have "last (l # ?f) \<in> insert l (set ?f)" by (cases ?f rule: rev_cases) auto
  moreover have "set ?f \<subseteq> set xs" "set ?b \<subseteq> set xs"
    by (metis sort_split set_append Un_upper1) (metis sort_split set_append Un_upper2)
  ultimately have "last (l # ?f) \<in> nodes l xs" "hd (?b @ [l + 8]) \<in> nodes l xs"
    using hd_snoc_in[of ?b "l + 8"] by (auto simp: nodes_def)
  then have "u \<noteq> last (l # ?f)" "u \<noteq> hd (?b @ [l + 8])" using detached_not_in[OF assms(1,6)] by auto
  then show ?thesis using assms(6,7) by (simp add: h' link_def detached_def)
qed

definition wake_time :: "sched \<Rightarrow> u32 \<Rightarrow> u32" where
  "wake_time s ms = jiffies s + (if ms div jiffy > 0 then ms div jiffy else 1)"

lemma task_sleep_eq:
  "task_sleep s ms =
     bnd (assrt (\<not> intr s)) (\<lambda>_.
     let s1 = upd_task (current s) (\<lambda>t. t\<lparr>ticks := wake_time s ms\<rparr>) s
     in bnd (list_insert_sort (nodes_at s) (sleep_list s) (node_of (current s))
               (\<lambda>p. sint (ticks (tcb s1 (task_of p))))) (\<lambda>h.
        schedule (upd_task (current s) (\<lambda>t. t\<lparr>state := TASK_SLEEPING\<rparr>) (s1\<lparr>nodes_at := h\<rparr>))))"
  by (simp only: task_sleep_def Let_def wake_time_def upd_task_simps)

lemma task_sleep_Inr:
  assumes "task_sleep s ms = Inr s'"
  shows "\<exists>h. list_insert_sort (nodes_at s) (sleep_list s) (node_of (current s))
      (\<lambda>p. sint (ticks (tcb (upd_task (current s) (\<lambda>t. t\<lparr>ticks := wake_time s ms\<rparr>) s) (task_of p)))) = Inr h
    \<and> schedule (upd_task (current s) (\<lambda>t. t\<lparr>state := TASK_SLEEPING\<rparr>)
          ((upd_task (current s) (\<lambda>t. t\<lparr>ticks := wake_time s ms\<rparr>) s)\<lparr>nodes_at := h\<rparr>)) = Inr s'"
  using assms by (auto simp: task_sleep_def Let_def wake_time_def)

lemma sched_step_inv:
  assumes "sched_step s s'" "sched_inv s"
  shows "sched_inv s'"
proof -
  have one: "state (tcb s t) = TASK_RUNNING \<longleftrightarrow> t = current s" for t
    using assms(2) by (simp add: sched_inv_def one_running_def)
  have det: "active (state (tcb s t)) \<Longrightarrow> detached (nodes_at s) (node_of t)" for t
    using assms(2) by (simp add: sched_inv_def)
  have idle: "active (state (tcb s (idle_task s)))" using assms(2) by (simp add: sched_inv_def)
  have cur: "detached (nodes_at s) (node_of (current s))" using det[of "current s"] one by (simp add: active_def)
  from assms(1) show ?thesis
  proof (cases rule: sched_step.cases)
    case yield
    then show ?thesis using one det idle by (intro schedule_inv[of s]) (auto simp: task_yield_def)
  next
    case (block blist xs t st)
    let ?l = "if blist = 0 then block_list s else blist"
    obtain h where h: "list_push (nodes_at s) ?l (node_of t) = Inr h" "\<not> active st"
      and r: "(let s1 = upd_task t (\<lambda>k. k\<lparr>state := st\<rparr>) (s\<lparr>nodes_at := h\<rparr>)
              in if current s = t then schedule s1 else Inr s1) = Inr s'"
      using block(4) by (auto simp: task_block_def Let_def active_def split: if_splits)
    let ?s1 = "upd_task t (\<lambda>k. k\<lparr>state := st\<rparr>) (s\<lparr>nodes_at := h\<rparr>)"
    have d1: "active (state (tcb ?s1 u)) \<Longrightarrow> detached (nodes_at ?s1) (node_of u)" for u
      using det[of u] h list_push_detached[OF block(1) _ block(2) h(1), of "node_of u"]
      by (auto split: if_splits)
    have i1: "active (state (tcb ?s1 (idle_task ?s1)))" using idle block(3) by simp
    show ?thesis
    proof (cases "current s = t")
      case True
      then show ?thesis
        using r one d1 i1 by (intro schedule_inv[of ?s1]) (auto simp: Let_def)
    next
      case False
      then have "s' = ?s1" using r by (simp add: Let_def)
      then show ?thesis
        using False one d1 i1 h(2) by (auto simp: sched_inv_def one_running_def active_def)
    qed
  next
    case (unblock l xs t ys)
    obtain h where h: "list_remove (nodes_at s) (node_of t) = Inr h" "detached h (node_of t)"
      and s': "s' = upd_task t (\<lambda>k. k\<lparr>state := TASK_READY\<rparr>) (s\<lparr>nodes_at := h\<rparr>)"
      using unblock(2) by (auto simp: task_unblock_def detached_def)
    have "t \<noteq> current s"
      using detached_not_in[OF unblock(1)] cur by (auto simp: nodes_def)
    moreover have "detached h (node_of u)" if "active (state (tcb s u))" for u
      using list_remove_detached[OF unblock(1) h(1) det[OF that]] .
    ultimately show ?thesis
      using one h(2) idle by (auto simp: sched_inv_def one_running_def s' active_def)
  next
    case (sleep ts ms)
    define n where "n = wake_time s ms"
    obtain h key where h: "list_insert_sort (nodes_at s) (sleep_list s) (node_of (current s)) key = Inr h"
      and sc: "schedule (upd_task (current s) (\<lambda>t. t\<lparr>state := TASK_SLEEPING\<rparr>)
          ((upd_task (current s) (\<lambda>t. t\<lparr>ticks := n\<rparr>) s)\<lparr>nodes_at := h\<rparr>)) = Inr s'"
      using task_sleep_Inr[OF sleep(3)] unfolding n_def by blast
    let ?s1 = "upd_task (current s) (\<lambda>t. t\<lparr>state := TASK_SLEEPING\<rparr>)
          ((upd_task (current s) (\<lambda>t. t\<lparr>ticks := n\<rparr>) s)\<lparr>nodes_at := h\<rparr>)"
    have nin: "node_of (current s) \<notin> nodes (sleep_list s) (map node_of ts)"
      by (rule detached_not_in[OF sleep(1) cur])
    have "detached h (node_of u)" if "active (state (tcb s u))" "u \<noteq> current s" for u
      using list_sort_detached[OF sleep(1) _ nin cur h det[OF that(1)]] that(2) by simp
    then have d1: "active (state (tcb ?s1 u)) \<Longrightarrow> detached (nodes_at ?s1) (node_of u)" for u
      by (auto simp: active_def split: if_splits)
    have i1: "active (state (tcb ?s1 (idle_task ?s1)))" using idle sleep(2) by auto
    show ?thesis by (rule schedule_inv[OF sc _ d1 i1]) (use one in auto)
  next
    case (wakeup ts)
    have "\<not> intr s" using wakeup(2) by (simp add: task_wakeup_def)
    then have w: "woken s ts s'" using task_wakeup_woken[OF wakeup(1)] wakeup(2) by auto
    have "current s \<notin> set ts" using detached_not_in[OF wakeup(1) cur] by (auto simp: nodes_def)
    then have "current s \<notin> set (takeWhile (due s) ts)" by (auto dest: set_takeWhileD)
    then show ?thesis
      using w one det idle by (auto simp: sched_inv_def one_running_def woken_def active_def)
  qed
qed


subsection \<open>A small system\<close>

text \<open>
  Three tasks at 0x1000, 0x2000 and 0x3000: the idle task is ready, the second one runs, the
  third one sleeps until tick 5; the clock is at tick 7.
\<close>

definition small_tcb :: "addr \<Rightarrow> task" where
  "small_tcb = (\<lambda>t. if t = 0x1000 then blank_task\<lparr>state := TASK_READY, magic := YUI_MAGIC, priority := 1\<rparr>
     else if t = 0x2000 then blank_task\<lparr>state := TASK_RUNNING, magic := YUI_MAGIC, priority := 5, pid := 1\<rparr>
     else if t = 0x3000 then blank_task\<lparr>state := TASK_SLEEPING, magic := YUI_MAGIC, ticks := 5, pid := 2\<rparr>
     else blank_task)"

definition small_heap :: heap where
  "small_heap = \<lparr>nprev = (\<lambda>_. 0)(0x3004 := 100, 108 := 0x3004, 208 := 200, 308 := 300),
     nnext = (\<lambda>_. 0)(100 := 0x3004, 0x3004 := 108, 200 := 208, 300 := 308)\<rparr>"

definition small_sys :: sched where
  "small_sys = \<lparr>nodes_at = small_heap, tcb = small_tcb, task_table = [0x1000, 0x2000, 0x3000] @ replicate 61 0,
     block_list = 200, sleep_list = 100, idle_task = 0x1000, current = 0x2000, intr = False,
     jiffies = 7, tss_esp0 = 0, mm = few_pages, icount = (\<lambda>_. 0), fcount = (\<lambda>_. 0)\<rparr>"

lemma small_sys_simps [simp]:
  "nodes_at small_sys = small_heap" "tcb small_sys = small_tcb" "block_list small_sys = 200"
  "sleep_list small_sys = 100" "idle_task small_sys = 0x1000" "current small_sys = 0x2000"
  "\<not> intr small_sys" "jiffies small_sys = 7"
  "task_table small_sys = [0x1000, 0x2000, 0x3000] @ replicate 61 0" "mm small_sys = few_pages"
  by (simp_all add: small_sys_def)

lemma small_sleepers: "dll (nodes_at small_sys) (sleep_list small_sys) (map node_of [0x3000])"
  by (simp add: dll_def small_heap_def node_of_def)

lemma small_inv: "sched_inv small_sys"
  by (auto simp: sched_inv_def one_running_def active_def small_tcb_def blank_task_def detached_def
      small_heap_def node_of_def split: if_splits)

lemma small_ok: "tasks_ok small_sys"
  by (auto simp: tasks_ok_def small_tcb_def blank_task_def page_aligned_def)

subsection \<open>Properties\<close>

text \<open>
  C22: over every interleaving of yields, blocks, wake-ups and sleeps, exactly one task is in
  state running, it is the current one, the idle task stays schedulable, and no ready or running
  task is in a waiting list.
\<close>

theorem scheduler_invariant:
  assumes "sched_run s s'" "sched_inv s"
  shows "(\<forall>t. state (tcb s' t) = TASK_RUNNING \<longleftrightarrow> t = current s')
    \<and> active (state (tcb s' (idle_task s')))
    \<and> (\<forall>t. active (state (tcb s' t)) \<longrightarrow> nnext (nodes_at s') (node_of t) = 0 \<and> nprev (nodes_at s') (node_of t) = 0)"
proof -
  have "sched_inv s'"
    using assms by (induction rule: sched_run.induct) (auto intro: sched_step_inv)
  then show ?thesis by (simp add: sched_inv_def one_running_def detached_def)
qed

lemma scheduler_invariant_witness:
  "\<exists>s'. sched_run small_sys s' \<and> (\<forall>t. state (tcb s' t) = TASK_RUNNING \<longleftrightarrow> t = current s')"
proof -
  obtain s1 where s1: "task_wakeup small_sys = Inr s1"
    using task_wakeup_woken[OF small_sleepers small_sys_simps(7)] by auto
  have "sched_run small_sys s1"
    by (rule sched_run.more[OF sched_step.wakeup[OF small_sleepers s1] sched_run.none])
  then show ?thesis using scheduler_invariant[OF _ small_inv] by blast
qed

lemma takeWhile_sorted:
  "sorted (map f ts) \<Longrightarrow> takeWhile (\<lambda>t. f t \<le> (k :: u32)) ts = filter (\<lambda>t. f t \<le> k) ts
   \<and> dropWhile (\<lambda>t. f t \<le> k) ts = filter (\<lambda>t. \<not> f t \<le> k) ts"
proof (induction ts)
  case (Cons t ts)
  show ?case
  proof (cases "f t \<le> k")
    case False
    then have "\<not> f u \<le> k" if "u \<in> set ts" for u using Cons.prems that by force
    then show ?thesis using False by (simp add: filter_empty_conv)
  qed (use Cons in auto)
qed simp

text \<open>
  C24: on a sleep list in the order of its wake times, \<^verbatim>\<open>task_wakeup\<close> returns, makes
  exactly the tasks whose time has come ready, takes them and no other off the list, and leaves
  the other tasks as they were.
\<close>

theorem task_wakeup_exact:
  assumes "dll (nodes_at s) (sleep_list s) (map node_of ts)" "\<not> intr s"
    "sorted (map (\<lambda>t. ticks (tcb s t)) ts)"
  shows "\<exists>s'. task_wakeup s = Inr s'
    \<and> dll (nodes_at s') (sleep_list s) (map node_of (filter (\<lambda>t. jiffies s < ticks (tcb s t)) ts))
    \<and> (\<forall>t. tcb s' t = (if t \<in> set ts \<and> ticks (tcb s t) \<le> jiffies s
          then (tcb s t)\<lparr>ticks := 0, state := TASK_READY\<rparr> else tcb s t))
    \<and> current s' = current s"
proof -
  obtain s' where s': "task_wakeup s = Inr s'" "woken s ts s'" using task_wakeup_woken[OF assms(1,2)] by auto
  have d: "due s = (\<lambda>t. ticks (tcb s t) \<le> jiffies s)" by (simp add: due_def fun_eq_iff)
  have w: "takeWhile (due s) ts = filter (\<lambda>t. ticks (tcb s t) \<le> jiffies s) ts"
    "dropWhile (due s) ts = filter (\<lambda>t. jiffies s < ticks (tcb s t)) ts"
    using takeWhile_sorted[OF assms(3), of "jiffies s"] by (simp_all add: d not_le)
  show ?thesis using s' by (auto simp: woken_def w)
qed

lemma task_wakeup_exact_witness:
  "\<exists>s'. task_wakeup small_sys = Inr s' \<and> state (tcb s' 0x3000) = TASK_READY \<and> dll (nodes_at s') 100 []"
proof -
  have t: "ticks (small_tcb 0x3000) = 5" by (simp add: small_tcb_def)
  show ?thesis
    using task_wakeup_exact[OF small_sleepers small_sys_simps(7)] by (auto simp: t)
qed

text \<open>
  C25: \<^verbatim>\<open>task_sleep\<close> of a running task that is in no list keeps the sleep list in order of
  the wake times, puts the task in it with the wake time now plus the sleep rounded down to ticks
  but at least one, and gives the processor to another task unless there is none.
\<close>

theorem task_sleep_sorted:
  assumes "dll (nodes_at s) (sleep_list s) (map node_of ts)" "detached (nodes_at s) (node_of (current s))"
    "sorted (map (\<lambda>t. sint (ticks (tcb s t))) ts)" "\<not> intr s" "tasks_ok s"
    "current s \<noteq> idle_task s" "jiffies s + max 1 (ms div 10) \<noteq> 0"
  shows "\<exists>s' us vs. task_sleep s ms = Inr s' \<and> ts = us @ vs
    \<and> dll (nodes_at s') (sleep_list s') (map node_of (us @ current s # vs))
    \<and> sorted (map (\<lambda>t. sint (ticks (tcb s' t))) (us @ current s # vs))
    \<and> ticks (tcb s' (current s)) = jiffies s + max 1 (ms div 10)
    \<and> state (tcb s' (current s)) = TASK_SLEEPING \<and> current s' \<noteq> current s"
proof -
  let ?c = "current s"
  let ?n = "jiffies s + max 1 (ms div 10)"
  have wt: "wake_time s ms = ?n" by (auto simp: wake_time_def jiffy_def max_def word_le_nat_alt word_less_nat_alt Suc_le_eq)
  define s1 where "s1 = upd_task ?c (\<lambda>t. t\<lparr>ticks := ?n\<rparr>) s"
  define k where "k = (\<lambda>t. sint (ticks (tcb s1 t)))"
  have nin: "node_of ?c \<notin> nodes (sleep_list s) (map node_of ts)" by (rule detached_not_in[OF assms(1,2)])
  then have c: "?c \<notin> set ts" by (auto simp: nodes_def)
  have kt: "map k ts = map (\<lambda>t. sint (ticks (tcb s t))) ts" using c by (auto simp: k_def s1_def)
  let ?us = "sort_front k (k ?c) ts" and ?vs = "sort_back k (k ?c) ts"
  have split: "ts = ?us @ ?vs" by (simp add: sort_split)
  have fr: "sort_front (\<lambda>p. k (task_of p)) (k ?c) (map node_of ts) = map node_of ?us"
    "sort_back (\<lambda>p. k (task_of p)) (k ?c) (map node_of ts) = map node_of ?vs"
    by (simp_all add: sort_front_def sort_back_def takeWhile_map dropWhile_map comp_def)
  obtain h where h: "list_insert_sort (nodes_at s) (sleep_list s) (node_of ?c) (\<lambda>p. k (task_of p)) = Inr h"
    "dll h (sleep_list s) (map node_of (?us @ ?c # ?vs))"
    using dll_insert_sort[OF assms(1) _ nin assms(2), of "\<lambda>p. k (task_of p)"] fr by auto
  define s2 where "s2 = upd_task ?c (\<lambda>t. t\<lparr>state := TASK_SLEEPING\<rparr>) (s1\<lparr>nodes_at := h\<rparr>)"
  have f2: "nodes_at s2 = h" "sleep_list s2 = sleep_list s" "current s2 = ?c" "idle_task s2 = idle_task s"
    "task_table s2 = task_table s" "\<not> intr s2" using assms(4) by (simp_all add: s2_def s1_def)
  have t2: "tcb s2 t = (if t = ?c then (tcb s t)\<lparr>ticks := ?n, state := TASK_SLEEPING\<rparr> else tcb s t)" for t
    by (simp add: s2_def s1_def)
  have "tasks_ok s2" using assms(5) by (auto simp: tasks_ok_def f2 t2)
  then obtain s' where s': "schedule s2 = Inr s'" using schedule_ok[of s2] f2 by auto
  obtain nxt where n: "task_search s2 TASK_READY = Inr nxt" "current s' = nxt" "nodes_at s' = h"
    "sleep_list s' = sleep_list s"
    and tc: "\<And>t. tcb s' t = (if t = nxt then (tcb (demoted s2) t)\<lparr>state := TASK_RUNNING\<rparr> else tcb (demoted s2) t)"
    using schedule_effect[OF s'] f2 by auto
  have nc: "nxt \<noteq> ?c"
    using task_search_ready[of s2] n(1) f2 assms(6) by (auto simp: candidate_def split: if_splits)
  have dt: "tcb (demoted s2) ?c = tcb s2 ?c" using assms(7) by (simp add: demoted_def Let_def f2 t2)
  have tk: "ticks (tcb s' t) = ticks (tcb s1 t)" for t
    by (cases "t = ?c") (use nc dt f2 in \<open>auto simp: tc t2 s1_def\<close>)
  have "task_sleep s ms = Inr s'"
    unfolding task_sleep_eq Let_def wt s1_def[symmetric]
    using h(1) s' assms(4) by (simp add: k_def s2_def)
  moreover have "sorted (map (\<lambda>t. sint (ticks (tcb s' t))) (?us @ ?c # ?vs))"
  proof -
    have "sorted (map k ts)" using assms(3) unfolding kt .
    then have "sorted (map k (?us @ ?c # ?vs))" by (rule sorted_insert)
    moreover have "k = (\<lambda>t. sint (ticks (tcb s' t)))" by (simp add: k_def tk)
    ultimately show ?thesis by simp
  qed
  moreover have "ticks (tcb s' ?c) = ?n" "state (tcb s' ?c) = TASK_SLEEPING"
    using nc dt by (simp_all add: tc t2)
  ultimately show ?thesis using split h(2) n nc by metis
qed

lemma task_sleep_sorted_witness:
  "\<exists>s' us vs. task_sleep small_sys 100 = Inr s' \<and> [0x3000] = us @ vs
    \<and> sorted (map (\<lambda>t. sint (ticks (tcb s' t))) (us @ 0x2000 # vs)) \<and> ticks (tcb s' 0x2000) = 17"
proof -
  have d: "detached (nodes_at small_sys) (node_of (current small_sys))"
    by (simp add: detached_def small_heap_def node_of_def)
  show ?thesis
    using task_sleep_sorted[OF small_sleepers d _ small_sys_simps(7) small_ok, of 100] by auto
qed


subsection \<open>Mutual exclusion\<close>

text \<open>
  The state of one mutex, the scheduler and the set of tasks inside the critical section.  A
  task enters when its round of \<^verbatim>\<open>mutex_lock\<close> ends with the mutex, leaves by calling
  \<^verbatim>\<open>mutex_unlock\<close>, and between any two of these steps other tasks may run.
\<close>

inductive lock_step :: "mutex \<times> sched \<times> addr set \<Rightarrow> mutex \<times> sched \<times> addr set \<Rightarrow> bool" where
  enter: "mutex_lock_round m old s = Inr (Locked m' s') \<Longrightarrow>
    lock_step (m, s, H) (m', s', insert (current s) H)"
| wait: "mutex_lock_round m old s = Inr (Waits s') \<Longrightarrow> lock_step (m, s, H) (m, s', H)"
| leave: "current s \<in> H \<Longrightarrow> mutex_unlock m s = Inr (Unlocked m' s') \<Longrightarrow>
    lock_step (m, s, H) (m', s', H - {current s})"
| leave_yield: "current s \<in> H \<Longrightarrow> mutex_unlock m s = Inr (Yielded m' s' old) \<Longrightarrow>
    lock_step (m, s, H) (m', s', H - {current s})"
| others: "sched_step s s' \<Longrightarrow> lock_step (m, s, H) (m, s', H)"

inductive lock_run :: "mutex \<times> sched \<times> addr set \<Rightarrow> mutex \<times> sched \<times> addr set \<Rightarrow> bool" where
  none: "lock_run c c"
| more: "lock_step c c' \<Longrightarrow> lock_run c' c'' \<Longrightarrow> lock_run c c''"

definition exclusive :: "mutex \<times> sched \<times> addr set \<Rightarrow> bool" where
  "exclusive = (\<lambda>(m, s, H). if mvalue m then \<exists>t. H = {t} else H = {})"

lemma lock_round_value:
  "mutex_lock_round m old s = Inr (Locked m' s') \<Longrightarrow> \<not> mvalue m \<and> m' = m\<lparr>mvalue := True\<rparr> \<and> s' = s\<lparr>intr := old\<rparr>"
  by (auto simp: mutex_lock_round_def split: if_splits)

lemma unlock_value:
  "mutex_unlock m s = Inr u \<Longrightarrow> mvalue m \<and>
   (\<exists>s' old. u = Unlocked (m\<lparr>mvalue := False\<rparr>) s' \<or> u = Yielded (m\<lparr>mvalue := False\<rparr>) s' old)"
  by (auto simp: mutex_unlock_def Let_def split: if_splits)

lemma lock_step_exclusive:
  assumes "lock_step c c'" "exclusive c"
  shows "exclusive c'"
  using assms(1)
proof (cases rule: lock_step.cases)
  case (enter m old s m' s' H)
  then have "\<not> mvalue m" "mvalue m'" using lock_round_value by fastforce+
  then show ?thesis using enter(1,2) assms(2) by (simp add: exclusive_def)
next
  case (leave s H m m' s')
  then have "mvalue m" "\<not> mvalue m'" using unlock_value by fastforce+
  then show ?thesis using leave(1-3) assms(2) by (auto simp: exclusive_def)
next
  case (leave_yield s H m m' s' old)
  then have "mvalue m" "\<not> mvalue m'" using unlock_value by fastforce+
  then show ?thesis using leave_yield(1-3) assms(2) by (auto simp: exclusive_def)
qed (use assms(2) in \<open>simp_all add: exclusive_def\<close>)

text \<open>
  C23: over every interleaving of lock rounds, unlocks and scheduler steps of any number of
  tasks, at most one task is inside a critical section guarded by a mutex.
\<close>

theorem mutex_exclusion:
  assumes "lock_run (m, s, {}) (m', s', H)" "\<not> mvalue m"
  shows "(mvalue m' \<longrightarrow> (\<exists>t. H = {t})) \<and> (\<not> mvalue m' \<longrightarrow> H = {})"
proof -
  have "exclusive c'" if "lock_run c c'" "exclusive c" for c c'
    using that by (induction rule: lock_run.induct) (auto intro: lock_step_exclusive)
  from this[OF assms(1)] show ?thesis using assms(2) by (simp add: exclusive_def)
qed

lemma mutex_exclusion_witness:
  "\<exists>m' s'. lock_run (\<lparr>mvalue = False, waiters = 300\<rparr>, small_sys, {}) (m', s', {0x2000}) \<and> (mvalue m' \<longrightarrow> (\<exists>t. {0x2000} = {t :: addr}))"
proof -
  let ?m = "\<lparr>mvalue = False, waiters = 300\<rparr>"
  have l: "mutex_lock_round ?m False small_sys = Inr (Locked (?m\<lparr>mvalue := True\<rparr>) (small_sys\<lparr>intr := False\<rparr>))"
    by (simp add: mutex_lock_round_def)
  have "lock_run (?m, small_sys, {}) (?m\<lparr>mvalue := True\<rparr>, small_sys\<lparr>intr := False\<rparr>, {0x2000})"
    using lock_run.more[OF lock_step.enter[OF l, of "{}"] lock_run.none] by simp
  then show ?thesis using mutex_exclusion[of ?m small_sys "?m\<lparr>mvalue := True\<rparr>"] by fastforce
qed

text \<open>
  C26: \<^verbatim>\<open>mutex_unlock\<close> with tasks waiting makes ready the one that has waited longest,
  takes it off the list, leaves the others waiting in their order, opens the mutex and yields.
\<close>

theorem mutex_unlock_longest_waiter:
  assumes "mvalue m" "dll (nodes_at s) (waiters m) (map node_of (ts @ [t]))" "tasks_ok s"
    "magic (tcb s t) = YUI_MAGIC"
  shows "\<exists>s'. mutex_unlock m s = Inr (Yielded (m\<lparr>mvalue := False\<rparr>) s' (intr s))
    \<and> dll (nodes_at s') (waiters m) (map node_of ts) \<and> detached (nodes_at s') (node_of t)
    \<and> active (state (tcb s' t))"
proof -
  let ?s = "s\<lparr>intr := False\<rparr>"
  have L: "dll (nodes_at s) (waiters m) (map node_of ts @ [node_of t])" using assms(2) by simp
  have last: "nprev (nodes_at s) (waiters m + 8) = node_of t"
    using dll_ends(2)[OF L] by simp
  have ne: "\<not> list_empty (nodes_at s) (waiters m)" using dll_empty[OF L] by simp
  obtain h where h: "list_remove (nodes_at s) (node_of t) = Inr h" "dll h (waiters m) (map node_of ts)"
    "detached h (node_of t)" using dll_remove[of "nodes_at s" "waiters m" "map node_of ts" "node_of t" "[]"] L by auto
  define s1 where "s1 = upd_task t (\<lambda>k. k\<lparr>state := TASK_READY\<rparr>) (?s\<lparr>nodes_at := h\<rparr>)"
  have u: "task_unblock ?s t = Inr s1" using h by (simp add: task_unblock_def s1_def detached_def)
  have "tasks_ok s1" using assms(3) by (auto simp: tasks_ok_def s1_def)
  then obtain s' where s': "schedule s1 = Inr s'" using schedule_ok[of s1] by (auto simp: s1_def)
  obtain nxt where n: "nodes_at s' = h"
    "\<And>u. tcb s' u = (if u = nxt then (tcb (demoted s1) u)\<lparr>state := TASK_RUNNING\<rparr> else tcb (demoted s1) u)"
    using schedule_effect[OF s'] by (auto simp: s1_def)
  have "active (state (tcb s' t))" by (simp add: n(2) active_def) (simp add: s1_def)
  moreover have "mutex_unlock m s = Inr (Yielded (m\<lparr>mvalue := False\<rparr>) s' (intr s))"
    using assms(1,4) ne last u s' by (simp add: mutex_unlock_def Let_def tail_of_def task_yield_def)
  ultimately show ?thesis using h n by auto
qed

lemma mutex_unlock_longest_waiter_witness:
  "\<exists>s'. mutex_unlock \<lparr>mvalue = True, waiters = 100\<rparr> small_sys = Inr (Yielded \<lparr>mvalue = False, waiters = 100\<rparr> s' False)
    \<and> active (state (tcb s' 0x3000))"
proof -
  have m: "magic (tcb small_sys 0x3000) = YUI_MAGIC" by (simp add: small_tcb_def)
  show ?thesis
    using mutex_unlock_longest_waiter[of "\<lparr>mvalue = True, waiters = 100\<rparr>" small_sys "[]" "0x3000", OF _ _ small_ok m]
      small_sleepers by auto
qed

end
