(* ===== verification/Timing.thy ===== *)
theory Timing
  imports Mutex "HOL-Library.Signed_Division"
begin

text \<open>
  Time: the clock interrupt (\<^verbatim>\<open>kernel/clock.c\<close>), the clock chip and the alarm
  (\<^verbatim>\<open>kernel/rtc.c\<close>), and the calendar (\<^verbatim>\<open>kernel/time.c\<close>, repeated in
  \<^verbatim>\<open>lib/time.c\<close>).  The chip is an environment: \<open>env k r\<close> is what the \<open>k\<close>-th
  read of the program returns from register \<open>r\<close>.
\<close>

subsection \<open>The clock interrupt\<close>

record clock =
  sc :: sched
  cio :: ports
  beeping :: u32

definition HZ :: u32 where "HZ = 100"
definition OSCILLATOR :: u32 where "OSCILLATOR = 1193182"
definition CLOCK_COUNTER :: u32 where "CLOCK_COUNTER = OSCILLATOR div HZ"
definition JIFFY :: u32 where "JIFFY = 1000 div HZ"
definition SPEAKER_REG :: u16 where "SPEAKER_REG = 0x61"
definition PIT_CHAN0_REG :: u16 where "PIT_CHAN0_REG = 0x40"
definition PIT_CTRL_REG :: u16 where "PIT_CTRL_REG = 0x43"

definition start_beep :: "clock \<Rightarrow> clock" where
  "start_beep c =
     (let c = (if beeping c = 0 then c\<lparr>cio := outb SPEAKER_REG (inb SPEAKER_REG (cio c) OR 3) (cio c)\<rparr> else c)
      in c\<lparr>beeping := jiffies (sc c) + 5\<rparr>)"

definition stop_beep :: "clock \<Rightarrow> clock" where
  "stop_beep c =
     (if beeping c \<noteq> 0 \<and> jiffies (sc c) > beeping c
      then c\<lparr>cio := outb SPEAKER_REG (inb SPEAKER_REG (cio c) AND 0xfc) (cio c), beeping := 0\<rparr>
      else c)"

definition clock_handler :: "int \<Rightarrow> clock \<Rightarrow> clock res" where
  "clock_handler vector c =
     bnd (assrt (vector = 0x20)) (\<lambda>_.
     let c = stop_beep (c\<lparr>cio := send_eoi vector (cio c)\<rparr>)
     in bnd (task_wakeup (sc c)) (\<lambda>s.
        let s = s\<lparr>jiffies := jiffies s + 1\<rparr>; cur = current s;
            s = upd_task cur (\<lambda>t. t\<lparr>tjiffies := jiffies s, ticks := ticks t - 1\<rparr>) s
        in bnd (if ticks (tcb s cur) = 0 then schedule s else Inr s) (\<lambda>s. Inr (c\<lparr>sc := s\<rparr>))))"

definition sys_time :: "u32 \<Rightarrow> clock \<Rightarrow> u32" where
  "sys_time startup_time c = startup_time + jiffies (sc c) * JIFFY div 1000"

definition pit_init :: "ports \<Rightarrow> ports" where
  "pit_init io =
     outb PIT_CHAN0_REG (ucast (drop_bit 8 CLOCK_COUNTER AND 0xff))
       (outb PIT_CHAN0_REG (ucast (CLOCK_COUNTER AND 0xff)) (outb PIT_CTRL_REG 0x34 io))"

definition clock_init :: "handler \<Rightarrow> ports \<Rightarrow> idt_state \<Rightarrow> (ports \<times> idt_state) res" where
  "clock_init h io t =
     (let io = pit_init io
      in bnd (set_interrupt_handler 0 h t) (\<lambda>t.
         bnd (set_interrupt_mask 0 True io) (\<lambda>io. Inr (io, t))))"

subsection \<open>The clock chip\<close>

record chip =
  chio :: ports
  reads :: nat

definition CMOS_ADDR :: u16 where "CMOS_ADDR = 0x70"
definition CMOS_DATA :: u16 where "CMOS_DATA = 0x71"
definition CMOS_NMI :: u8 where "CMOS_NMI = 0x80"

definition cmos_read :: "(nat \<Rightarrow> u8 \<Rightarrow> u8) \<Rightarrow> u8 \<Rightarrow> chip \<Rightarrow> u8 \<times> chip" where
  "cmos_read env r c =
     (env (reads c) r, c\<lparr>chio := outb CMOS_ADDR (CMOS_NMI OR r) (chio c), reads := reads c + 1\<rparr>)"

definition cmos_write :: "u8 \<Rightarrow> u8 \<Rightarrow> chip \<Rightarrow> chip" where
  "cmos_write r v c = c\<lparr>chio := outb CMOS_DATA v (outb CMOS_ADDR (CMOS_NMI OR r) (chio c))\<rparr>"

record tm =
  tm_sec :: int
  tm_min :: int
  tm_hour :: int
  tm_mday :: int
  tm_mon :: int
  tm_year :: int
  tm_wday :: int
  tm_yday :: int
  tm_isdst :: int

text \<open>One pass of the reading loop; the century is a static variable.\<close>

definition read_all :: "(nat \<Rightarrow> u8 \<Rightarrow> u8) \<Rightarrow> tm \<Rightarrow> chip \<Rightarrow> tm \<times> int \<times> chip" where
  "read_all env t c =
     (let (s, c) = cmos_read env 0 c; (mi, c) = cmos_read env 2 c; (h, c) = cmos_read env 4 c;
          (d, c) = cmos_read env 7 c; (mo, c) = cmos_read env 8 c; (w, c) = cmos_read env 6 c;
          (y, c) = cmos_read env 9 c; (ce, c) = cmos_read env 0x32 c
      in (t\<lparr>tm_sec := uint s, tm_min := uint mi, tm_hour := uint h, tm_mday := uint d,
            tm_mon := uint mo, tm_wday := uint w, tm_year := uint y\<rparr>, uint ce, c))"

partial_function (option) time_read_bcd :: "(nat \<Rightarrow> u8 \<Rightarrow> u8) \<Rightarrow> tm \<Rightarrow> chip \<Rightarrow> (tm \<times> int \<times> chip) option" where
  "time_read_bcd env t c =
     (case read_all env t c of (t, ce, c) \<Rightarrow>
        (case cmos_read env 0 c of (s, c) \<Rightarrow>
           if tm_sec t \<noteq> uint s then time_read_bcd env t c else Some (t, ce, c)))"

text \<open>Days passed at the start of each month of a leap year; entry 0 is a placeholder.\<close>

definition month :: "int list" where
  "month = [0, 0, 31, 60, 91, 121, 152, 182, 213, 244, 274, 305, 335]"

definition month_at :: "int \<Rightarrow> int res" where
  "month_at i = (if i < 0 then Inl Fault else rd month (nat i))"

definition MINUTE :: int where "MINUTE = 60"
definition HOUR :: int where "HOUR = 60 * MINUTE"
definition DAY :: int where "DAY = 24 * HOUR"
definition YEAR :: int where "YEAR = 365 * DAY"

definition year_since :: "tm \<Rightarrow> int" where
  "year_since t = (if tm_year t \<ge> 70 then tm_year t - 70 else tm_year t - 70 + 100)"

definition mktime :: "tm \<Rightarrow> u32 res" where
  "mktime t =
     (let year = year_since t;
          res = of_int (YEAR * year) :: u32;
          res = res + of_int (DAY * ((year + 1) sdiv 4))
      in bnd (month_at (tm_mon t)) (\<lambda>m.
         let res = res + of_int (m * DAY);
             res = (if tm_mon t > 2 \<and> (year + 2) smod 4 \<noteq> 0 then res - of_int DAY else res);
             res = res + of_int (DAY * (tm_mday t - 1));
             res = res + of_int (HOUR * tm_hour t)
         in Inr (res + of_int (tm_sec t))))"

definition get_yday :: "tm \<Rightarrow> int res" where
  "get_yday t =
     bnd (month_at (tm_mon t)) (\<lambda>m.
     let res = m + tm_mday t; year = year_since t
     in Inr (if (year + 2) smod 4 \<noteq> 0 \<and> tm_mon t > 2 then res - 1 else res))"

definition from_bcd :: "int \<Rightarrow> int" where
  "from_bcd v = uint (bcd_to_bin (word_of_int v))"

definition time_read :: "(nat \<Rightarrow> u8 \<Rightarrow> u8) \<Rightarrow> tm \<Rightarrow> chip \<Rightarrow> (tm \<times> int \<times> chip) res" where
  "time_read env t c =
     bnd (run (map_option Inr (time_read_bcd env t c))) (\<lambda>(t, ce, c).
     let t = t\<lparr>tm_sec := from_bcd (tm_sec t), tm_min := from_bcd (tm_min t), tm_hour := from_bcd (tm_hour t),
               tm_mday := from_bcd (tm_mday t), tm_mon := from_bcd (tm_mon t),
               tm_wday := from_bcd (tm_wday t), tm_year := from_bcd (tm_year t)\<rparr>
     in bnd (get_yday t) (\<lambda>d. Inr (t\<lparr>tm_yday := d, tm_isdst := -1\<rparr>, from_bcd ce, c)))"

definition time_init :: "(nat \<Rightarrow> u8 \<Rightarrow> u8) \<Rightarrow> tm \<Rightarrow> chip \<Rightarrow> (u32 \<times> chip) res" where
  "time_init env t c = bnd (time_read env t c) (\<lambda>(t, ce, c). bnd (mktime t) (\<lambda>r. Inr (r, c)))"

definition elapsed_leap_years :: "int \<Rightarrow> int" where
  "elapsed_leap_years year =
     (let result = (year - 1) sdiv 4; result = result - (year - 1) sdiv 100;
          result = result + (year + 299) sdiv 400
      in result - (1970 - 1900) sdiv 4)"

definition is_leap_year :: "int \<Rightarrow> bool" where
  "is_leap_year year = ((year smod 4 = 0 \<and> year smod 100 \<noteq> 0) \<or> (year + 1900) smod 400 = 0)"

fun month_loop :: "int \<Rightarrow> int \<Rightarrow> nat \<Rightarrow> nat \<Rightarrow> nat" where
  "month_loop off yday mon 0 = mon"
| "month_loop off yday mon (Suc n) =
     (if month ! mon - off > yday then mon else month_loop off yday (Suc mon) n)"

definition localtime :: "u32 \<Rightarrow> tm \<Rightarrow> tm" where
  "localtime stamp t =
     (let remain = stamp div 60; sec = uint (stamp mod 60); mi = uint (remain mod 60);
          remain = remain div 60; h = uint (remain mod 24); days = remain div 24;
          wday = uint ((days + 4) mod 7); years = uint (days div 365) + 70;
          off = (if is_leap_year years then 0 else 1);
          days = days - of_int (elapsed_leap_years years);
          yday = uint (days mod of_int (366 - off));
          mon = month_loop off yday 1 12
      in t\<lparr>tm_sec := sec, tm_min := mi, tm_hour := h, tm_wday := wday, tm_year := years, tm_yday := yday,
           tm_mon := int mon - 1, tm_mday := yday - month ! (mon - 1) + off + 1\<rparr>)"

subsection \<open>The alarm\<close>

definition to_bcd :: "int \<Rightarrow> u8" where
  "to_bcd v = bin_to_bcd (word_of_int v)"

definition add_clock :: "tm \<Rightarrow> u32 \<Rightarrow> tm" where
  "add_clock t secs =
     (let sec = uint (secs mod 60); secs = secs div 60; mi = uint (secs mod 60); secs = secs div 60;
          hour = uint secs;
          t = t\<lparr>tm_sec := tm_sec t + sec\<rparr>;
          t = (if tm_sec t \<ge> 60 then t\<lparr>tm_sec := tm_sec t mod 60, tm_min := tm_min t + 1\<rparr> else t);
          t = t\<lparr>tm_min := tm_min t + mi\<rparr>;
          t = (if tm_min t \<ge> 60 then t\<lparr>tm_min := tm_min t mod 60, tm_hour := tm_hour t + 1\<rparr> else t);
          t = t\<lparr>tm_hour := tm_hour t + hour\<rparr>
      in if tm_hour t \<ge> 24 then t\<lparr>tm_hour := tm_hour t mod 24\<rparr> else t)"

definition set_alarm :: "(nat \<Rightarrow> u8 \<Rightarrow> u8) \<Rightarrow> tm \<Rightarrow> u32 \<Rightarrow> chip \<Rightarrow> chip res" where
  "set_alarm env t secs c =
     bnd (time_read env t c) (\<lambda>(t, ce, c).
     let t = add_clock t secs
     in Inr (cmos_write 1 (to_bcd (tm_sec t)) (cmos_write 3 (to_bcd (tm_min t))
              (cmos_write 5 (to_bcd (tm_hour t)) c))))"

definition rtc_handler :: "(nat \<Rightarrow> u8 \<Rightarrow> u8) \<Rightarrow> int \<Rightarrow> u32 \<Rightarrow> chip \<Rightarrow> (u32 \<times> chip) res" where
  "rtc_handler env vector counter c =
     bnd (assrt (vector = 0x28)) (\<lambda>_.
     let c = c\<lparr>chio := send_eoi vector (chio c)\<rparr>; c = snd (cmos_read env 0x0c c)
     in Inr (counter + 1, c))"

definition rtc_init :: "(nat \<Rightarrow> u8 \<Rightarrow> u8) \<Rightarrow> handler \<Rightarrow> chip \<Rightarrow> idt_state \<Rightarrow> (chip \<times> idt_state) res" where
  "rtc_init env h c t =
     (let c = snd (cmos_read env 0x0c (cmos_write 0x0b 0x42 c)); io = chio c;
          io = outb 0x0a ((inb 0x0a io AND 0xf) OR 0xe) io
      in bnd (set_interrupt_handler 8 h t) (\<lambda>t.
         bnd (set_interrupt_mask 8 True io) (\<lambda>io.
         bnd (set_interrupt_mask 2 True io) (\<lambda>io. Inr (c\<lparr>chio := io\<rparr>, t)))))"


subsection \<open>A calendar to compare with\<close>

text \<open>Days of the year \<open>y\<close> years after 1970, with the four-year rule (exact until 2099).\<close>

definition leap_from_1970 :: "nat \<Rightarrow> bool" where
  "leap_from_1970 y = ((y + 2) mod 4 = 0)"

primrec days_before_year :: "nat \<Rightarrow> int" where
  "days_before_year 0 = 0"
| "days_before_year (Suc y) = days_before_year y + (if leap_from_1970 y then 366 else 365)"

definition month_lengths :: "nat \<Rightarrow> int list" where
  "month_lengths y = [31, if leap_from_1970 y then 29 else 28, 31, 30, 31, 30, 31, 31, 30, 31, 30, 31]"

definition days_before_month :: "nat \<Rightarrow> nat \<Rightarrow> int" where
  "days_before_month y m = sum_list (take (m - 1) (month_lengths y))"

lemma days_before_year_eq: "days_before_year y = 365 * int y + int ((y + 1) div 4)"
proof (induction y)
  case (Suc y)
  have "(Suc y + 1) div 4 = (y + 1) div 4 + (if leap_from_1970 y then 1 else 0)"
    unfolding leap_from_1970_def by presburger
  then show ?case using Suc by simp
qed simp

lemma sdiv_pos: "0 \<le> (a :: int) \<Longrightarrow> 0 < b \<Longrightarrow> a sdiv b = a div b"
  by (simp add: signed_divide_int_def sgn_if)

lemma smod_pos: "0 \<le> (a :: int) \<Longrightarrow> 0 < b \<Longrightarrow> a smod b = a mod b"
  by (cases "a = 0") (auto simp: signed_modulo_int_def sgn_if)

definition date_ok :: "tm \<Rightarrow> bool" where
  "date_ok t = (0 \<le> year_since t \<and> 1 \<le> tm_mon t \<and> tm_mon t \<le> 12)"

text \<open>The month table, corrected after February, is the calendar's.\<close>

lemma month_table:
  assumes "1 \<le> m" "m \<le> 12"
  shows "days_before_month y m = month ! m - (if m > 2 \<and> \<not> leap_from_1970 y then 1 else 0)"
proof -
  have "m \<le> 12 \<longleftrightarrow> m = 0 \<or> m = 1 \<or> m = 2 \<or> m = 3 \<or> m = 4 \<or> m = 5 \<or> m = 6 \<or> m = 7 \<or> m = 8
    \<or> m = 9 \<or> m = 10 \<or> m = 11 \<or> m = 12"
    by (simp add: le_Suc_eq numeral_eq_Suc)
  then have "m = 0 \<or> m = 1 \<or> m = 2 \<or> m = 3 \<or> m = 4 \<or> m = 5 \<or> m = 6 \<or> m = 7 \<or> m = 8
    \<or> m = 9 \<or> m = 10 \<or> m = 11 \<or> m = 12" using assms(2) by blast
  then show ?thesis using assms(1)
    by (elim disjE) (auto simp: days_before_month_def month_lengths_def month_def numeral_eq_Suc)
qed

lemma leap_int:
  assumes "0 \<le> (y :: int)"
  shows "(y + 2) smod 4 \<noteq> 0 \<longleftrightarrow> \<not> leap_from_1970 (nat y)"
proof -
  have "(y + 2) smod 4 = (y + 2) mod 4" using assms by (intro smod_pos) auto
  moreover have "int ((nat y + 2) mod 4) = (y + 2) mod 4" using assms by (simp add: zmod_int add.commute)
  ultimately show ?thesis unfolding leap_from_1970_def by (metis of_nat_eq_0_iff)
qed

lemma month_at_ok: "1 \<le> m \<Longrightarrow> m \<le> 12 \<Longrightarrow> month_at m = Inr (month ! nat m)"
  by (simp add: month_at_def month_def)

lemma mktime_value:
  assumes "date_ok t"
  shows "mktime t = Inr (of_int
    (DAY * (days_before_year (nat (year_since t)) + days_before_month (nat (year_since t)) (nat (tm_mon t))
            + (tm_mday t - 1)) + HOUR * tm_hour t + tm_sec t))"
proof -
  let ?y = "year_since t"
  have y: "0 \<le> ?y" and m: "1 \<le> tm_mon t" "tm_mon t \<le> 12" using assms by (auto simp: date_ok_def)
  have m': "1 \<le> nat (tm_mon t)" "nat (tm_mon t) \<le> 12" using m by simp_all
  have d: "(?y + 1) sdiv 4 = int ((nat ?y + 1) div 4)" using y by (simp add: sdiv_pos zdiv_int)
  have g: "(2 < tm_mon t \<and> (?y + 2) smod 4 \<noteq> 0) = (2 < nat (tm_mon t) \<and> \<not> leap_from_1970 (nat ?y))"
    using leap_int[OF y] by auto
  show ?thesis
    unfolding mktime_def Let_def g month_at_ok[OF m] d month_table[OF m'] days_before_year_eq
    using y by (simp add: YEAR_def algebra_simps)
qed

subsection \<open>Properties\<close>

definition some_date :: tm where
  "some_date = \<lparr>tm_sec = 5, tm_min = 30, tm_hour = 12, tm_mday = 29, tm_mon = 2, tm_year = 24, tm_wday = 4,
     tm_yday = 60, tm_isdst = -1\<rparr>"

text \<open>
  C27: for every date from 1970 to 2069 as the clock chip gives it (two-digit years), \<^verbatim>\<open>mktime\<close>
  returns the seconds of the days since 1970-01-01 by the calendar plus those of the hours and
  seconds of the day, in 32 bits; the minutes do not count.
\<close>

theorem mktime_counts_days:
  assumes "0 \<le> tm_year t" "tm_year t < 100" "1 \<le> tm_mon t" "tm_mon t \<le> 12"
  shows "mktime t = Inr (of_int
      (86400 * (days_before_year (nat (year_since t)) + days_before_month (nat (year_since t)) (nat (tm_mon t))
            + (tm_mday t - 1)) + 3600 * tm_hour t + tm_sec t))
    \<and> (\<forall>m. mktime (t\<lparr>tm_min := m\<rparr>) = mktime t)"
proof -
  have "date_ok t" using assms by (auto simp: date_ok_def year_since_def)
  then have "mktime t = Inr (of_int
      (86400 * (days_before_year (nat (year_since t)) + days_before_month (nat (year_since t)) (nat (tm_mon t))
            + (tm_mday t - 1)) + 3600 * tm_hour t + tm_sec t))"
    using mktime_value[of t] by (simp only: DAY_def HOUR_def MINUTE_def) simp
  moreover have "mktime (t\<lparr>tm_min := m\<rparr>) = mktime t" for m by (simp add: mktime_def year_since_def)
  ultimately show ?thesis by blast
qed

lemma mktime_counts_days_witness:
  "mktime some_date = Inr 1709208005 \<and> mktime (some_date\<lparr>tm_min := 0\<rparr>) = mktime some_date"
proof -
  have y: "year_since some_date = 54" by (simp add: year_since_def some_date_def)
  have c: "0 \<le> tm_year some_date" "tm_year some_date < 100" "1 \<le> tm_mon some_date" "tm_mon some_date \<le> 12"
    by (simp_all add: some_date_def)
  note T = mktime_counts_days[OF c]
  have E: "86400 * (days_before_year (nat (year_since some_date)) + days_before_month (nat (year_since some_date)) (nat (tm_mon some_date))
            + (tm_mday some_date - 1)) + 3600 * tm_hour some_date + tm_sec some_date = 1709208005"
    by (simp add: y days_before_year_eq days_before_month_def month_lengths_def)
      (simp add: year_since_def leap_from_1970_def some_date_def)
  show ?thesis using T unfolding E by simp
qed

lemma wrap_once:
  assumes "0 \<le> (x :: int)" "x < 120"
  shows "(if 60 \<le> x then x mod 60 else x) = x - 60 * (if 60 \<le> x then 1 else 0)"
proof (cases "60 \<le> x")
  case True
  have "x mod 60 = (x - 60) mod 60" by simp
  also have "\<dots> = x - 60" using True assms by (intro mod_pos_pos_trivial) auto
  finally show ?thesis using True by simp
qed simp

text \<open>
  Added to a valid time of day, the alarm's time of day is the time \<open>secs\<close> seconds later,
  modulo a day, and again valid.
\<close>

theorem add_clock_mod_day:
  assumes "0 \<le> tm_sec t" "tm_sec t < 60" "0 \<le> tm_min t" "tm_min t < 60" "0 \<le> tm_hour t" "tm_hour t < 24"
  shows "(let a = add_clock t secs in
      3600 * tm_hour a + 60 * tm_min a + tm_sec a
        = (3600 * tm_hour t + 60 * tm_min t + tm_sec t + uint secs) mod 86400
      \<and> 0 \<le> tm_sec a \<and> tm_sec a < 60 \<and> 0 \<le> tm_min a \<and> tm_min a < 60 \<and> 0 \<le> tm_hour a \<and> tm_hour a < 24)"
proof -
  define n where "n = uint secs"
  define x where "x = n mod 60"
  define y where "y = n div 60 mod 60"
  define z where "z = n div 60 div 60"
  have u: "uint (secs mod 60) = x" "uint (secs div 60 mod 60) = y" "uint (secs div 60 div 60) = z"
    by (simp_all add: n_def x_def y_def z_def uint_div uint_mod)
  have r: "0 \<le> x" "x < 60" "0 \<le> y" "y < 60" "0 \<le> z"
    by (simp_all add: x_def y_def z_def n_def pos_imp_zdiv_nonneg_iff)
  have nxyz: "n = 3600 * z + 60 * y + x"
  proof -
    have "n = 60 * (n div 60) + x" by (simp add: x_def)
    moreover have "n div 60 = 60 * z + y" by (simp add: y_def z_def)
    ultimately show ?thesis by linarith
  qed
  define c where "c = (if 60 \<le> tm_sec t + x then 1 else 0 :: int)"
  define d where "d = (if 60 \<le> tm_min t + c + y then 1 else 0 :: int)"
  define h where "h = tm_hour t + d + z"
  have cd: "0 \<le> c" "c \<le> 1" "0 \<le> d" "d \<le> 1" by (simp_all add: c_def d_def)
  have A: "tm_sec (add_clock t secs) = (if 60 \<le> tm_sec t + x then (tm_sec t + x) mod 60 else tm_sec t + x)"
    "tm_min (add_clock t secs) = (if 60 \<le> tm_min t + c + y then (tm_min t + c + y) mod 60 else tm_min t + c + y)"
    "tm_hour (add_clock t secs) = (if 24 \<le> h then h mod 24 else h)"
    by (simp_all add: add_clock_def Let_def u c_def d_def h_def)
  have s: "tm_sec (add_clock t secs) = tm_sec t + x - 60 * c"
    unfolding A(1) c_def using assms(1,2) r(1,2) by (intro wrap_once) simp_all
  have m: "tm_min (add_clock t secs) = tm_min t + c + y - 60 * d"
    unfolding A(2) d_def using assms(3,4) r(3,4) cd by (intro wrap_once) simp_all
  have s2: "0 \<le> tm_sec t + x - 60 * c" "tm_sec t + x - 60 * c < 60" using assms(1,2) r(1,2) by (simp_all add: c_def)
  have m2: "0 \<le> tm_min t + c + y - 60 * d" "tm_min t + c + y - 60 * d < 60"
    using assms(3,4) r(3,4) cd by (simp_all add: d_def)
  have "0 \<le> h" using assms(5) r(5) cd by (simp add: h_def)
  then have h: "tm_hour (add_clock t secs) = h mod 24" unfolding A(3) by (simp add: mod_pos_pos_trivial)
  define rest where "rest = 60 * (tm_min t + c + y - 60 * d) + (tm_sec t + x - 60 * c)"
  have rest: "0 \<le> rest" "rest < 3600" using s2 m2 by (simp_all add: rest_def)
  have h24: "0 \<le> h mod 24" "h mod 24 < 24" by simp_all
  have tot: "3600 * tm_hour t + 60 * tm_min t + tm_sec t + n = (3600 * (h mod 24) + rest) + 86400 * (h div 24)"
  proof -
    have "3600 * tm_hour t + 60 * tm_min t + tm_sec t + n = 3600 * h + rest"
      by (simp add: nxyz rest_def h_def algebra_simps)
    moreover have "h = 24 * (h div 24) + h mod 24" by simp
    ultimately show ?thesis by linarith
  qed
  have "0 \<le> 3600 * (h mod 24) + rest" "3600 * (h mod 24) + rest < 86400" using rest h24 by linarith+
  then have "(3600 * tm_hour t + 60 * tm_min t + tm_sec t + n) mod 86400 = 3600 * (h mod 24) + rest"
    unfolding tot by (simp add: mod_pos_pos_trivial)
  then show ?thesis unfolding Let_def h s m n_def[symmetric] rest_def using s2 m2 h24 by simp
qed

lemma add_clock_mod_day_witness:
  "(let a = add_clock some_date 43200 in 3600 * tm_hour a + 60 * tm_min a + tm_sec a = 1805)"
  using add_clock_mod_day[of some_date 43200] by (simp add: some_date_def Let_def)

end
