(* ===== verification/Arena.thy ===== *)
theory Arena
  imports Vmem Stdlib Lists
begin

text \<open>
  The kernel heap: \<^verbatim>\<open>kernel/arena.c\<close>.  Seven descriptors serve blocks of 16 to 1024
  bytes from one-page arenas; a larger request gets an arena of whole pages of its own.  The
  arena header at the start of its first page is a record found by the page's address, and the
  free blocks are nodes of the descriptor's list in the node heap of theory \<open>Lists\<close>.
\<close>

subsection \<open>State\<close>

record arena_descriptor =
  total_block :: u32
  block_size :: u32
  free_list :: addr

record arena =
  adesc :: "nat option"
  acount :: u32
  large :: u32
  amagic :: u32

record arenas =
  descs :: "arena_descriptor list"
  arena_at :: "addr \<Rightarrow> arena"

definition DESC_COUNT :: nat where "DESC_COUNT = 7"
definition ARENA_SIZE :: u32 where "ARENA_SIZE = 16"

fun arena_init_loop :: "arena_descriptor list \<Rightarrow> heap \<Rightarrow> u32 \<Rightarrow> nat \<Rightarrow> nat \<Rightarrow> arena_descriptor list \<times> heap" where
  "arena_init_loop ds h bsize i 0 = (ds, h)"
| "arena_init_loop ds h bsize i (Suc n) =
     arena_init_loop
       (ds[i := (ds ! i)\<lparr>block_size := bsize, total_block := (PAGE_SIZE - ARENA_SIZE) div bsize\<rparr>])
       (list_init h (free_list (ds ! i))) (push_bit 1 bsize) (Suc i) n"

definition arena_init :: "arenas \<Rightarrow> heap \<Rightarrow> arenas \<times> heap" where
  "arena_init a h =
     (let (ds, h) = arena_init_loop (descs a) h 16 0 DESC_COUNT in (a\<lparr>descs := ds\<rparr>, h))"

subsection \<open>Blocks\<close>

definition desc_of :: "arenas \<Rightarrow> addr \<Rightarrow> arena_descriptor res" where
  "desc_of a p =
     (case adesc (arena_at a p) of None \<Rightarrow> Inl Fault | Some d \<Rightarrow> rd (descs a) d)"

definition get_arena_block :: "arenas \<Rightarrow> addr \<Rightarrow> u32 \<Rightarrow> addr res" where
  "get_arena_block a p idx =
     bnd (desc_of a p) (\<lambda>d.
     bnd (assrt (total_block d > idx)) (\<lambda>_.
     Inr (p + unat ARENA_SIZE + unat (idx * block_size d))))"

definition get_block_arena :: "addr \<Rightarrow> addr" where
  "get_block_arena block = unat ((of_nat block :: u32) AND 0xfffff000)"

text \<open>The zeroed bytes clear the links of the list nodes they hold.\<close>

definition clear_nodes :: "addr \<Rightarrow> nat \<Rightarrow> heap \<Rightarrow> heap" where
  "clear_nodes p n h =
     \<lparr>nprev = (\<lambda>a. if p \<le> a \<and> a < p + n then 0 else nprev h a),
      nnext = (\<lambda>a. if p \<le> a \<and> a < p + n then 0 else nnext h a)\<rparr>"

fun desc_loop :: "arena_descriptor list \<Rightarrow> u32 \<Rightarrow> nat \<Rightarrow> nat \<Rightarrow> nat" where
  "desc_loop ds bytes i 0 = i - 1"
| "desc_loop ds bytes i (Suc n) =
     (if block_size (ds ! i) \<ge> bytes then i else desc_loop ds bytes (Suc i) n)"

fun fill_loop :: "arenas \<Rightarrow> addr \<Rightarrow> heap \<Rightarrow> nat \<Rightarrow> nat \<Rightarrow> heap res" where
  "fill_loop a p h i 0 = Inr h"
| "fill_loop a p h i (Suc n) =
     bnd (get_arena_block a p (of_nat i)) (\<lambda>block.
     bnd (desc_of a p) (\<lambda>d.
     bnd (list_search h (free_list d) block) (\<lambda>found.
     bnd (assrt (\<not> found)) (\<lambda>_.
     bnd (list_push h (free_list d) block) (\<lambda>h.
     bnd (list_search h (free_list d) block) (\<lambda>found.
     bnd (assrt found) (\<lambda>_.
     fill_loop a p h (Suc i) n)))))))"

definition put_arena :: "addr \<Rightarrow> arena \<Rightarrow> arenas \<Rightarrow> arenas" where
  "put_arena p x a = a\<lparr>arena_at := (arena_at a)(p := x)\<rparr>"

subsection \<open>The operations\<close>

definition kmalloc_large :: "arenas \<Rightarrow> kmem \<Rightarrow> heap \<Rightarrow> u32 \<Rightarrow> (arenas \<times> kmem \<times> heap \<times> addr) res" where
  "kmalloc_large a m h bytes =
     (let asize = bytes + ARENA_SIZE; count = div_round_up asize PAGE_SIZE
      in bnd (alloc_kpage m count) (\<lambda>(m, page).
         let p = unat page;
             h = clear_nodes p (unat (count * PAGE_SIZE)) h;
             a = put_arena p \<lparr>adesc = None, acount = count, large = 1, amagic = YUI_MAGIC\<rparr> a
         in Inr (a, m, h, unat (page + ARENA_SIZE))))"

definition new_arena :: "arenas \<Rightarrow> kmem \<Rightarrow> heap \<Rightarrow> nat \<Rightarrow> (arenas \<times> kmem \<times> heap) res" where
  "new_arena a m h d =
     bnd (alloc_kpage m 1) (\<lambda>(m, page).
     bnd (rd (descs a) d) (\<lambda>desc.
     let p = unat page;
         h = clear_nodes p (unat PAGE_SIZE) h;
         a = put_arena p \<lparr>adesc = Some d, acount = total_block desc, large = 0, amagic = YUI_MAGIC\<rparr> a
     in bnd (fill_loop a p h 0 (unat (total_block desc))) (\<lambda>h. Inr (a, m, h))))"

definition kmalloc :: "arenas \<Rightarrow> kmem \<Rightarrow> heap \<Rightarrow> u32 \<Rightarrow> (arenas \<times> kmem \<times> heap \<times> addr) res" where
  "kmalloc a m h bytes =
     (if bytes > 1024 then kmalloc_large a m h bytes
      else let d = desc_loop (descs a) bytes 0 DESC_COUNT
           in bnd (rd (descs a) d) (\<lambda>desc.
              bnd (if list_empty h (free_list desc) then new_arena a m h d else Inr (a, m, h)) (\<lambda>(a, m, h).
              bnd (list_pop h (free_list desc)) (\<lambda>(h, block).
              let p = get_block_arena block; ar = arena_at a p
              in bnd (assrt (amagic ar = YUI_MAGIC \<and> large ar = 0)) (\<lambda>_.
                 Inr (put_arena p (ar\<lparr>acount := acount ar - 1\<rparr>) a, m, h, block))))))"

fun drain_loop :: "arenas \<Rightarrow> addr \<Rightarrow> heap \<Rightarrow> nat \<Rightarrow> nat \<Rightarrow> heap res" where
  "drain_loop a p h i 0 = Inr h"
| "drain_loop a p h i (Suc n) =
     bnd (get_arena_block a p (of_nat i)) (\<lambda>block.
     bnd (desc_of a p) (\<lambda>d.
     bnd (list_search h (free_list d) block) (\<lambda>found.
     bnd (assrt found) (\<lambda>_.
     bnd (list_remove h block) (\<lambda>h.
     bnd (list_search h (free_list d) block) (\<lambda>found.
     bnd (assrt (\<not> found)) (\<lambda>_.
     drain_loop a p h (Suc i) n)))))))"

definition kfree :: "arenas \<Rightarrow> kmem \<Rightarrow> heap \<Rightarrow> addr \<Rightarrow> (arenas \<times> kmem \<times> heap) res" where
  "kfree a m h ptr =
     bnd (assrt (ptr \<noteq> 0)) (\<lambda>_.
     let p = get_block_arena ptr; ar = arena_at a p
     in bnd (assrt (large ar = 1 \<or> large ar = 0)) (\<lambda>_.
        bnd (assrt (amagic ar = YUI_MAGIC)) (\<lambda>_.
        if large ar \<noteq> 0 then bnd (free_kpage m (of_nat p) (acount ar)) (\<lambda>m. Inr (a, m, h))
        else bnd (desc_of a p) (\<lambda>d.
             bnd (list_push h (free_list d) ptr) (\<lambda>h.
             let ar = ar\<lparr>acount := acount ar + 1\<rparr>; a = put_arena p ar a
             in if acount ar = total_block d
                then bnd (drain_loop a p h 0 (unat (total_block d))) (\<lambda>h.
                     bnd (free_kpage m (of_nat p) 1) (\<lambda>m. Inr (a, m, h)))
                else Inr (a, m, h))))))"

end
