(* ===== verification/Device.thy ===== *)
theory Device
  imports Arena Task Strings
begin

text \<open>
  Virtual devices and block requests: \<^verbatim>\<open>kernel/device.c\<close>.  A driver's three function
  pointers are functions on a state of its own (\<open>'w\<close>, the memory and the hardware it
  reaches), or none where the pointer is null.  A name is the characters before its terminating
  zero.  The requests are found by the address of their \<^verbatim>\<open>request_t\<close>, whose list node is
  in the node heap.

  \<^verbatim>\<open>device_request\<close> may block between queueing its request and carrying it out, so it
  is two steps; \<open>Queued\<close> says the task has been switched out and continues with
  \<open>request_finish\<close> when it is unblocked.
\<close>

subsection \<open>State\<close>

datatype device_type = DEV_NULL | DEV_CHAR | DEV_BLOCK

definition DEV_CONSOLE :: int where "DEV_CONSOLE = 1"
definition DEV_KEYBOARD :: int where "DEV_KEYBOARD = 2"
definition DEV_SERIAL :: int where "DEV_SERIAL = 3"
definition DEV_IDE_DISK :: int where "DEV_IDE_DISK = 4"
definition DEV_IDE_PART :: int where "DEV_IDE_PART = 5"
definition DEV_RAMDISK :: int where "DEV_RAMDISK = 6"

definition DEV_CMD_SECTOR_START :: int where "DEV_CMD_SECTOR_START = 1"
definition DEV_CMD_SECTOR_COUNT :: int where "DEV_CMD_SECTOR_COUNT = 2"

datatype direction = DIRECT_UP | DIRECT_DOWN

type_synonym 'w ioctl_fn = "addr \<Rightarrow> int \<Rightarrow> addr \<Rightarrow> int \<Rightarrow> 'w \<Rightarrow> ('w \<times> int) res"
type_synonym 'w io_fn = "addr \<Rightarrow> addr \<Rightarrow> u32 \<Rightarrow> u32 \<Rightarrow> int \<Rightarrow> 'w \<Rightarrow> ('w \<times> int) res"

record 'w device =
  dname :: "u8 list"
  dtype :: device_type
  subtype :: int
  ddev :: int
  parent :: int
  dptr :: addr
  request_list :: addr
  direct :: direction
  dioctl :: "'w ioctl_fn option"
  dread :: "'w io_fn option"
  dwrite :: "'w io_fn option"

text \<open>The byte memory and whatever other hardware the drivers reach.\<close>

record 'h machine =
  ram :: mem
  hw :: 'h

datatype req_type = REQ_READ | REQ_WRITE | REQ_OTHER

record request =
  rdev :: int
  rtype :: req_type
  ridx :: u32
  rcount :: u32
  rflags :: int
  rbuf :: addr
  rtask :: addr

record 'w dstate =
  sch :: sched
  heaps :: arenas
  devices :: "'w device list"
  req_at :: "addr \<Rightarrow> request"
  world :: 'w

definition BLOCK_SIZE :: u32 where "BLOCK_SIZE = 1024"
definition BLOCK_SECS :: u32 where "BLOCK_SECS = 2"
definition DEVICE_NR :: nat where "DEVICE_NR = 64"
definition NAMELEN :: nat where "NAMELEN = 16"
definition REQUEST_SIZE :: u32 where "REQUEST_SIZE = 36"

definition req_node :: "addr \<Rightarrow> addr" where "req_node r = r + 28"
definition node_req :: "addr \<Rightarrow> addr" where "node_req n = n - 28"

subsection \<open>The device table\<close>

fun null_device :: "'w device list \<Rightarrow> nat \<Rightarrow> nat \<Rightarrow> nat res" where
  "null_device ds i 0 = Inl Panic"
| "null_device ds i (Suc n) =
     bnd (rd ds i) (\<lambda>d. if dtype d = DEV_NULL then Inr i else null_device ds (Suc i) n)"

definition get_null_device :: "'w device list \<Rightarrow> nat res" where
  "get_null_device ds = null_device ds 1 (DEVICE_NR - 1)"

definition device_get :: "'w device list \<Rightarrow> int \<Rightarrow> 'w device res" where
  "device_get ds dev =
     bnd (assrt (dev < int DEVICE_NR)) (\<lambda>_.
     bnd (if dev < 0 then Inl Fault else rd ds (nat dev)) (\<lambda>d.
     bnd (assrt (dtype d \<noteq> DEV_NULL)) (\<lambda>_. Inr d)))"

definition device_ioctl :: "'w device list \<Rightarrow> int \<Rightarrow> int \<Rightarrow> addr \<Rightarrow> int \<Rightarrow> 'w \<Rightarrow> ('w \<times> int) res" where
  "device_ioctl ds dev cmd args flags w =
     bnd (device_get ds dev) (\<lambda>d.
     case dioctl d of Some f \<Rightarrow> f (dptr d) cmd args flags w | None \<Rightarrow> Inr (w, -1))"

definition device_read :: "'w device list \<Rightarrow> int \<Rightarrow> addr \<Rightarrow> u32 \<Rightarrow> u32 \<Rightarrow> int \<Rightarrow> 'w \<Rightarrow> ('w \<times> int) res" where
  "device_read ds dev buf count idx flags w =
     bnd (device_get ds dev) (\<lambda>d.
     case dread d of Some f \<Rightarrow> f (dptr d) buf count idx flags w | None \<Rightarrow> Inr (w, -1))"

definition device_write :: "'w device list \<Rightarrow> int \<Rightarrow> addr \<Rightarrow> u32 \<Rightarrow> u32 \<Rightarrow> int \<Rightarrow> 'w \<Rightarrow> ('w \<times> int) res" where
  "device_write ds dev buf count idx flags w =
     bnd (device_get ds dev) (\<lambda>d.
     case dwrite d of Some f \<Rightarrow> f (dptr d) buf count idx flags w | None \<Rightarrow> Inr (w, -1))"

definition device_install ::
  "device_type \<Rightarrow> int \<Rightarrow> addr \<Rightarrow> u8 list \<Rightarrow> int \<Rightarrow> 'w ioctl_fn option \<Rightarrow> 'w io_fn option \<Rightarrow> 'w io_fn option
   \<Rightarrow> 'w device list \<Rightarrow> ('w device list \<times> int) res" where
  "device_install ty sub ptr name par ioctl rdf wrf ds =
     bnd (get_null_device ds) (\<lambda>i.
     let d = (ds ! i)\<lparr>dptr := ptr, parent := par, dtype := ty, subtype := sub,
               dname := take (NAMELEN - 1) name, dioctl := ioctl, dread := rdf, dwrite := wrf\<rparr>
     in Inr (ds[i := d], ddev d))"

fun device_init_loop :: "heap \<Rightarrow> 'w device list \<Rightarrow> nat \<Rightarrow> nat \<Rightarrow> heap \<times> 'w device list" where
  "device_init_loop h ds i 0 = (h, ds)"
| "device_init_loop h ds i (Suc n) =
     (let d = (ds ! i)\<lparr>dname := [110, 117, 108, 108], dtype := DEV_NULL, subtype := 0, ddev := int i,
                parent := 0, dioctl := None, dread := None, dwrite := None, direct := DIRECT_UP\<rparr>
      in device_init_loop (list_init h (request_list d)) (ds[i := d]) (Suc i) n)"

definition device_init :: "heap \<Rightarrow> 'w device list \<Rightarrow> heap \<times> 'w device list" where
  "device_init h ds = device_init_loop h ds 0 DEVICE_NR"

text \<open>
  A search that finds nothing runs off the end of the function without a \<^verbatim>\<open>return\<close>;
  \<open>junk\<close> is the pointer the caller then sees.
\<close>

fun find_device :: "'w device list \<Rightarrow> int \<Rightarrow> u32 \<Rightarrow> u32 \<Rightarrow> 'w device option" where
  "find_device [] sub idx nr = None"
| "find_device (d # ds) sub idx nr =
     (if subtype d \<noteq> sub then find_device ds sub idx nr
      else if nr = idx then Some d
      else find_device ds sub idx (nr + 1))"

definition device_find :: "'w device option \<Rightarrow> 'w device list \<Rightarrow> int \<Rightarrow> u32 \<Rightarrow> 'w device option" where
  "device_find junk ds sub idx =
     (case find_device ds sub idx 0 of None \<Rightarrow> junk | Some d \<Rightarrow> Some d)"

subsection \<open>Block requests\<close>

definition do_request :: "'w device list \<Rightarrow> request \<Rightarrow> 'w \<Rightarrow> 'w res" where
  "do_request ds r w =
     (case rtype r of
        REQ_READ \<Rightarrow> bnd (device_read ds (rdev r) (rbuf r) (rcount r) (ridx r) (rflags r) w) (\<lambda>(w, _). Inr w)
      | REQ_WRITE \<Rightarrow> bnd (device_write ds (rdev r) (rbuf r) (rcount r) (ridx r) (rflags r) w) (\<lambda>(w, _). Inr w)
      | REQ_OTHER \<Rightarrow> Inl Panic)"

definition turn :: "heap \<Rightarrow> 'w device \<Rightarrow> addr \<Rightarrow> direction" where
  "turn h d n =
     (if direct d = DIRECT_UP \<and> nnext h n = tail_of (request_list d) then DIRECT_DOWN
      else if direct d = DIRECT_DOWN \<and> nprev h n = head_of (request_list d) then DIRECT_UP
      else direct d)"

definition request_nextreq :: "heap \<Rightarrow> 'w device \<Rightarrow> addr \<Rightarrow> 'w device \<times> addr" where
  "request_nextreq h d r =
     (let n = req_node r; dir = turn h d n;
          nxt = (if dir = DIRECT_UP then nnext h n else nprev h n)
      in (d\<lparr>direct := dir\<rparr>,
          if nxt = head_of (request_list d) \<or> nxt = tail_of (request_list d) then 0 else node_req nxt))"

text \<open>\<open>Queued\<close>: the request waits its turn; \<open>First\<close>: its task goes on at once.\<close>

datatype 'w queue_end = Queued int addr "'w dstate" | First int addr "'w dstate"

definition request_key :: "(addr \<Rightarrow> request) \<Rightarrow> addr \<Rightarrow> int" where
  "request_key rq n = sint (ridx (rq (node_req n)))"

definition request_queue ::
  "int \<Rightarrow> addr \<Rightarrow> u8 \<Rightarrow> u32 \<Rightarrow> int \<Rightarrow> req_type \<Rightarrow> 'w dstate \<Rightarrow> 'w queue_end res" where
  "request_queue dev buf count idx flags type s =
     bnd (device_get (devices s) dev) (\<lambda>d.
     bnd (assrt (dtype d = DEV_BLOCK)) (\<lambda>_.
     bnd (device_ioctl (devices s) (ddev d) DEV_CMD_SECTOR_START 0 0 (world s)) (\<lambda>(w, start).
     let s = s\<lparr>world := w\<rparr>; offset = idx + word_of_int start
     in bnd (if parent d \<noteq> 0 then device_get (devices s) (parent d) else Inr d) (\<lambda>d.
        bnd (kmalloc (heaps s) (mm (sch s)) (nodes_at (sch s)) REQUEST_SIZE) (\<lambda>(a, m, h, r).
        let req = \<lparr>rdev = ddev d, rtype = type, ridx = offset, rcount = ucast count, rflags = flags,
                   rbuf = buf, rtask = 0\<rparr>;
            s = s\<lparr>heaps := a, sch := (sch s)\<lparr>mm := m, nodes_at := h\<rparr>, req_at := (req_at s)(r := req)\<rparr>;
            empty = list_empty h (request_list d)
        in bnd (list_insert_sort h (request_list d) (req_node r) (request_key (req_at s))) (\<lambda>h.
           let s = s\<lparr>sch := (sch s)\<lparr>nodes_at := h\<rparr>\<rparr>
           in if \<not> empty
              then let cur = current (sch s); s = s\<lparr>req_at := (req_at s)(r := req\<lparr>rtask := cur\<rparr>)\<rparr>
                   in bnd (task_block (sch s) cur 0 TASK_BLOCKED) (\<lambda>k. Inr (Queued (ddev d) r (s\<lparr>sch := k\<rparr>)))
              else Inr (First (ddev d) r s)))))))"

definition set_device :: "int \<Rightarrow> 'w device \<Rightarrow> 'w dstate \<Rightarrow> 'w dstate" where
  "set_device dev d s = s\<lparr>devices := (devices s)[nat dev := d]\<rparr>"

text \<open>
  The rest of the call, for the request \<open>r\<close> of the device \<open>dev\<close> whose queue it is in.
\<close>

definition request_finish :: "int \<Rightarrow> addr \<Rightarrow> 'w dstate \<Rightarrow> 'w dstate res" where
  "request_finish dev r s =
     bnd (do_request (devices s) (req_at s r) (world s)) (\<lambda>w.
     let s = s\<lparr>world := w\<rparr>;
         (d, nxt) = request_nextreq (nodes_at (sch s)) (devices s ! nat dev) r;
         s = set_device dev d s
     in bnd (list_remove (nodes_at (sch s)) (req_node r)) (\<lambda>h.
        bnd (kfree (heaps s) (mm (sch s)) h r) (\<lambda>(a, m, h).
        let s = s\<lparr>heaps := a, sch := (sch s)\<lparr>mm := m, nodes_at := h\<rparr>\<rparr>
        in if nxt \<noteq> 0
           then let t = rtask (req_at s nxt)
                in bnd (assrt (magic (tcb (sch s) t) = YUI_MAGIC)) (\<lambda>_.
                   bnd (task_unblock (sch s) t) (\<lambda>k. Inr (s\<lparr>sch := k\<rparr>)))
           else Inr s)))"

text \<open>A call that finds the queue empty runs through both steps.\<close>

definition device_request ::
  "int \<Rightarrow> addr \<Rightarrow> u8 \<Rightarrow> u32 \<Rightarrow> int \<Rightarrow> req_type \<Rightarrow> 'w dstate \<Rightarrow> 'w queue_end res" where
  "device_request dev buf count idx flags type s =
     bnd (request_queue dev buf count idx flags type s) (\<lambda>q.
     case q of Queued d r s \<Rightarrow> Inr (Queued d r s)
             | First d r s \<Rightarrow> bnd (request_finish d r s) (\<lambda>s. Inr (First d r s)))"

end
