(* ===== verification/Ramdisk.thy ===== *)
theory Ramdisk
  imports Device
begin

text \<open>
  The memory disks of \<^verbatim>\<open>kernel/ramdisk.c\<close>: four disks of 1 MB in the kernel's ramdisk
  area, copied to and from byte memory.  A request's count arrives in an eight-bit parameter.
\<close>

definition SECTOR_SIZE :: u32 where "SECTOR_SIZE = 512"
definition RAMDISK_NR :: nat where "RAMDISK_NR = 4"
definition KERNEL_BUFFER_MEM :: u32 where "KERNEL_BUFFER_MEM = 0x800000"
definition KERNEL_BUFFER_SIZE :: u32 where "KERNEL_BUFFER_SIZE = 0x400000"
definition KERNEL_RAMDISK_MEM :: u32 where "KERNEL_RAMDISK_MEM = KERNEL_BUFFER_MEM + KERNEL_BUFFER_SIZE"
definition KERNEL_RAMDISK_SIZE :: u32 where "KERNEL_RAMDISK_SIZE = 0x400000"

record ramdisk =
  start :: u32
  rd_size :: u32

definition ramdisk_ioctl :: "ramdisk \<Rightarrow> int \<Rightarrow> addr \<Rightarrow> int \<Rightarrow> mem \<Rightarrow> (mem \<times> int) res" where
  "ramdisk_ioctl disk cmd args flags m =
     (if cmd = DEV_CMD_SECTOR_START then Inr (m, 0)
      else if cmd = DEV_CMD_SECTOR_COUNT then Inr (m, uint (rd_size disk div SECTOR_SIZE))
      else Inl Panic)"

definition in_bounds :: "u32 \<Rightarrow> u32 \<Rightarrow> unit res" where
  "in_bounds a len = assrt (a + len < KERNEL_RAMDISK_MEM + KERNEL_MEMORY_SIZE)"

definition ramdisk_read :: "ramdisk \<Rightarrow> addr \<Rightarrow> u8 \<Rightarrow> u32 \<Rightarrow> mem \<Rightarrow> (mem \<times> int) res" where
  "ramdisk_read disk buf count lba m =
     (let a = start disk + lba * SECTOR_SIZE; len = ucast count * SECTOR_SIZE
      in bnd (in_bounds a len) (\<lambda>_. Inr (memcpy m buf (unat a) (unat len), uint count)))"

definition ramdisk_write :: "ramdisk \<Rightarrow> addr \<Rightarrow> u8 \<Rightarrow> u32 \<Rightarrow> mem \<Rightarrow> (mem \<times> int) res" where
  "ramdisk_write disk buf count lba m =
     (let a = start disk + lba * SECTOR_SIZE; len = ucast count * SECTOR_SIZE
      in bnd (in_bounds a len) (\<lambda>_. Inr (memcpy m (unat a) buf (unat len), uint count)))"

text \<open>
  The disks are an array; the device pointer is a disk's index in it, and the copies are in the
  machine's byte memory.
\<close>

definition on_ram :: "(mem \<Rightarrow> (mem \<times> int) res) \<Rightarrow> 'h machine \<Rightarrow> ('h machine \<times> int) res" where
  "on_ram f w = bnd (f (ram w)) (\<lambda>(m, n). Inr (w\<lparr>ram := m\<rparr>, n))"

definition disk_ioctl :: "ramdisk list \<Rightarrow> 'h machine ioctl_fn" where
  "disk_ioctl disks = (\<lambda>p cmd args flags. on_ram (\<lambda>m. bnd (rd disks p) (\<lambda>d. ramdisk_ioctl d cmd args flags m)))"

definition disk_read :: "ramdisk list \<Rightarrow> 'h machine io_fn" where
  "disk_read disks = (\<lambda>p addr count idx flags. on_ram (\<lambda>m. bnd (rd disks p) (\<lambda>d. ramdisk_read d addr (ucast count) idx m)))"

definition disk_write :: "ramdisk list \<Rightarrow> 'h machine io_fn" where
  "disk_write disks = (\<lambda>p addr count idx flags. on_ram (\<lambda>m. bnd (rd disks p) (\<lambda>d. ramdisk_write d addr (ucast count) idx m)))"

definition ramdisk_size :: u32 where
  "ramdisk_size = KERNEL_RAMDISK_SIZE div of_nat RAMDISK_NR"

definition ramdisk_nth :: "nat \<Rightarrow> ramdisk" where
  "ramdisk_nth i = \<lparr>start = KERNEL_RAMDISK_MEM + ramdisk_size * of_nat i, rd_size = ramdisk_size\<rparr>"

fun ramdisk_init_loop :: "ramdisk list \<Rightarrow> nat \<Rightarrow> nat \<Rightarrow> 'h machine device list \<Rightarrow> 'h machine device list res" where
  "ramdisk_init_loop disks i 0 ds = Inr ds"
| "ramdisk_init_loop disks i (Suc n) ds =
     bnd (device_install DEV_BLOCK DEV_RAMDISK i [109, 100, 97 + of_nat i] 0
            (Some (disk_ioctl disks)) (Some (disk_read disks)) (Some (disk_write disks)) ds) (\<lambda>(ds, _).
     ramdisk_init_loop disks (Suc i) n ds)"

definition ramdisk_init :: "'h machine device list \<Rightarrow> (ramdisk list \<times> 'h machine device list) res" where
  "ramdisk_init ds =
     bnd (assrt (ramdisk_size mod SECTOR_SIZE = 0)) (\<lambda>_.
     let disks = map ramdisk_nth [0..<RAMDISK_NR]
     in bnd (ramdisk_init_loop disks 0 RAMDISK_NR ds) (\<lambda>ds. Inr (disks, ds)))"

end
