(* ===== verification/Buffer.thy ===== *)
theory Buffer
  imports Device Mutex
begin

text \<open>
  The block buffer cache: \<^verbatim>\<open>kernel/buffer.c\<close>.  Buffers are found by the address of
  their \<^verbatim>\<open>buffer_t\<close>, whose two list nodes are in the node heap: the one of its hash
  chain at offset 16 and the one of the free list at offset 24.  Free buffers stay hashed, so a
  released block is found again until its buffer is taken for another block.

  A call that may block is cut where it blocks: the value says what the task waits for, and the
  function that continues the call is named with it.
\<close>

subsection \<open>State\<close>

record buffer =
  data :: addr
  bdev :: int
  block :: u32
  bcount :: int
  block_lock :: lock
  dirty :: bool
  valid :: bool

record 'w cache =
  dst :: "'w dstate"
  buffers :: "addr \<Rightarrow> buffer"
  buffer_count :: u32
  buffer_ptr :: u32
  buffer_data :: u32
  free_bufs :: addr
  wait_list :: addr
  hash_table :: "addr list"

definition HASH_COUNT :: u32 where "HASH_COUNT = 31"
definition BUFFER_T_SIZE :: u32 where "BUFFER_T_SIZE = 64"

definition hnode :: "addr \<Rightarrow> addr" where "hnode b = b + 16"
definition rnode :: "addr \<Rightarrow> addr" where "rnode b = b + 24"
definition of_hnode :: "addr \<Rightarrow> addr" where "of_hnode n = n - 16"
definition of_rnode :: "addr \<Rightarrow> addr" where "of_rnode n = n - 24"
definition lock_waiters :: "addr \<Rightarrow> addr" where "lock_waiters b = b + 40"

definition cnodes :: "'w cache \<Rightarrow> heap" where
  "cnodes c = nodes_at (sch (dst c))"

definition set_cnodes :: "heap \<Rightarrow> 'w cache \<Rightarrow> 'w cache" where
  "set_cnodes h c = c\<lparr>dst := (dst c)\<lparr>sch := (sch (dst c))\<lparr>nodes_at := h\<rparr>\<rparr>\<rparr>"

definition set_sched :: "sched \<Rightarrow> 'w cache \<Rightarrow> 'w cache" where
  "set_sched k c = c\<lparr>dst := (dst c)\<lparr>sch := k\<rparr>\<rparr>"

definition upd_buffer :: "addr \<Rightarrow> (buffer \<Rightarrow> buffer) \<Rightarrow> 'w cache \<Rightarrow> 'w cache" where
  "upd_buffer b f c = c\<lparr>buffers := (buffers c)(b := f (buffers c b))\<rparr>"

subsection \<open>The hash table\<close>

definition hash :: "int \<Rightarrow> u32 \<Rightarrow> u32" where
  "hash dev blk = (word_of_int dev XOR blk) mod HASH_COUNT"

definition hash_list :: "'w cache \<Rightarrow> int \<Rightarrow> u32 \<Rightarrow> addr res" where
  "hash_list c dev blk = rd (hash_table c) (unat (hash dev blk))"

partial_function (option) hash_loop :: "'w cache \<Rightarrow> int \<Rightarrow> u32 \<Rightarrow> addr \<Rightarrow> addr \<Rightarrow> addr res option" where
  "hash_loop c dev blk tail node =
     (if node = tail then Some (Inr 0)
      else if node = 0 then Some (Inl Fault)
      else if bdev (buffers c (of_hnode node)) = dev \<and> block (buffers c (of_hnode node)) = blk
           then Some (Inr (of_hnode node))
      else hash_loop c dev blk tail (nnext (cnodes c) node))"

definition get_from_hash_table :: "'w cache \<Rightarrow> int \<Rightarrow> u32 \<Rightarrow> ('w cache \<times> addr) res" where
  "get_from_hash_table c dev blk =
     bnd (hash_list c dev blk) (\<lambda>l.
     bnd (run (hash_loop c dev blk (tail_of l) (nnext (cnodes c) (head_of l)))) (\<lambda>bf.
     if bf = 0 then Inr (c, 0)
     else bnd (list_search (cnodes c) (free_bufs c) (rnode bf)) (\<lambda>found.
          if found then bnd (list_remove (cnodes c) (rnode bf)) (\<lambda>h. Inr (set_cnodes h c, bf))
          else Inr (c, bf))))"

definition hash_locate :: "'w cache \<Rightarrow> addr \<Rightarrow> 'w cache res" where
  "hash_locate c bf =
     bnd (hash_list c (bdev (buffers c bf)) (block (buffers c bf))) (\<lambda>l.
     bnd (list_search (cnodes c) l (hnode bf)) (\<lambda>found.
     bnd (assrt (\<not> found)) (\<lambda>_.
     bnd (list_push (cnodes c) l (hnode bf)) (\<lambda>h. Inr (set_cnodes h c)))))"

definition hash_remove :: "'w cache \<Rightarrow> addr \<Rightarrow> 'w cache res" where
  "hash_remove c bf =
     bnd (hash_list c (bdev (buffers c bf)) (block (buffers c bf))) (\<lambda>l.
     bnd (list_search (cnodes c) l (hnode bf)) (\<lambda>found.
     bnd (assrt found) (\<lambda>_.
     bnd (list_remove (cnodes c) (hnode bf)) (\<lambda>h. Inr (set_cnodes h c)))))"

subsection \<open>Finding a buffer\<close>

definition get_new_buffer :: "'w cache \<Rightarrow> 'w cache \<times> addr" where
  "get_new_buffer c =
     (if buffer_ptr c + BUFFER_T_SIZE < buffer_data c
      then let bf = unat (buffer_ptr c);
               (lk, k) = lock_init (lock_waiters bf) (sch (dst c));
               b = (buffers c bf)\<lparr>data := unat (buffer_data c), bdev := -1, block := 0, bcount := 0,
                     dirty := False, valid := False, block_lock := lk\<rparr>
           in ((set_sched k c)\<lparr>buffers := (buffers c)(bf := b), buffer_count := buffer_count c + 1,
                 buffer_ptr := buffer_ptr c + BUFFER_T_SIZE, buffer_data := buffer_data c - BLOCK_SIZE\<rparr>, bf)
      else (c, 0))"

text \<open>One round of the loop; a task that waits here goes round again when it is unblocked.\<close>

datatype 'w free_end = Got "'w cache" addr | No_buffer "'w cache"

definition get_free_buffer :: "'w cache \<Rightarrow> 'w free_end res" where
  "get_free_buffer c =
     (let (c, bf) = get_new_buffer c
      in if bf \<noteq> 0 then Inr (Got c bf)
         else if \<not> list_empty (cnodes c) (free_bufs c)
         then bnd (list_popback (cnodes c) (free_bufs c)) (\<lambda>(h, n).
              let bf = of_rnode n
              in bnd (hash_remove (set_cnodes h c) bf) (\<lambda>c.
                 Inr (Got (upd_buffer bf (\<lambda>b. b\<lparr>valid := False\<rparr>) c) bf)))
         else bnd (task_block (sch (dst c)) (current (sch (dst c))) (wait_list c) TASK_BLOCKED) (\<lambda>k.
              Inr (No_buffer (set_sched k c))))"

text \<open>The rest of \<^verbatim>\<open>getblk\<close> after its search of the hash table failed.\<close>

definition getblk_free :: "int \<Rightarrow> u32 \<Rightarrow> 'w cache \<Rightarrow> 'w free_end res" where
  "getblk_free dev blk c =
     bnd (get_free_buffer c) (\<lambda>r.
     case r of
       No_buffer c \<Rightarrow> Inr (No_buffer c)
     | Got c bf \<Rightarrow>
         bnd (assrt (bcount (buffers c bf) = 0)) (\<lambda>_.
         bnd (assrt (\<not> dirty (buffers c bf))) (\<lambda>_.
         let c = upd_buffer bf (\<lambda>b. b\<lparr>bcount := 1, bdev := dev, block := blk\<rparr>) c
         in bnd (hash_locate c bf) (\<lambda>c. Inr (Got c bf)))))"

definition getblk :: "int \<Rightarrow> u32 \<Rightarrow> 'w cache \<Rightarrow> 'w free_end res" where
  "getblk dev blk c =
     bnd (get_from_hash_table c dev blk) (\<lambda>(c, bf).
     if bf \<noteq> 0 then Inr (Got (upd_buffer bf (\<lambda>b. b\<lparr>bcount := bcount b + 1\<rparr>) c) bf)
     else getblk_free dev blk c)"

subsection \<open>Reading and writing\<close>

definition buffer_request :: "req_type \<Rightarrow> addr \<Rightarrow> 'w cache \<Rightarrow> 'w queue_end res" where
  "buffer_request type bf c =
     (let b = buffers c bf
      in device_request (bdev b) (data b) (ucast BLOCK_SECS) (block b * BLOCK_SECS) 0 type (dst c))"

definition clean :: "addr \<Rightarrow> 'w cache \<Rightarrow> 'w cache" where
  "clean bf c = upd_buffer bf (\<lambda>b. b\<lparr>dirty := False, valid := True\<rparr>) c"

datatype 'w bread_end =
    Block "'w cache" addr
  | Waits_buffer "'w cache"
  | Waits_lock "'w cache" addr
  | Waits_disk "'w cache" addr int addr
  | Yields "'w cache" addr

definition bread_release :: "addr \<Rightarrow> 'w cache \<Rightarrow> 'w bread_end res" where
  "bread_release bf c =
     bnd (lock_release (block_lock (buffers c bf)) (sch (dst c))) (\<lambda>u.
     case u of
       Released l k \<Rightarrow> Inr (Block (upd_buffer bf (\<lambda>b. b\<lparr>block_lock := l\<rparr>) (set_sched k c)) bf)
     | Release_yielded l k old \<Rightarrow> Inr (Yields (upd_buffer bf (\<lambda>b. b\<lparr>block_lock := l\<rparr>) (set_sched k c)) bf))"

definition bread_locked :: "addr \<Rightarrow> 'w cache \<Rightarrow> 'w bread_end res" where
  "bread_locked bf c =
     (if \<not> valid (buffers c bf)
      then bnd (buffer_request REQ_READ bf c) (\<lambda>q.
           case q of Queued d r s \<Rightarrow> Inr (Waits_disk (c\<lparr>dst := s\<rparr>) bf d r)
                   | First d r s \<Rightarrow> bread_release bf (clean bf (c\<lparr>dst := s\<rparr>)))
      else bread_release bf c)"

definition bread_found :: "addr \<Rightarrow> 'w cache \<Rightarrow> 'w bread_end res" where
  "bread_found bf c =
     bnd (assrt (bf \<noteq> 0)) (\<lambda>_.
     if valid (buffers c bf) then Inr (Block c bf)
     else bnd (lock_acquire (block_lock (buffers c bf)) (sch (dst c))) (\<lambda>a.
          case a of Lock_waits k \<Rightarrow> Inr (Waits_lock (set_sched k c) bf)
                  | Acquired l k \<Rightarrow> bread_locked bf (upd_buffer bf (\<lambda>b. b\<lparr>block_lock := l\<rparr>) (set_sched k c))))"

definition bread :: "int \<Rightarrow> u32 \<Rightarrow> 'w cache \<Rightarrow> 'w bread_end res" where
  "bread dev blk c =
     bnd (getblk dev blk c) (\<lambda>r. case r of No_buffer c \<Rightarrow> Inr (Waits_buffer c) | Got c bf \<Rightarrow> bread_found bf c)"

datatype 'w write_end = Written "'w cache" | Write_waits "'w cache" int addr

definition bwrite :: "addr \<Rightarrow> 'w cache \<Rightarrow> 'w write_end res" where
  "bwrite bf c =
     bnd (assrt (bf \<noteq> 0)) (\<lambda>_.
     if \<not> dirty (buffers c bf) then Inr (Written c)
     else bnd (buffer_request REQ_WRITE bf c) (\<lambda>q.
          case q of Queued d r s \<Rightarrow> Inr (Write_waits (c\<lparr>dst := s\<rparr>) d r)
                  | First d r s \<Rightarrow> Inr (Written (clean bf (c\<lparr>dst := s\<rparr>)))))"

text \<open>The rest of \<^verbatim>\<open>brelse\<close> once the block is clean.\<close>

definition brelse_clean :: "addr \<Rightarrow> 'w cache \<Rightarrow> 'w cache res" where
  "brelse_clean bf c =
     (let c = upd_buffer bf (\<lambda>b. b\<lparr>bcount := bcount b - 1\<rparr>) c
      in bnd (assrt (bcount (buffers c bf) \<ge> 0)) (\<lambda>_.
         if bcount (buffers c bf) \<noteq> 0 then Inr c
         else bnd (assrt (nnext (cnodes c) (rnode bf) = 0)) (\<lambda>_.
              bnd (assrt (nprev (cnodes c) (rnode bf) = 0)) (\<lambda>_.
              bnd (list_push (cnodes c) (free_bufs c) (rnode bf)) (\<lambda>h.
              let c = set_cnodes h c
              in if \<not> list_empty (cnodes c) (wait_list c)
                 then bnd (list_popback (cnodes c) (wait_list c)) (\<lambda>(h, n).
                      bnd (task_unblock (sch (dst (set_cnodes h c))) (task_of n)) (\<lambda>k.
                      Inr (set_sched k c)))
                 else Inr c)))))"

definition brelse :: "addr \<Rightarrow> 'w cache \<Rightarrow> 'w write_end res" where
  "brelse bf c =
     (if bf = 0 then Inr (Written c)
      else if dirty (buffers c bf)
      then bnd (bwrite bf c) (\<lambda>r.
           case r of Written c \<Rightarrow> bnd (brelse_clean bf c) (\<lambda>c. Inr (Written c))
                   | Write_waits c d q \<Rightarrow> Inr (Write_waits c d q))
      else bnd (brelse_clean bf c) (\<lambda>c. Inr (Written c)))"

fun init_lists :: "heap \<Rightarrow> addr list \<Rightarrow> heap" where
  "init_lists h [] = h"
| "init_lists h (l # ls) = init_lists (list_init h l) ls"

definition buffer_init :: "'w cache \<Rightarrow> 'w cache" where
  "buffer_init c =
     set_cnodes (init_lists (list_init (list_init (cnodes c) (free_bufs c)) (wait_list c)) (hash_table c)) c"

end
