(* ===== verification/Families.thy ===== *)
theory Families
  imports Lists
begin

text \<open>
  Many lists in one heap of nodes.  \<open>dlls h L\<close> says that every list of \<open>L\<close>, a map from
  list addresses to nodes, is in the heap and that no two share a node.  The list operations act on
  one list of the family and leave the others as they are.
\<close>

definition dlls :: "heap \<Rightarrow> (addr \<rightharpoonup> addr list) \<Rightarrow> bool" where
  "dlls h L = ((\<forall>l xs. L l = Some xs \<longrightarrow> dll h l xs)
     \<and> (\<forall>l m xs ys. L l = Some xs \<longrightarrow> L m = Some ys \<longrightarrow> l \<noteq> m \<longrightarrow> nodes l xs \<inter> nodes m ys = {}))"

text \<open>The node \<open>n\<close> is in no list of the family.\<close>

definition outside :: "(addr \<rightharpoonup> addr list) \<Rightarrow> addr \<Rightarrow> bool" where
  "outside L n = (\<forall>l xs. L l = Some xs \<longrightarrow> n \<notin> nodes l xs)"

lemma dllsD: "dlls h L \<Longrightarrow> L l = Some xs \<Longrightarrow> dll h l xs"
  by (simp add: dlls_def)

lemma outsideD: "outside L n \<Longrightarrow> L l = Some xs \<Longrightarrow> n \<notin> nodes l xs"
  by (simp add: outside_def)

lemma dlls_disjoint: "dlls h L \<Longrightarrow> L l = Some xs \<Longrightarrow> L m = Some ys \<Longrightarrow> l \<noteq> m \<Longrightarrow> nodes l xs \<inter> nodes m ys = {}"
  by (simp add: dlls_def)

text \<open>A node that is in one list of the family is in no other.\<close>

lemma dlls_apart:
  assumes "dlls h L" "L l = Some xs" "n \<in> set xs" "L m = Some ys" "n \<in> set ys"
  shows "l = m"
  using dlls_disjoint[OF assms(1,2,4)] assms(3,5) by (auto simp: nodes_def)

lemma dlls_upd:
  assumes "dlls h L" "dll h' l zs"
    and "\<And>m ys. L m = Some ys \<Longrightarrow> m \<noteq> l \<Longrightarrow> dll h' m ys \<and> nodes l zs \<inter> nodes m ys = {}"
  shows "dlls h' (L(l \<mapsto> zs))"
  unfolding dlls_def
proof (intro conjI allI impI)
  show "dll h' m ys" if "(L(l \<mapsto> zs)) m = Some ys" for m ys
    using that assms(2,3) by (auto split: if_splits)
  show "nodes k xs \<inter> nodes m ys = {}"
    if "(L(l \<mapsto> zs)) k = Some xs" "(L(l \<mapsto> zs)) m = Some ys" "k \<noteq> m" for k m xs ys
  proof (cases "k = l \<or> m = l")
    case True
    then show ?thesis using that assms(3)[of m ys] assms(3)[of k xs] by (auto simp: fun_upd_apply)
  next
    case False
    then show ?thesis using that dlls_disjoint[OF assms(1), of k xs m ys] by simp
  qed
qed

lemma dlls_push:
  assumes "dlls h L" "L l = Some xs" "n \<noteq> 0" "outside L n"
  shows "\<exists>h'. list_push h l n = Inr h' \<and> dlls h' (L(l \<mapsto> n # xs))"
proof -
  note d = dllsD[OF assms(1,2)] and o = outsideD[OF assms(4)]
  obtain h' where h': "list_push h l n = Inr h'" "dll h' l (n # xs)"
    using dll_push[OF d assms(3) o[OF assms(2)]] by blast
  have "dll h' m ys" if "L m = Some ys" "m \<noteq> l" for m ys
    using dll_push_frame[OF d dllsD[OF assms(1) that(1)] assms(3) o[OF assms(2)] o[OF that(1)] _ h'(1)]
      dlls_disjoint[OF assms(1,2) that(1)] that(2) by blast
  moreover have "nodes l (n # xs) \<inter> nodes m ys = {}" if "L m = Some ys" "m \<noteq> l" for m ys
    using dlls_disjoint[OF assms(1,2) that(1)] o[OF that(1)] that(2) by (auto simp: nodes_def)
  ultimately have "dlls h' (L(l \<mapsto> n # xs))" using dlls_upd[OF assms(1) h'(2)] by blast
  then show ?thesis using h'(1) by blast
qed

lemma dlls_remove:
  assumes "dlls h L" "L l = Some (xs @ n # ys)"
  shows "\<exists>h'. list_remove h n = Inr h' \<and> dlls h' (L(l \<mapsto> xs @ ys)) \<and> detached h' n
    \<and> outside (L(l \<mapsto> xs @ ys)) n"
proof -
  note d = dllsD[OF assms]
  obtain h' where h': "list_remove h n = Inr h'" "dll h' l (xs @ ys)" "detached h' n"
    using dll_remove[OF d] by blast
  have sub: "nodes l (xs @ ys) \<subseteq> nodes l (xs @ n # ys)" by (auto simp: nodes_def)
  have n: "n \<in> nodes l (xs @ n # ys)" "n \<notin> nodes l (xs @ ys)" using d by (auto simp: nodes_def dll_def)
  have "dll h' m zs" if "L m = Some zs" "m \<noteq> l" for m zs
    using dll_remove_frame[OF d dllsD[OF assms(1) that(1)] _ h'(1)] dlls_disjoint[OF assms that(1)] that(2) by blast
  moreover have "nodes l (xs @ ys) \<inter> nodes m zs = {}" "n \<notin> nodes m zs" if "L m = Some zs" "m \<noteq> l" for m zs
    using dlls_disjoint[OF assms that(1)] that(2) sub n(1) by blast+
  ultimately have "dlls h' (L(l \<mapsto> xs @ ys))" "outside (L(l \<mapsto> xs @ ys)) n"
    using dlls_upd[OF assms(1) h'(2)] n(2) by (blast, auto simp: outside_def)
  then show ?thesis using h' by blast
qed

lemma dlls_popback:
  assumes "dlls h L" "L l = Some (xs @ [n])"
  shows "\<exists>h'. list_popback h l = Inr (h', n) \<and> dlls h' (L(l \<mapsto> xs)) \<and> detached h' n \<and> outside (L(l \<mapsto> xs)) n"
proof -
  note d = dllsD[OF assms]
  obtain h' where h': "list_remove h n = Inr h'" "dlls h' (L(l \<mapsto> xs))" "detached h' n" "outside (L(l \<mapsto> xs)) n"
    using dlls_remove[OF assms(1), of l xs n "[]"] assms(2) by auto
  have "nprev h (l + 8) = n" using dll_ends(2)[OF d] by simp
  moreover have "\<not> list_empty h l" using dll_empty[OF d] by simp
  ultimately have "list_popback h l = Inr (h', n)" using h'(1) by (simp add: list_popback_def tail_of_def Let_def)
  then show ?thesis using h' by blast
qed

text \<open>A change of nodes outside the family.\<close>

lemma dlls_frame:
  assumes "dlls h L" "\<And>n. \<not> outside L n \<Longrightarrow> nnext h' n = nnext h n \<and> nprev h' n = nprev h n"
  shows "dlls h' L"
proof -
  have "dll h' l xs" if "L l = Some xs" for l xs
  proof -
    have "nnext h' n = nnext h n \<and> nprev h' n = nprev h n" if "n \<in> nodes l xs" for n
      using assms(2)[of n] that \<open>L l = Some xs\<close> by (auto simp: outside_def)
    then show ?thesis using dll_frame[of l xs h' h] dllsD[OF assms(1) that] by blast
  qed
  then show ?thesis using assms(1) by (simp add: dlls_def)
qed

text \<open>Nodes that are in no list at all.\<close>

lemma detached_outside: "dlls h L \<Longrightarrow> detached h n \<Longrightarrow> outside L n"
  unfolding outside_def using detached_not_in dllsD by blast

lemma dlls_push_detached:
  assumes "dlls h L" "L l = Some xs" "n \<noteq> 0" "outside L n" "list_push h l n = Inr h'" "detached h u" "u \<noteq> n"
  shows "detached h' u"
  by (rule list_push_detached[OF dllsD[OF assms(1,2)] assms(3) outsideD[OF assms(4,2)] assms(5-7)])

lemma dlls_remove_detached:
  assumes "dlls h L" "L l = Some (xs @ n # ys)" "list_remove h n = Inr h'" "detached h u"
  shows "detached h' u"
  by (rule list_remove_detached[OF dllsD[OF assms(1,2)] assms(3,4)])

lemma dlls_pop:
  assumes "dlls h L" "L l = Some (n # xs)"
  shows "\<exists>h'. list_pop h l = Inr (h', n) \<and> dlls h' (L(l \<mapsto> xs))"
proof -
  note d = dllsD[OF assms]
  obtain h' where h': "list_remove h n = Inr h'" "dlls h' (L(l \<mapsto> xs))"
    using dlls_remove[OF assms(1), of l "[]" n xs] assms(2) by auto
  have "nnext h l = n" using dll_ends(1)[OF d] by simp
  moreover have "\<not> list_empty h l" using dll_empty[OF d] by simp
  ultimately have "list_pop h l = Inr (h', n)" using h'(1) by (simp add: list_pop_def head_of_def Let_def)
  then show ?thesis using h'(2) by blast
qed

text \<open>Initialising lists one after the other gives a family of empty lists, whose heads must not overlap.\<close>

definition inits :: "addr list \<Rightarrow> heap \<Rightarrow> heap" where
  "inits ls h = fold (\<lambda>l h. list_init h l) ls h"

definition heads_apart :: "addr set \<Rightarrow> bool" where
  "heads_apart S = (\<forall>l\<in>S. l \<noteq> 0 \<and> (\<forall>m\<in>S. m \<noteq> l \<longrightarrow> m \<noteq> l + 8))"

lemma inits_simps [simp]: "inits [] h = h" "inits (l # ls) h = inits ls (list_init h l)"
  by (simp_all add: inits_def)

lemma heads_disjoint: "heads_apart S \<Longrightarrow> l \<in> S \<Longrightarrow> m \<in> S \<Longrightarrow> m \<noteq> l \<Longrightarrow> nodes m [] \<inter> nodes l [] = {}"
  by (fastforce simp: heads_apart_def nodes_def)

lemma list_init_frame:
  "nodes m [] \<inter> nodes l [] = {} \<Longrightarrow> dll h l [] \<Longrightarrow> dll (list_init h m) l []"
  by (subst dll_frame[where h = h]) (auto simp: list_init_def list_heap_defs nodes_def Let_def)

lemma inits_keep:
  "dll h l [] \<Longrightarrow> \<forall>m\<in>set ls. m \<noteq> 0 \<and> (m \<noteq> l \<longrightarrow> nodes m [] \<inter> nodes l [] = {}) \<Longrightarrow> dll (inits ls h) l []"
proof (induction ls arbitrary: h)
  case (Cons m ls)
  have "dll (list_init h m) l []"
    using Cons.prems list_init_frame[of m l h] dll_init[of m h] by (cases "m = l") auto
  then show ?case using Cons.IH Cons.prems(2) by simp
qed simp

lemma inits_dll:
  assumes "l \<in> set ls" "\<forall>m\<in>set ls. m \<noteq> 0 \<and> (m \<noteq> l \<longrightarrow> nodes m [] \<inter> nodes l [] = {})"
  shows "dll (inits ls h) l []"
  using assms
proof (induction ls arbitrary: h)
  case (Cons m ls)
  show ?case
  proof (cases "l = m")
    case True
    then show ?thesis using inits_keep[of "list_init h m" l ls] dll_init[of m h] Cons.prems(2) by simp
  next
    case False
    then show ?thesis using Cons by simp
  qed
qed simp

lemma inits_detached:
  "detached h a \<Longrightarrow> \<forall>m\<in>set ls. a \<noteq> m \<and> a \<noteq> m + 8 \<Longrightarrow> detached (inits ls h) a"
proof (induction ls arbitrary: h)
  case (Cons m ls)
  have "detached (list_init h m) a"
    using Cons.prems by (simp add: list_init_def list_heap_defs detached_def Let_def)
  then show ?case using Cons.IH Cons.prems(2) by simp
qed simp

lemma inits_dlls:
  assumes "heads_apart (set ls)" "\<And>l xs. L l = Some xs \<Longrightarrow> xs = [] \<and> l \<in> set ls"
  shows "dlls (inits ls h) L"
proof -
  have "dll (inits ls h) l []" if "l \<in> set ls" for l
  proof (rule inits_dll[OF that])
    show "\<forall>m\<in>set ls. m \<noteq> 0 \<and> (m \<noteq> l \<longrightarrow> nodes m [] \<inter> nodes l [] = {})"
      using heads_disjoint[OF assms(1) that] assms(1) by (auto simp: heads_apart_def)
  qed
  then show ?thesis using heads_disjoint[OF assms(1)] assms(2) unfolding dlls_def by blast
qed

end
