(* ===== verification/Buffer_Laws.thy ===== *)
theory Buffer_Laws
  imports Buffer Task_Laws Families
begin

text \<open>
  The buffer cache keeps one buffer for a block: \<^verbatim>\<open>getblk\<close> returns a buffer of the
  block asked for, no block has two, and no buffer in use is taken for another block.  The invariant
  holds at the start and over every run of \<^verbatim>\<open>getblk\<close> and \<^verbatim>\<open>brelse\<close>.
\<close>

subsection \<open>The invariant\<close>

text \<open>The lists of the cache: \<open>ch l\<close> are the buffers of the hash chain at \<open>l\<close>, \<open>fr\<close>
  the free ones, \<open>ws\<close> the tasks that wait for one.\<close>

definition lists_of :: "'w cache \<Rightarrow> (addr \<Rightarrow> addr list) \<Rightarrow> addr list \<Rightarrow> addr list \<Rightarrow> addr \<rightharpoonup> addr list" where
  "lists_of c ch fr ws l =
     (if l = free_bufs c then Some (map rnode fr) else if l = wait_list c then Some (map node_of ws)
      else if l \<in> set (hash_table c) then Some (map hnode (ch l)) else None)"

definition cached :: "'w cache \<Rightarrow> (addr \<Rightarrow> addr list) \<Rightarrow> addr set" where
  "cached c ch = (\<Union>l\<in>set (hash_table c). set (ch l))"

definition key :: "'w cache \<Rightarrow> addr \<Rightarrow> int \<times> u32" where
  "key c b = (bdev (buffers c b), block (buffers c b))"

definition heads_ok :: "'w cache \<Rightarrow> bool" where
  "heads_ok c = (length (hash_table c) = 31 \<and> free_bufs c \<noteq> wait_list c
     \<and> free_bufs c \<notin> set (hash_table c) \<and> wait_list c \<notin> set (hash_table c))"

text \<open>Buffers are carved off from below, at multiples of their size, and their data from above.\<close>

definition area_ok :: "'w cache \<Rightarrow> bool" where
  "area_ok c = (0x800000 \<le> unat (buffer_ptr c) \<and> unat (buffer_ptr c) \<le> 0xc00000 \<and> 64 dvd unat (buffer_ptr c)
     \<and> unat (buffer_data c) \<le> 0xc00000)"

definition is_buffer :: "'w cache \<Rightarrow> addr \<Rightarrow> bool" where
  "is_buffer c b = (0x800000 \<le> b \<and> 64 dvd b \<and> b + 64 \<le> unat (buffer_ptr c))"

text \<open>The lists are in the heap and no node behind the used area is linked; a cached buffer is in the chain of
  its block's hash value, no two are of the same block, and one is in the free list exactly when nobody uses
  it.\<close>

definition cache_ok :: "'w cache \<Rightarrow> (addr \<Rightarrow> addr list) \<Rightarrow> addr list \<Rightarrow> addr list \<Rightarrow> bool" where
  "cache_ok c ch fr ws =
     (heads_ok c \<and> area_ok c \<and> dlls (cnodes c) (lists_of c ch fr ws)
      \<and> (\<forall>a\<ge>unat (buffer_ptr c). detached (cnodes c) a)
      \<and> (\<forall>l\<in>set (hash_table c). \<forall>b\<in>set (ch l). hash_list c (bdev (buffers c b)) (block (buffers c b)) = Inr l)
      \<and> inj_on (key c) (cached c ch) \<and> set fr \<subseteq> cached c ch
      \<and> (\<forall>b\<in>cached c ch. is_buffer c b \<and> 0 \<le> bcount (buffers c b)
           \<and> (if b \<in> set fr then bcount (buffers c b) = 0 \<and> \<not> dirty (buffers c b)
              else bcount (buffers c b) \<noteq> 0 \<and> detached (cnodes c) (rnode b))))"

lemma cache_okD:
  assumes "cache_ok c ch fr ws"
  shows "heads_ok c" "area_ok c" "dlls (cnodes c) (lists_of c ch fr ws)"
    "unat (buffer_ptr c) \<le> a \<Longrightarrow> detached (cnodes c) a"
    "l \<in> set (hash_table c) \<Longrightarrow> b \<in> set (ch l) \<Longrightarrow> hash_list c (bdev (buffers c b)) (block (buffers c b)) = Inr l"
    "inj_on (key c) (cached c ch)" "set fr \<subseteq> cached c ch"
    "b \<in> cached c ch \<Longrightarrow> is_buffer c b \<and> 0 \<le> bcount (buffers c b)"
    "b \<in> set fr \<Longrightarrow> bcount (buffers c b) = 0 \<and> \<not> dirty (buffers c b)"
    "b \<in> cached c ch \<Longrightarrow> b \<notin> set fr \<Longrightarrow> bcount (buffers c b) \<noteq> 0 \<and> detached (cnodes c) (rnode b)"
  using assms unfolding cache_ok_def by (blast, blast, blast, blast, blast, blast, blast, blast, force, metis)

lemma cache_okI:
  assumes "heads_ok c" "area_ok c" "dlls (cnodes c) (lists_of c ch fr ws)"
    "\<And>a. unat (buffer_ptr c) \<le> a \<Longrightarrow> detached (cnodes c) a"
    "\<And>l b. l \<in> set (hash_table c) \<Longrightarrow> b \<in> set (ch l) \<Longrightarrow> hash_list c (bdev (buffers c b)) (block (buffers c b)) = Inr l"
    "inj_on (key c) (cached c ch)" "set fr \<subseteq> cached c ch"
    "\<And>b. b \<in> cached c ch \<Longrightarrow> is_buffer c b \<and> 0 \<le> bcount (buffers c b)
       \<and> (if b \<in> set fr then bcount (buffers c b) = 0 \<and> \<not> dirty (buffers c b)
          else bcount (buffers c b) \<noteq> 0 \<and> detached (cnodes c) (rnode b))"
  shows "cache_ok c ch fr ws"
  using assms unfolding cache_ok_def by blast

lemma node_names [simp]: "of_hnode (hnode b) = b" "of_rnode (rnode b) = b" "hnode b = hnode b' \<longleftrightarrow> b = b'"
  "rnode b = rnode b' \<longleftrightarrow> b = b'" "0 < hnode b" "0 < rnode b" "0 < node_of t"
  by (simp_all add: hnode_def rnode_def of_hnode_def of_rnode_def node_of_def)

lemma nodes_differ:
  "is_buffer c b \<Longrightarrow> is_buffer c b' \<Longrightarrow> rnode b \<noteq> hnode b'"
  "is_buffer c b \<Longrightarrow> rnode b < unat (buffer_ptr c)" "is_buffer c b \<Longrightarrow> hnode b < unat (buffer_ptr c)"
  "is_buffer c b \<Longrightarrow> 0x800000 \<le> rnode b" "is_buffer c b \<Longrightarrow> b \<noteq> 0"
  by (auto simp: is_buffer_def rnode_def hnode_def dvd_def) presburger

lemma cache_fields [simp]:
  "cnodes (set_cnodes h c) = h" "buffers (set_cnodes h c) = buffers c" "hash_table (set_cnodes h c) = hash_table c"
  "free_bufs (set_cnodes h c) = free_bufs c" "buffer_ptr (set_cnodes h c) = buffer_ptr c"
  "wait_list (set_cnodes h c) = wait_list c" "wait_list (upd_buffer b f c) = wait_list c"
  "buffer_data (set_cnodes h c) = buffer_data c" "cnodes (upd_buffer b f c) = cnodes c"
  "hash_table (upd_buffer b f c) = hash_table c" "free_bufs (upd_buffer b f c) = free_bufs c"
  "buffer_ptr (upd_buffer b f c) = buffer_ptr c" "buffer_data (upd_buffer b f c) = buffer_data c"
  "hash_list (set_cnodes h c) d k = hash_list c d k" "hash_list (upd_buffer b f c) d k = hash_list c d k"
  by (simp_all add: set_cnodes_def cnodes_def upd_buffer_def hash_list_def)

lemma cache_preds [simp]:
  "heads_ok (set_cnodes h c) = heads_ok c" "heads_ok (upd_buffer b f c) = heads_ok c"
  "area_ok (set_cnodes h c) = area_ok c" "area_ok (upd_buffer b f c) = area_ok c"
  "is_buffer (set_cnodes h c) x = is_buffer c x" "is_buffer (upd_buffer b f c) x = is_buffer c x"
  "cached (set_cnodes h c) ch = cached c ch" "cached (upd_buffer b f c) ch = cached c ch"
  "lists_of (set_cnodes h c) ch fr ws = lists_of c ch fr ws" "lists_of (upd_buffer b f c) ch fr ws = lists_of c ch fr ws"
  by (auto simp: heads_ok_def area_ok_def is_buffer_def cached_def lists_of_def fun_eq_iff)

lemma upd_buffer_at [simp]: "buffers (upd_buffer b f c) b' = (if b' = b then f (buffers c b) else buffers c b')"
  by (simp add: upd_buffer_def)

lemma hash_list_ok:
  assumes "heads_ok c"
  shows "\<exists>l. hash_list c dev blk = Inr l \<and> l \<in> set (hash_table c)"
proof -
  have "hash dev blk < 31" unfolding hash_def HASH_COUNT_def by (rule word_mod_less_divisor) simp
  then have "unat (hash dev blk) < 31" by (simp add: word_less_nat_alt)
  then show ?thesis using assms by (simp add: hash_list_def heads_ok_def)
qed

subsection \<open>The family of lists\<close>

lemma lists_of_at:
  "lists_of c ch fr ws (free_bufs c) = Some (map rnode fr)"
  "heads_ok c \<Longrightarrow> lists_of c ch fr ws (wait_list c) = Some (map node_of ws)"
  "heads_ok c \<Longrightarrow> l \<in> set (hash_table c) \<Longrightarrow> lists_of c ch fr ws l = Some (map hnode (ch l))"
  by (auto simp: lists_of_def heads_ok_def)

lemma lists_of_upd:
  "(lists_of c ch fr ws)(free_bufs c \<mapsto> map rnode fr') = lists_of c ch fr' ws"
  "heads_ok c \<Longrightarrow> (lists_of c ch fr ws)(wait_list c \<mapsto> map node_of ws') = lists_of c ch fr ws'"
  "heads_ok c \<Longrightarrow> l \<in> set (hash_table c) \<Longrightarrow> (lists_of c ch fr ws)(l \<mapsto> map hnode bs) = lists_of c (ch(l := bs)) fr ws"
  by (auto simp: lists_of_def heads_ok_def fun_eq_iff)

subsection \<open>Searching a chain\<close>

lemma hash_loop_chain:
  assumes "chain (cnodes c) a (map hnode bs) t" "t \<notin> hnode ` set bs"
  shows "hash_loop c dev blk t (nnext (cnodes c) a)
    = Some (Inr (case List.find (\<lambda>b. key c b = (dev, blk)) bs of None \<Rightarrow> 0 | Some b \<Rightarrow> b))"
  using assms
proof (induction bs arbitrary: a)
  case Nil
  then show ?case by (simp add: hash_loop.simps)
next
  case (Cons b bs)
  then show ?case by (subst hash_loop.simps) (auto simp: key_def)
qed

lemma search_chain:
  assumes "cache_ok c ch fr ws"
  obtains l where "hash_list c dev blk = Inr l" "l \<in> set (hash_table c)"
    "run (hash_loop c dev blk (tail_of l) (nnext (cnodes c) (head_of l)))
      = Inr (case List.find (\<lambda>b. key c b = (dev, blk)) (ch l) of None \<Rightarrow> 0 | Some b \<Rightarrow> b)"
    "List.find (\<lambda>b. key c b = (dev, blk)) (ch l) = None \<longleftrightarrow> (dev, blk) \<notin> key c ` cached c ch"
proof -
  note heads = cache_okD(1)[OF assms]
  obtain l where l: "hash_list c dev blk = Inr l" "l \<in> set (hash_table c)" using hash_list_ok[OF heads] by blast
  have d: "dll (cnodes c) l (map hnode (ch l))" by (rule dllsD[OF cache_okD(3)[OF assms] lists_of_at(3)[OF heads l(2)]])
  have "run (hash_loop c dev blk (tail_of l) (nnext (cnodes c) (head_of l)))
      = Inr (case List.find (\<lambda>b. key c b = (dev, blk)) (ch l) of None \<Rightarrow> 0 | Some b \<Rightarrow> b)"
    using hash_loop_chain[of c l "ch l" "l + 8"] d by (auto simp: dll_def tail_of_def head_of_def)
  moreover have "List.find (\<lambda>b. key c b = (dev, blk)) (ch l) = None \<longleftrightarrow> (dev, blk) \<notin> key c ` cached c ch"
  proof -
    have "b \<in> set (ch l)" if b: "b \<in> cached c ch" "key c b = (dev, blk)" for b
    proof -
      obtain m where "m \<in> set (hash_table c)" "b \<in> set (ch m)" using b(1) by (auto simp: cached_def)
      then show ?thesis using cache_okD(5)[OF assms] b(2) l(1) by (auto simp: key_def)
    qed
    moreover have "set (ch l) \<subseteq> cached c ch" using l(2) by (auto simp: cached_def)
    ultimately show ?thesis unfolding find_None_iff image_iff by (metis subsetD)
  qed
  ultimately show ?thesis by (rule that[OF l])
qed

subsection \<open>Taking a buffer off the lists\<close>

lemma take_free:
  assumes ok: "cache_ok c ch (xs @ b # ys) ws" and h: "list_remove (cnodes c) (rnode b) = Inr h"
  shows "dlls h (lists_of c ch (xs @ ys) ws)" "detached h (rnode b)" "detached (cnodes c) u \<Longrightarrow> detached h u"
    "b \<notin> set (xs @ ys)" "b \<in> cached c ch"
proof -
  note d = cache_okD(3)[OF ok]
  have l: "lists_of c ch (xs @ b # ys) ws (free_bufs c) = Some (map rnode xs @ rnode b # map rnode ys)"
    by (simp add: lists_of_at)
  show "dlls h (lists_of c ch (xs @ ys) ws)" "detached h (rnode b)"
    using dlls_remove[OF d l] h lists_of_upd(1)[of c ch "xs @ b # ys" ws "xs @ ys"] by auto
  show "detached (cnodes c) u \<Longrightarrow> detached h u" by (rule dlls_remove_detached[OF d l h])
  show "b \<notin> set (xs @ ys)" using dllsD[OF d l] by (auto simp: dll_def)
  show "b \<in> cached c ch" using cache_okD(7)[OF ok] by auto
qed

lemma free_removable:
  assumes "cache_ok c ch (xs @ b # ys) ws"
  shows "\<exists>h. list_remove (cnodes c) (rnode b) = Inr h"
  using dlls_remove[OF cache_okD(3)[OF assms], of "free_bufs c" "map rnode xs" "rnode b" "map rnode ys"]
  by (auto simp: lists_of_at)

text \<open>Taking the buffer \<open>b\<close> of the free list into use.\<close>

lemma use_free:
  assumes ok: "cache_ok c ch (xs @ b # ys) ws" and h: "list_remove (cnodes c) (rnode b) = Inr h"
  shows "cache_ok (upd_buffer b (\<lambda>b. b\<lparr>bcount := bcount b + 1\<rparr>) (set_cnodes h c)) ch (xs @ ys) ws"
proof -
  note t = take_free[OF ok h]
  let ?c = "upd_buffer b (\<lambda>b. b\<lparr>bcount := bcount b + 1\<rparr>) (set_cnodes h c)"
  have k: "key ?c = key c" by (rule ext) (simp add: key_def)
  show ?thesis
  proof (rule cache_okI)
    show "hash_list ?c (bdev (buffers ?c x)) (block (buffers ?c x)) = Inr l" if "l \<in> set (hash_table ?c)" "x \<in> set (ch l)" for l x
      using cache_okD(5)[OF ok, of l x] that by (cases "x = b") auto
    show "is_buffer ?c x \<and> 0 \<le> bcount (buffers ?c x)
      \<and> (if x \<in> set (xs @ ys) then bcount (buffers ?c x) = 0 \<and> \<not> dirty (buffers ?c x)
         else bcount (buffers ?c x) \<noteq> 0 \<and> detached (cnodes ?c) (rnode x))" if "x \<in> cached ?c ch" for x
    proof (cases "x = b")
      case True
      then show ?thesis using cache_okD(8,9)[OF ok, of b] t(2,4,5) by auto
    next
      case False
      have x: "x \<in> cached c ch" using that by simp
      then show ?thesis
        using False cache_okD(8)[OF ok x] cache_okD(9)[OF ok, of x] cache_okD(10)[OF ok x] t(3)[of "rnode x"] by auto
    qed
  qed (use cache_okD(1,2,6,7)[OF ok] t(1) t(3)[OF cache_okD(4)[OF ok]] k in simp_all)
qed

lemma cache_hit:
  assumes ok: "cache_ok c ch fr ws" and hit: "(dev, blk) \<in> key c ` cached c ch"
  shows "\<exists>c' b fr'. getblk dev blk c = Inr (Got c' b) \<and> cache_ok c' ch fr' ws \<and> b \<in> cached c ch
    \<and> key c b = (dev, blk) \<and> b \<notin> set fr' \<and> hash_table c' = hash_table c \<and> wait_list c' = wait_list c
    \<and> buffers c' = (buffers c)(b := (buffers c b)\<lparr>bcount := bcount (buffers c b) + 1\<rparr>)"
proof -
  obtain l where l: "hash_list c dev blk = Inr l" "l \<in> set (hash_table c)"
    "run (hash_loop c dev blk (tail_of l) (nnext (cnodes c) (head_of l)))
      = Inr (case List.find (\<lambda>b. key c b = (dev, blk)) (ch l) of None \<Rightarrow> 0 | Some b \<Rightarrow> b)"
    "List.find (\<lambda>b. key c b = (dev, blk)) (ch l) \<noteq> None"
    using search_chain[OF ok, of dev blk] hit by metis
  then obtain b where b: "List.find (\<lambda>b. key c b = (dev, blk)) (ch l) = Some b" by blast
  then have "b \<in> set (ch l)" and kb: "key c b = (dev, blk)" by (auto simp: find_Some_iff)
  then have bc: "b \<in> cached c ch" using l(2) by (auto simp: cached_def)
  then have b0: "b \<noteq> 0" using cache_okD(8)[OF ok bc] nodes_differ(5) by blast
  have srch: "list_search (cnodes c) (free_bufs c) (rnode b) = Inr (b \<in> set fr)"
    using dll_search[OF dllsD[OF cache_okD(3)[OF ok] lists_of_at(1)], of "rnode b"] by auto
  let ?up = "upd_buffer b (\<lambda>b. b\<lparr>bcount := bcount b + 1\<rparr>)"
  have "\<exists>h fr'. get_from_hash_table c dev blk = Inr (set_cnodes h c, b) \<and> cache_ok (?up (set_cnodes h c)) ch fr' ws \<and> b \<notin> set fr'"
  proof (cases "b \<in> set fr")
    case True
    then obtain xs ys where fr: "fr = xs @ b # ys" by (auto dest: split_list)
    obtain h where h: "list_remove (cnodes c) (rnode b) = Inr h" using free_removable ok fr by blast
    have "get_from_hash_table c dev blk = Inr (set_cnodes h c, b)"
      using l(1,3) b b0 srch True h by (simp add: get_from_hash_table_def)
    then show ?thesis using use_free[OF ok[unfolded fr] h] take_free(4)[OF ok[unfolded fr] h] by blast
  next
    case False
    have same: "set_cnodes (cnodes c) c = c" by (simp add: set_cnodes_def cnodes_def)
    have "get_from_hash_table c dev blk = Inr (c, b)"
      using l(1,3) b b0 srch False by (simp add: get_from_hash_table_def)
    moreover have "key (?up c) = key c" by (rule ext) (simp add: key_def)
    then have "cache_ok (?up c) ch fr ws"
      using ok False cache_okD(8)[OF ok bc] by (auto simp: cache_ok_def)
    ultimately show ?thesis using False by (intro exI[of _ "cnodes c"] exI[of _ fr]) (simp add: same)
  qed
  then obtain h fr' where h: "get_from_hash_table c dev blk = Inr (set_cnodes h c, b)"
    "cache_ok (?up (set_cnodes h c)) ch fr' ws" "b \<notin> set fr'" by blast
  then have "getblk dev blk c = Inr (Got (?up (set_cnodes h c)) b)" using b0 by (simp add: getblk_def)
  moreover have "buffers (?up (set_cnodes h c)) = (buffers c)(b := (buffers c b)\<lparr>bcount := bcount (buffers c b) + 1\<rparr>)"
    by (rule ext) simp
  ultimately show ?thesis using bc kb h(2,3)
    by (intro exI[of _ "?up (set_cnodes h c)"] exI[of _ b] exI[of _ fr'] conjI) (assumption | simp only: cache_fields)+
qed

subsection \<open>A buffer for another block\<close>

text \<open>The buffer \<open>b\<close> is in no list of the cache.\<close>

definition unlisted :: "'w cache \<Rightarrow> (addr \<Rightarrow> addr list) \<Rightarrow> addr \<Rightarrow> bool" where
  "unlisted c ch b =
     (is_buffer c b \<and> b \<notin> cached c ch \<and> detached (cnodes c) (rnode b)
      \<and> (\<forall>fr ws. dlls (cnodes c) (lists_of c ch fr ws) \<longrightarrow> outside (lists_of c ch fr ws) (hnode b)))"

text \<open>A new block's buffer is put at the front of its chain.\<close>

lemma install_block:
  assumes ok: "cache_ok c ch fr ws" and b: "unlisted c ch b" and new: "(dev, blk) \<notin> key c ` cached c ch"
  defines "u \<equiv> upd_buffer b (\<lambda>b. b\<lparr>bcount := 1, bdev := dev, block := blk\<rparr>) c"
  shows "\<exists>h ch'. hash_locate u b = Inr (set_cnodes h u) \<and> cache_ok (set_cnodes h u) ch' fr ws
    \<and> cached c ch' = insert b (cached c ch)"
proof -
  note heads = cache_okD(1)[OF ok]
  obtain l where l: "hash_list c dev blk = Inr l" "l \<in> set (hash_table c)" using hash_list_ok[OF heads] by blast
  note d = cache_okD(3)[OF ok]
  have Ll: "lists_of c ch fr ws l = Some (map hnode (ch l))" using lists_of_at(3)[OF heads l(2)] .
  have o: "outside (lists_of c ch fr ws) (hnode b)" "is_buffer c b" "b \<notin> cached c ch" "detached (cnodes c) (rnode b)"
    using b d by (auto simp: unlisted_def)
  let ?ch = "ch(l := b # ch l)"
  obtain h where h: "list_push (cnodes c) l (hnode b) = Inr h" "dlls h (lists_of c ?ch fr ws)"
    using dlls_push[OF d Ll _ o(1)] lists_of_upd(3)[OF heads l(2), of ch fr ws "b # ch l"] by auto
  have det: "detached h n" if "detached (cnodes c) n" "n \<noteq> hnode b" for n
    by (rule dlls_push_detached[OF d Ll _ o(1) h(1) that]) simp
  have "list_search (cnodes c) l (hnode b) = Inr False"
    using dll_search[OF dllsD[OF d Ll], of "hnode b"] outsideD[OF o(1) Ll] by (auto simp: nodes_def)
  then have loc: "hash_locate u b = Inr (set_cnodes h u)" using l(1) h(1) by (simp add: hash_locate_def u_def)
  have bs: "cached c ?ch = insert b (cached c ch)" using l(2) by (auto simp: cached_def split: if_splits)
  define v where "v = set_cnodes h u"
  have vf: "cnodes v = h" "hash_table v = hash_table c" "buffer_ptr v = buffer_ptr c" "heads_ok v = heads_ok c"
    "area_ok v = area_ok c" "is_buffer v = is_buffer c" "cached v ?ch = insert b (cached c ch)"
    "lists_of v = lists_of c" "hash_list v = hash_list c"
    by (auto simp: v_def u_def bs fun_eq_iff)
  have vb: "buffers v b = (buffers c b)\<lparr>bcount := 1, bdev := dev, block := blk\<rparr>" "x \<noteq> b \<Longrightarrow> buffers v x = buffers c x" for x
    by (simp_all add: v_def u_def)
  have k: "key v x = (if x = b then (dev, blk) else key c x)" for x by (simp add: key_def vb)
  have "inj_on (key v) (insert b (cached c ch))"
    using cache_okD(6)[OF ok] new o(3) unfolding inj_on_def k by (auto simp: image_iff)
  moreover have "detached h a" if "unat (buffer_ptr c) \<le> a" for a
    using det[OF cache_okD(4)[OF ok that]] nodes_differ(3)[OF o(2)] that by auto
  moreover have "hash_list c (bdev (buffers v x)) (block (buffers v x)) = Inr m"
    if "m \<in> set (hash_table c)" "x \<in> set (?ch m)" for m x
  proof (cases "x = b")
    case True
    then have "m = l" using that o(3) by (auto simp: cached_def split: if_splits)
    then show ?thesis using True l(1) by (simp add: vb)
  next
    case False
    then have "x \<in> set (ch m)" using that(2) by (auto split: if_splits)
    then show ?thesis using False cache_okD(5)[OF ok that(1)] by (simp add: vb)
  qed
  moreover have fr: "set fr \<subseteq> cached c ch" "b \<notin> set fr" using cache_okD(7)[OF ok] o(3) by auto
  moreover have "is_buffer c x \<and> 0 \<le> bcount (buffers v x)
      \<and> (if x \<in> set fr then bcount (buffers v x) = 0 \<and> \<not> dirty (buffers v x)
         else bcount (buffers v x) \<noteq> 0 \<and> detached h (rnode x))" if "x \<in> insert b (cached c ch)" for x
  proof (cases "x = b")
    case True
    then show ?thesis using o(2) fr(2) det[OF o(4)] nodes_differ(1)[OF o(2,2)] by (simp add: vb)
  next
    case False
    then have x: "x \<in> cached c ch" using that by simp
    then have "is_buffer c x" using cache_okD(8)[OF ok] by blast
    then show ?thesis using False cache_okD(8)[OF ok x] cache_okD(9)[OF ok, of x] cache_okD(10)[OF ok x]
        det[of "rnode x"] nodes_differ(1)[OF _ o(2)] by (simp add: vb)
  qed
  ultimately have "cache_ok v ?ch fr ws"
    using cache_okD(1,2)[OF ok] h(2) by (intro cache_okI; unfold vf) blast+
  then show ?thesis using loc bs v_def by blast
qed

text \<open>The buffer that was released first leaves the free list and its chain.\<close>

lemma evict_block:
  assumes ok: "cache_ok c ch (xs @ [b]) ws"
  shows "\<exists>h c' ch'. list_popback (cnodes c) (free_bufs c) = Inr (h, rnode b) \<and> hash_remove (set_cnodes h c) b = Inr c'
    \<and> cache_ok c' ch' xs ws \<and> unlisted c' ch' b \<and> buffers c' = buffers c \<and> hash_table c' = hash_table c
    \<and> wait_list c' = wait_list c \<and> cached c' ch' = cached c ch - {b} \<and> bcount (buffers c b) = 0 \<and> \<not> dirty (buffers c b)"
proof -
  note d = cache_okD(3)[OF ok] and heads = cache_okD(1)[OF ok]
  have Lf: "lists_of c ch (xs @ [b]) ws (free_bufs c) = Some (map rnode xs @ [rnode b])" by (simp add: lists_of_at)
  obtain h where h: "list_remove (cnodes c) (rnode b) = Inr h" using free_removable ok by blast
  have pop: "list_popback (cnodes c) (free_bufs c) = Inr (h, rnode b)"
    using dll_ends(2)[OF dllsD[OF d Lf]] dll_empty[OF dllsD[OF d Lf]] h by (simp add: list_popback_def Let_def tail_of_def)
  note t = take_free[OF ok h, simplified]
  obtain l where l: "l \<in> set (hash_table c)" "b \<in> set (ch l)" using t(5) by (auto simp: cached_def)
  then obtain us vs where ch: "ch l = us @ b # vs" by (auto dest: split_list)
  have hl: "hash_list c (bdev (buffers c b)) (block (buffers c b)) = Inr l" using cache_okD(5)[OF ok l] .
  have Ll: "lists_of c ch xs ws l = Some (map hnode us @ hnode b # map hnode vs)" using lists_of_at(3)[OF heads l(1)] ch by simp
  let ?ch = "ch(l := us @ vs)"
  obtain h' where h': "list_remove h (hnode b) = Inr h'" "dlls h' (lists_of c ?ch xs ws)" "detached h' (hnode b)"
    using dlls_remove[OF t(1) Ll] lists_of_upd(3)[OF heads l(1), of ch xs ws "us @ vs"] by auto
  have det: "detached h' n" if "detached h n" for n by (rule dlls_remove_detached[OF t(1) Ll h'(1) that])
  have "list_search h l (hnode b) = Inr True" using dll_search[OF dllsD[OF t(1) Ll], of "hnode b"] by simp
  let ?c = "set_cnodes h' (set_cnodes h c)"
  have rem: "hash_remove (set_cnodes h c) b = Inr ?c"
    using hl h'(1) \<open>list_search h l (hnode b) = Inr True\<close> by (simp add: hash_remove_def)
  have dist: "b \<notin> set (us @ vs)" using dllsD[OF t(1) Ll] by (auto simp: dll_def)
  have bs: "cached c ?ch = cached c ch - {b}"
  proof -
    have "b \<notin> set (ch m)" if "m \<in> set (hash_table c)" "m \<noteq> l" for m using cache_okD(5)[OF ok that(1), of b] hl that(2) by auto
    then have "x \<in> set (?ch m) \<longleftrightarrow> x \<in> set (ch m) \<and> x \<noteq> b" if "m \<in> set (hash_table c)" for x m
      using that dist ch by (cases "m = l") auto
    then show ?thesis unfolding cached_def by blast
  qed
  have "hash_list c (bdev (buffers c x)) (block (buffers c x)) = Inr m" if "m \<in> set (hash_table c)" "x \<in> set (?ch m)" for m x
    using cache_okD(5)[OF ok that(1), of x] that(2) ch by (auto split: if_splits)
  moreover have "inj_on (key c) (cached c ?ch)" unfolding bs using cache_okD(6)[OF ok] by (auto intro: inj_on_subset)
  moreover have "set xs \<subseteq> cached c ?ch" unfolding bs using cache_okD(7)[OF ok] t(4) by auto
  moreover have "is_buffer c x \<and> 0 \<le> bcount (buffers c x)
      \<and> (if x \<in> set xs then bcount (buffers c x) = 0 \<and> \<not> dirty (buffers c x)
         else bcount (buffers c x) \<noteq> 0 \<and> detached h' (rnode x))" if "x \<in> cached c ?ch" for x
    using cache_okD(8)[OF ok, of x] cache_okD(9)[OF ok, of x] cache_okD(10)[OF ok, of x] that det[OF t(3)] unfolding bs by auto
  moreover have "key ?c = key c" by (rule ext) (simp add: key_def)
  ultimately have "cache_ok ?c ?ch xs ws"
    using cache_okD(1,2)[OF ok] h'(2) det[OF t(3)[OF cache_okD(4)[OF ok]]] unfolding cache_ok_def by simp
  moreover have "unlisted ?c ?ch b"
    using cache_okD(8)[OF ok t(5)] bs det[OF t(2)] detached_outside[OF _ h'(3)] by (simp add: unlisted_def)
  ultimately show ?thesis using pop rem bs cache_okD(9)[OF ok, of b] by (intro exI[of _ h] exI[of _ ?c] exI[of _ ?ch]) simp
qed

text \<open>A buffer from the area that was never used.\<close>

lemma new_block:
  assumes ok: "cache_ok c ch fr ws" and room: "buffer_ptr c + BUFFER_T_SIZE < buffer_data c"
  shows "\<exists>c' b. get_new_buffer c = (c', b) \<and> b \<noteq> 0 \<and> cache_ok c' ch fr ws \<and> unlisted c' ch b \<and> hash_table c' = hash_table c
    \<and> wait_list c' = wait_list c \<and> (\<forall>x. x \<noteq> b \<longrightarrow> buffers c' x = buffers c x) \<and> bcount (buffers c' b) = 0
    \<and> \<not> dirty (buffers c' b) \<and> b \<notin> cached c ch"
proof -
  let ?b = "unat (buffer_ptr c)" and ?k = "snd (lock_init (lock_waiters (unat (buffer_ptr c))) (sch (dst c)))"
  have area: "0x800000 \<le> ?b" "?b \<le> 0xc00000" "64 dvd ?b" "unat (buffer_data c) \<le> 0xc00000"
    using cache_okD(2)[OF ok] by (auto simp: area_ok_def)
  have p: "unat (buffer_ptr c + BUFFER_T_SIZE) = ?b + 64"
    using area(2) by (subst unat_add_lem[THEN iffD1]) (auto simp: BUFFER_T_SIZE_def)
  have lt: "?b + 64 < unat (buffer_data c)" using room p by (simp add: word_less_nat_alt)
  define c' where "c' = fst (get_new_buffer c)"
  have c': "get_new_buffer c = (c', ?b)" "cnodes c' = nodes_at ?k" "hash_table c' = hash_table c" "free_bufs c' = free_bufs c"
    "wait_list c' = wait_list c" "buffer_ptr c' = buffer_ptr c + BUFFER_T_SIZE" "buffer_data c' = buffer_data c - BLOCK_SIZE"
    "\<And>x. x \<noteq> ?b \<Longrightarrow> buffers c' x = buffers c x" "bcount (buffers c' ?b) = 0" "\<not> dirty (buffers c' ?b)"
    using room unfolding c'_def by (simp_all add: get_new_buffer_def Let_def split_beta cnodes_def set_sched_def)
  have n: "nnext (cnodes c') x = nnext (cnodes c) x \<and> nprev (cnodes c') x = nprev (cnodes c) x"
    if "x \<noteq> ?b + 40" "x \<noteq> ?b + 48" for x
    using that unfolding c'(2) by (simp add: lock_init_def mutex_init_def list_init_def list_heap_defs lock_waiters_def Let_def
        cnodes_def split_beta)
  have out: "outside (lists_of c ch fr ws) a" if "?b \<le> a" for a
    by (rule detached_outside[OF cache_okD(3)[OF ok] cache_okD(4)[OF ok that]])
  have det: "detached (cnodes c') a" if "detached (cnodes c) a" "a \<noteq> ?b + 40" "a \<noteq> ?b + 48" for a
    using that n[of a] by (simp add: detached_def)
  have lists: "lists_of c' = lists_of c" "cached c' = cached c" "hash_list c' = hash_list c" "heads_ok c' = heads_ok c"
    using c'(3-5) by (auto simp: lists_of_def cached_def hash_list_def heads_ok_def fun_eq_iff)
  have d: "dlls (cnodes c') (lists_of c ch fr ws)"
  proof (rule dlls_frame[OF cache_okD(3)[OF ok]])
    fix x assume "\<not> outside (lists_of c ch fr ws) x"
    then have "x < ?b" using out not_le by blast
    then show "nnext (cnodes c') x = nnext (cnodes c) x \<and> nprev (cnodes c') x = nprev (cnodes c) x" using n by simp
  qed
  have notc: "?b \<notin> cached c ch" using cache_okD(8)[OF ok, of ?b] by (auto simp: is_buffer_def)
  have same: "buffers c' x = buffers c x" if "x \<in> cached c ch" for x using that notc c'(8) by metis
  have ok': "cache_ok c' ch fr ws"
  proof (rule cache_okI; (unfold lists)?)
    show "heads_ok c" by (rule cache_okD(1)[OF ok])
    have "unat (buffer_data c') \<le> 0xc00000"
      using lt area unfolding c'(7) BLOCK_SIZE_def by (subst unat_sub) (auto simp: word_le_nat_alt)
    then show "area_ok c'" using lt area p unfolding area_ok_def c'(6) by simp
    show "dlls (cnodes c') (lists_of c ch fr ws)" by (rule d)
    show "detached (cnodes c') a" if "unat (buffer_ptr c') \<le> a" for a
      using det[OF cache_okD(4)[OF ok]] that p unfolding c'(6) by simp
    show "hash_list c (bdev (buffers c' x)) (block (buffers c' x)) = Inr l" if "l \<in> set (hash_table c')" "x \<in> set (ch l)" for l x
    proof -
      have "x \<in> cached c ch" using that unfolding c'(3) cached_def by auto
      then show ?thesis using cache_okD(5)[OF ok _ that(2)] that(1) same unfolding c'(3) by metis
    qed
    have "key c' x = key c x" if "x \<in> cached c ch" for x using same[OF that] by (simp add: key_def)
    then show "inj_on (key c') (cached c ch)" using cache_okD(6)[OF ok] by (simp add: inj_on_def)
    show "set fr \<subseteq> cached c ch" by (rule cache_okD(7)[OF ok])
    show "is_buffer c' x \<and> 0 \<le> bcount (buffers c' x)
      \<and> (if x \<in> set fr then bcount (buffers c' x) = 0 \<and> \<not> dirty (buffers c' x)
         else bcount (buffers c' x) \<noteq> 0 \<and> detached (cnodes c') (rnode x))" if x: "x \<in> cached c ch" for x
    proof -
      have b: "is_buffer c x" using cache_okD(8)[OF ok x] by blast
      then have "is_buffer c' x" using p unfolding is_buffer_def c'(6) by simp
      moreover have "detached (cnodes c') (rnode x)" if "detached (cnodes c) (rnode x)"
        using det[OF that] nodes_differ(2)[OF b] by simp
      ultimately show ?thesis
        using cache_okD(8)[OF ok x] cache_okD(9)[OF ok, of x] cache_okD(10)[OF ok x] same[OF x] by auto
    qed
  qed
  have "detached (cnodes c') (rnode ?b)" "detached (cnodes c') (hnode ?b)"
    using det[OF cache_okD(4)[OF ok]] by (simp_all add: rnode_def hnode_def)
  moreover have "is_buffer c' ?b" using area p unfolding is_buffer_def c'(6) by simp
  ultimately have "unlisted c' ch ?b" using notc detached_outside unfolding unlisted_def lists by blast
  then show ?thesis using c' notc area(1) ok' by (intro exI[of _ c'] exI[of _ ?b]) simp
qed

subsection \<open>The search and its result\<close>

lemma cache_miss:
  assumes ok: "cache_ok c ch fr ws" and miss: "(dev, blk) \<notin> key c ` cached c ch"
    and room: "buffer_ptr c + BUFFER_T_SIZE < buffer_data c \<or> fr \<noteq> []"
  shows "\<exists>c' b ch' fr'. getblk dev blk c = Inr (Got c' b) \<and> cache_ok c' ch' fr' ws \<and> key c' b = (dev, blk) \<and> b \<notin> set fr'
    \<and> b \<in> cached c' ch' \<and> bcount (buffers c' b) = 1 \<and> \<not> dirty (buffers c' b)
    \<and> (b \<in> cached c ch \<longrightarrow> bcount (buffers c b) = 0) \<and> (\<forall>x. x \<noteq> b \<longrightarrow> buffers c' x = buffers c x) \<and> cached c ch - {b} \<subseteq> cached c' ch'"
proof -
  have g: "get_from_hash_table c dev blk = Inr (c, 0)"
  proof -
    obtain l where "hash_list c dev blk = Inr l"
      "run (hash_loop c dev blk (tail_of l) (nnext (cnodes c) (head_of l)))
        = Inr (case List.find (\<lambda>b. key c b = (dev, blk)) (ch l) of None \<Rightarrow> 0 | Some b \<Rightarrow> b)"
      "List.find (\<lambda>b. key c b = (dev, blk)) (ch l) = None"
      using search_chain[OF ok, of dev blk] miss by metis
    then show ?thesis by (simp add: get_from_hash_table_def)
  qed
  have "\<exists>c1 b ch1 fr1. get_free_buffer c = Inr (Got c1 b) \<and> cache_ok c1 ch1 fr1 ws \<and> unlisted c1 ch1 b
      \<and> (dev, blk) \<notin> key c1 ` cached c1 ch1 \<and> (b \<in> cached c ch \<longrightarrow> bcount (buffers c b) = 0)
      \<and> bcount (buffers c1 b) = 0 \<and> \<not> dirty (buffers c1 b)
      \<and> (\<forall>x. x \<noteq> b \<longrightarrow> buffers c1 x = buffers c x) \<and> cached c ch - {b} \<subseteq> cached c1 ch1"
  proof (cases "buffer_ptr c + BUFFER_T_SIZE < buffer_data c")
    case True
    obtain c1 b where n: "get_new_buffer c = (c1, b)" "b \<noteq> 0" "cache_ok c1 ch fr ws" "unlisted c1 ch b" "hash_table c1 = hash_table c"
      "\<forall>x. x \<noteq> b \<longrightarrow> buffers c1 x = buffers c x" "bcount (buffers c1 b) = 0" "\<not> dirty (buffers c1 b)" "b \<notin> cached c ch"
      using new_block[OF ok True] by blast
    have k: "key c1 x = key c x" if "x \<in> cached c ch" for x using n(6,9) that by (metis key_def)
    have cs: "cached c1 ch = cached c ch" using n(5) by (simp add: cached_def)
    have "(dev, blk) \<notin> key c1 ` cached c1 ch" using miss k unfolding cs by (auto simp: image_iff)
    moreover have "get_free_buffer c = Inr (Got c1 b)" using n(1,2) by (simp add: get_free_buffer_def)
    ultimately show ?thesis using n cs by (intro exI[of _ c1] exI[of _ b] exI[of _ ch] exI[of _ fr]) auto
  next
    case False
    then obtain xs b where fr: "fr = xs @ [b]" using room by (cases fr rule: rev_cases) auto
    obtain h c1 ch1 where e: "list_popback (cnodes c) (free_bufs c) = Inr (h, rnode b)" "hash_remove (set_cnodes h c) b = Inr c1"
      "cache_ok c1 ch1 xs ws" "unlisted c1 ch1 b" "buffers c1 = buffers c"
      "cached c1 ch1 = cached c ch - {b}" "bcount (buffers c b) = 0" "\<not> dirty (buffers c b)"
      using evict_block[OF ok[unfolded fr]] by blast
    have ne: "\<not> list_empty (cnodes c) (free_bufs c)" using e(1) by (auto simp: list_popback_def)
    let ?c1 = "upd_buffer b (\<lambda>b. b\<lparr>valid := False\<rparr>) c1"
    have k: "key ?c1 = key c" by (rule ext) (simp add: key_def e(5))
    have "get_free_buffer c = Inr (Got ?c1 b)"
      using False ne e(1,2) by (simp add: get_free_buffer_def get_new_buffer_def)
    moreover have "key ?c1 = key c1" unfolding k by (rule ext) (simp add: key_def e(5))
    then have "cache_ok ?c1 ch1 xs ws" using e(3) by (auto simp: cache_ok_def)
    moreover have "unlisted ?c1 ch1 b" using e(4) by (simp add: unlisted_def)
    moreover have "(dev, blk) \<notin> key ?c1 ` cached ?c1 ch1" using miss unfolding k by (auto simp: e(6))
    ultimately show ?thesis using e(5-8)
      by (intro exI[of _ ?c1] exI[of _ b] exI[of _ ch1] exI[of _ xs]) auto
  qed
  then obtain c1 b ch1 fr1 where f: "get_free_buffer c = Inr (Got c1 b)" "cache_ok c1 ch1 fr1 ws" "unlisted c1 ch1 b"
    "(dev, blk) \<notin> key c1 ` cached c1 ch1"
    "b \<in> cached c ch \<longrightarrow> bcount (buffers c b) = 0" "bcount (buffers c1 b) = 0" "\<not> dirty (buffers c1 b)"
    "\<forall>x. x \<noteq> b \<longrightarrow> buffers c1 x = buffers c x" "cached c ch - {b} \<subseteq> cached c1 ch1" by blast
  let ?u = "upd_buffer b (\<lambda>b. b\<lparr>bcount := 1, bdev := dev, block := blk\<rparr>) c1"
  obtain h ch2 where i: "hash_locate ?u b = Inr (set_cnodes h ?u)" "cache_ok (set_cnodes h ?u) ch2 fr1 ws"
    "cached c1 ch2 = insert b (cached c1 ch1)"
    using install_block[OF f(2-4)] by blast
  let ?c = "set_cnodes h ?u"
  have "getblk dev blk c = Inr (Got ?c b)" using g f(1,6,7) i(1) by (simp add: getblk_def getblk_free_def)
  moreover have "b \<notin> set fr1" using cache_okD(7)[OF f(2)] f(3) by (auto simp: unlisted_def)
  ultimately show ?thesis using i(2,3) f(5,7-9)
    by (intro exI[of _ ?c] exI[of _ b] exI[of _ ch2] exI[of _ fr1]) (auto simp: key_def)
qed

subsection \<open>Releasing a buffer and waiting for one\<close>

definition given_back :: "addr \<Rightarrow> 'w cache \<Rightarrow> 'w cache" where
  "given_back b c = upd_buffer b (\<lambda>b. b\<lparr>bcount := bcount b - 1\<rparr>) c"

lemma release_last:
  assumes ok: "cache_ok c ch fr ws" and b: "b \<in> cached c ch" "bcount (buffers c b) = 1" "\<not> dirty (buffers c b)"
  shows "\<exists>h. list_push (cnodes c) (free_bufs c) (rnode b) = Inr h \<and> cache_ok (set_cnodes h (given_back b c)) ch (b # fr) ws"
proof -
  note d = cache_okD(3)[OF ok]
  have nf: "b \<notin> set fr" using cache_okD(9)[OF ok, of b] b(2) by auto
  have isb: "is_buffer c b" using cache_okD(8)[OF ok b(1)] by blast
  have n: "detached (cnodes c) (rnode b)" using cache_okD(10)[OF ok b(1) nf] by blast
  note o = detached_outside[OF d n]
  obtain h where h: "list_push (cnodes c) (free_bufs c) (rnode b) = Inr h" "dlls h (lists_of c ch (b # fr) ws)"
    using dlls_push[OF d lists_of_at(1) _ o] lists_of_upd(1)[of c ch fr ws "b # fr"] by auto
  have det: "detached h x" if "detached (cnodes c) x" "x \<noteq> rnode b" for x
    by (rule dlls_push_detached[OF d lists_of_at(1) _ o h(1) that]) simp
  let ?c = "set_cnodes h (given_back b c)"
  have g: "buffers ?c x = (if x = b then (buffers c b)\<lparr>bcount := 0\<rparr> else buffers c x)" for x
    using b(2) by (simp add: given_back_def)
  have k: "key ?c = key c" by (rule ext) (simp add: key_def given_back_def)
  have "cache_ok ?c ch (b # fr) ws"
  proof (rule cache_okI)
    show "hash_list ?c (bdev (buffers ?c x)) (block (buffers ?c x)) = Inr l" if "l \<in> set (hash_table ?c)" "x \<in> set (ch l)" for l x
      using cache_okD(5)[OF ok, of l x] that unfolding g by (auto simp: given_back_def)
    show "detached (cnodes ?c) a" if "unat (buffer_ptr ?c) \<le> a" for a
      using det[OF cache_okD(4)[OF ok]] that nodes_differ(2)[OF isb] by (auto simp: given_back_def)
    show "is_buffer ?c x \<and> 0 \<le> bcount (buffers ?c x)
      \<and> (if x \<in> set (b # fr) then bcount (buffers ?c x) = 0 \<and> \<not> dirty (buffers ?c x)
         else bcount (buffers ?c x) \<noteq> 0 \<and> detached (cnodes ?c) (rnode x))" if "x \<in> cached ?c ch" for x
    proof -
      have x: "x \<in> cached c ch" using that by (simp add: given_back_def)
      show ?thesis
        using cache_okD(8)[OF ok x] cache_okD(9)[OF ok, of x] cache_okD(10)[OF ok x] det[of "rnode x"] b(3) isb
        unfolding g by (auto simp: given_back_def)
    qed
  qed (use cache_okD(1,2,6,7)[OF ok] h(2) k b(1) in \<open>simp_all add: given_back_def\<close>)
  then show ?thesis using h(1) by blast
qed

lemma release_shared:
  assumes ok: "cache_ok c ch fr ws" and b: "b \<in> cached c ch" "1 < bcount (buffers c b)"
  shows "cache_ok (given_back b c) ch fr ws \<and> brelse_clean b c = Inr (given_back b c)"
proof -
  have "key (given_back b c) = key c" by (rule ext) (simp add: key_def given_back_def)
  then have "cache_ok (given_back b c) ch fr ws" using ok b(2) unfolding given_back_def by (auto simp: cache_ok_def)
  then show ?thesis using b(2) by (simp add: brelse_clean_def Let_def given_back_def)
qed

text \<open>The end of a release when the buffer is free: the longest waiting task is taken off its list and then
  unblocked, which takes it off once more.\<close>

lemma release_end:
  assumes ok: "cache_ok c ch fr ws" and b: "b \<in> cached c ch" "bcount (buffers c b) = 1" "\<not> dirty (buffers c b)"
  shows "if ws = [] then \<exists>c'. brelse_clean b c = Inr c' \<and> cache_ok c' ch (b # fr) ws else brelse_clean b c = Inl Assertion"
proof -
  obtain h where h: "list_push (cnodes c) (free_bufs c) (rnode b) = Inr h"
    "cache_ok (set_cnodes h (given_back b c)) ch (b # fr) ws" using release_last[OF assms] by blast
  let ?c = "set_cnodes h (given_back b c)"
  have w: "lists_of ?c ch (b # fr) ws (wait_list c) = Some (map node_of ws)"
    using lists_of_at(2)[OF cache_okD(1)[OF h(2)]] by (simp add: given_back_def)
  then have dw: "dll h (wait_list c) (map node_of ws)" using dllsD[OF cache_okD(3)[OF h(2)]] by simp
  have "detached (cnodes c) (rnode b)" using cache_okD(10)[OF ok b(1)] cache_okD(9)[OF ok, of b] b(2) by auto
  then have e: "brelse_clean b c = (if list_empty h (wait_list c) then Inr ?c
      else bnd (list_popback h (wait_list c)) (\<lambda>(h', n).
           bnd (task_unblock (sch (dst (set_cnodes h' ?c))) (task_of n)) (\<lambda>k. Inr (set_sched k ?c))))"
    using h(1) b(2) by (simp add: brelse_clean_def Let_def given_back_def detached_def)
  show ?thesis
  proof (cases ws rule: rev_cases)
    case Nil
    then have "list_empty h (wait_list c)" using dll_empty[OF dw] by simp
    then show ?thesis using Nil h(2) e by auto
  next
    case (snoc us t)
    then have ne: "\<not> list_empty h (wait_list c)" using dll_empty[OF dw] by simp
    obtain h' where h': "list_popback h (wait_list c) = Inr (h', node_of t)" "detached h' (node_of t)"
      using dll_popback[of h "wait_list c" "map node_of us" "node_of t"] dw snoc by auto
    have "task_unblock k t = Inl Assertion" if "nodes_at k = h'" for k
      using h'(2) that remove_detached[of "node_of t" h'] by (cases "intr k") (simp_all add: task_unblock_def)
    moreover have "nodes_at (sch (dst (set_cnodes h' ?c))) = h'" by (simp add: set_cnodes_def)
    ultimately have "brelse_clean b c = Inl Assertion" using e ne h'(1) by simp
    then show ?thesis using snoc by simp
  qed
qed

text \<open>With no room and no free buffer a task that misses waits.\<close>

lemma cache_full:
  assumes ok: "cache_ok c ch fr ws" and miss: "(dev, blk) \<notin> key c ` cached c ch"
    and full: "\<not> buffer_ptr c + BUFFER_T_SIZE < buffer_data c" "fr = []"
  shows "getblk dev blk c = bnd (task_block (sch (dst c)) (current (sch (dst c))) (wait_list c) TASK_BLOCKED)
    (\<lambda>k. Inr (No_buffer (set_sched k c)))"
proof -
  obtain l where "hash_list c dev blk = Inr l"
    "run (hash_loop c dev blk (tail_of l) (nnext (cnodes c) (head_of l)))
      = Inr (case List.find (\<lambda>b. key c b = (dev, blk)) (ch l) of None \<Rightarrow> 0 | Some b \<Rightarrow> b)"
    "List.find (\<lambda>b. key c b = (dev, blk)) (ch l) = None"
    using search_chain[OF ok, of dev blk] miss by metis
  then have "get_from_hash_table c dev blk = Inr (c, 0)" by (simp add: get_from_hash_table_def)
  moreover have "list_empty (cnodes c) (free_bufs c)"
    using dll_empty[OF dllsD[OF cache_okD(3)[OF ok] lists_of_at(1)]] full(2) by simp
  ultimately show ?thesis
    using full(1) by (simp add: getblk_def getblk_free_def get_free_buffer_def get_new_buffer_def bnd_assoc)
qed

text \<open>Switching tasks changes nothing here.\<close>

lemma switch_keeps:
  assumes "cache_ok c ch fr ws" "nodes_at k = cnodes c"
  shows "cache_ok (set_sched k c) ch fr ws"
proof -
  let ?c = "set_sched k c"
  have c: "cnodes ?c = cnodes c" "buffers ?c = buffers c" "hash_table ?c = hash_table c" "free_bufs ?c = free_bufs c"
    "wait_list ?c = wait_list c" "buffer_ptr ?c = buffer_ptr c" "buffer_data ?c = buffer_data c"
    using assms(2) by (simp_all add: set_sched_def cnodes_def)
  then have "heads_ok ?c = heads_ok c" "area_ok ?c = area_ok c" "is_buffer ?c = is_buffer c" "cached ?c = cached c"
    "lists_of ?c = lists_of c" "hash_list ?c = hash_list c" "key ?c = key c"
    by (auto simp: heads_ok_def area_ok_def is_buffer_def cached_def lists_of_def hash_list_def key_def fun_eq_iff)
  with c show ?thesis using assms(1) by (simp add: cache_ok_def)
qed

text \<open>A task that finds no buffer waits; the lists only get its node.\<close>

lemma add_waiter:
  assumes ok: "cache_ok c ch fr ws" and o: "outside (lists_of c ch fr ws) (node_of t)" and t: "node_of t < 0x800000"
  shows "\<exists>h. list_push (cnodes c) (wait_list c) (node_of t) = Inr h \<and> cache_ok (set_cnodes h c) ch fr (t # ws)"
proof -
  note d = cache_okD(3)[OF ok] and heads = cache_okD(1)[OF ok]
  obtain h where h: "list_push (cnodes c) (wait_list c) (node_of t) = Inr h" "dlls h (lists_of c ch fr (t # ws))"
    using dlls_push[OF d lists_of_at(2)[OF heads] _ o] lists_of_upd(2)[OF heads, of ch fr ws "t # ws"] by auto
  have det: "detached h x" if "detached (cnodes c) x" "x \<noteq> node_of t" for x
    by (rule dlls_push_detached[OF d lists_of_at(2)[OF heads] _ o h(1) that]) simp
  have ptr: "0x800000 \<le> unat (buffer_ptr c)" using cache_okD(2)[OF ok] by (simp add: area_ok_def)
  have "cache_ok (set_cnodes h c) ch fr (t # ws)"
  proof (rule cache_okI)
    show "detached (cnodes (set_cnodes h c)) a" if "unat (buffer_ptr (set_cnodes h c)) \<le> a" for a
      using det[OF cache_okD(4)[OF ok]] t ptr that by auto
    show "is_buffer (set_cnodes h c) x \<and> 0 \<le> bcount (buffers (set_cnodes h c) x)
      \<and> (if x \<in> set fr then bcount (buffers (set_cnodes h c) x) = 0 \<and> \<not> dirty (buffers (set_cnodes h c) x)
         else bcount (buffers (set_cnodes h c) x) \<noteq> 0 \<and> detached (cnodes (set_cnodes h c)) (rnode x))"
      if x: "x \<in> cached (set_cnodes h c) ch" for x
      using cache_okD(8)[OF ok] cache_okD(9)[OF ok, of x] cache_okD(10)[OF ok, of x] det[of "rnode x"]
        nodes_differ(4)[of c x] t x by auto
    have "key (set_cnodes h c) = key c" by (rule ext) (simp add: key_def)
    then show "inj_on (key (set_cnodes h c)) (cached (set_cnodes h c) ch)" using cache_okD(6)[OF ok] by simp
  qed (use cache_okD(1,2,5,7)[OF ok] h(2) in auto)
  then show ?thesis using h(1) by blast
qed

lemma wait_for_buffer:
  assumes ok: "cache_ok c ch fr ws" and g: "getblk dev blk c = Inr (No_buffer c')"
    and t: "node_of (current (sch (dst c))) < 0x800000"
  shows "cache_ok c' ch fr (current (sch (dst c)) # ws)"
proof -
  note d = cache_okD(3)[OF ok] and heads = cache_okD(1)[OF ok]
  let ?t = "current (sch (dst c))"
  have full: "\<not> buffer_ptr c + BUFFER_T_SIZE < buffer_data c" "fr = []" "(dev, blk) \<notin> key c ` cached c ch"
    using cache_hit[OF ok, of dev blk] cache_miss[OF ok, of dev blk] g by fastforce+
  obtain k where k: "task_block (sch (dst c)) ?t (wait_list c) TASK_BLOCKED = Inr k" "c' = set_sched k c"
    using g cache_full[OF ok full(3,1,2)] by auto
  have w0: "wait_list c \<noteq> 0" using dll_D(1)[OF dllsD[OF d lists_of_at(2)[OF heads]]] .
  have n: "detached (cnodes c) (node_of ?t)" using k(1) by (auto simp: task_block_def detached_def cnodes_def)
  obtain h where h: "list_push (cnodes c) (wait_list c) (node_of ?t) = Inr h" "cache_ok (set_cnodes h c) ch fr (?t # ws)"
    using add_waiter[OF ok detached_outside[OF d n] t] by blast
  have "nodes_at k = h"
    using k(1) h(1) w0 by (auto simp: task_block_def cnodes_def Let_def upd_task_def split: if_splits dest!: schedule_effect)
  then have "cache_ok (set_sched k (set_cnodes h c)) ch fr (?t # ws)" by (intro switch_keeps[OF h(2)]) simp
  then show ?thesis by (simp add: k(2) set_sched_def set_cnodes_def)
qed

subsection \<open>The start\<close>

lemma init_lists_inits: "init_lists h ls = inits ls h"
  by (induction ls arbitrary: h) simp_all

text \<open>The heads of the lists lie below the buffers and do not overlap; the buffers are zeroed memory.\<close>

definition before_init :: "'w cache \<Rightarrow> bool" where
  "before_init c =
     (let ls = free_bufs c # wait_list c # hash_table c in
      heads_ok c \<and> buffer_ptr c = 0x800000 \<and> buffer_data c = 0xbffc00 \<and> (\<forall>a\<ge>0x800000. detached (cnodes c) a)
      \<and> heads_apart (set ls) \<and> (\<forall>l\<in>set ls. l + 8 < 0x800000))"

lemma buffer_init_ok:
  assumes "before_init c"
  shows "cache_ok (buffer_init c) (\<lambda>_. []) [] []"
proof -
  let ?ls = "free_bufs c # wait_list c # hash_table c" and ?c = "buffer_init c"
  let ?L = "lists_of c (\<lambda>_. []) [] []"
  have ptrs: "heads_ok c" "buffer_ptr c = 0x800000" "buffer_data c = 0xbffc00" "\<forall>a\<ge>0x800000. detached (cnodes c) a"
    using assms unfolding before_init_def Let_def by blast+
  have heads: "heads_apart (set ?ls)" "l \<in> set ?ls \<Longrightarrow> l + 8 < 0x800000" for l
    using assms unfolding before_init_def Let_def by blast+
  have f: "cnodes ?c = inits ?ls (cnodes c)" "heads_ok ?c = heads_ok c" "area_ok ?c = area_ok c"
    "cached ?c = cached c" "lists_of ?c = lists_of c" "buffer_ptr ?c = buffer_ptr c"
    by (simp_all add: buffer_init_def init_lists_inits fun_eq_iff)
  have "dlls (inits ?ls (cnodes c)) ?L"
    by (rule inits_dlls[OF heads(1)]) (auto simp: lists_of_def split: if_splits)
  moreover have "detached (inits ?ls (cnodes c)) a" if "0x800000 \<le> a" for a
    by (rule inits_detached) (use ptrs(4) heads(2) that in fastforce)+
  ultimately show ?thesis
    using ptrs(1-3) by (intro cache_okI; (unfold f)?) (simp_all add: area_ok_def cached_def)
qed

definition empty_cache :: "unit cache \<Rightarrow> unit cache" where
  "empty_cache c = set_cnodes ((cnodes c)\<lparr>nnext := \<lambda>_. 0, nprev := \<lambda>_. 0\<rparr>)
     (c\<lparr>free_bufs := 0x100, wait_list := 0x200, hash_table := map (\<lambda>i. 0x1000 + 16 * i) [0..<31],
        buffer_ptr := 0x800000, buffer_data := 0xbffc00\<rparr>)"

lemma empty_cache_start: "before_init (empty_cache c)"
proof -
  have "(16 :: nat) * j \<noteq> 16 * i + 8" for i j by presburger
  then show ?thesis by (auto simp: before_init_def heads_ok_def heads_apart_def empty_cache_def Let_def detached_def)
qed

subsection \<open>Runs of the cache\<close>

text \<open>The buffer is in one of the chains.\<close>

definition in_table :: "'w cache \<Rightarrow> addr \<Rightarrow> bool" where
  "in_table c b = (\<exists>l\<in>set (hash_table c). list_search (cnodes c) l (hnode b) = Inr True)"

lemma in_table_cached:
  assumes "cache_ok c ch fr ws"
  shows "in_table c b \<longleftrightarrow> b \<in> cached c ch"
proof -
  have "list_search (cnodes c) l (hnode b) = Inr True \<longleftrightarrow> b \<in> set (ch l)" if l: "l \<in> set (hash_table c)" for l
  proof -
    note d = dllsD[OF cache_okD(3)[OF assms] lists_of_at(3)[OF cache_okD(1)[OF assms] l]]
    show ?thesis using dll_search[OF d, of "hnode b"] by auto
  qed
  then show ?thesis by (simp add: in_table_def cached_def)
qed

text \<open>A task gets a block, waits for a buffer, reads or changes a block it holds (which sets the flags), or
  releases a clean one; between them tasks are switched.\<close>

inductive cache_step :: "'w cache \<Rightarrow> 'w cache \<Rightarrow> bool" where
  get: "getblk dev blk c = Inr (Got c' b) \<Longrightarrow> cache_step c c'"
| wait: "getblk dev blk c = Inr (No_buffer c') \<Longrightarrow> node_of (current (sch (dst c))) < 0x800000 \<Longrightarrow> cache_step c c'"
| flags: "in_table c b \<Longrightarrow> 0 < bcount (buffers c b) \<Longrightarrow>
    cache_step c (upd_buffer b (\<lambda>b. b\<lparr>valid := v, dirty := d, block_lock := lk\<rparr>) c)"
| release: "in_table c b \<Longrightarrow> 0 < bcount (buffers c b) \<Longrightarrow> \<not> dirty (buffers c b) \<Longrightarrow>
    brelse b c = Inr (Written c') \<Longrightarrow> cache_step c c'"
| switch: "nodes_at k = cnodes c \<Longrightarrow> cache_step c (set_sched k c)"

inductive cache_run :: "'w cache \<Rightarrow> 'w cache \<Rightarrow> bool" where
  none: "cache_run c c"
| more: "cache_step c c' \<Longrightarrow> cache_run c' c'' \<Longrightarrow> cache_run c c''"

lemma get_keeps:
  assumes ok: "cache_ok c ch fr ws" and g: "getblk dev blk c = Inr (Got c' b)"
  shows "\<exists>ch fr. cache_ok c' ch fr ws"
proof (cases "(dev, blk) \<in> key c ` cached c ch")
  case True
  then show ?thesis using cache_hit[OF ok True] g by auto
next
  case False
  show ?thesis
  proof (cases "buffer_ptr c + BUFFER_T_SIZE < buffer_data c \<or> fr \<noteq> []")
    case True
    then show ?thesis using cache_miss[OF ok False True] g by auto
  next
    case room: False
    then show ?thesis using g by (auto simp: cache_full[OF ok False])
  qed
qed

lemma flags_keep:
  assumes "cache_ok c ch fr ws" "0 < bcount (buffers c b)"
  shows "cache_ok (upd_buffer b (\<lambda>b. b\<lparr>valid := v, dirty := d, block_lock := lk\<rparr>) c) ch fr ws"
proof -
  let ?c = "upd_buffer b (\<lambda>b. b\<lparr>valid := v, dirty := d, block_lock := lk\<rparr>) c"
  have "key ?c = key c" by (rule ext) (simp add: key_def)
  moreover have "b \<notin> set fr" using cache_okD(9)[OF assms(1), of b] assms(2) by auto
  ultimately show ?thesis using assms(1) by (auto simp: cache_ok_def)
qed

lemma release_keeps:
  assumes ok: "cache_ok c ch fr ws" and b: "b \<in> cached c ch" "0 < bcount (buffers c b)" "\<not> dirty (buffers c b)"
    and r: "brelse b c = Inr (Written c')"
  shows "\<exists>fr. cache_ok c' ch fr ws"
proof -
  have b0: "b \<noteq> 0" using nodes_differ(5) cache_okD(8)[OF ok b(1)] by blast
  then have c: "brelse_clean b c = Inr c'" using r b(3) by (auto simp: brelse_def)
  show ?thesis
  proof (cases "bcount (buffers c b) = 1")
    case True
    then show ?thesis using release_end[OF ok b(1) True b(3)] c by (auto split: if_splits)
  next
    case False
    then show ?thesis using release_shared[OF ok b(1)] b(2) c by auto
  qed
qed

lemma step_keeps:
  assumes "cache_step c c'" "cache_ok c ch fr ws"
  shows "\<exists>ch fr ws. cache_ok c' ch fr ws"
  using assms
proof cases
  case get
  then show ?thesis using get_keeps[OF assms(2)] by blast
next
  case wait
  then show ?thesis using wait_for_buffer[OF assms(2)] by blast
next
  case flags
  then show ?thesis using flags_keep[OF assms(2)] by blast
next
  case release
  then show ?thesis using release_keeps[OF assms(2)] in_table_cached[OF assms(2)] by blast
next
  case switch
  then show ?thesis using switch_keeps[OF assms(2)] by blast
qed

lemma run_keeps: "cache_run c c' \<Longrightarrow> cache_ok c ch fr ws \<Longrightarrow> \<exists>ch fr ws. cache_ok c' ch fr ws"
proof (induction arbitrary: ch fr ws rule: cache_run.induct)
  case (more c c' c'')
  then show ?case using step_keeps[OF more.hyps(1)] by blast
qed blast

subsection \<open>Properties\<close>


lemma first_get:
  "\<exists>c' b ch fr. getblk dev blk (buffer_init (empty_cache c)) = Inr (Got c' b) \<and> cache_ok c' ch fr [] \<and> in_table c' b
    \<and> bcount (buffers c' b) = 1 \<and> \<not> dirty (buffers c' b)"
proof -
  let ?c = "buffer_init (empty_cache c)"
  have room: "buffer_ptr ?c + BUFFER_T_SIZE < buffer_data ?c"
    by (simp add: buffer_init_def empty_cache_def BUFFER_T_SIZE_def)
  have "(dev, blk) \<notin> key ?c ` cached ?c (\<lambda>_. [])" by (simp add: cached_def)
  then obtain c' b ch fr where "getblk dev blk ?c = Inr (Got c' b)" "cache_ok c' ch fr []" "b \<in> cached c' ch"
    "bcount (buffers c' b) = 1" "\<not> dirty (buffers c' b)"
    using cache_miss[OF buffer_init_ok[OF empty_cache_start] _ disjI1[OF room]] by blast
  then show ?thesis using in_table_cached by blast
qed


text \<open>C9: when a buffer can be had, \<^verbatim>\<open>getblk\<close> returns one of the block asked for, the one that held it
  if there was one; a buffer that somebody uses stays in the cache and is not changed, but for the count of the
  one returned.\<close>

theorem getblk_one_buffer:
  assumes "cache_ok c ch fr ws"
    and "(dev, blk) \<in> key c ` cached c ch \<or> buffer_ptr c + BUFFER_T_SIZE < buffer_data c \<or> fr \<noteq> []"
  shows "\<exists>c' b ch' fr'. getblk dev blk c = Inr (Got c' b) \<and> cache_ok c' ch' fr' ws \<and> key c' b = (dev, blk)
    \<and> b \<in> cached c' ch' \<and> b \<notin> set fr' \<and> 0 < bcount (buffers c' b)
    \<and> (\<forall>x\<in>cached c ch. key c x = (dev, blk) \<longrightarrow> x = b)
    \<and> (\<forall>x\<in>cached c ch. 0 < bcount (buffers c x) \<longrightarrow> x \<noteq> b
        \<longrightarrow> buffers c' x = buffers c x \<and> x \<in> cached c' ch')"
proof (cases "(dev, blk) \<in> key c ` cached c ch")
  case True
  obtain c' b fr' where h: "getblk dev blk c = Inr (Got c' b)" "cache_ok c' ch fr' ws" "b \<in> cached c ch"
    "key c b = (dev, blk)" "b \<notin> set fr'" "hash_table c' = hash_table c"
    "buffers c' = (buffers c)(b := (buffers c b)\<lparr>bcount := bcount (buffers c b) + 1\<rparr>)"
    using cache_hit[OF assms(1) True] by blast
  have cs: "cached c' ch = cached c ch" using h(6) by (simp add: cached_def)
  have "key c' b = (dev, blk)" using h(4,7) by (simp add: key_def)
  moreover have "0 < bcount (buffers c' b)" using cache_okD(8)[OF assms(1) h(3)] h(7) by simp
  moreover have "\<forall>x\<in>cached c ch. key c x = (dev, blk) \<longrightarrow> x = b"
    using cache_okD(6)[OF assms(1)] h(3,4) by (metis inj_onD)
  moreover have "\<forall>x\<in>cached c ch. 0 < bcount (buffers c x) \<longrightarrow> x \<noteq> b \<longrightarrow> buffers c' x = buffers c x \<and> x \<in> cached c' ch"
    unfolding h(7) cs by simp
  moreover have "b \<in> cached c' ch" using h(3) cs by simp
  ultimately show ?thesis using h(1,2,5)
    by (intro exI[of _ c'] exI[of _ b] exI[of _ ch] exI[of _ fr'] conjI) assumption+
next
  case False
  then obtain c' b ch' fr' where m: "getblk dev blk c = Inr (Got c' b)" "cache_ok c' ch' fr' ws" "key c' b = (dev, blk)"
    "b \<notin> set fr'" "b \<in> cached c' ch'" "b \<in> cached c ch \<longrightarrow> bcount (buffers c b) = 0"
    "\<forall>x. x \<noteq> b \<longrightarrow> buffers c' x = buffers c x" "cached c ch - {b} \<subseteq> cached c' ch'"
    using cache_miss[OF assms(1) False] assms(2) by blast
  have "0 < bcount (buffers c' b)"
    using cache_okD(8)[OF m(2,5)] cache_okD(10)[OF m(2,5,4)] by linarith
  moreover have "\<forall>x\<in>cached c ch. key c x = (dev, blk) \<longrightarrow> x = b" using False by force
  moreover have "\<forall>x\<in>cached c ch. 0 < bcount (buffers c x) \<longrightarrow> x \<noteq> b \<longrightarrow> buffers c' x = buffers c x \<and> x \<in> cached c' ch'"
    using m(7,8) by blast
  ultimately show ?thesis using m(1-5)
    by (intro exI[of _ c'] exI[of _ b] exI[of _ ch'] exI[of _ fr'] conjI) assumption+
qed

theorem getblk_one_buffer_witness:
  "\<forall>c. \<exists>c' b ch' fr'. getblk 3 7 (buffer_init (empty_cache c)) = Inr (Got c' b) \<and> cache_ok c' ch' fr' [] \<and> key c' b = (3, 7)"
proof
  fix c
  have "buffer_ptr (buffer_init (empty_cache c)) + BUFFER_T_SIZE < buffer_data (buffer_init (empty_cache c))"
    by (simp add: buffer_init_def empty_cache_def BUFFER_T_SIZE_def)
  then show "\<exists>c' b ch' fr'. getblk 3 7 (buffer_init (empty_cache c)) = Inr (Got c' b) \<and> cache_ok c' ch' fr' []
      \<and> key c' b = (3, 7)"
    using getblk_one_buffer[OF buffer_init_ok[OF empty_cache_start], of 3 7 c] by blast
qed

text \<open>C10: giving back the last reference of a clean block frees its buffer and keeps the cache as it has to be
  when no task waits for a buffer; when one waits it stops at an assertion, because the task is taken off the
  waiting list before it is unblocked, which takes it off again.\<close>

theorem brelse_with_waiter_stops:
  assumes ok: "cache_ok c ch fr ws" and b: "in_table c b" "bcount (buffers c b) = 1" "\<not> dirty (buffers c b)"
  shows "if ws = [] then \<exists>c'. brelse b c = Inr (Written c') \<and> cache_ok c' ch (b # fr) [] else brelse b c = Inl Assertion"
proof -
  have c: "b \<in> cached c ch" using b(1) in_table_cached[OF ok] by blast
  have "b \<noteq> 0" using nodes_differ(5) cache_okD(8)[OF ok c] by blast
  then show ?thesis using release_end[OF ok c b(2,3)] b(3) by (auto simp: brelse_def split: if_splits)
qed

definition same_heads :: "'w cache \<Rightarrow> 'w cache \<Rightarrow> bool" where
  "same_heads c c' = (free_bufs c' = free_bufs c \<and> wait_list c' = wait_list c \<and> hash_table c' = hash_table c)"

lemma same_heads_simps [simp]:
  "same_heads c c" "same_heads c (set_cnodes h c') = same_heads c c'" "same_heads c (upd_buffer b f c') = same_heads c c'"
  by (simp_all add: same_heads_def)

lemma get_free_heads: "get_free_buffer c = Inr (Got c' b) \<Longrightarrow> same_heads c c'"
  by (auto simp: get_free_buffer_def get_new_buffer_def hash_remove_def set_sched_def same_heads_def Let_def split_beta
      split: if_splits)

lemma getblk_heads: "getblk dev blk c = Inr (Got c' b) \<Longrightarrow> same_heads c c'"
  using get_free_heads[of c]
  by (fastforce simp: getblk_def getblk_free_def get_from_hash_table_def hash_locate_def same_heads_def Let_def
      split: if_splits free_end.splits)

lemma low_outside:
  assumes ok: "cache_ok c ch fr []" and a: "a < 0x800000"
    and h: "\<forall>l\<in>set (free_bufs c # wait_list c # hash_table c). a \<noteq> l \<and> a \<noteq> l + 8"
  shows "outside (lists_of c ch fr []) a"
proof -
  have "b \<in> set fr \<Longrightarrow> a \<noteq> rnode b" for b using cache_okD(7,8)[OF ok] nodes_differ(4)[of c b] a by fastforce
  moreover have "a \<noteq> hnode b" if "l \<in> set (hash_table c)" "b \<in> set (ch l)" for l b
  proof -
    have "b \<in> cached c ch" using that by (auto simp: cached_def)
    then show ?thesis using cache_okD(8)[OF ok, of b] a by (auto simp: is_buffer_def hnode_def)
  qed
  ultimately show ?thesis using h by (auto simp: outside_def lists_of_def nodes_def)
qed

theorem brelse_with_waiter_stops_witness:
  "\<forall>c. \<exists>c1 b h. getblk 3 7 (buffer_init (empty_cache c)) = Inr (Got c1 b)
     \<and> list_push (cnodes c1) (wait_list c1) (node_of 0x7ff000) = Inr h \<and> brelse b (set_cnodes h c1) = Inl Assertion"
proof
  fix c
  obtain c1 b ch fr where g: "getblk 3 7 (buffer_init (empty_cache c)) = Inr (Got c1 b)" "cache_ok c1 ch fr []" "in_table c1 b"
    "bcount (buffers c1 b) = 1" "\<not> dirty (buffers c1 b)" using first_get by blast
  have "outside (lists_of c1 ch fr []) (node_of 0x7ff000)"
    by (rule low_outside[OF g(2)])
      (use getblk_heads[OF g(1)] in \<open>auto simp: same_heads_def buffer_init_def empty_cache_def node_of_def\<close>)
  moreover have "node_of 0x7ff000 < 0x800000" by (simp add: node_of_def)
  ultimately obtain h where h: "list_push (cnodes c1) (wait_list c1) (node_of 0x7ff000) = Inr h"
    "cache_ok (set_cnodes h c1) ch fr [0x7ff000]" using add_waiter[OF g(2)] by blast
  have "in_table (set_cnodes h c1) b" using g(3) in_table_cached[OF g(2)] in_table_cached[OF h(2)] by simp
  then have "brelse b (set_cnodes h c1) = Inl Assertion" using brelse_with_waiter_stops[OF h(2)] g(4,5) by simp
  then show "\<exists>c1 b h. getblk 3 7 (buffer_init (empty_cache c)) = Inr (Got c1 b)
     \<and> list_push (cnodes c1) (wait_list c1) (node_of 0x7ff000) = Inr h \<and> brelse b (set_cnodes h c1) = Inl Assertion"
    using g(1) h(1) by blast
qed

end
