(* ===== verification/Heap_Laws.thy ===== *)
theory Heap_Laws
  imports Arena Families Kpages
begin

text \<open>
  The kernel heap never hands out overlapping memory: every block that \<^verbatim>\<open>kmalloc\<close> returned and that
  was not freed is as long as was asked for, lies in kernel pages of its own arena and overlaps no other one,
  and \<^verbatim>\<open>kfree\<close> takes every such block back without stopping at an assertion.
\<close>

subsection \<open>Arenas\<close>

text \<open>A page of blocks of the \<open>d\<close>-th size, or a run of \<open>n\<close> pages for one block.\<close>

datatype kind = Small nat | Large nat

definition bsize :: "nat \<Rightarrow> nat" where "bsize d = 16 * 2 ^ d"
definition nblocks :: "nat \<Rightarrow> nat" where "nblocks d = 4080 div bsize d"
definition cell :: "nat \<Rightarrow> nat \<Rightarrow> nat \<Rightarrow> addr" where "cell f d k = 4096 * f + 16 + k * bsize d"

definition cells :: "nat \<Rightarrow> nat \<Rightarrow> addr set" where "cells f d = cell f d ` {..<nblocks d}"

definition span :: "(nat \<rightharpoonup> kind) \<Rightarrow> nat \<Rightarrow> nat set" where
  "span A f = (case A f of None \<Rightarrow> {} | Some (Small d) \<Rightarrow> {f} | Some (Large n) \<Rightarrow> {f..<f + n})"

definition free_lists :: "arenas \<Rightarrow> (nat \<Rightarrow> addr list) \<Rightarrow> addr \<rightharpoonup> addr list" where
  "free_lists a fl = map_of (map (\<lambda>d. (free_list (descs a ! d), fl d)) [0..<7])"

definition descs_ok :: "arenas \<Rightarrow> nat \<Rightarrow> bool" where
  "descs_ok a limit = (length (descs a) = 7 \<and> distinct (map (\<lambda>d. free_list (descs a ! d)) [0..<7])
     \<and> (\<forall>d<7. block_size (descs a ! d) = of_nat (bsize d) \<and> total_block (descs a ! d) = of_nat (nblocks d)
          \<and> free_list (descs a ! d) + 8 < limit))"

definition heap_ok :: "arenas \<Rightarrow> kmem \<Rightarrow> heap \<Rightarrow> (nat \<rightharpoonup> kind) \<Rightarrow> (nat \<Rightarrow> addr list) \<Rightarrow> bool" where
  "heap_ok a m h A fl =
     (descs_ok a (4096 * base_page m) \<and> kmap_ok m \<and> dlls h (free_lists a fl)
      \<and> (\<forall>f. span A f \<subseteq> kpages m) \<and> (\<forall>f g. f \<noteq> g \<longrightarrow> span A f \<inter> span A g = {})
      \<and> (\<forall>f n. A f = Some (Large n) \<longrightarrow> 0 < n \<and> n < 2 ^ 32
           \<and> arena_at a (4096 * f) = \<lparr>adesc = None, acount = of_nat n, large = 1, amagic = YUI_MAGIC\<rparr>)
      \<and> (\<forall>f d. A f = Some (Small d) \<longrightarrow> d < 7 \<and> arena_at a (4096 * f)
           = \<lparr>adesc = Some d, acount = of_nat (card (cells f d \<inter> set (fl d))), large = 0, amagic = YUI_MAGIC\<rparr>)
      \<and> (\<forall>d<7. \<forall>b\<in>set (fl d). \<exists>f. A f = Some (Small d) \<and> b \<in> cells f d))"

lemma heap_okD:
  assumes "heap_ok a m h A fl"
  shows "descs_ok a (4096 * base_page m)" "kmap_ok m" "dlls h (free_lists a fl)" "span A f \<subseteq> kpages m"
    "f \<noteq> g \<Longrightarrow> span A f \<inter> span A g = {}"
    "A f = Some (Large n) \<Longrightarrow> 0 < n \<and> n < 2 ^ 32
       \<and> arena_at a (4096 * f) = \<lparr>adesc = None, acount = of_nat n, large = 1, amagic = YUI_MAGIC\<rparr>"
    "A f = Some (Small d) \<Longrightarrow> d < 7 \<and> arena_at a (4096 * f)
       = \<lparr>adesc = Some d, acount = of_nat (card (cells f d \<inter> set (fl d))), large = 0, amagic = YUI_MAGIC\<rparr>"
    "d < 7 \<Longrightarrow> b \<in> set (fl d) \<Longrightarrow> \<exists>f. A f = Some (Small d) \<and> b \<in> cells f d"
  using assms unfolding heap_ok_def by blast+

lemma descs_okD:
  assumes "descs_ok a limit" "d < 7"
  shows "length (descs a) = 7" "block_size (descs a ! d) = of_nat (bsize d)" "total_block (descs a ! d) = of_nat (nblocks d)"
    "free_list (descs a ! d) + 8 < limit" "rd (descs a) d = Inr (descs a ! d)"
  using assms by (auto simp: descs_ok_def)

lemma free_lists_at: "descs_ok a limit \<Longrightarrow> d < 7 \<Longrightarrow> free_lists a fl (free_list (descs a ! d)) = Some (fl d)"
  unfolding free_lists_def by (rule map_of_is_SomeI) (auto simp: descs_ok_def comp_def)

lemma free_lists_SomeD: "free_lists a fl l = Some xs \<Longrightarrow> \<exists>d<7. l = free_list (descs a ! d) \<and> xs = fl d"
proof -
  assume "free_lists a fl l = Some xs"
  then obtain d where "d < 7" "l = free_list (descs a ! d)" "xs = fl d" unfolding free_lists_def by (auto dest!: map_of_SomeD)
  then show ?thesis by blast
qed

lemma free_lists_upd:
  assumes "descs_ok a limit" "d < 7"
  shows "(free_lists a fl)(free_list (descs a ! d) \<mapsto> xs) = free_lists a (fl(d := xs))"
proof
  fix l
  have inj: "e = d" if "e < 7" "free_list (descs a ! e) = free_list (descs a ! d)" for e
    using assms that by (auto simp: descs_ok_def distinct_map inj_on_def)
  show "((free_lists a fl)(free_list (descs a ! d) \<mapsto> xs)) l = free_lists a (fl(d := xs)) l"
  proof (cases "free_lists a (fl(d := xs)) l")
    case None
    then have "l \<noteq> free_list (descs a ! d)" using free_lists_at[OF assms] by force
    moreover have "free_lists a fl l = None"
      using None unfolding free_lists_def map_of_eq_None_iff by (simp add: image_image)
    ultimately show ?thesis using None by simp
  next
    case (Some ys)
    then obtain e where e: "e < 7" "l = free_list (descs a ! e)" using free_lists_SomeD by blast
    then show ?thesis using free_lists_at[OF assms(1) e(1)] inj[OF e(1)] by auto
  qed
qed

lemma block_sizes:
  assumes "d < 7"
  shows "16 \<le> bsize d" "bsize d \<le> 1024" "nblocks d * bsize d \<le> 4080" "0 < nblocks d" "nblocks d < 256"
proof -
  have "d \<in> {0, 1, 2, 3, 4, 5, 6}" using assms by auto
  then show "16 \<le> bsize d" "bsize d \<le> 1024" "nblocks d * bsize d \<le> 4080" "0 < nblocks d" "nblocks d < 256"
    by (auto simp: bsize_def nblocks_def)
qed

lemma cell_bounds:
  assumes "d < 7" "k < nblocks d"
  shows "4096 * f + 16 \<le> cell f d k" "cell f d k + bsize d \<le> 4096 * f + 4096"
proof -
  have "Suc k * bsize d \<le> nblocks d * bsize d" using assms(2) by (intro mult_le_mono1) simp
  then show "4096 * f + 16 \<le> cell f d k" "cell f d k + bsize d \<le> 4096 * f + 4096"
    using block_sizes(3)[OF assms(1)] by (simp_all add: cell_def)
qed

lemma cells_in_page: "d < 7 \<Longrightarrow> b \<in> cells f d \<Longrightarrow> 4096 * f + 16 \<le> b \<and> b + bsize d \<le> 4096 * f + 4096"
  using cell_bounds by (auto simp: cells_def)

lemma cells_page_unique: "d < 7 \<Longrightarrow> e < 7 \<Longrightarrow> b \<in> cells f d \<Longrightarrow> b \<in> cells g e \<Longrightarrow> f = g"
  using cells_in_page[of d b f] cells_in_page[of e b g] block_sizes(1)[of d] block_sizes(1)[of e] by linarith

lemma cell_inj: "d < 7 \<Longrightarrow> cell f d j = cell f d k \<longleftrightarrow> j = k"
  using block_sizes(1)[of d] by (simp add: cell_def)

lemma card_cells: "d < 7 \<Longrightarrow> card (cells f d) = nblocks d"
  unfolding cells_def by (subst card_image) (auto intro: inj_onI simp: cell_inj)

lemma finite_cells [simp]: "finite (cells f d)"
  by (simp add: cells_def)

lemma get_block_arena_page:
  assumes "4096 * f \<le> b" "b < 4096 * f + 4096" "f < 2 ^ 20"
  shows "get_block_arena b = 4096 * f"
proof -
  let ?w = "of_nat b :: u32"
  have m: "(0xfffff000 :: u32) = NOT (mask 12)" by (simp add: mask_eq_exp_minus_1)
  have "?w AND 0xfffff000 = push_bit 12 (drop_bit 12 ?w)" unfolding m by (rule bit_eqI) (auto simp: bit_simps)
  moreover have "unat (drop_bit 12 ?w) = f" "unat ?w = b"
    using assms by (simp_all add: drop_bit_eq_div unat_div unat_of_nat32)
  ultimately show ?thesis using assms(3) by (simp add: get_block_arena_def push_bit_eq_mult unat_word_ariths)
qed

lemma get_arena_block_cell:
  assumes "descs_ok a limit" "d < 7" "adesc (arena_at a (4096 * f)) = Some d" "k < nblocks d"
  shows "get_arena_block a (4096 * f) (of_nat k) = Inr (cell f d k)" "desc_of a (4096 * f) = Inr (descs a ! d)"
proof -
  note d = descs_okD[OF assms(1,2)] and b = block_sizes[OF assms(2)]
  show desc: "desc_of a (4096 * f) = Inr (descs a ! d)" using assms(3) d(5) by (simp add: desc_of_def)
  have "k * bsize d < 2 ^ 32" using cell_bounds(2)[OF assms(2,4), of 0] by (simp add: cell_def)
  then have "unat (of_nat k * of_nat (bsize d) :: u32) = k * bsize d" by (metis of_nat_mult unat_of_nat32)
  moreover have "(of_nat k :: u32) < of_nat (nblocks d)"
    using assms(4) b(5) by (simp add: word_less_nat_alt unat_of_nat32)
  ultimately show "get_arena_block a (4096 * f) (of_nat k) = Inr (cell f d k)"
    using desc d by (simp add: get_arena_block_def cell_def ARENA_SIZE_def)
qed

lemma cell_outside:
  assumes "descs_ok a limit" "limit \<le> 4096 * f" "d < 7" "b \<in> cells f d" "\<forall>e<7. b \<notin> set (fl e)"
  shows "outside (free_lists a fl) b"
  unfolding outside_def
proof (intro allI impI)
  fix l xs assume "free_lists a fl l = Some xs"
  then obtain e where e: "e < 7" "l = free_list (descs a ! e)" "xs = fl e" using free_lists_SomeD by blast
  have "l + 8 < limit" using descs_okD(4)[OF assms(1) e(1)] e(2) by simp
  then show "b \<notin> nodes l xs" using cells_in_page[OF assms(3,4)] assms(2,5) e(1,3) by (auto simp: nodes_def)
qed

subsection \<open>Filling and draining the page of an arena\<close>

lemma fill_loop_ok:
  assumes a: "descs_ok a limit" "d < 7" "adesc (arena_at a (4096 * f)) = Some d" "limit \<le> 4096 * f"
    and "i + n = nblocks d" "dlls h (free_lists a (fl(d := rev (map (cell f d) [0..<i]))))"
    and new: "\<forall>e<7. e \<noteq> d \<longrightarrow> cells f d \<inter> set (fl e) = {}"
  shows "\<exists>h'. fill_loop a (4096 * f) h i n = Inr h' \<and> dlls h' (free_lists a (fl(d := rev (map (cell f d) [0..<nblocks d]))))"
  using assms(5,6)
proof (induction n arbitrary: i h)
  case (Suc n)
  let ?l = "free_list (descs a ! d)" and ?xs = "rev (map (cell f d) [0..<i])" and ?b = "cell f d i"
  have i: "i < nblocks d" using Suc.prems(1) by simp
  note g = get_arena_block_cell[OF a(1-3) i]
  note L = free_lists_at[OF a(1,2), of "fl(d := ?xs)", simplified]
  have b: "?b \<in> cells f d" "?b \<notin> set ?xs" "?b \<noteq> 0" using i cell_inj[OF a(2)] by (auto simp: cells_def) (simp add: cell_def)
  then have o: "outside (free_lists a (fl(d := ?xs))) ?b" by (intro cell_outside[OF a(1,4,2)]) (use new in auto)
  have s: "list_search h ?l ?b = Inr False"
    using dll_search[OF dllsD[OF Suc.prems(2) L], of ?b] outsideD[OF o L] by (auto simp: nodes_def)
  obtain h1 where h1: "list_push h ?l ?b = Inr h1" "dlls h1 (free_lists a (fl(d := ?b # ?xs)))"
    using dlls_push[OF Suc.prems(2) L b(3) o] free_lists_upd[OF a(1,2), of "fl(d := ?xs)"] by auto
  note L1 = free_lists_at[OF a(1,2), of "fl(d := ?b # ?xs)", simplified]
  have s1: "list_search h1 ?l ?b = Inr True" using dll_search[OF dllsD[OF h1(2) L1], of ?b] by simp
  have "?b # ?xs = rev (map (cell f d) [0..<Suc i])" by simp
  then have "dlls h1 (free_lists a (fl(d := rev (map (cell f d) [0..<Suc i]))))" using h1(2) by (simp only:)
  moreover have "Suc i + n = nblocks d" using Suc.prems(1) by simp
  ultimately have "\<exists>h'. fill_loop a (4096 * f) h1 (Suc i) n = Inr h'
      \<and> dlls h' (free_lists a (fl(d := rev (map (cell f d) [0..<nblocks d]))))" by (intro Suc.IH)
  moreover have "fill_loop a (4096 * f) h i (Suc n) = fill_loop a (4096 * f) h1 (Suc i) n" using h1(1) g s s1 by simp
  ultimately show ?case by (simp only:)
qed auto

lemma drain_loop_ok:
  assumes a: "descs_ok a limit" "d < 7" "adesc (arena_at a (4096 * f)) = Some d" "limit \<le> 4096 * f"
    and "i + n = nblocks d" "dlls h (free_lists a fl)" "cell f d ` {i..<nblocks d} \<subseteq> set (fl d)"
  shows "\<exists>h' ys. drain_loop a (4096 * f) h i n = Inr h' \<and> dlls h' (free_lists a (fl(d := ys)))
    \<and> set ys = set (fl d) - cell f d ` {i..<nblocks d}"
  using assms(5-)
proof (induction n arbitrary: i h fl)
  case 0
  then show ?case by (intro exI[of _ h] exI[of _ "fl d"]) simp
next
  case (Suc n)
  let ?l = "free_list (descs a ! d)" and ?b = "cell f d i"
  have i: "i < nblocks d" using Suc.prems(1) by simp
  note g = get_arena_block_cell[OF a(1-3) i]
  note L = free_lists_at[OF a(1,2), of fl]
  have "?b \<in> set (fl d)" using Suc.prems(3) i by auto
  then obtain us vs where uv: "fl d = us @ ?b # vs" by (auto dest: split_list)
  have dist: "?b \<notin> set (us @ vs)" using dllsD[OF Suc.prems(2) L] uv by (auto simp: dll_def)
  have s: "list_search h ?l ?b = Inr True" using dll_search[OF dllsD[OF Suc.prems(2) L], of ?b] uv by simp
  obtain h1 where h1: "list_remove h ?b = Inr h1" "dlls h1 (free_lists a (fl(d := us @ vs)))"
    using dlls_remove[OF Suc.prems(2), of ?l us ?b vs] L uv free_lists_upd[OF a(1,2), of fl] by auto
  note L1 = free_lists_at[OF a(1,2), of "fl(d := us @ vs)", simplified]
  have s1: "list_search h1 ?l ?b = Inr False" using dll_search[OF dllsD[OF h1(2) L1], of ?b] dist by auto
  have ivl: "{i..<nblocks d} = insert i {Suc i..<nblocks d}" using i by auto
  have "?b \<notin> cell f d ` {Suc i..<nblocks d}" using cell_inj[OF a(2)] by auto
  moreover have "insert ?b (cell f d ` {Suc i..<nblocks d}) \<subseteq> insert ?b (set (us @ vs))"
    using Suc.prems(3) unfolding ivl uv by (simp add: ac_simps)
  ultimately have "cell f d ` {Suc i..<nblocks d} \<subseteq> set (us @ vs)" by (metis insert_subset subset_insert)
  then have sub: "cell f d ` {Suc i..<nblocks d} \<subseteq> set ((fl(d := us @ vs)) d)" by simp
  have "set (fl d) - cell f d ` {i..<nblocks d} = set (us @ vs) - insert ?b (cell f d ` {Suc i..<nblocks d})"
    unfolding ivl uv by auto
  then have rest: "set (us @ vs) - cell f d ` {Suc i..<nblocks d} = set (fl d) - cell f d ` {i..<nblocks d}"
    using dist by (auto simp del: set_append)
  have "Suc i + n = nblocks d" using Suc.prems(1) by simp
  then obtain h2 ys where "drain_loop a (4096 * f) h1 (Suc i) n = Inr h2" "dlls h2 (free_lists a (fl(d := ys)))"
    "set ys = set (us @ vs) - cell f d ` {Suc i..<nblocks d}"
    using Suc.IH[OF _ h1(2) sub] unfolding fun_upd_upd fun_upd_same by blast
  moreover have "drain_loop a (4096 * f) h i (Suc n) = drain_loop a (4096 * f) h1 (Suc i) n" using g s h1(1) s1 by simp
  ultimately show ?case using rest by (intro exI[of _ h2] exI[of _ ys] conjI) (simp_all only:)
qed

subsection \<open>Taking and giving back a block\<close>

lemma desc_loop_fits:
  assumes "descs_ok a limit" "i + n = 7" "0 < n" "unat bytes \<le> 1024"
  shows "desc_loop (descs a) bytes i n < 7 \<and> unat bytes \<le> bsize (desc_loop (descs a) bytes i n)"
  using assms(2,3)
proof (induction n arbitrary: i)
  case (Suc n)
  have i: "i < 7" using Suc.prems by simp
  have sz: "block_size (descs a ! i) \<ge> bytes \<longleftrightarrow> unat bytes \<le> bsize i"
    using descs_okD(2)[OF assms(1) i] block_sizes(2)[OF i] by (simp add: word_le_nat_alt unat_of_nat32)
  show ?case
  proof (cases "n = 0")
    case True
    then have "i = 6" using Suc.prems by simp
    then show ?thesis using True assms(4) by (simp add: bsize_def)
  next
    case False
    then show ?thesis using Suc.IH[of "Suc i"] Suc.prems(1) sz i by simp
  qed
qed simp

text \<open>A fresh page of blocks is added to the heap.\<close>

lemma clear_nodes_frame:
  "n < p \<or> p + c \<le> n \<Longrightarrow> nnext (clear_nodes p c h) n = nnext h n \<and> nprev (clear_nodes p c h) n = nprev h n"
  by (auto simp: clear_nodes_def)

lemma clear_keeps:
  assumes ok: "heap_ok a m h A fl" and new: "{f..<f + n} \<inter> kpages m = {}" "base_page m \<le> f"
  shows "dlls (clear_nodes (4096 * f) (4096 * n) h) (free_lists a fl)"
proof (rule dlls_frame[OF heap_okD(3)[OF ok]], rule clear_nodes_frame)
  fix x assume "\<not> outside (free_lists a fl) x"
  then obtain l xs where "free_lists a fl l = Some xs" "x \<in> nodes l xs" by (auto simp: outside_def)
  then obtain e where e: "e < 7" "x \<in> nodes (free_list (descs a ! e)) (fl e)" using free_lists_SomeD by blast
  show "x < 4096 * f \<or> 4096 * f + 4096 * n \<le> x"
  proof (cases "x \<in> set (fl e)")
    case True
    then obtain g where g: "A g = Some (Small e)" "x \<in> cells g e" using heap_okD(8)[OF ok e(1)] by blast
    then have "g \<in> kpages m" using heap_okD(4)[OF ok, of g] by (simp add: span_def)
    then have "g \<notin> {f..<f + n}" using new(1) by blast
    then have "g < f \<or> f + n \<le> g" by auto
    then show ?thesis using cells_in_page[OF e(1) g(2)] block_sizes(1)[OF e(1)] by linarith
  next
    case False
    then show ?thesis using e descs_okD(4)[OF heap_okD(1)[OF ok] e(1)] new(2) by (auto simp: nodes_def)
  qed
qed

lemma arena_free_page:
  assumes "heap_ok a m h A fl" "f \<notin> kpages m"
  shows "A f = None"
proof (rule ccontr)
  assume "A f \<noteq> None"
  then obtain k where k: "A f = Some k" by blast
  have "f \<in> span A f"
  proof (cases k)
    case (Large n)
    then show ?thesis using heap_okD(6)[OF assms(1), of f n] k by (simp add: span_def)
  qed (use k in \<open>simp add: span_def\<close>)
  then show False using heap_okD(4)[OF assms(1)] assms(2) by blast
qed

text \<open>An arena on pages that were free is added.\<close>

lemma heap_ok_add:
  assumes ok: "heap_ok a m h A fl" and new: "{f..<f + n} \<inter> kpages m = {}" "0 < n"
    and km: "kmarks m (kpages m \<union> {f..<f + n}) m'"
    and a': "descs_ok a' (4096 * base_page m)" "dlls h' (free_lists a' fl')"
      "\<And>g. g \<noteq> f \<Longrightarrow> arena_at a' (4096 * g) = arena_at a (4096 * g)"
    and large: "\<And>c. k = Large c \<Longrightarrow> n = c \<and> c < 2 ^ 32
      \<and> arena_at a' (4096 * f) = \<lparr>adesc = None, acount = of_nat c, large = 1, amagic = YUI_MAGIC\<rparr>"
    and small: "\<And>d. k = Small d \<Longrightarrow> n = 1 \<and> d < 7 \<and> arena_at a' (4096 * f)
      = \<lparr>adesc = Some d, acount = of_nat (card (cells f d \<inter> set (fl' d))), large = 0, amagic = YUI_MAGIC\<rparr>"
    and old: "\<And>g e. g \<noteq> f \<Longrightarrow> A g = Some (Small e) \<Longrightarrow> cells g e \<inter> set (fl' e) = cells g e \<inter> set (fl e)"
    and cover: "\<And>e b. e < 7 \<Longrightarrow> b \<in> set (fl' e) \<Longrightarrow> b \<in> set (fl e) \<or> k = Small e \<and> b \<in> cells f e"
  shows "heap_ok a' m' h' (A(f \<mapsto> k)) fl'"
proof -
  have m': "kpages m' = kpages m \<union> {f..<f + n}" "kmap_ok m'" "base_page m' = base_page m" using km by (auto simp: kmarks_def)
  have "f \<in> {f..<f + n}" using new(2) by simp
  then have fk: "f \<notin> kpages m" using new(1) by blast
  have N: "A f = None" using arena_free_page[OF ok fk] .
  have sp: "span (A(f \<mapsto> k)) g = (if g = f then {f..<f + n} else span A g)" for g
    using large small by (cases k) (simp_all add: span_def)
  show ?thesis
    unfolding heap_ok_def
  proof (intro conjI allI impI)
    show "descs_ok a' (4096 * base_page m')" "kmap_ok m'" "dlls h' (free_lists a' fl')" using a'(1,2) m' by simp_all
    show "span (A(f \<mapsto> k)) g \<subseteq> kpages m'" for g using heap_okD(4)[OF ok, of g] m'(1) by (auto simp: sp)
    show "span (A(f \<mapsto> k)) x \<inter> span (A(f \<mapsto> k)) y = {}" if "x \<noteq> y" for x y
      using heap_okD(5)[OF ok that] heap_okD(4)[OF ok, of x] heap_okD(4)[OF ok, of y] new(1) that unfolding sp by auto
    show "0 < c" "c < 2 ^ 32" "arena_at a' (4096 * g) = \<lparr>adesc = None, acount = of_nat c, large = 1, amagic = YUI_MAGIC\<rparr>"
      if "(A(f \<mapsto> k)) g = Some (Large c)" for g c
      using heap_okD(6)[OF ok, of g c] that large[of c] new(2) a'(3)[of g] by (auto split: if_splits)
    show "e < 7" if "(A(f \<mapsto> k)) g = Some (Small e)" for g e
      using heap_okD(7)[OF ok, of g e] that small[of e] by (auto split: if_splits)
    show "arena_at a' (4096 * g) = \<lparr>adesc = Some e, acount = of_nat (card (cells g e \<inter> set (fl' e))), large = 0,
        amagic = YUI_MAGIC\<rparr>" if "(A(f \<mapsto> k)) g = Some (Small e)" for g e
      using heap_okD(7)[OF ok, of g e] that small[of e] a'(3)[of g] old[of g e] by (cases "g = f") simp_all
    show "\<forall>b\<in>set (fl' e). \<exists>g. (A(f \<mapsto> k)) g = Some (Small e) \<and> b \<in> cells g e" if e: "e < 7" for e
    proof
      fix b assume b: "b \<in> set (fl' e)"
      show "\<exists>g. (A(f \<mapsto> k)) g = Some (Small e) \<and> b \<in> cells g e"
      proof (cases "b \<in> set (fl e)")
        case True
        then obtain g where "A g = Some (Small e)" "b \<in> cells g e" using heap_okD(8)[OF ok e] by blast
        then show ?thesis using N by (intro exI[of _ g]) auto
      next
        case False
        then show ?thesis using cover[OF e b] by (intro exI[of _ f]) simp
      qed
    qed
  qed
qed

lemma new_arena_cases:
  assumes ok: "heap_ok a m h A fl" and d: "d < 7" "fl d = []"
  shows "new_arena a m h d = Inl Panic \<and> kfull m 1
    \<or> (\<exists>a' m' h' f fl'. new_arena a m h d = Inr (a', m', h') \<and> heap_ok a' m' h' (A(f \<mapsto> Small d)) fl' \<and> f \<notin> kpages m
        \<and> kmarks m (insert f (kpages m)) m'
        \<and> descs a' = descs a \<and> (\<forall>e. e \<noteq> d \<longrightarrow> fl' e = fl e) \<and> set (fl' d) = cells f d \<and> fl' d \<noteq> [])"
proof -
  have one: "(0 :: nat) < 1" "(1 :: nat) < 2 ^ 32" by simp_all
  from alloc_kpage_cases[OF heap_okD(2)[OF ok] one] show ?thesis
  proof (elim disjE exE conjE)
  fix f m'
  assume al: "alloc_kpage m (of_nat 1) = Inr (m', page_at f)" and new: "{f..<f + 1} \<inter> kpages m = {}"
    and km: "kmarks m (kpages m \<union> {f..<f + 1}) m'" and f: "base_page m \<le> f" "f + 1 \<le> 2 ^ 20"
  note ds = heap_okD(1)[OF ok]
  have f20: "f < 2 ^ 20" using f(2) by simp
  have fk: "f \<notin> kpages m" using new by simp
  have m': "kpages m' = insert f (kpages m)" "kmap_ok m'" "base_page m' = base_page m" using km by (auto simp: kmarks_def)
  let ?a = "put_arena (4096 * f) \<lparr>adesc = Some d, acount = of_nat (nblocks d), large = 0, amagic = YUI_MAGIC\<rparr> a"
  let ?h = "clear_nodes (4096 * f) (4096 * 1) h" and ?fl = "fl(d := rev (map (cell f d) [0..<nblocks d]))"
  have a': "descs_ok ?a limit = descs_ok a limit" "descs ?a = descs a" "free_lists ?a = free_lists a"
    "arena_at ?a x = (if x = 4096 * f then \<lparr>adesc = Some d, acount = of_nat (nblocks d), large = 0, amagic = YUI_MAGIC\<rparr> else arena_at a x)"
    for limit x by (simp_all add: put_arena_def descs_ok_def free_lists_def fun_eq_iff)
  have None: "A f = None" using arena_free_page[OF ok fk] .
  have apart: "g \<noteq> f" if "A g \<noteq> None" for g using None that by auto
  have listed: "b \<notin> cells f d" if e: "e < 7" "b \<in> set (fl e)" for e b
  proof
    assume b: "b \<in> cells f d"
    obtain g where "A g = Some (Small e)" "b \<in> cells g e" using heap_okD(8)[OF ok e] by blast
    then show False using cells_page_unique[OF d(1) e(1) b] apart[of g] by simp
  qed
  have "fl(d := []) = fl" using d(2) by auto
  moreover have "rev (map (cell f d) [0..<0]) = []" by simp
  ultimately have "dlls ?h (free_lists ?a (fl(d := rev (map (cell f d) [0..<0]))))"
    using clear_keeps[OF ok new f(1)] unfolding a'(3) by (simp only:)
  then obtain h' where h': "fill_loop ?a (4096 * f) ?h 0 (nblocks d) = Inr h'" "dlls h' (free_lists ?a ?fl)"
    using fill_loop_ok[of ?a "4096 * base_page m" d f 0 "nblocks d" ?h fl] ds d(1) f(1) listed by (auto simp: a')
  have nb: "unat (total_block (descs a ! d)) = nblocks d" "total_block (descs a ! d) = of_nat (nblocks d)"
    using descs_okD(3)[OF ds d(1)] block_sizes(5)[OF d(1)] by (simp_all add: unat_of_nat32)
  have "new_arena a m h d = Inr (?a, m', h')"
    using al h'(1) nb descs_okD(5)[OF ds d(1)] page_at_simps(1)[OF f20]
    by (simp add: new_arena_def Let_def PAGE_SIZE_def)
  moreover have "set (?fl d) = cells f d" by (auto simp: cells_def)
  moreover have "?fl d \<noteq> []" using block_sizes(4)[OF d(1)] by simp
  moreover have "heap_ok ?a m' h' (A(f \<mapsto> Small d)) ?fl"
  proof (rule heap_ok_add[OF ok new _ km _ h'(2)])
    show "descs_ok ?a (4096 * base_page m)" using ds by (simp add: a'(1))
    show "arena_at ?a (4096 * g) = arena_at a (4096 * g)" if "g \<noteq> f" for g using that by (simp add: a'(4))
    show "cells g e \<inter> set (?fl e) = cells g e \<inter> set (fl e)" if "g \<noteq> f" "A g = Some (Small e)" for g e
      using cells_page_unique[OF d(1,1), of _ g f] that(1) \<open>set (?fl d) = cells f d\<close> d(2) by (cases "e = d") auto
    show "b \<in> set (fl e) \<or> Small d = Small e \<and> b \<in> cells f e" if "b \<in> set (?fl e)" for e b
      using that \<open>set (?fl d) = cells f d\<close> by (cases "e = d") auto
    show "1 = 1 \<and> e < 7 \<and> arena_at ?a (4096 * f)
        = \<lparr>adesc = Some e, acount = of_nat (card (cells f e \<inter> set (?fl e))), large = 0, amagic = YUI_MAGIC\<rparr>"
      if "Small d = Small e" for e
      using that d(1) \<open>set (?fl d) = cells f d\<close> card_cells[OF d(1), of f] unfolding kind.inject a'(4) by auto
  qed simp_all
  moreover have "kmarks m (insert f (kpages m)) m'" using km by (simp add: ac_simps)
  ultimately show ?thesis using fk m' a'(2)
    by (intro disjI2 exI[of _ ?a] exI[of _ m'] exI[of _ h'] exI[of _ f] exI[of _ ?fl]) simp
  qed (simp_all add: new_arena_def)
qed

text \<open>The blocks that are handed out, and how many bytes there are from an address on in its block.\<close>

definition live_at :: "(nat \<rightharpoonup> kind) \<Rightarrow> (nat \<Rightarrow> addr list) \<Rightarrow> nat \<Rightarrow> addr set" where
  "live_at A fl f = (case A f of None \<Rightarrow> {} | Some (Small d) \<Rightarrow> cells f d - set (fl d) | Some (Large n) \<Rightarrow> {4096 * f + 16})"

definition live :: "(nat \<rightharpoonup> kind) \<Rightarrow> (nat \<Rightarrow> addr list) \<Rightarrow> addr set" where
  "live A fl = (\<Union>f. live_at A fl f)"

definition room :: "(nat \<rightharpoonup> kind) \<Rightarrow> addr \<Rightarrow> nat \<Rightarrow> bool" where
  "room A b n = ((\<exists>f d. A f = Some (Small d) \<and> b \<in> cells f d \<and> n \<le> bsize d)
     \<or> (\<exists>f c. A f = Some (Large c) \<and> b = 4096 * f + 16 \<and> 16 + n \<le> 4096 * c))"

lemma room_span:
  assumes "heap_ok a m h A fl" "room A b n"
  shows "\<exists>f. (\<forall>x. b \<le> x \<and> x < b + n \<longrightarrow> x div 4096 \<in> span A f)
    \<and> (\<forall>d. A f = Some (Small d) \<longrightarrow> b \<in> cells f d \<and> n \<le> bsize d)
    \<and> (\<forall>c. A f = Some (Large c) \<longrightarrow> b = 4096 * f + 16) \<and> A f \<noteq> None"
proof -
  from assms(2) consider (small) f d where "A f = Some (Small d)" "b \<in> cells f d" "n \<le> bsize d"
    | (large) f c where "A f = Some (Large c)" "b = 4096 * f + 16" "16 + n \<le> 4096 * c"
    unfolding room_def by blast
  then show ?thesis
  proof cases
    case small
    note b = cells_in_page[OF _ small(2)] heap_okD(7)[OF assms(1) small(1)]
    have "x div 4096 = f" if "b \<le> x" "x < b + n" for x using b that small(3) by (intro div_nat_eqI) auto
    then show ?thesis using small by (intro exI[of _ f]) (auto simp: span_def)
  next
    case large
    have "f \<le> x div 4096 \<and> x div 4096 < f + c" if "b \<le> x" "x < b + n" for x
      using large(2,3) that by (simp add: less_eq_div_iff_mult_less_eq div_less_iff_less_mult)
    then show ?thesis using large by (intro exI[of _ f]) (auto simp: span_def)
  qed
qed

lemma rooms_apart:
  assumes "heap_ok a m h A fl" "room A b n" "room A c k" "b \<noteq> c"
  shows "{b..<b + n} \<inter> {c..<c + k} = {}"
proof -
  obtain f where f: "\<forall>x. b \<le> x \<and> x < b + n \<longrightarrow> x div 4096 \<in> span A f"
    "\<And>d. A f = Some (Small d) \<Longrightarrow> b \<in> cells f d \<and> n \<le> bsize d" "\<And>c. A f = Some (Large c) \<Longrightarrow> b = 4096 * f + 16"
    "A f \<noteq> None" using room_span[OF assms(1,2)] by blast
  obtain g where g: "\<forall>x. c \<le> x \<and> x < c + k \<longrightarrow> x div 4096 \<in> span A g"
    "\<And>d. A g = Some (Small d) \<Longrightarrow> c \<in> cells g d \<and> k \<le> bsize d" "\<And>n. A g = Some (Large n) \<Longrightarrow> c = 4096 * g + 16"
    using room_span[OF assms(1,3)] by blast
  show ?thesis
  proof (cases "f = g")
    case True
    then obtain d where d: "A f = Some (Small d)" using f(3,4) g(3) assms(4) by (metis kind.exhaust not_None_eq)
    obtain i j where ij: "b = cell f d i" "c = cell f d j" using f(2)[OF d] g(2)[of d] d True by (auto simp: cells_def)
    have "i \<noteq> j" using ij assms(4) by auto
    then have "i < j \<or> j < i" by linarith
    then have "Suc i * bsize d \<le> j * bsize d \<or> Suc j * bsize d \<le> i * bsize d" using mult_le_mono1 by (meson Suc_leI)
    then show ?thesis using f(2)[OF d] g(2)[of d] d True ij by (auto simp: cell_def)
  next
    case False
    show ?thesis using heap_okD(5)[OF assms(1) False] f(1) g(1) by fastforce
  qed
qed

text \<open>The free list of one size gets other blocks of one of its pages.\<close>

lemma heap_ok_relist:
  assumes ok: "heap_ok a m h A fl" and f: "A f = Some (Small d)"
    and h': "dlls h' (free_lists a (fl(d := xs)))"
    and same: "\<And>g. g \<noteq> f \<Longrightarrow> cells g d \<inter> set xs = cells g d \<inter> set (fl d)"
    and cover: "\<And>b. b \<in> set xs \<Longrightarrow> \<exists>g. A g = Some (Small d) \<and> b \<in> cells g d"
  shows "heap_ok (put_arena (4096 * f) ((arena_at a (4096 * f))\<lparr>acount := of_nat (card (cells f d \<inter> set xs))\<rparr>) a) m h' A (fl(d := xs))"
proof -
  let ?ar = "(arena_at a (4096 * f))\<lparr>acount := of_nat (card (cells f d \<inter> set xs))\<rparr>"
  let ?a = "put_arena (4096 * f) ?ar a"
  have a': "descs_ok ?a limit = descs_ok a limit" "free_lists ?a = free_lists a"
    "arena_at ?a x = (if x = 4096 * f then ?ar else arena_at a x)" for limit x
    by (simp_all add: put_arena_def descs_ok_def free_lists_def fun_eq_iff)
  note ar = heap_okD(7)[OF ok f]
  show ?thesis
    unfolding heap_ok_def
  proof (intro conjI allI impI)
    show "dlls h' (free_lists ?a (fl(d := xs)))" unfolding a'(2) by (rule h')
    show "0 < n" "n < 2 ^ 32" "arena_at ?a (4096 * g) = \<lparr>adesc = None, acount = of_nat n, large = 1, amagic = YUI_MAGIC\<rparr>"
      if "A g = Some (Large n)" for g n
      using heap_okD(6)[OF ok that] that f by (auto simp: a'(3))
    show "e < 7" if "A g = Some (Small e)" for g e using heap_okD(7)[OF ok that] by blast
    show "arena_at ?a (4096 * g) = \<lparr>adesc = Some e, acount = of_nat (card (cells g e \<inter> set ((fl(d := xs)) e))), large = 0,
        amagic = YUI_MAGIC\<rparr>" if g: "A g = Some (Small e)" for g e
    proof (cases "g = f")
      case True
      then have e: "e = d" using g f by simp
      show ?thesis using ar unfolding True e a'(3) by simp
    next
      case False
      then have "cells g e \<inter> set ((fl(d := xs)) e) = cells g e \<inter> set (fl e)" using same[OF False] by (cases "e = d") simp_all
      then show ?thesis using heap_okD(7)[OF ok g] False by (simp add: a'(3))
    qed
    show "\<forall>b\<in>set ((fl(d := xs)) e). \<exists>g. A g = Some (Small e) \<and> b \<in> cells g e" if "e < 7" for e
      using cover heap_okD(8)[OF ok that] by (cases "e = d") auto
  qed (use heap_okD(1,2,4,5)[OF ok] in \<open>simp_all add: a'(1)\<close>)
qed

text \<open>An arena whose blocks are in no list any more is given back.\<close>

lemma heap_ok_drop:
  assumes ok: "heap_ok a m h A fl" and km: "kmarks m (kpages m - span A f) m'" and h': "dlls h' (free_lists a fl')"
    and sub: "\<And>e. e < 7 \<Longrightarrow> set (fl' e) \<subseteq> set (fl e)"
    and keep: "\<And>g e. e < 7 \<Longrightarrow> g \<noteq> f \<Longrightarrow> cells g e \<inter> set (fl' e) = cells g e \<inter> set (fl e)"
    and gone: "\<And>e. A f = Some (Small e) \<Longrightarrow> cells f e \<inter> set (fl' e) = {}"
  shows "heap_ok a m' h' (A(f := None)) fl'"
proof -
  have m': "kpages m' = kpages m - span A f" "kmap_ok m'" "base_page m' = base_page m" using km by (auto simp: kmarks_def)
  have sp: "span (A(f := None)) g = (if g = f then {} else span A g)" for g by (simp add: span_def)
  show ?thesis
    unfolding heap_ok_def
  proof (intro conjI allI impI)
    show "span (A(f := None)) g \<subseteq> kpages m'" for g
      using heap_okD(4)[OF ok, of g] heap_okD(5)[OF ok, of g f] unfolding sp m'(1) by auto
    show "span (A(f := None)) x \<inter> span (A(f := None)) y = {}" if "x \<noteq> y" for x y
      using heap_okD(5)[OF ok that] by (simp add: sp)
    show "0 < n" "n < 2 ^ 32" "arena_at a (4096 * g) = \<lparr>adesc = None, acount = of_nat n, large = 1, amagic = YUI_MAGIC\<rparr>"
      if "(A(f := None)) g = Some (Large n)" for g n
      using heap_okD(6)[OF ok, of g n] that by (auto split: if_splits)
    show "e < 7" if "(A(f := None)) g = Some (Small e)" for g e
      using heap_okD(7)[OF ok, of g e] that by (auto split: if_splits)
    show "arena_at a (4096 * g) = \<lparr>adesc = Some e, acount = of_nat (card (cells g e \<inter> set (fl' e))), large = 0,
        amagic = YUI_MAGIC\<rparr>" if "(A(f := None)) g = Some (Small e)" for g e
    proof -
      have g: "A g = Some (Small e)" "g \<noteq> f" using that by (auto split: if_splits)
      show ?thesis using heap_okD(7)[OF ok g(1)] keep[of e g] g(2) by simp
    qed
    show "\<forall>b\<in>set (fl' e). \<exists>g. (A(f := None)) g = Some (Small e) \<and> b \<in> cells g e" if e: "e < 7" for e
    proof
      fix b assume b: "b \<in> set (fl' e)"
      then obtain g where g: "A g = Some (Small e)" "b \<in> cells g e" using heap_okD(8)[OF ok e, of b] sub[OF e] by blast
      then have "g \<noteq> f" using gone b by blast
      then show "\<exists>g. (A(f := None)) g = Some (Small e) \<and> b \<in> cells g e" using g by (intro exI[of _ g]) simp
    qed
  qed (use heap_okD(1)[OF ok] m' h' in simp_all)
qed

lemma card_insert_cells: "b \<notin> X \<Longrightarrow> finite X \<Longrightarrow> (of_nat (card (insert b X)) :: u32) - 1 = of_nat (card X)"
  by simp

lemma take_block:
  assumes ok: "heap_ok a m h A fl" and d: "d < 7" "fl d = b # bs"
  shows "\<exists>h' f. list_pop h (free_list (descs a ! d)) = Inr (h', b) \<and> A f = Some (Small d) \<and> b \<in> cells f d
    \<and> get_block_arena b = 4096 * f
    \<and> heap_ok (put_arena (4096 * f) ((arena_at a (4096 * f))\<lparr>acount := acount (arena_at a (4096 * f)) - 1\<rparr>) a) m h' A (fl(d := bs))"
proof -
  note ds = heap_okD(1)[OF ok]
  note L = free_lists_at[OF ds d(1), of fl, unfolded d(2)]
  obtain h' where h': "list_pop h (free_list (descs a ! d)) = Inr (h', b)" "dlls h' (free_lists a (fl(d := bs)))"
    using dlls_pop[OF heap_okD(3)[OF ok] L] free_lists_upd[OF ds d(1)] by auto
  have nb: "b \<notin> set bs" using dllsD[OF heap_okD(3)[OF ok] L] by (auto simp: dll_def)
  obtain f where f: "A f = Some (Small d)" "b \<in> cells f d" using heap_okD(8)[OF ok d(1), of b] d(2) by auto
  have page: "f < 2 ^ 20" using heap_okD(4)[OF ok, of f] kpages_below[OF heap_okD(2)[OF ok], of f] f(1) by (simp add: span_def)
  have g: "get_block_arena b = 4096 * f"
    using cells_in_page[OF d(1) f(2)] block_sizes(1)[OF d(1)] by (intro get_block_arena_page[OF _ _ page]) linarith+
  have "cells f d \<inter> set (fl d) = insert b (cells f d \<inter> set bs)" using d(2) f(2) by auto
  then have c: "acount (arena_at a (4096 * f)) - 1 = of_nat (card (cells f d \<inter> set bs))"
    using heap_okD(7)[OF ok f(1)] nb by simp
  have other: "cells g d \<inter> set bs = cells g d \<inter> set (fl d)" if "g \<noteq> f" for g
    using cells_page_unique[OF d(1,1) _ f(2)] that d(2) by auto
  have cover: "\<exists>g. A g = Some (Small d) \<and> x \<in> cells g d" if "x \<in> set bs" for x
    using heap_okD(8)[OF ok d(1), of x] that d(2) by simp
  have "heap_ok (put_arena (4096 * f) ((arena_at a (4096 * f))\<lparr>acount := of_nat (card (cells f d \<inter> set bs))\<rparr>) a) m h' A (fl(d := bs))"
    by (rule heap_ok_relist[OF ok f(1) h'(2)]) (use other cover in blast)+
  then have "heap_ok (put_arena (4096 * f) ((arena_at a (4096 * f))\<lparr>acount := acount (arena_at a (4096 * f)) - 1\<rparr>) a) m h' A
    (fl(d := bs))" by (simp only: c)
  then show ?thesis using h'(1) f g by blast
qed

text \<open>The heap after \<open>b\<close> was handed out for \<open>n\<close> bytes.\<close>

definition handed :: "(nat \<rightharpoonup> kind) \<Rightarrow> (nat \<Rightarrow> addr list) \<Rightarrow> (nat \<rightharpoonup> kind) \<Rightarrow> (nat \<Rightarrow> addr list) \<Rightarrow> addr \<Rightarrow> nat \<Rightarrow> bool" where
  "handed A fl A' fl' b n = (b \<notin> live A fl \<and> live A' fl' = insert b (live A fl) \<and> room A' b n
     \<and> (\<forall>c k. room A c k \<longrightarrow> room A' c k))"

lemma in_page_div: "d < 7 \<Longrightarrow> b \<in> cells f d \<Longrightarrow> b div 4096 = f"
  using cells_in_page[of d b f] block_sizes(1)[of d] by (intro div_nat_eqI) auto

lemma live_at_page:
  assumes "heap_ok a m h A fl" "b \<in> live_at A fl f"
  shows "b div 4096 = f"
proof (cases "A f")
  case (Some k)
  then show ?thesis
  proof (cases k)
    case (Small d)
    then show ?thesis using assms Some in_page_div[of d b f] heap_okD(7)[OF assms(1), of f d] by (simp add: live_at_def)
  qed (use assms(2) Some in \<open>simp add: live_at_def\<close>)
qed (use assms(2) in \<open>simp add: live_at_def\<close>)

lemma live_iff: "heap_ok a m h A fl \<Longrightarrow> b \<in> live A fl \<longleftrightarrow> b \<in> live_at A fl (b div 4096)"
  using live_at_page by (fastforce simp: live_def)

text \<open>Only the arena \<open>f\<close> changes.\<close>

lemma live_change:
  assumes "\<And>g. g \<noteq> f \<Longrightarrow> live_at A' fl' g = live_at A fl g"
  shows "live A' fl' = live_at A' fl' f \<union> (\<Union>g\<in>- {f}. live_at A fl g)" "live A fl = live_at A fl f \<union> (\<Union>g\<in>- {f}. live_at A fl g)"
proof -
  have U: "(\<Union>g. F g) = F f \<union> (\<Union>g\<in>- {f}. F g)" for F :: "nat \<Rightarrow> addr set" by blast
  show "live A fl = live_at A fl f \<union> (\<Union>g\<in>- {f}. live_at A fl g)" unfolding live_def by (rule U)
  show "live A' fl' = live_at A' fl' f \<union> (\<Union>g\<in>- {f}. live_at A fl g)"
    unfolding live_def U[of "live_at A' fl'"] using assms by simp
qed

lemma live_take:
  assumes ok: "heap_ok a m h A fl" and d: "d < 7" "fl d = b # bs" "A f = Some (Small d)" "b \<in> cells f d" "b \<notin> set bs"
  shows "live A (fl(d := bs)) = insert b (live A fl)" "b \<notin> live A fl"
proof -
  show "b \<notin> live A fl" using live_iff[OF ok] in_page_div[OF d(1,4)] d(2,3) by (simp add: live_at_def)
  have "live_at A (fl(d := bs)) g = live_at A fl g" if "g \<noteq> f" for g
  proof -
    have "b \<notin> cells g d" using cells_page_unique[OF d(1,1) _ d(4)] that by blast
    then show ?thesis using d(2) by (auto simp: live_at_def split: option.split kind.split)
  qed
  note c = live_change[OF this]
  have "live_at A (fl(d := bs)) f = insert b (live_at A fl f)" using d(2-5) by (auto simp: live_at_def)
  then show "live A (fl(d := bs)) = insert b (live A fl)" using c by auto
qed

text \<open>A new page whose blocks are all free hands out nothing.\<close>

lemma live_new_page:
  assumes ok: "heap_ok a m h A fl" and d: "d < 7" "A f = None" "\<forall>e. e \<noteq> d \<longrightarrow> fl' e = fl e" "set (fl' d) = cells f d" "fl d = []"
  shows "live (A(f \<mapsto> Small d)) fl' = live A fl"
proof -
  have "live_at (A(f \<mapsto> Small d)) fl' g = live_at A fl g" for g
  proof (cases "g = f")
    case False
    have "cells g e - set (fl' e) = cells g e - set (fl e)" if "A g = Some (Small e)" for e
    proof (cases "e = d")
      case True
      have "cells g d \<inter> cells f d = {}" using cells_page_unique[OF d(1,1)] False by blast
      then show ?thesis using True d(4,5) by auto
    qed (use d(3) in simp)
    then show ?thesis using False by (auto simp: live_at_def split: option.split kind.split)
  qed (use d(2,4) in \<open>simp add: live_at_def\<close>)
  then show ?thesis by (simp add: live_def)
qed

lemma room_more: "room A c k \<Longrightarrow> A f = None \<Longrightarrow> room (A(f \<mapsto> x)) c k"
  unfolding room_def by (metis fun_upd_apply option.distinct(1))

text \<open>At most one page is taken.\<close>

definition grown :: "kmem \<Rightarrow> kmem \<Rightarrow> bool" where
  "grown m m' = (m' = m \<or> (\<exists>f. kmarks m (insert f (kpages m)) m'))"

lemma kmalloc_small:
  assumes ok: "heap_ok a m h A fl" and n: "unat bytes \<le> 1024"
  shows "kmalloc a m h bytes = Inl Panic \<and> kfull m 1
    \<or> (\<exists>a' m' h' b A' fl'. kmalloc a m h bytes = Inr (a', m', h', b) \<and> heap_ok a' m' h' A' fl' \<and> handed A fl A' fl' b (unat bytes)
        \<and> grown m m')"
proof -
  define d where "d = desc_loop (descs a) bytes 0 DESC_COUNT"
  note ds = heap_okD(1)[OF ok]
  have d: "d < 7" "unat bytes \<le> bsize d"
    using desc_loop_fits[OF ds, of 0 7 bytes] n by (simp_all add: d_def DESC_COUNT_def)
  let ?r = "if list_empty h (free_list (descs a ! d)) then new_arena a m h d else Inr (a, m, h)"
  have km: "kmalloc a m h bytes = bnd ?r (\<lambda>(a', m, h). bnd (list_pop h (free_list (descs a ! d))) (\<lambda>(h, block).
      let p = get_block_arena block; ar = arena_at a' p in bnd (assrt (amagic ar = YUI_MAGIC \<and> large ar = 0)) (\<lambda>_.
      Inr (put_arena p (ar\<lparr>acount := acount ar - 1\<rparr>) a', m, h, block))))"
    using n descs_okD(5)[OF ds d(1)] by (simp add: kmalloc_def d_def[symmetric] word_less_nat_alt Let_def)
  have empty: "list_empty h (free_list (descs a ! d)) \<longleftrightarrow> fl d = []"
    using dll_empty[OF dllsD[OF heap_okD(3)[OF ok] free_lists_at[OF ds d(1)]]] by simp
  have "?r = Inl Panic \<and> kfull m 1 \<or> (\<exists>a1 m1 h1 A1 fl1. ?r = Inr (a1, m1, h1) \<and> heap_ok a1 m1 h1 A1 fl1 \<and> descs a1 = descs a \<and> fl1 d \<noteq> []
      \<and> live A1 fl1 = live A fl \<and> (\<forall>c k. room A c k \<longrightarrow> room A1 c k) \<and> grown m m1)"
  proof (cases "fl d = []")
    case True
    from new_arena_cases[OF ok d(1) True] show ?thesis
    proof (elim disjE exE conjE)
      fix a1 m1 h1 f fl1
      assume r: "new_arena a m h d = Inr (a1, m1, h1)" "heap_ok a1 m1 h1 (A(f \<mapsto> Small d)) fl1" "f \<notin> kpages m"
        "descs a1 = descs a"        "\<forall>e. e \<noteq> d \<longrightarrow> fl1 e = fl e" "set (fl1 d) = cells f d" "fl1 d \<noteq> []"
        and km1: "kmarks m (insert f (kpages m)) m1"
      have N: "A f = None" using arena_free_page[OF ok r(3)] .
      have "live (A(f \<mapsto> Small d)) fl1 = live A fl" by (rule live_new_page[OF ok d(1) N r(5,6) True])
      moreover have "\<forall>c k. room A c k \<longrightarrow> room (A(f \<mapsto> Small d)) c k" using room_more N by blast
      moreover have "grown m m1" using km1 by (auto simp: grown_def)
      ultimately show ?thesis using r True empty
        by (intro disjI2 exI[of _ a1] exI[of _ m1] exI[of _ h1] exI[of _ "A(f \<mapsto> Small d)"] exI[of _ fl1]) simp
    qed (use True empty in simp)
  next
    case False
    then show ?thesis using ok empty
      by (intro disjI2 exI[of _ a] exI[of _ m] exI[of _ h] exI[of _ A] exI[of _ fl]) (simp add: grown_def)
  qed
  then show ?thesis
  proof (elim disjE exE conjE)
    assume "?r = Inl Panic" "kfull m 1"
    then show ?thesis using km by simp
  next
    fix a1 m1 h1 A1 fl1
    assume r: "?r = Inr (a1, m1, h1)" and ok1: "heap_ok a1 m1 h1 A1 fl1" and da: "descs a1 = descs a" and ne: "fl1 d \<noteq> []"
      and lv: "live A1 fl1 = live A fl" and m1: "grown m m1" and rm: "\<forall>c k. room A c k \<longrightarrow> room A1 c k"
    obtain b bs where bs: "fl1 d = b # bs" using ne by (cases "fl1 d") auto
    obtain h' f where t: "list_pop h1 (free_list (descs a1 ! d)) = Inr (h', b)" "A1 f = Some (Small d)" "b \<in> cells f d"
      "get_block_arena b = 4096 * f"
      "heap_ok (put_arena (4096 * f) ((arena_at a1 (4096 * f))\<lparr>acount := acount (arena_at a1 (4096 * f)) - 1\<rparr>) a1) m1 h' A1 (fl1(d := bs))"
      using take_block[where fl = fl1 and b = b and bs = bs, OF ok1 d(1) bs] by blast
    have nb: "b \<notin> set bs"
      using dllsD[OF heap_okD(3)[OF ok1] free_lists_at[OF heap_okD(1)[OF ok1] d(1)]] bs by (auto simp: dll_def)
    have "kmalloc a m h bytes
        = Inr (put_arena (4096 * f) ((arena_at a1 (4096 * f))\<lparr>acount := acount (arena_at a1 (4096 * f)) - 1\<rparr>) a1, m1, h', b)"
      using km r da t(1,4) heap_okD(7)[OF ok1 t(2)] by (simp add: Let_def)
    moreover have "handed A fl A1 (fl1(d := bs)) b (unat bytes)"
      using live_take[where fl = fl1, OF ok1 d(1) bs t(2,3) nb] lv rm t(2,3) d(2) unfolding handed_def room_def by auto
    ultimately show ?thesis using t(5) m1 by blast
  qed
qed

text \<open>A large block gets pages of its own.\<close>

lemma kmalloc_large_cases:
  assumes ok: "heap_ok a m h A fl" and n: "1024 < unat bytes" "unat bytes + 4112 \<le> 2 ^ 32"
  shows "kmalloc a m h bytes = Inl Panic \<and> kfull m ((unat bytes + 4111) div 4096)
    \<or> (\<exists>a' m' h' b A' fl'. kmalloc a m h bytes = Inr (a', m', h', b) \<and> heap_ok a' m' h' A' fl' \<and> handed A fl A' fl' b (unat bytes))"
proof -
  define c where "c = (unat bytes + 16 + 4095) div 4096"
  then have c_alt: "(unat bytes + 4111) div 4096 = c" by simp
  have as: "unat (bytes + ARENA_SIZE) = unat bytes + 16"
    using n(2) by (subst unat_word_ariths) (simp add: ARENA_SIZE_def)
  have cw: "div_round_up (bytes + ARENA_SIZE) PAGE_SIZE = of_nat c" "c < 2 ^ 32"
  proof -
    have u: "unat (div_round_up (bytes + ARENA_SIZE) PAGE_SIZE) = c"
      using n(2) by (subst unat_div_round_up) (simp_all add: as PAGE_SIZE_def c_def)
    show c32: "c < 2 ^ 32" using unat_lt32[of "div_round_up (bytes + ARENA_SIZE) PAGE_SIZE"] unfolding u .
    show "div_round_up (bytes + ARENA_SIZE) PAGE_SIZE = of_nat c" by (rule word_unat_eqI) (simp only: u unat_of_nat32[OF c32])
  qed
  have "4096 * c + (unat bytes + 16 + 4095) mod 4096 = unat bytes + 16 + 4095" unfolding c_def by simp
  moreover have "(unat bytes + 16 + 4095) mod 4096 < 4096" by simp
  ultimately have c2: "16 + unat bytes \<le> 4096 * c" by linarith
  then have c: "0 < c" "16 + unat bytes \<le> 4096 * c" by (simp_all add: gr0I)
  have km: "kmalloc a m h bytes = kmalloc_large a m h bytes" using n(1) by (simp add: kmalloc_def word_less_nat_alt)
  from alloc_kpage_cases[OF heap_okD(2)[OF ok] c(1) cw(2)] show ?thesis
  proof (elim disjE exE conjE)
    fix f m'
    assume al: "alloc_kpage m (of_nat c) = Inr (m', page_at f)" and new: "{f..<f + c} \<inter> kpages m = {}"
      and k: "kmarks m (kpages m \<union> {f..<f + c}) m'" and f: "base_page m \<le> f" "f + c \<le> 2 ^ 20"
    have f1: "1 \<le> f" "f < 2 ^ 20" "c < 2 ^ 20" using f c(1) heap_okD(2)[OF ok] by (auto simp: kmap_ok_def)
    let ?ar = "\<lparr>adesc = None, acount = of_nat c, large = 1, amagic = YUI_MAGIC\<rparr>"
    let ?a = "put_arena (4096 * f) ?ar a" and ?h = "clear_nodes (4096 * f) (4096 * c) h"
    have a': "descs_ok ?a limit = descs_ok a limit" "free_lists ?a = free_lists a"
      "arena_at ?a x = (if x = 4096 * f then ?ar else arena_at a x)" for limit x
      by (simp_all add: put_arena_def descs_ok_def free_lists_def fun_eq_iff)
    have uc: "unat (of_nat c * PAGE_SIZE :: u32) = 4096 * c"
      using f1 by (subst unat_word_ariths) (simp add: PAGE_SIZE_def unat_of_nat32)
    have pg: "unat (page_at f + ARENA_SIZE) = 4096 * f + 16"
      using f1 page_at_simps(1)[OF f1(2)] by (subst unat_word_ariths) (simp add: ARENA_SIZE_def)
    have "kmalloc a m h bytes = Inr (?a, m', ?h, 4096 * f + 16)"
      using al uc pg page_at_simps(1)[OF f1(2)] unfolding km kmalloc_large_def Let_def cw(1) by simp
    moreover have "heap_ok ?a m' ?h (A(f \<mapsto> Large c)) fl"
    proof (rule heap_ok_add[OF ok new c(1) k])
      show "dlls ?h (free_lists ?a fl)" using clear_keeps[OF ok new f(1)] by (simp add: a'(2))
    qed (use heap_okD(1)[OF ok] cw(2) in \<open>auto simp: a'\<close>)
    moreover have "handed A fl (A(f \<mapsto> Large c)) fl (4096 * f + 16) (unat bytes)"
    proof -
      have "f \<in> {f..<f + c}" using c(1) by simp
      then have N: "A f = None" using arena_free_page[OF ok] new by blast
      have "4096 * f + 16 \<notin> live A fl" using live_iff[OF ok, of "4096 * f + 16"] N by (simp add: live_at_def)
      moreover have "live (A(f \<mapsto> Large c)) fl = insert (4096 * f + 16) (live A fl)"
      proof -
        have "live_at (A(f \<mapsto> Large c)) fl g = live_at A fl g" if "g \<noteq> f" for g using that by (simp add: live_at_def)
        note ch = live_change[OF this]
        show ?thesis using N ch by (simp add: live_at_def)
      qed
      moreover have "room (A(f \<mapsto> Large c)) (4096 * f + 16) (unat bytes)"
        using c(2) by (auto simp: room_def)
      ultimately show ?thesis using room_more N by (simp add: handed_def)
    qed
    ultimately show ?thesis by blast
  qed (simp add: km kmalloc_large_def cw(1) Let_def c_alt)
qed

lemma kmalloc_cases:
  assumes "heap_ok a m h A fl" "unat bytes + 4112 \<le> 2 ^ 32"
  shows "kmalloc a m h bytes = Inl Panic \<and> kfull m (if unat bytes \<le> 1024 then 1 else (unat bytes + 4111) div 4096)
    \<or> (\<exists>a' m' h' b A' fl'. kmalloc a m h bytes = Inr (a', m', h', b) \<and> heap_ok a' m' h' A' fl' \<and> handed A fl A' fl' b (unat bytes))"
  using kmalloc_small[OF assms(1), of bytes] kmalloc_large_cases[OF assms(1) _ assms(2)] by (cases "unat bytes \<le> 1024") auto

text \<open>Giving back a block.\<close>

definition given :: "(nat \<rightharpoonup> kind) \<Rightarrow> (nat \<Rightarrow> addr list) \<Rightarrow> (nat \<rightharpoonup> kind) \<Rightarrow> (nat \<Rightarrow> addr list) \<Rightarrow> addr \<Rightarrow> bool" where
  "given A fl A' fl' b = (live A' fl' = live A fl - {b} \<and> (\<forall>c k. c \<in> live A' fl' \<longrightarrow> room A c k \<longrightarrow> room A' c k))"

lemma kfree_large:
  assumes ok: "heap_ok a m h A fl" and f: "A f = Some (Large c)"
  shows "\<exists>m' A'. kfree a m h (4096 * f + 16) = Inr (a, m', h) \<and> heap_ok a m' h A' fl \<and> given A fl A' fl (4096 * f + 16)"
proof -
  note ar = heap_okD(6)[OF ok f]
  have sp: "span A f = {f..<f + c}" using f by (simp add: span_def)
  have "f \<in> kpages m" using heap_okD(4)[OF ok, of f] ar unfolding sp by auto
  then have page: "f < 2 ^ 20" using kpages_below[OF heap_okD(2)[OF ok]] by blast
  have g: "get_block_arena (4096 * f + 16) = 4096 * f" by (rule get_block_arena_page[OF _ _ page]) simp_all
  have "{f..<f + c} \<subseteq> kpages m" using heap_okD(4)[OF ok, of f] by (simp only: sp)
  then obtain m' where m': "free_kpage m (page_at f) (of_nat c) = Inr m'" "kmarks m (kpages m - {f..<f + c}) m'"
    using free_kpage_ok[OF heap_okD(2)[OF ok]] ar by blast
  have "kfree a m h (4096 * f + 16) = Inr (a, m', h)"
    using ar g m'(1) by (simp add: kfree_def Let_def page_at_def)
  moreover have "heap_ok a m' h (A(f := None)) fl"
    by (rule heap_ok_drop[OF ok]) (use m'(2) heap_okD(3)[OF ok] f sp in auto)
  moreover have "given A fl (A(f := None)) fl (4096 * f + 16)"
  proof -
    have "live_at (A(f := None)) fl g = live_at A fl g" if "g \<noteq> f" for g using that by (simp add: live_at_def)
    note ch = live_change[OF this]
    have nin: "4096 * f + 16 \<notin> live_at A fl g" if "g \<noteq> f" for g using live_at_page[OF ok, of "4096 * f + 16" g] that by auto
    have "live (A(f := None)) fl = live A fl - {4096 * f + 16}" using ch nin f by (auto simp: live_at_def)
    moreover have "room (A(f := None)) x k" if "x \<noteq> 4096 * f + 16" "room A x k" for x k
      using that f unfolding room_def by (metis fun_upd_apply kind.distinct(1) kind.inject(2) option.inject)
    ultimately show ?thesis by (simp add: given_def)
  qed
  ultimately show ?thesis by blast
qed

text \<open>A small block goes back to its free list; when all blocks of its page are free the page is given back.\<close>

lemma push_block:
  assumes ok: "heap_ok a m h A fl" and f: "A f = Some (Small d)" "b \<in> cells f d" "b \<notin> set (fl d)"
  shows "\<exists>h'. list_push h (free_list (descs a ! d)) b = Inr h'
    \<and> heap_ok (put_arena (4096 * f) ((arena_at a (4096 * f))\<lparr>acount := acount (arena_at a (4096 * f)) + 1\<rparr>) a) m h' A (fl(d := b # fl d))"
proof -
  note ds = heap_okD(1)[OF ok] and d = conjunct1[OF heap_okD(7)[OF ok f(1)]]
  have "f \<in> kpages m" using heap_okD(4)[OF ok, of f] f(1) by (simp add: span_def)
  then have base: "4096 * base_page m \<le> 4096 * f" using kpages_below[OF heap_okD(2)[OF ok]] by simp
  have nl: "b \<notin> set (fl e)" if e: "e < 7" for e
  proof
    assume "b \<in> set (fl e)"
    then obtain g where g: "A g = Some (Small e)" "b \<in> cells g e" using heap_okD(8)[OF ok e] by blast
    then show False using cells_page_unique[OF e d g(2) f(2)] f \<open>b \<in> set (fl e)\<close> by simp
  qed
  then have o: "outside (free_lists a fl) b" using cell_outside[OF ds base d f(2)] by blast
  have b0: "b \<noteq> 0" using cells_in_page[OF d f(2)] by simp
  obtain h' where h': "list_push h (free_list (descs a ! d)) b = Inr h'" "dlls h' (free_lists a (fl(d := b # fl d)))"
    using dlls_push[OF heap_okD(3)[OF ok] free_lists_at[OF ds d] b0 o] free_lists_upd[OF ds d, of fl] by auto
  have "cells f d \<inter> set (b # fl d) = insert b (cells f d \<inter> set (fl d))" using f(2) by auto
  then have c: "of_nat (card (cells f d \<inter> set (b # fl d))) = acount (arena_at a (4096 * f)) + 1"
    using heap_okD(7)[OF ok f(1)] f(3) by simp
  have "heap_ok (put_arena (4096 * f) ((arena_at a (4096 * f))\<lparr>acount := of_nat (card (cells f d \<inter> set (b # fl d)))\<rparr>) a) m h' A
    (fl(d := b # fl d))"
  proof (rule heap_ok_relist[OF ok f(1) h'(2)])
    show "cells g d \<inter> set (b # fl d) = cells g d \<inter> set (fl d)" if "g \<noteq> f" for g
      using cells_page_unique[OF d d _ f(2)] that by auto
    show "\<exists>g. A g = Some (Small d) \<and> x \<in> cells g d" if "x \<in> set (b # fl d)" for x
      using that f(1,2) heap_okD(8)[OF ok d] by auto
  qed
  then show ?thesis using h'(1) unfolding c by blast
qed

lemma kfree_small:
  assumes ok: "heap_ok a m h A fl" and f: "A f = Some (Small d)" "b \<in> cells f d" "b \<notin> set (fl d)"
  shows "\<exists>a' m' h' A' fl'. kfree a m h b = Inr (a', m', h') \<and> heap_ok a' m' h' A' fl' \<and> given A fl A' fl' b"
proof -
  note ar = heap_okD(7)[OF ok f(1)] and ds = heap_okD(1)[OF ok]
  have d: "d < 7" using ar by blast
  have sp: "span A f = {f}" using f(1) by (simp add: span_def)
  have "f \<in> kpages m" using heap_okD(4)[OF ok, of f] sp by simp
  then have page: "base_page m \<le> f" "f < 2 ^ 20" using kpages_below[OF heap_okD(2)[OF ok]] by auto
  have b0: "b \<noteq> 0" "4096 * f \<le> b" "b < 4096 * f + 4096"
    using cells_in_page[OF d f(2)] block_sizes(1)[OF d] by linarith+
  have g: "get_block_arena b = 4096 * f" by (rule get_block_arena_page[OF b0(2,3) page(2)])
  let ?ar = "(arena_at a (4096 * f))\<lparr>acount := acount (arena_at a (4096 * f)) + 1\<rparr>" and ?fl = "fl(d := b # fl d)"
  let ?a = "put_arena (4096 * f) ?ar a"
  obtain h' where h': "list_push h (free_list (descs a ! d)) b = Inr h'" "heap_ok ?a m h' A ?fl"
    using push_block[OF ok f] by blast
  have tb: "total_block (descs a ! d) = of_nat (nblocks d)" "unat (of_nat (nblocks d) :: u32) = nblocks d"
    using descs_okD(3)[OF ds d] block_sizes(5)[OF d] by (simp_all add: unat_of_nat32)
  have desc: "desc_of a (4096 * f) = Inr (descs a ! d)" using ar descs_okD(5)[OF ds d] by (simp add: desc_of_def)
  have k: "kfree a m h b = (if acount ?ar = of_nat (nblocks d)
      then bnd (drain_loop ?a (4096 * f) h' 0 (nblocks d)) (\<lambda>h. bnd (free_kpage m (page_at f) 1) (\<lambda>m. Inr (?a, m, h)))
      else Inr (?a, m, h'))"
    using ar b0(1) g desc h'(1) tb by (simp add: kfree_def Let_def page_at_def)
  have rooms: "given A fl A ?fl b"
  proof -
    have "live_at A ?fl g = live_at A fl g" if "g \<noteq> f" for g
    proof -
      have "b \<notin> cells g d" using cells_page_unique[OF d d _ f(2)] that by blast
      then show ?thesis by (auto simp: live_at_def split: option.split kind.split)
    qed
    note ch = live_change[OF this]
    have "b \<notin> live_at A fl g" if "g \<noteq> f" for g using live_at_page[OF ok, of b g] in_page_div[OF d f(2)] that by auto
    moreover have "live_at A ?fl f = live_at A fl f - {b}" using f(1) by (auto simp: live_at_def)
    ultimately have "live A ?fl = live A fl - {b}" using ch by auto
    then show ?thesis by (simp add: given_def)
  qed
  show ?thesis
  proof (cases "acount ?ar = of_nat (nblocks d)")
    case False
    then show ?thesis using k h'(2) rooms by auto
  next
    case True
    have "acount ?ar = of_nat (card (cells f d \<inter> set (?fl d)))" using heap_okD(7)[OF h'(2) f(1)] by (simp add: put_arena_def)
    moreover have le: "card (cells f d \<inter> set (?fl d)) \<le> nblocks d"
      using card_mono[of "cells f d" "cells f d \<inter> set (?fl d)"] card_cells[OF d] by simp
    ultimately have "card (cells f d \<inter> set (?fl d)) = card (cells f d)"
      using True of_nat_neq32[of "card (cells f d \<inter> set (?fl d))" "nblocks d"] block_sizes(5)[OF d] card_cells[OF d] by simp
    then have "cells f d \<inter> set (?fl d) = cells f d" by (intro card_subset_eq) simp_all
    then have all: "cell f d ` {0..<nblocks d} \<subseteq> set (?fl d)" by (auto simp: cells_def lessThan_atLeast0)
    have cs: "cell f d ` {0..<nblocks d} = cells f d" by (simp add: cells_def lessThan_atLeast0)
    have da: "descs_ok ?a (4096 * base_page m)" "adesc (arena_at ?a (4096 * f)) = Some d"
      using heap_okD(1)[OF h'(2)] ar by (simp_all add: put_arena_def)
    have lim: "4096 * base_page m \<le> 4096 * f" using page(1) by simp
    obtain h2 ys where dr: "drain_loop ?a (4096 * f) h' 0 (nblocks d) = Inr h2" "dlls h2 (free_lists ?a (?fl(d := ys)))"
      "set ys = set (?fl d) - cell f d ` {0..<nblocks d}"
      using drain_loop_ok[OF da(1) d da(2) lim add_0 heap_okD(3)[OF h'(2)] all] by blast
    have "{f..<f + 1} \<subseteq> kpages m" using \<open>f \<in> kpages m\<close> by simp
    then obtain m' where m': "free_kpage m (page_at f) (of_nat 1) = Inr m'" "kmarks m (kpages m - {f..<f + 1}) m'"
      using free_kpage_ok[OF heap_okD(2)[OF ok], of 1 f] by auto
    let ?fl' = "?fl(d := ys)"
    have "kfree a m h b = Inr (?a, m', h2)" using k True dr(1) m'(1) by simp
    moreover have "heap_ok ?a m' h2 (A(f := None)) ?fl'"
    proof (rule heap_ok_drop[OF h'(2) _ dr(2)])
      show "kmarks m (kpages m - span A f) m'" using m'(2) sp by simp
      show "set (?fl' e) \<subseteq> set (?fl e)" for e using dr(3) by (cases "e = d") auto
      show "cells g e \<inter> set (?fl' e) = cells g e \<inter> set (?fl e)" if "g \<noteq> f" for g e
      proof (cases "e = d")
        case True
        have "cells g d \<inter> cells f d = {}" using cells_page_unique[OF d d] that by blast
        then show ?thesis using dr(3) unfolding True cs by auto
      qed simp
      show "cells f e \<inter> set (?fl' e) = {}" if "A f = Some (Small e)" for e
        using that f(1) dr(3) unfolding cs by auto
    qed
    moreover have "given A fl (A(f := None)) ?fl' b"
    proof -
      have "live_at (A(f := None)) ?fl' g = live_at A ?fl g" for g
      proof (cases "g = f")
        case True
        then show ?thesis using \<open>cells f d \<inter> set (?fl d) = cells f d\<close> f(1) by (auto simp: live_at_def)
      next
        case False
        have "cells g d \<inter> cells f d = {}" using cells_page_unique[OF d d] False by blast
        then have "cells g d - set ys = cells g d - set (b # fl d)" using dr(3) unfolding cs by auto
        then show ?thesis using False by (auto simp: live_at_def split: option.split kind.split)
      qed
      then have lv: "live (A(f := None)) ?fl' = live A ?fl" by (simp add: live_def)
      have "f \<noteq> g" if "x \<in> live A ?fl" "x \<in> cells g e" "A g = Some (Small e)" for x g e
      proof
        assume "f = g"
        then have "x \<in> cells f d" using that(2,3) f(1) by simp
        then have "x \<in> live_at A ?fl f" using that(1) live_iff[OF h'(2)] in_page_div[OF d] by metis
        then show False using \<open>cells f d \<inter> set (?fl d) = cells f d\<close> f(1) \<open>x \<in> cells f d\<close> by (auto simp: live_at_def)
      qed
      then have "room (A(f := None)) x k" if "x \<in> live A ?fl" "room A x k" for x k
        using that f(1) unfolding room_def by (metis fun_upd_apply kind.distinct(1) option.inject)
      then show ?thesis using rooms lv by (simp add: given_def)
    qed
    ultimately show ?thesis by blast
  qed
qed

lemma kfree_ok:
  assumes ok: "heap_ok a m h A fl" and b: "b \<in> live A fl"
  shows "\<exists>a' m' h' A' fl'. kfree a m h b = Inr (a', m', h') \<and> heap_ok a' m' h' A' fl' \<and> given A fl A' fl' b"
proof -
  obtain f where f: "b \<in> live_at A fl f" using b by (auto simp: live_def)
  then obtain k where k: "A f = Some k" by (cases "A f") (auto simp: live_at_def)
  show ?thesis
  proof (cases k)
    case (Small d)
    then show ?thesis using kfree_small[OF ok, of f d b] f k by (simp add: live_at_def)
  next
    case (Large c)
    then have "b = 4096 * f + 16" using f k by (simp add: live_at_def)
    then show ?thesis using kfree_large[OF ok, of f c] Large k by blast
  qed
qed

subsection \<open>The start\<close>

definition heads_of :: "arenas \<Rightarrow> addr list" where
  "heads_of a = map (\<lambda>d. free_list (descs a ! d)) [0..<7]"

definition heap_start :: "arenas \<Rightarrow> kmem \<Rightarrow> bool" where
  "heap_start a m = (length (descs a) = 7 \<and> kmap_ok m \<and> heads_apart (set (heads_of a)) \<and> distinct (heads_of a)
     \<and> (\<forall>l\<in>set (heads_of a). l + 8 < 4096 * base_page m))"

lemma arena_init_loop_ok:
  assumes "length ds = 7" "i + n = 7"
  shows "\<exists>ds'. arena_init_loop ds h (of_nat (bsize i)) i n = (ds', inits (map (\<lambda>d. free_list (ds ! d)) [i..<7]) h)
    \<and> length ds' = 7 \<and> (\<forall>d<7. free_list (ds' ! d) = free_list (ds ! d)) \<and> (\<forall>d<i. ds' ! d = ds ! d)
    \<and> (\<forall>d. i \<le> d \<and> d < 7 \<longrightarrow> block_size (ds' ! d) = of_nat (bsize d) \<and> total_block (ds' ! d) = of_nat (nblocks d))"
  using assms
proof (induction n arbitrary: i ds h)
  case (Suc n)
  have i: "i < 7" using Suc.prems(2) by simp
  let ?w = "of_nat (bsize i) :: u32"
  let ?d = "(ds ! i)\<lparr>block_size := ?w, total_block := (PAGE_SIZE - ARENA_SIZE) div ?w\<rparr>"
  have two: "push_bit 1 ?w = of_nat (bsize (Suc i))" by (simp add: bsize_def push_bit_eq_mult)
  have tot: "(PAGE_SIZE - ARENA_SIZE) div ?w = of_nat (nblocks i)"
  proof (rule word_unat_eqI)
    show "unat ((PAGE_SIZE - ARENA_SIZE) div ?w) = unat (of_nat (nblocks i) :: u32)"
      using block_sizes(2,5)[OF i] by (simp add: unat_div unat_of_nat32 PAGE_SIZE_def ARENA_SIZE_def nblocks_def)
  qed
  have len: "length (ds[i := ?d]) = 7" "Suc i + n = 7" using Suc.prems by simp_all
  obtain ds' where ds': "arena_init_loop (ds[i := ?d]) (list_init h (free_list (ds ! i))) (of_nat (bsize (Suc i))) (Suc i) n
      = (ds', inits (map (\<lambda>d. free_list (ds[i := ?d] ! d)) [Suc i..<7]) (list_init h (free_list (ds ! i))))"
    "length ds' = 7" "\<forall>d<7. free_list (ds' ! d) = free_list (ds[i := ?d] ! d)" "\<forall>d<Suc i. ds' ! d = ds[i := ?d] ! d"
    "\<forall>d. Suc i \<le> d \<and> d < 7 \<longrightarrow> block_size (ds' ! d) = of_nat (bsize d) \<and> total_block (ds' ! d) = of_nat (nblocks d)"
    using Suc.IH[OF len] by blast
  have mp: "map (\<lambda>d. free_list (ds[i := ?d] ! d)) [Suc i..<7] = map (\<lambda>d. free_list (ds ! d)) [Suc i..<7]" by simp
  have "[i..<7] = i # [Suc i..<7]" using i by (simp add: upt_conv_Cons)
  then have "arena_init_loop ds h ?w i (Suc n) = (ds', inits (map (\<lambda>d. free_list (ds ! d)) [i..<7]) h)"
    using ds'(1)[unfolded mp] two by simp
  moreover have "free_list (ds' ! d) = free_list (ds ! d)" if "d < 7" for d using ds'(3) that Suc.prems(1) by (cases "d = i") simp_all
  moreover have "ds' ! d = ds ! d" if "d < i" for d using ds'(4) that by simp
  moreover have "block_size (ds' ! d) = of_nat (bsize d) \<and> total_block (ds' ! d) = of_nat (nblocks d)" if "i \<le> d" "d < 7" for d
    using ds'(4,5) that tot Suc.prems(1) by (cases "d = i") simp_all
  ultimately show ?case using ds'(2) by (intro exI[of _ ds'] conjI allI impI) simp_all
qed auto

lemma arena_init_ok:
  assumes "heap_start a m"
  shows "heap_ok (fst (arena_init a h)) m (snd (arena_init a h)) (\<lambda>_. None) (\<lambda>_. [])"
proof -
  have a: "length (descs a) = 7" "kmap_ok m" "heads_apart (set (heads_of a))" "distinct (heads_of a)"
    "\<And>l. l \<in> set (heads_of a) \<Longrightarrow> l + 8 < 4096 * base_page m"
    using assms by (simp_all add: heap_start_def)
  have seven: "0 + 7 = (7 :: nat)" by simp
  obtain ds where ds: "arena_init_loop (descs a) h (of_nat (bsize 0)) 0 7 = (ds, inits (heads_of a) h)" "length ds = 7"
    "\<forall>d<7. free_list (ds ! d) = free_list (descs a ! d)" "\<forall>d<0. ds ! d = descs a ! d"
    "\<forall>d. 0 \<le> d \<and> d < 7 \<longrightarrow> block_size (ds ! d) = of_nat (bsize d) \<and> total_block (ds ! d) = of_nat (nblocks d)"
    using arena_init_loop_ok[OF a(1) seven, of h, folded heads_of_def] by (elim exE conjE)
  let ?a = "a\<lparr>descs := ds\<rparr>"
  have i: "arena_init a h = (?a, inits (heads_of a) h)" using ds(1) by (simp add: arena_init_def DESC_COUNT_def bsize_def)
  have hs: "map (\<lambda>d. free_list (descs ?a ! d)) [0..<7] = heads_of a" using ds(3) by (simp add: heads_of_def)
  have "descs_ok ?a (4096 * base_page m)"
    unfolding descs_ok_def hs using a(4,5) ds(2,3,5) by (auto simp: heads_of_def)
  moreover have "dlls (inits (heads_of a) h) (free_lists ?a (\<lambda>_. []))"
  proof (rule inits_dlls[OF a(3)])
    show "xs = [] \<and> l \<in> set (heads_of a)" if "free_lists ?a (\<lambda>_. []) l = Some xs" for l xs
      using free_lists_SomeD[OF that] unfolding hs[symmetric] by auto
  qed
  ultimately show ?thesis using a(2) by (simp add: i heap_ok_def span_def)
qed

subsection \<open>Runs of the heap\<close>

text \<open>The state of the heap with the blocks its clients hold and the sizes they asked for.\<close>

record heap_state =
  hs_arenas :: arenas
  hs_mem :: kmem
  hs_nodes :: heap
  owned :: "addr \<rightharpoonup> nat"

definition fresh_heap :: "arenas \<Rightarrow> kmem \<Rightarrow> heap \<Rightarrow> heap_state" where
  "fresh_heap a m h = \<lparr>hs_arenas = fst (arena_init a h), hs_mem = m, hs_nodes = snd (arena_init a h), owned = Map.empty\<rparr>"

text \<open>Sizes near the end of the address space overflow the number of pages and are left out.\<close>

definition sane :: "u32 \<Rightarrow> bool" where
  "sane bytes = (unat bytes + 4112 \<le> 2 ^ 32)"

inductive heap_step :: "heap_state \<Rightarrow> heap_state \<Rightarrow> bool" where
  alloc: "sane n \<Longrightarrow> kmalloc (hs_arenas s) (hs_mem s) (hs_nodes s) n = Inr (a, m, h, b) \<Longrightarrow>
    heap_step s \<lparr>hs_arenas = a, hs_mem = m, hs_nodes = h, owned = (owned s)(b \<mapsto> unat n)\<rparr>"
| free: "b \<in> dom (owned s) \<Longrightarrow> kfree (hs_arenas s) (hs_mem s) (hs_nodes s) b = Inr (a, m, h) \<Longrightarrow>
    heap_step s \<lparr>hs_arenas = a, hs_mem = m, hs_nodes = h, owned = (owned s)(b := None)\<rparr>"

inductive heap_run :: "heap_state \<Rightarrow> heap_state \<Rightarrow> bool" where
  none: "heap_run s s"
| more: "heap_run s s' \<Longrightarrow> heap_step s' s'' \<Longrightarrow> heap_run s s''"

definition hs_ok :: "heap_state \<Rightarrow> bool" where
  "hs_ok s = (\<exists>A fl. heap_ok (hs_arenas s) (hs_mem s) (hs_nodes s) A fl \<and> dom (owned s) \<subseteq> live A fl
     \<and> (\<forall>b n. owned s b = Some n \<longrightarrow> room A b n))"

lemma fresh_heap_ok: "heap_start a m \<Longrightarrow> hs_ok (fresh_heap a m h)"
  using arena_init_ok[of a m h] by (auto simp: hs_ok_def fresh_heap_def)

lemma heap_step_keeps:
  assumes "heap_step s s'" "hs_ok s"
  shows "hs_ok s'"
proof -
  obtain A fl where ok: "heap_ok (hs_arenas s) (hs_mem s) (hs_nodes s) A fl" "dom (owned s) \<subseteq> live A fl"
    "\<And>b n. owned s b = Some n \<Longrightarrow> room A b n" using assms(2) unfolding hs_ok_def by blast
  from assms(1) show ?thesis
  proof cases
    case (alloc n a m h b)
    obtain A' fl' where k: "heap_ok a m h A' fl'" "handed A fl A' fl' b (unat n)"
      using kmalloc_cases[OF ok(1), of n] alloc(2,3) unfolding sane_def by auto
    have "dom (owned s') \<subseteq> live A' fl'" using ok(2) k(2) alloc(1) by (auto simp: handed_def)
    moreover have "room A' c j" if "owned s' c = Some j" for c j
      using that k(2) ok(3)[of c j] alloc(1) by (auto simp: handed_def split: if_splits)
    ultimately show ?thesis unfolding hs_ok_def by (intro exI[of _ A'] exI[of _ fl']) (use k(1) alloc(1) in simp)
  next
    case (free b a m h)
    obtain A' fl' where k: "heap_ok a m h A' fl'" "given A fl A' fl' b"
      using kfree_ok[OF ok(1), of b] free(2,3) ok(2) by fastforce
    have "dom (owned s') \<subseteq> live A' fl'" using ok(2) k(2) free(1) by (auto simp: given_def)
    moreover have "room A' c j" if "owned s' c = Some j" for c j
    proof -
      have c: "owned s c = Some j" "c \<noteq> b" using that free(1) by (auto split: if_splits)
      then have "c \<in> live A' fl'" using ok(2) k(2) by (auto simp: given_def)
      then show ?thesis using ok(3)[OF c(1)] k(2) by (simp add: given_def)
    qed
    ultimately show ?thesis unfolding hs_ok_def by (intro exI[of _ A'] exI[of _ fl']) (use k(1) free(1) in simp)
  qed
qed

lemma heap_run_keeps: "heap_run s s' \<Longrightarrow> hs_ok s \<Longrightarrow> hs_ok s'"
  by (induction rule: heap_run.induct) (auto intro: heap_step_keeps)

subsection \<open>Properties\<close>

text \<open>C11: two blocks that \<^verbatim>\<open>kmalloc\<close> handed out and that were not given back, after any sequence of
  \<^verbatim>\<open>kmalloc\<close> and \<^verbatim>\<open>kfree\<close>, do not overlap in the bytes asked for, and those lie in kernel
  pages marked as used.\<close>

theorem heap_blocks_disjoint:
  assumes "heap_start a m" "heap_run (fresh_heap a m h) s" "owned s b = Some n" "owned s c = Some k" "b \<noteq> c"
  shows "{b..<b + n} \<inter> {c..<c + k} = {} \<and> (\<lambda>x. x div 4096) ` {b..<b + n} \<subseteq> kpages (hs_mem s)"
proof -
  obtain A fl where ok: "heap_ok (hs_arenas s) (hs_mem s) (hs_nodes s) A fl" and r: "\<And>b n. owned s b = Some n \<Longrightarrow> room A b n"
    using heap_run_keeps[OF assms(2) fresh_heap_ok[OF assms(1)]] unfolding hs_ok_def by blast
  obtain f where "\<forall>x. b \<le> x \<and> x < b + n \<longrightarrow> x div 4096 \<in> span A f" using room_span[OF ok r[OF assms(3)]] by blast
  then have "(\<lambda>x. x div 4096) ` {b..<b + n} \<subseteq> kpages (hs_mem s)" using heap_okD(4)[OF ok, of f] by auto
  then show ?thesis using rooms_apart[OF ok r[OF assms(3)] r[OF assms(4)] assms(5)] by simp
qed

definition small_arenas :: "arenas \<Rightarrow> arenas" where
  "small_arenas a = a\<lparr>descs := map (\<lambda>i. \<lparr>total_block = 0, block_size = 0, free_list = 0x1000 + 16 * i\<rparr>) [0..<7]\<rparr>"

definition small_kmem :: "kmem \<Rightarrow> kmem" where
  "small_kmem m = m\<lparr>kernel_bitmap := bitmap_make [0] 1 256\<rparr>"

lemma small_start: "heap_start (small_arenas a) (small_kmem m)"
proof -
  have "heads_of (small_arenas a) = map (\<lambda>i. 0x1000 + 16 * i) [0..<7]" by (simp add: heads_of_def small_arenas_def)
  moreover have "(16 :: nat) * j \<noteq> 16 * i + 8" for i j by presburger
  ultimately show ?thesis
    by (auto simp: heap_start_def heads_apart_def distinct_map inj_on_def small_arenas_def small_kmem_def kmap_ok_def
        base_page_def bm_wf_def bm_size_def bitmap_make_def)
qed

lemma small_kpages: "kpages (small_kmem m) = {}" "base_page (small_kmem m) = 256" "bm_size (kernel_bitmap (small_kmem m)) = 8"
  by (auto simp: kpages_def bm_used_def bm_bit_def bm_size_def base_page_def small_kmem_def bitmap_make_def)

lemma not_kfull: "base_page m \<le> f \<Longrightarrow> f < base_page m + bm_size (kernel_bitmap m) \<Longrightarrow> f \<notin> kpages m \<Longrightarrow> \<not> kfull m 1"
  unfolding kfull_def by (intro notI, drule spec[of _ f]) auto

lemma two_blocks:
  "\<exists>s b c. heap_run (fresh_heap (small_arenas a) (small_kmem m) h) s \<and> owned s b = Some 100 \<and> owned s c = Some 200 \<and> b \<noteq> c"
proof -
  let ?s = "fresh_heap (small_arenas a) (small_kmem m) h"
  let ?a = "hs_arenas ?s" and ?m = "small_kmem m"
  have "hs_mem ?s = ?m" by (simp add: fresh_heap_def)
  then obtain A fl where ok: "heap_ok ?a ?m (hs_nodes ?s) A fl"
    using fresh_heap_ok[OF small_start, of a m h] unfolding hs_ok_def by metis
  have "\<not> kfull ?m 1" by (rule not_kfull[of _ 256]) (simp_all add: small_kpages)
  then obtain a1 m1 h1 b A1 fl1 where b: "kmalloc ?a ?m (hs_nodes ?s) 100 = Inr (a1, m1, h1, b)" "heap_ok a1 m1 h1 A1 fl1"
    "handed A fl A1 fl1 b 100" "grown ?m m1"
    using kmalloc_small[OF ok, of 100] by auto
  have "\<not> kfull m1 1"
  proof -
    obtain f where "kpages m1 \<subseteq> {f}" "base_page m1 = 256" "bm_size (kernel_bitmap m1) = 8"
      using b(4) by (auto simp: grown_def kmarks_def small_kpages)
    moreover have "256 \<noteq> f \<or> 257 \<noteq> f" by simp
    ultimately have "256 \<notin> kpages m1 \<or> 257 \<notin> kpages m1" "base_page m1 = 256" "bm_size (kernel_bitmap m1) = 8" by blast+
    then show ?thesis using not_kfull[of m1 256] not_kfull[of m1 257] by simp blast
  qed
  then obtain a2 m2 h2 c A2 fl2 where c: "kmalloc a1 m1 h1 200 = Inr (a2, m2, h2, c)" "handed A1 fl1 A2 fl2 c 200"
    using kmalloc_small[OF b(2), of 200] by auto
  have "b \<noteq> c" using b(3) c(2) by (auto simp: handed_def)
  let ?s1 = "\<lparr>hs_arenas = a1, hs_mem = m1, hs_nodes = h1, owned = (owned ?s)(b \<mapsto> unat (100 :: u32))\<rparr>"
  have "heap_step ?s ?s1" by (rule heap_step.alloc) (use b(1) in \<open>simp_all add: sane_def fresh_heap_def\<close>)
  moreover have "heap_step ?s1 \<lparr>hs_arenas = a2, hs_mem = m2, hs_nodes = h2, owned = (owned ?s1)(c \<mapsto> unat (200 :: u32))\<rparr>"
    by (rule heap_step.alloc) (use c(1) in \<open>simp_all add: sane_def\<close>)
  ultimately have "heap_run ?s \<lparr>hs_arenas = a2, hs_mem = m2, hs_nodes = h2, owned = (owned ?s1)(c \<mapsto> unat (200 :: u32))\<rparr>"
    by (meson heap_run.intros)
  then show ?thesis using \<open>b \<noteq> c\<close>
    by (intro exI[of _ "\<lparr>hs_arenas = a2, hs_mem = m2, hs_nodes = h2, owned = (owned ?s1)(c \<mapsto> unat (200 :: u32))\<rparr>"]
        exI[of _ b] exI[of _ c]) simp
qed

theorem heap_blocks_disjoint_witness:
  "\<forall>a m h. \<exists>s b c. heap_run (fresh_heap (small_arenas a) (small_kmem m) h) s \<and> owned s b = Some 100 \<and> owned s c = Some 200
     \<and> {b..<b + 100} \<inter> {c..<c + 200} = {}"
proof (intro allI)
  fix a m h
  obtain s b c where s: "heap_run (fresh_heap (small_arenas a) (small_kmem m) h) s" "owned s b = Some 100" "owned s c = Some 200"
    "b \<noteq> c" using two_blocks by blast
  then show "\<exists>s b c. heap_run (fresh_heap (small_arenas a) (small_kmem m) h) s \<and> owned s b = Some 100 \<and> owned s c = Some 200
     \<and> {b..<b + 100} \<inter> {c..<c + 200} = {}"
    using heap_blocks_disjoint[OF small_start s] by blast
qed

text \<open>C12: after any such sequence \<^verbatim>\<open>kfree\<close> takes back every block that was handed out, and
  \<^verbatim>\<open>kmalloc\<close> returns a block, or panics when the kernel has no free run of the pages it needs; no
  assertion of either fails.\<close>

theorem heap_never_asserts:
  assumes "heap_start a m" "heap_run (fresh_heap a m h) s"
  shows "(\<forall>b\<in>dom (owned s). \<exists>r. kfree (hs_arenas s) (hs_mem s) (hs_nodes s) b = Inr r)
    \<and> (\<forall>n. sane n \<longrightarrow> (\<exists>r. kmalloc (hs_arenas s) (hs_mem s) (hs_nodes s) n = Inr r)
         \<or> kmalloc (hs_arenas s) (hs_mem s) (hs_nodes s) n = Inl Panic
           \<and> kfull (hs_mem s) (if unat n \<le> 1024 then 1 else (unat n + 4111) div 4096))"
proof -
  obtain A fl where ok: "heap_ok (hs_arenas s) (hs_mem s) (hs_nodes s) A fl" and d: "dom (owned s) \<subseteq> live A fl"
    using heap_run_keeps[OF assms(2) fresh_heap_ok[OF assms(1)]] unfolding hs_ok_def by blast
  show ?thesis using kfree_ok[OF ok] kmalloc_cases[OF ok] d unfolding sane_def by blast
qed

theorem heap_never_asserts_witness:
  "\<forall>a m h. \<exists>s b r. heap_run (fresh_heap (small_arenas a) (small_kmem m) h) s \<and> owned s b = Some 100
     \<and> kfree (hs_arenas s) (hs_mem s) (hs_nodes s) b = Inr r"
proof (intro allI)
  fix a m h
  obtain s b c where s: "heap_run (fresh_heap (small_arenas a) (small_kmem m) h) s" "owned s b = Some 100"
    using two_blocks by blast
  then show "\<exists>s b r. heap_run (fresh_heap (small_arenas a) (small_kmem m) h) s \<and> owned s b = Some 100
     \<and> kfree (hs_arenas s) (hs_mem s) (hs_nodes s) b = Inr r"
    using heap_never_asserts[OF small_start s(1)] by (meson domI)
qed

end
