(* ===== verification/Fifo.thy ===== *)
theory Fifo
  imports Prelude
begin

text \<open>
  The ring buffer of \<^verbatim>\<open>lib/fifo.c\<close>, which carries the bytes of pipes, of the
  keyboard and of the serial lines.  \<open>fifo_list q\<close> is its content, oldest byte first; a
  buffer of \<^verbatim>\<open>length\<close> bytes holds at most \<^verbatim>\<open>length - 1\<close> of them, and a put
  into a full one drops the oldest.  The positions stay below \<^verbatim>\<open>length\<close>, so the
  32-bit additions of the code do not wrap and the positions are natural numbers.
\<close>

record fifo =
  buf :: "u8 list"
  flen :: nat
  head :: nat
  tail :: nat

definition fifo_next :: "fifo \<Rightarrow> nat \<Rightarrow> nat res" where
  "fifo_next q pos = (if flen q = 0 then Inl Fault else Inr ((pos + 1) mod flen q))"

definition fifo_init :: "u8 list \<Rightarrow> nat \<Rightarrow> fifo" where
  "fifo_init bs len = \<lparr>buf = bs, flen = len, head = 0, tail = 0\<rparr>"

definition fifo_full :: "fifo \<Rightarrow> bool res" where
  "fifo_full q = bnd (fifo_next q (head q)) (\<lambda>n. Inr (n = tail q))"

definition fifo_empty :: "fifo \<Rightarrow> bool" where
  "fifo_empty q = (head q = tail q)"

definition fifo_get :: "fifo \<Rightarrow> (fifo \<times> u8) res" where
  "fifo_get q =
     bnd (assrt (\<not> fifo_empty q)) (\<lambda>_.
     bnd (rd (buf q) (tail q)) (\<lambda>byte.
     bnd (fifo_next q (tail q)) (\<lambda>n.
     Inr (q\<lparr>tail := n\<rparr>, byte))))"

partial_function (option) drop_loop :: "fifo \<Rightarrow> fifo res option" where
  "drop_loop q =
     (case fifo_full q of
        Inl e \<Rightarrow> Some (Inl e)
      | Inr full \<Rightarrow>
          if full
          then (case fifo_get q of Inl e \<Rightarrow> Some (Inl e) | Inr (q, _) \<Rightarrow> drop_loop q)
          else Some (Inr q))"

definition fifo_put :: "fifo \<Rightarrow> u8 \<Rightarrow> fifo res" where
  "fifo_put q byte =
     bnd (run (drop_loop q)) (\<lambda>q.
     bnd (wr (buf q) (head q) byte) (\<lambda>bs.
     bnd (fifo_next q (head q)) (\<lambda>n.
     Inr (q\<lparr>buf := bs, head := n\<rparr>))))"

subsection \<open>The content of the buffer\<close>

definition fifo_count :: "fifo \<Rightarrow> nat" where
  "fifo_count q = (head q + flen q - tail q) mod flen q"

definition fifo_list :: "fifo \<Rightarrow> u8 list" where
  "fifo_list q = map (\<lambda>i. buf q ! ((tail q + i) mod flen q)) [0..<fifo_count q]"

definition fifo_wf :: "fifo \<Rightarrow> bool" where
  "fifo_wf q = (2 \<le> flen q \<and> flen q \<le> length (buf q) \<and> head q < flen q \<and> tail q < flen q)"

lemma fifo_count_less: "fifo_wf q \<Longrightarrow> fifo_count q < flen q"
  by (simp add: fifo_wf_def fifo_count_def)

lemma fifo_head_eq: "fifo_wf q \<Longrightarrow> head q = (tail q + fifo_count q) mod flen q"
  by (simp add: fifo_wf_def fifo_count_def mod_add_right_eq)

lemma fifo_count_eq:
  assumes "fifo_wf q" "head q = (tail q + c) mod flen q" "c < flen q"
  shows "fifo_count q = c"
proof -
  have "(head q + (flen q - tail q)) mod flen q = (tail q + c + (flen q - tail q)) mod flen q"
    using assms(2) by (simp add: mod_add_left_eq)
  also have "\<dots> = c" using assms by (simp add: fifo_wf_def)
  finally show ?thesis using assms(1) by (simp add: fifo_count_def fifo_wf_def)
qed

lemma length_fifo_list [simp]: "length (fifo_list q) = fifo_count q"
  by (simp add: fifo_list_def)

lemma fifo_init_wf:
  "2 \<le> n \<Longrightarrow> n \<le> length bs \<Longrightarrow> fifo_wf (fifo_init bs n) \<and> fifo_list (fifo_init bs n) = []"
  by (simp add: fifo_wf_def fifo_init_def fifo_list_def fifo_count_def)

lemma fifo_empty_iff:
  assumes "fifo_wf q"
  shows "fifo_empty q \<longleftrightarrow> fifo_list q = []"
proof -
  have "fifo_count q = 0" if "head q = tail q"
    using assms that by (intro fifo_count_eq) (auto simp: fifo_wf_def)
  moreover have "head q = tail q" if "fifo_count q = 0"
    using fifo_head_eq[OF assms] that assms by (simp add: fifo_wf_def)
  ultimately show ?thesis by (auto simp: fifo_empty_def fifo_list_def)
qed

lemma mod_shift_cancel:
  fixes n t a b :: nat
  assumes "(t + a) mod n = (t + b) mod n" "t < n" "a < n" "b < n"
  shows "a = b"
proof -
  have "(t + a + (n - t)) mod n = (t + b + (n - t)) mod n"
    using assms(1) by (metis mod_add_left_eq)
  then show ?thesis using assms(2-) by simp
qed

lemma fifo_full_iff:
  assumes "fifo_wf q"
  shows "fifo_full q = Inr (fifo_count q = flen q - 1)"
proof -
  have "(head q + 1) mod flen q = (tail q + Suc (fifo_count q)) mod flen q"
    using fifo_head_eq[OF assms] by (simp add: mod_Suc_eq)
  moreover have "(tail q + Suc (fifo_count q)) mod flen q = tail q \<longleftrightarrow> fifo_count q = flen q - 1"
  proof (cases "Suc (fifo_count q) < flen q")
    case True
    then have "(tail q + Suc (fifo_count q)) mod flen q \<noteq> (tail q + 0) mod flen q"
      using mod_shift_cancel[of "tail q" "Suc (fifo_count q)" "flen q" 0] assms
      by (auto simp: fifo_wf_def)
    then show ?thesis using True assms by (auto simp: fifo_wf_def)
  next
    case False
    then have "Suc (fifo_count q) = flen q" using fifo_count_less[OF assms] by simp
    then show ?thesis using assms by (auto simp: fifo_wf_def)
  qed
  ultimately show ?thesis using assms by (simp add: fifo_full_def fifo_next_def fifo_wf_def)
qed

lemma fifo_get_list:
  assumes "fifo_wf q" "fifo_list q = x # xs"
  shows "\<exists>q'. fifo_get q = Inr (q', x) \<and> fifo_wf q' \<and> fifo_list q' = xs \<and> flen q' = flen q"
proof -
  let ?q = "q\<lparr>tail := (tail q + 1) mod flen q\<rparr>"
  have c: "fifo_count q = Suc (length xs)" using arg_cong[OF assms(2), of length] by simp
  have wf: "fifo_wf ?q" using assms(1) by (simp add: fifo_wf_def)
  have x: "x = buf q ! tail q"
    using arg_cong[OF assms(2), of "\<lambda>ys. ys ! 0"] c assms(1)
    by (simp add: fifo_list_def fifo_wf_def del: upt_Suc)
  have cq: "fifo_count ?q = length xs"
    by (rule fifo_count_eq[OF wf])
      (use fifo_head_eq[OF assms(1)] c fifo_count_less[OF assms(1)] in \<open>simp_all add: mod_simps\<close>)
  have "fifo_list ?q = xs"
  proof (rule nth_equalityI)
    show "length (fifo_list ?q) = length xs" using cq by simp
    fix i assume "i < length (fifo_list ?q)"
    then have i: "i < length xs" using cq by simp
    have "xs ! i = fifo_list q ! Suc i" using assms(2) by simp
    also have "\<dots> = buf q ! ((tail q + Suc i) mod flen q)"
      using i c by (simp add: fifo_list_def del: upt_Suc)
    also have "\<dots> = fifo_list ?q ! i"
      using i cq by (simp add: fifo_list_def mod_simps)
    finally show "fifo_list ?q ! i = xs ! i" by simp
  qed
  moreover have "\<not> fifo_empty q" using fifo_empty_iff[OF assms(1)] assms(2) by simp
  ultimately show ?thesis
    using assms(1) wf x by (simp add: fifo_get_def fifo_next_def fifo_wf_def)
qed

lemma fifo_get_empty: "fifo_wf q \<Longrightarrow> fifo_list q = [] \<Longrightarrow> fifo_get q = Inl Assertion"
  by (simp add: fifo_get_def fifo_empty_iff)

lemma drop_loop_list:
  assumes "fifo_wf q"
  shows "\<exists>q'. drop_loop q = Some (Inr q') \<and> fifo_wf q' \<and> flen q' = flen q
    \<and> fifo_list q' = (if fifo_count q = flen q - 1 then tl (fifo_list q) else fifo_list q)
    \<and> fifo_count q' < flen q - 1"
proof (cases "fifo_count q = flen q - 1")
  case True
  then have "fifo_list q \<noteq> []" using assms by (auto simp: fifo_wf_def simp flip: length_0_conv)
  then obtain x xs where l: "fifo_list q = x # xs" by (cases "fifo_list q") auto
  obtain q' where q': "fifo_get q = Inr (q', x)" "fifo_wf q'" "fifo_list q' = xs" "flen q' = flen q"
    using fifo_get_list[OF assms l] by auto
  have "fifo_count q = Suc (length xs)" "fifo_count q' = length xs"
    using arg_cong[OF l, of length] arg_cong[OF q'(3), of length] by auto
  then have "fifo_count q' < flen q - 1" using True by simp
  then show ?thesis
    using True l q' fifo_full_iff[OF assms] fifo_full_iff[OF q'(2)]
    by (subst drop_loop.simps) (simp add: drop_loop.simps)
next
  case False
  then have "fifo_count q < flen q - 1" using fifo_count_less[OF assms] by simp
  then show ?thesis
    using False assms fifo_full_iff[OF assms] by (subst drop_loop.simps) simp
qed

lemma store_list:
  assumes "fifo_wf q" "fifo_count q < flen q - 1"
  shows "let q' = q\<lparr>buf := (buf q)[head q := b], head := (head q + 1) mod flen q\<rparr>
    in fifo_wf q' \<and> fifo_list q' = fifo_list q @ [b]"
proof -
  let ?q = "q\<lparr>buf := (buf q)[head q := b], head := (head q + 1) mod flen q\<rparr>"
  have wf: "fifo_wf ?q" using assms(1) by (simp add: fifo_wf_def)
  have c: "fifo_count ?q = Suc (fifo_count q)"
    by (rule fifo_count_eq[OF wf])
      (use fifo_head_eq[OF assms(1)] assms(2) in \<open>simp_all add: mod_simps\<close>)
  have "fifo_list ?q = fifo_list q @ [b]"
  proof (rule nth_equalityI)
    show "length (fifo_list ?q) = length (fifo_list q @ [b])" using c by simp
    fix i assume "i < length (fifo_list ?q)"
    then have i: "i < Suc (fifo_count q)" using c by simp
    let ?p = "(tail q + i) mod flen q"
    have p: "?p < length (buf q)"
      using assms(1) by (auto simp: fifo_wf_def intro: less_le_trans[OF mod_less_divisor])
    have l: "fifo_list ?q ! i = (buf q)[head q := b] ! ?p"
      using i c by (simp add: fifo_list_def del: upt_Suc)
    show "fifo_list ?q ! i = (fifo_list q @ [b]) ! i"
    proof (cases "i = fifo_count q")
      case True
      then show ?thesis
        using l p fifo_head_eq[OF assms(1)] by (simp add: nth_append)
    next
      case False
      then have i': "i < fifo_count q" using i by simp
      have "?p \<noteq> head q"
        using mod_shift_cancel[of "tail q" i "flen q" "fifo_count q"] i' assms fifo_count_less[OF assms(1)]
          fifo_head_eq[OF assms(1)] by (auto simp: fifo_wf_def)
      then show ?thesis using l i' by (simp add: nth_append fifo_list_def)
    qed
  qed
  with wf show ?thesis by (simp add: Let_def)
qed

lemma fifo_put_list:
  assumes "fifo_wf q"
  shows "\<exists>q'. fifo_put q b = Inr q' \<and> fifo_wf q' \<and> flen q' = flen q
    \<and> fifo_list q' = (if fifo_count q = flen q - 1 then tl (fifo_list q) else fifo_list q) @ [b]"
proof -
  obtain q1 where q1: "drop_loop q = Some (Inr q1)" "fifo_wf q1" "flen q1 = flen q"
      "fifo_list q1 = (if fifo_count q = flen q - 1 then tl (fifo_list q) else fifo_list q)"
      "fifo_count q1 < flen q1 - 1"
    using drop_loop_list[OF assms] by auto
  show ?thesis
    using q1 store_list[OF q1(2,5), of b] by (simp add: fifo_put_def fifo_next_def fifo_wf_def Let_def)
qed


subsection \<open>The interface the drivers and the pipe use\<close>

fun put_all :: "('q \<Rightarrow> 'b \<Rightarrow> 'q res) \<Rightarrow> 'q \<Rightarrow> 'b list \<Rightarrow> 'q res" where
  "put_all put q [] = Inr q"
| "put_all put q (b # bs) = bnd (put q b) (\<lambda>q. put_all put q bs)"

fun get_all :: "('q \<Rightarrow> ('q \<times> 'b) res) \<Rightarrow> 'q \<Rightarrow> nat \<Rightarrow> ('q \<times> 'b list) res" where
  "get_all get q 0 = Inr (q, [])"
| "get_all get q (Suc n) =
     bnd (get q) (\<lambda>(q, b). bnd (get_all get q n) (\<lambda>(q, bs). Inr (q, b # bs)))"

definition newest :: "nat \<Rightarrow> 'b list \<Rightarrow> 'b list" where
  "newest n bs = drop (length bs - n) bs"

lemma newest_short [simp]: "length bs \<le> n \<Longrightarrow> newest n bs = bs"
  by (simp add: newest_def)

lemma newest_append:
  assumes "length xs = n" "0 < n"
  shows "newest n (tl xs @ b # bs) = newest n (xs @ b # bs)"
proof (cases xs)
  case (Cons x ys)
  then have "n = Suc (length ys)" using assms by simp
  then show ?thesis using Cons by (simp add: newest_def del: drop_append)
qed (use assms in simp)

locale byte_queue =
  fixes content :: "'q \<Rightarrow> 'b list"
    and invar :: "'q \<Rightarrow> bool"
    and room :: "'q \<Rightarrow> nat"
    and get :: "'q \<Rightarrow> ('q \<times> 'b) res"
    and put :: "'q \<Rightarrow> 'b \<Rightarrow> 'q res"
  assumes bound: "invar q \<Longrightarrow> length (content q) \<le> room q \<and> 0 < room q"
    and get: "invar q \<Longrightarrow> content q = b # bs \<Longrightarrow>
      \<exists>q'. get q = Inr (q', b) \<and> invar q' \<and> room q' = room q \<and> content q' = bs"
    and put: "invar q \<Longrightarrow> \<exists>q'. put q b = Inr q' \<and> invar q' \<and> room q' = room q
      \<and> content q' = (if length (content q) = room q then tl (content q) else content q) @ [b]"
begin

lemma put_all_newest:
  assumes "invar q"
  shows "\<exists>q'. put_all put q bs = Inr q' \<and> invar q' \<and> room q' = room q
    \<and> content q' = newest (room q) (content q @ bs)"
  using assms
proof (induction bs arbitrary: q)
  case Nil
  then show ?case using bound[of q] by simp
next
  case (Cons b bs)
  obtain q1 where q1: "put q b = Inr q1" "invar q1" "room q1 = room q"
      "content q1 = (if length (content q) = room q then tl (content q) else content q) @ [b]"
    using put[of q b] Cons.prems by auto
  have "newest (room q) (content q1 @ bs) = newest (room q) (content q @ b # bs)"
    using q1(4) newest_append[of "content q" "room q" b bs] bound[OF Cons.prems] by auto
  then show ?case using Cons.IH[OF q1(2)] q1 by auto
qed

lemma get_all_content:
  assumes "invar q" "content q = xs @ ys"
  shows "\<exists>q'. get_all get q (length xs) = Inr (q', xs) \<and> invar q' \<and> room q' = room q
    \<and> content q' = ys"
  using assms
proof (induction xs arbitrary: q)
  case Nil
  then show ?case by simp
next
  case (Cons x xs)
  obtain q1 where "get q = Inr (q1, x)" "invar q1" "room q1 = room q" "content q1 = xs @ ys"
    using get[of q x "xs @ ys"] Cons.prems by auto
  then show ?case using Cons.IH[of q1] by auto
qed

lemma put_then_get:
  assumes "invar q" "length (content q) + length bs \<le> room q"
  shows "\<exists>q1 q2. put_all put q bs = Inr q1
    \<and> get_all get q1 (length (content q) + length bs) = Inr (q2, content q @ bs)
    \<and> invar q2 \<and> content q2 = []"
proof -
  obtain q1 where q1: "put_all put q bs = Inr q1" "invar q1" "content q1 = (content q @ bs) @ []"
    using put_all_newest[OF assms(1), of bs] assms(2) by auto
  from get_all_content[OF q1(2,3)] q1(1) show ?thesis by auto
qed

end

interpretation bq: byte_queue fifo_list fifo_wf "\<lambda>q. flen q - 1" fifo_get fifo_put
proof unfold_locales
  show "length (fifo_list q) \<le> flen q - 1 \<and> 0 < flen q - 1" if "fifo_wf q" for q
    using fifo_count_less[OF that] that by (simp add: fifo_wf_def)
  show "\<exists>q'. fifo_get q = Inr (q', b) \<and> fifo_wf q' \<and> flen q' - 1 = flen q - 1 \<and> fifo_list q' = bs"
    if "fifo_wf q" "fifo_list q = b # bs" for q b bs
    using fifo_get_list[OF that] by auto
  show "\<exists>q'. fifo_put q b = Inr q' \<and> fifo_wf q' \<and> flen q' - 1 = flen q - 1 \<and> fifo_list q' =
      (if length (fifo_list q) = flen q - 1 then tl (fifo_list q) else fifo_list q) @ [b]"
    if "fifo_wf q" for q b
    using fifo_put_list[OF that, of b] by auto
qed

subsection \<open>Properties\<close>

text \<open>
  C29: after any sequence of \<^verbatim>\<open>fifo_put\<close> calls a queue of length \<open>len\<close> holds the newest
  \<open>len - 1\<close> of the bytes it held and was given, in order, and getting as many as it holds
  returns exactly those; no call stops.
\<close>

theorem fifo_keeps_newest:
  assumes "fifo_wf q"
  shows "\<exists>q1. put_all fifo_put q bs = Inr q1 \<and> fifo_wf q1
    \<and> fifo_list q1 = newest (flen q - 1) (fifo_list q @ bs)
    \<and> (\<exists>q2. get_all fifo_get q1 (length (fifo_list q1)) = Inr (q2, fifo_list q1)
         \<and> fifo_wf q2 \<and> fifo_list q2 = [])"
proof -
  obtain q1 where q1: "put_all fifo_put q bs = Inr q1" "fifo_wf q1"
    "fifo_list q1 = newest (flen q - 1) (fifo_list q @ bs)"
    using bq.put_all_newest[OF assms, of bs] by auto
  have "\<exists>q2. get_all fifo_get q1 (length (fifo_list q1)) = Inr (q2, fifo_list q1)
      \<and> fifo_wf q2 \<and> fifo_list q2 = []"
    using bq.get_all_content[of q1 "fifo_list q1" "[]", OF q1(2)] by auto
  then show ?thesis using q1 by blast
qed

lemma fifo_keeps_newest_witness:
  "\<exists>q1. put_all fifo_put (fifo_init [0, 0, 0] 3) [1, 2, 3] = Inr q1 \<and> fifo_list q1 = [2, 3]"
proof -
  have q: "fifo_wf (fifo_init [0, 0, 0] 3)" "fifo_list (fifo_init [0, 0, 0] 3) = []"
    using fifo_init_wf[of 3 "[0, 0, 0]"] by auto
  show ?thesis
    using fifo_keeps_newest[OF q(1), of "[1, 2, 3]"] q(2) by (auto simp: newest_def fifo_init_def)
qed

end
