(* ===== verification/Ops.thy ===== *)
theory Ops
  imports Prelude
begin

text \<open>
  Operations as state transformers: a function from a state to a result with the new state.
  \<open>ret\<close> returns a value, \<open>act\<close> runs one operation and goes on with its value,
  \<open>look\<close> and \<open>change\<close> read and update the state, \<open>lift\<close> takes over a
  result that does not touch it, and \<open>stop_with\<close> stops.
\<close>

definition ret :: "'a \<Rightarrow> 's \<Rightarrow> ('a \<times> 's) res" where
  "ret x s = Inr (x, s)"

definition act :: "('s \<Rightarrow> ('a \<times> 's) res) \<Rightarrow> ('a \<Rightarrow> 's \<Rightarrow> ('b \<times> 's) res) \<Rightarrow> 's \<Rightarrow> ('b \<times> 's) res" where
  "act f g s = bnd (f s) (\<lambda>(x, s). g x s)"

definition look :: "('s \<Rightarrow> 'a) \<Rightarrow> 's \<Rightarrow> ('a \<times> 's) res" where
  "look f s = Inr (f s, s)"

definition change :: "('s \<Rightarrow> 's) \<Rightarrow> 's \<Rightarrow> (unit \<times> 's) res" where
  "change f s = Inr ((), f s)"

definition lift :: "'a res \<Rightarrow> 's \<Rightarrow> ('a \<times> 's) res" where
  "lift r s = bnd r (\<lambda>x. Inr (x, s))"

definition stop_with :: "stop \<Rightarrow> 's \<Rightarrow> ('a \<times> 's) res" where
  "stop_with e s = Inl e"

definition whenM :: "bool \<Rightarrow> ('s \<Rightarrow> (unit \<times> 's) res) \<Rightarrow> 's \<Rightarrow> (unit \<times> 's) res" where
  "whenM b f = (if b then f else ret ())"

lemma act_cong [fundef_cong]:
  "f s = f' s' \<Longrightarrow> s = s' \<Longrightarrow> (\<And>x t. f' s' = Inr (x, t) \<Longrightarrow> g x t = g' x t) \<Longrightarrow> act f g s = act f' g' s'"
  unfolding act_def by (rule bnd_cong) auto

lemma act_ret [simp]: "act (ret x) g = g x"
  by (rule ext) (simp add: act_def ret_def)

lemma act_look [simp]: "act (look f) g s = g (f s) s"
  by (simp add: act_def look_def)

lemma act_change [simp]: "act (change h) g s = g () (h s)"
  by (simp add: act_def change_def)

lemma act_stop [simp]: "act (stop_with e) g s = Inl e"
  by (simp add: act_def stop_with_def)

lemma act_lift [simp]: "act (lift (Inr x)) g = g x" "act (lift (Inl e)) h = stop_with e"
  by (auto simp: act_def lift_def stop_with_def)

lemma act_simps:
  "act (ret x) g s = g x s" "act (look f) h s = h (f s) s" "act (change k) j s = j () (k s)"
  by simp_all

lemma act_assoc: "act (act f g) k = act f (\<lambda>x. act (g x) k)"
  by (rule ext) (auto simp: act_def bnd_assoc intro!: bnd_cong)

lemma act_eq_Inr:
  "act f g s = Inr (y, t) \<longleftrightarrow> (\<exists>x u. f s = Inr (x, u) \<and> g x u = Inr (y, t))"
  by (auto simp: act_def)

lemma ret_eq [simp]: "ret x s = Inr (y, t) \<longleftrightarrow> x = y \<and> s = t"
  by (auto simp: ret_def)

lemma lift_eq [simp]: "lift r s = Inr (x, t) \<longleftrightarrow> r = Inr x \<and> t = s"
  by (auto simp: lift_def)

lemma change_eq [simp]: "change f s = Inr (u, t) \<longleftrightarrow> t = f s"
  by (auto simp: change_def)

lemma look_eq [simp]: "look f s = Inr (x, t) \<longleftrightarrow> x = f s \<and> t = s"
  by (auto simp: look_def)

lemma stop_with_eq [simp]: "stop_with e s \<noteq> Inr z"
  by (simp add: stop_with_def)

end
