(* ===== verification/Fsys.thy ===== *)
theory Fsys
  imports Device Fifo Ops "HOL-Library.Signed_Division"
begin

text \<open>
  The file system's state and vocabulary: \<^verbatim>\<open>include/yui/fs.h\<close>,
  \<^verbatim>\<open>include/yui/stat.h\<close> and what the files of \<^verbatim>\<open>fs/\<close> take from the kernel.

  \<open>fs\<close> keeps the kernel below (tasks, heap, devices, memory), the blocks of the buffer
  cache, the inode, super block and file tables.  The file layer sees the cache through its
  contract: a buffer is its block, named by device and number, with its bytes, a reference count and a
  dirty mark, and \<open>disk\<close> is what has been written back.  Inodes and open files are addresses:
  entry \<open>i\<close> of a table is \<open>i + 1\<close>, and 0 is the null pointer; their reference
  counts are the ones \<open>sched\<close> keeps.  The list of the inodes in use of a super block is
  the list of its nodes, newest first.

  An operation is a function from a state to a result with the new state; \<open>act f g\<close> runs
  \<open>f\<close> and goes on with \<open>g\<close>.
\<close>

subsection \<open>Little-endian fields\<close>

definition ld16 :: "u8 list \<Rightarrow> nat \<Rightarrow> u16" where
  "ld16 b i = ucast (b ! i) OR push_bit 8 (ucast (b ! (i + 1)))"

definition st16 :: "nat \<Rightarrow> u16 \<Rightarrow> u8 list \<Rightarrow> u8 list" where
  "st16 i w b = b[i := ucast w, i + 1 := ucast (drop_bit 8 w)]"

definition lw32 :: "u8 list \<Rightarrow> nat \<Rightarrow> u32" where
  "lw32 b i = ucast (ld16 b i) OR push_bit 16 (ucast (ld16 b (i + 2)))"

definition sw32 :: "nat \<Rightarrow> u32 \<Rightarrow> u8 list \<Rightarrow> u8 list" where
  "sw32 i w b = st16 (i + 2) (ucast (drop_bit 16 w)) (st16 i (ucast w) b)"

subsection \<open>What is on the disk\<close>

record inode_desc =
  imode :: u16
  iuid :: u16
  isize :: u32
  imtime :: u32
  igid :: u8
  inlinks :: u8
  izone :: "u16 list"

record super_desc =
  inodes :: u16
  zones :: u16
  imap_blocks :: u16
  zmap_blocks :: u16
  firstdatazone :: u16
  log_zone_size :: u16
  max_size :: u32
  smagic :: u16

definition BLOCK_BITS :: u32 where "BLOCK_BITS = BLOCK_SIZE * 8"
definition INODE_DESC_SIZE :: u32 where "INODE_DESC_SIZE = 32"
definition DENTRY_SIZE :: u32 where "DENTRY_SIZE = 16"
definition BLOCK_INODES :: u32 where "BLOCK_INODES = BLOCK_SIZE div INODE_DESC_SIZE"
definition BLOCK_DENTRIES :: u32 where "BLOCK_DENTRIES = BLOCK_SIZE div DENTRY_SIZE"
definition BLOCK_INDEXES :: u32 where "BLOCK_INDEXES = BLOCK_SIZE div 2"
definition DIRECT_BLOCK :: u32 where "DIRECT_BLOCK = 7"
definition INDIRECT1_BLOCK :: u32 where "INDIRECT1_BLOCK = BLOCK_INDEXES"
definition INDIRECT2_BLOCK :: u32 where "INDIRECT2_BLOCK = INDIRECT1_BLOCK * INDIRECT1_BLOCK"
definition TOTAL_BLOCK :: u32 where "TOTAL_BLOCK = DIRECT_BLOCK + INDIRECT1_BLOCK + INDIRECT2_BLOCK"
definition MINIX1_MAGIC :: u16 where "MINIX1_MAGIC = 0x137f"
definition NAME_LEN :: nat where "NAME_LEN = 14"
definition IMAP_NR :: nat where "IMAP_NR = 8"
definition ZMAP_NR :: nat where "ZMAP_NR = 8"

definition get_desc :: "nat \<Rightarrow> u8 list \<Rightarrow> inode_desc" where
  "get_desc k b = \<lparr>imode = ld16 b k, iuid = ld16 b (k + 2), isize = lw32 b (k + 4), imtime = lw32 b (k + 8),
     igid = b ! (k + 12), inlinks = b ! (k + 13), izone = map (\<lambda>i. ld16 b (k + 14 + 2 * i)) [0..<9]\<rparr>"

fun put_zones :: "nat \<Rightarrow> u16 list \<Rightarrow> u8 list \<Rightarrow> u8 list" where
  "put_zones k [] b = b"
| "put_zones k (z # zs) b = put_zones (k + 2) zs (st16 k z b)"

definition put_desc :: "nat \<Rightarrow> inode_desc \<Rightarrow> u8 list \<Rightarrow> u8 list" where
  "put_desc k d b =
     put_zones (k + 14) (izone d)
       ((sw32 (k + 8) (imtime d) (sw32 (k + 4) (isize d) (st16 (k + 2) (iuid d) (st16 k (imode d) b))))
          [k + 12 := igid d, k + 13 := inlinks d])"

definition get_sdesc :: "u8 list \<Rightarrow> super_desc" where
  "get_sdesc b = \<lparr>inodes = ld16 b 0, zones = ld16 b 2, imap_blocks = ld16 b 4, zmap_blocks = ld16 b 6,
     firstdatazone = ld16 b 8, log_zone_size = ld16 b 10, max_size = lw32 b 12, smagic = ld16 b 16\<rparr>"

definition put_sdesc :: "super_desc \<Rightarrow> u8 list \<Rightarrow> u8 list" where
  "put_sdesc d b =
     st16 16 (smagic d) (sw32 12 (max_size d) (st16 10 (log_zone_size d) (st16 8 (firstdatazone d)
       (st16 6 (zmap_blocks d) (st16 4 (imap_blocks d) (st16 2 (zones d) (st16 0 (inodes d) b)))))))"

subsection \<open>File modes and flags\<close>

definition IFMT :: u16 where "IFMT = 0xf000"
definition IFREG :: u16 where "IFREG = 0x8000"
definition IFBLK :: u16 where "IFBLK = 0x6000"
definition IFDIR :: u16 where "IFDIR = 0x4000"
definition IFCHR :: u16 where "IFCHR = 0x2000"
definition ISVTX :: u16 where "ISVTX = 0x200"

definition ISDIR :: "u16 \<Rightarrow> bool" where "ISDIR m = ((m AND IFMT) = IFDIR)"
definition ISCHR :: "u16 \<Rightarrow> bool" where "ISCHR m = ((m AND IFMT) = IFCHR)"
definition ISBLK :: "u16 \<Rightarrow> bool" where "ISBLK m = ((m AND IFMT) = IFBLK)"
definition ISFILE :: "u16 \<Rightarrow> bool" where "ISFILE m = ((m AND IFMT) = IFREG)"

definition P_EXEC :: u16 where "P_EXEC = 1"
definition P_READ :: u16 where "P_READ = 4"
definition P_WRITE :: u16 where "P_WRITE = 2"

definition O_RDONLY :: u32 where "O_RDONLY = 0"
definition O_WRONLY :: u32 where "O_WRONLY = 1"
definition O_RDWR :: u32 where "O_RDWR = 2"
definition O_ACCMODE :: u32 where "O_ACCMODE = 3"
definition O_CREAT :: u32 where "O_CREAT = 0x40"
definition O_TRUNC :: u32 where "O_TRUNC = 0x200"
definition O_APPEND :: u32 where "O_APPEND = 0x400"

definition ACC_MODE :: "u32 \<Rightarrow> u16" where
  "ACC_MODE x = scast ([4, 2, 6, 0xff :: u8] ! unat (x AND O_ACCMODE))"

subsection \<open>The tables and the state\<close>

type_synonym bkey = "int \<times> u32"

record inode =
  ibuf :: bkey
  islot :: nat
  idev :: int
  inr :: u32
  iatime :: u32
  ictime :: u32
  imount :: int
  rxwaiter :: addr
  txwaiter :: addr
  ipipe :: bool
  pfifo :: fifo
  pdesc :: addr
  pbuf :: u32

record super =
  sdev :: int
  scount :: u32
  sbuf :: bkey
  imaps :: "bkey option list"
  zmaps :: "bkey option list"
  inode_list :: "addr list"
  siroot :: addr
  simount :: addr

record ofile =
  finode :: addr
  foffset :: u32
  fflags :: u32
  fmode :: u32

record 'h fs =
  kst :: "'h machine dstate"
  bytes :: "bkey \<Rightarrow> u8 list"
  bref :: "bkey \<Rightarrow> int"
  bdirty :: "bkey \<Rightarrow> bool"
  disk :: "bkey \<Rightarrow> u8 list"
  inode_table :: "inode list"
  super_table :: "super list"
  root_super :: nat
  file_table :: "ofile list"
  clock_at :: "nat \<Rightarrow> u32"
  clock_n :: nat

definition INODE_NR :: nat where "INODE_NR = 64"
definition SUPER_NR :: nat where "SUPER_NR = 16"
definition FILE_NR :: nat where "FILE_NR = 128"

type_synonym ('h, 'a) fsm = "'h fs \<Rightarrow> ('a \<times> 'h fs) res"

subsection \<open>Reading and changing the state\<close>

definition sched_of :: "'h fs \<Rightarrow> sched" where "sched_of s = sch (kst s)"
definition mem_of :: "'h fs \<Rightarrow> mem" where "mem_of s = ram (world (kst s))"

definition upd_sched :: "(sched \<Rightarrow> sched) \<Rightarrow> 'h fs \<Rightarrow> 'h fs" where
  "upd_sched f s = s\<lparr>kst := (kst s)\<lparr>sch := f (sch (kst s))\<rparr>\<rparr>"

definition upd_mem :: "(mem \<Rightarrow> mem) \<Rightarrow> 'h fs \<Rightarrow> 'h fs" where
  "upd_mem f s = s\<lparr>kst := (kst s)\<lparr>world := (world (kst s))\<lparr>ram := f (ram (world (kst s)))\<rparr>\<rparr>\<rparr>"

definition cur_task :: "'h fs \<Rightarrow> task" where
  "cur_task s = tcb (sched_of s) (current (sched_of s))"

definition upd_cur :: "(task \<Rightarrow> task) \<Rightarrow> 'h fs \<Rightarrow> 'h fs" where
  "upd_cur f s = upd_sched (upd_task (current (sched_of s)) f) s"

text \<open>A scheduler operation run from the file layer.\<close>

definition with_sched :: "(sched \<Rightarrow> sched res) \<Rightarrow> ('h, unit) fsm" where
  "with_sched f s = bnd (f (sched_of s)) (\<lambda>k. Inr ((), upd_sched (\<lambda>_. k) s))"

text \<open>Tables are indexed by pointers; the null pointer faults.\<close>

definition inode_at :: "addr \<Rightarrow> ('h, inode) fsm" where
  "inode_at p s = bnd (deref p) (\<lambda>_. bnd (rd (inode_table s) (p - 1)) (\<lambda>i. Inr (i, s)))"

definition upd_inode :: "addr \<Rightarrow> (inode \<Rightarrow> inode) \<Rightarrow> ('h, unit) fsm" where
  "upd_inode p f s =
     bnd (deref p) (\<lambda>_.
     bnd (rd (inode_table s) (p - 1)) (\<lambda>i. Inr ((), s\<lparr>inode_table := (inode_table s)[p - 1 := f i]\<rparr>)))"

definition icnt :: "addr \<Rightarrow> 'h fs \<Rightarrow> u32" where "icnt p s = icount (sched_of s) p"

definition set_icnt :: "addr \<Rightarrow> u32 \<Rightarrow> 'h fs \<Rightarrow> 'h fs" where
  "set_icnt p n s = upd_sched (\<lambda>k. k\<lparr>icount := (icount k)(p := n)\<rparr>) s"

definition file_at :: "addr \<Rightarrow> ('h, ofile) fsm" where
  "file_at p s = bnd (deref p) (\<lambda>_. bnd (rd (file_table s) (p - 1)) (\<lambda>f. Inr (f, s)))"

definition upd_file :: "addr \<Rightarrow> (ofile \<Rightarrow> ofile) \<Rightarrow> ('h, unit) fsm" where
  "upd_file p f s =
     bnd (deref p) (\<lambda>_.
     bnd (rd (file_table s) (p - 1)) (\<lambda>x. Inr ((), s\<lparr>file_table := (file_table s)[p - 1 := f x]\<rparr>)))"

definition fcnt :: "addr \<Rightarrow> 'h fs \<Rightarrow> u32" where "fcnt p s = fcount (sched_of s) p"

definition set_fcnt :: "addr \<Rightarrow> u32 \<Rightarrow> 'h fs \<Rightarrow> 'h fs" where
  "set_fcnt p n s = upd_sched (\<lambda>k. k\<lparr>fcount := (fcount k)(p := n)\<rparr>) s"

definition super_at :: "nat option \<Rightarrow> ('h, super) fsm" where
  "super_at p s = (case p of None \<Rightarrow> Inl Fault | Some i \<Rightarrow> bnd (rd (super_table s) i) (\<lambda>x. Inr (x, s)))"

definition upd_super :: "nat option \<Rightarrow> (super \<Rightarrow> super) \<Rightarrow> ('h, unit) fsm" where
  "upd_super p f s =
     (case p of None \<Rightarrow> Inl Fault
      | Some i \<Rightarrow> bnd (rd (super_table s) i) (\<lambda>x. Inr ((), s\<lparr>super_table := (super_table s)[i := f x]\<rparr>)))"

definition get_time :: "('h, u32) fsm" where
  "get_time s = Inr (clock_at s (clock_n s), s\<lparr>clock_n := clock_n s + 1\<rparr>)"

subsection \<open>Blocks\<close>

definition blk_read :: "int \<Rightarrow> u32 \<Rightarrow> ('h, bkey) fsm" where
  "blk_read dev blk s = (let k = (dev, blk) in Inr (k, s\<lparr>bref := (bref s)(k := bref s k + 1)\<rparr>))"

definition mark_dirty :: "bkey \<Rightarrow> 'h fs \<Rightarrow> 'h fs" where
  "mark_dirty k s = s\<lparr>bdirty := (bdirty s)(k := True)\<rparr>"

definition blk_write :: "bkey \<Rightarrow> 'h fs \<Rightarrow> 'h fs" where
  "blk_write k s =
     (if bdirty s k then s\<lparr>disk := (disk s)(k := bytes s k), bdirty := (bdirty s)(k := False)\<rparr> else s)"

definition blk_release :: "bkey option \<Rightarrow> ('h, unit) fsm" where
  "blk_release b s =
     (case b of None \<Rightarrow> Inr ((), s)
      | Some k \<Rightarrow>
          let s = blk_write k s; n = bref s k - 1
          in bnd (assrt (n \<ge> 0)) (\<lambda>_. Inr ((), s\<lparr>bref := (bref s)(k := n)\<rparr>)))"

definition upd_bytes :: "bkey \<Rightarrow> (u8 list \<Rightarrow> u8 list) \<Rightarrow> 'h fs \<Rightarrow> 'h fs" where
  "upd_bytes k f s = s\<lparr>bytes := (bytes s)(k := f (bytes s k))\<rparr>"

text \<open>The descriptor an inode's pointer reaches, in the block of the inode table.\<close>

definition desc_at :: "addr \<Rightarrow> ('h, inode_desc) fsm" where
  "desc_at p = act (inode_at p) (\<lambda>i. look (\<lambda>s. get_desc (islot i) (bytes s (ibuf i))))"

definition upd_desc :: "addr \<Rightarrow> (inode_desc \<Rightarrow> inode_desc) \<Rightarrow> ('h, unit) fsm" where
  "upd_desc p f =
     act (inode_at p) (\<lambda>i. change (upd_bytes (ibuf i) (\<lambda>b. put_desc (islot i) (f (get_desc (islot i) b)) b)))"

definition dirty_inode :: "addr \<Rightarrow> ('h, unit) fsm" where
  "dirty_inode p = act (inode_at p) (\<lambda>i. change (mark_dirty (ibuf i)))"

definition write_inode :: "addr \<Rightarrow> ('h, unit) fsm" where
  "write_inode p = act (inode_at p) (\<lambda>i. change (blk_write (ibuf i)))"

definition sdesc_at :: "nat option \<Rightarrow> ('h, super_desc) fsm" where
  "sdesc_at p = act (super_at p) (\<lambda>sb. look (\<lambda>s. get_sdesc (bytes s (sbuf sb))))"

end
