(* ===== verification/Bmap.thy ===== *)
theory Bmap
  imports Fsys Bitmap
begin

text \<open>
  Blocks and inode numbers: \<^verbatim>\<open>fs/bmap.c\<close>.  A bitmap block of the disk is used as the
  bitmap of \<^verbatim>\<open>lib/bitmap.c\<close> in place; the bits it changes are the bytes of the buffer.
  \<^verbatim>\<open>bmap\<close> walks from the descriptor's zone array through at most two index blocks;
  the array it looks at is a block and the offset of its first entry.
\<close>

fun super_loop :: "super list \<Rightarrow> int \<Rightarrow> nat \<Rightarrow> nat option" where
  "super_loop [] dev i = None"
| "super_loop (sb # sbs) dev i = (if sdev sb = dev then Some i else super_loop sbs dev (Suc i))"

definition get_super :: "int \<Rightarrow> ('h, nat option) fsm" where
  "get_super dev = look (\<lambda>s. super_loop (super_table s) dev 0)"

subsection \<open>Bitmaps of the disk\<close>

text \<open>The bitmap over a buffer, and the scan and the write that leave their bits in it.\<close>

definition map_over :: "bkey \<Rightarrow> u32 \<Rightarrow> u32 \<Rightarrow> 'h fs \<Rightarrow> bitmap" where
  "map_over k len off s = bitmap_make (bytes s k) len off"

definition scan_in :: "bkey \<Rightarrow> u32 \<Rightarrow> u32 \<Rightarrow> ('h, u32) fsm" where
  "scan_in k len off s =
     bnd (bitmap_scan (map_over k len off s) 1) (\<lambda>(m, b). Inr (b, upd_bytes k (\<lambda>_. bits m) s))"

definition clear_in :: "bkey \<Rightarrow> u32 \<Rightarrow> u32 \<Rightarrow> u32 \<Rightarrow> ('h, unit) fsm" where
  "clear_in k len off idx s =
     bnd (bitmap_test (map_over k len off s) idx) (\<lambda>set.
     bnd (assrt set) (\<lambda>_.
     bnd (bitmap_set (map_over k len off s) idx False) (\<lambda>m. Inr ((), upd_bytes k (\<lambda>_. bits m) s))))"

definition the_buf :: "bkey option \<Rightarrow> ('h, bkey) fsm" where
  "the_buf b = (case b of None \<Rightarrow> stop_with Assertion | Some k \<Rightarrow> ret k)"

text \<open>
  The maps in order, from map \<open>i\<close> on: the length each bitmap is given and the bit number it
  starts at are the arguments.  The result is the bit and the last buffer looked at.
\<close>

fun alloc_loop :: "bkey option list \<Rightarrow> u32 \<Rightarrow> (nat \<Rightarrow> u32) \<Rightarrow> u32 \<Rightarrow> nat \<Rightarrow> nat \<Rightarrow> bkey option \<Rightarrow> ('h, u32 \<times> bkey option) fsm" where
  "alloc_loop maps len off limit i 0 prv = ret (EOF, prv)"
| "alloc_loop maps len off limit i (Suc n) prv =
     act (lift (rd maps i)) (\<lambda>b. act (the_buf b) (\<lambda>k.
     act (scan_in k len (off i)) (\<lambda>found.
     if found \<noteq> EOF
     then act (lift (assrt (found < limit))) (\<lambda>_. act (change (mark_dirty k)) (\<lambda>_. ret (found, Some k)))
     else alloc_loop maps len off limit (Suc i) n (Some k))))"

fun free_loop :: "bkey option list \<Rightarrow> u32 \<Rightarrow> (nat \<Rightarrow> u32) \<Rightarrow> u32 \<Rightarrow> nat \<Rightarrow> nat \<Rightarrow> ('h, bkey option) fsm" where
  "free_loop maps len off idx i 0 = ret None"
| "free_loop maps len off idx i (Suc n) =
     (if idx > BLOCK_BITS * (of_nat i + 1) then free_loop maps len off idx (Suc i) n
      else act (lift (rd maps i)) (\<lambda>b. act (the_buf b) (\<lambda>k.
           act (clear_in k len (off i) idx) (\<lambda>_. act (change (mark_dirty k)) (\<lambda>_. ret (Some k))))))"

text \<open>
  The closing \<^verbatim>\<open>bwrite(buf)\<close>; after a loop that skipped every map \<^verbatim>\<open>buf\<close> was
  never set.
\<close>

definition write_last :: "bkey option \<Rightarrow> ('h, unit) fsm" where
  "write_last b = (case b of None \<Rightarrow> stop_with Fault | Some k \<Rightarrow> change (blk_write k))"

definition zmap_start :: "super_desc \<Rightarrow> nat \<Rightarrow> u32" where
  "zmap_start d i = of_nat i * BLOCK_BITS + ucast (firstdatazone d) - 1"

definition imap_start :: "nat \<Rightarrow> u32" where
  "imap_start i = of_nat i * BLOCK_BITS"

definition balloc :: "int \<Rightarrow> ('h, u32) fsm" where
  "balloc dev =
     act (get_super dev) (\<lambda>p. act (lift (assrt (p \<noteq> None))) (\<lambda>_.
     act (super_at p) (\<lambda>sb. act (sdesc_at p) (\<lambda>d.
     act (alloc_loop (zmaps sb) BLOCK_SIZE (zmap_start d) (ucast (zones d)) 0 ZMAP_NR None) (\<lambda>(b, prv).
     act (write_last prv) (\<lambda>_. ret b))))))"

definition bfree :: "int \<Rightarrow> u32 \<Rightarrow> ('h, unit) fsm" where
  "bfree dev idx =
     act (get_super dev) (\<lambda>p. act (lift (assrt (p \<noteq> None))) (\<lambda>_.
     act (super_at p) (\<lambda>sb. act (sdesc_at p) (\<lambda>d.
     act (lift (assrt (idx < ucast (zones d)))) (\<lambda>_.
     act (free_loop (zmaps sb) BLOCK_SIZE (zmap_start d) idx 0 ZMAP_NR) write_last)))))"

definition ialloc :: "int \<Rightarrow> ('h, u32) fsm" where
  "ialloc dev =
     act (get_super dev) (\<lambda>p. act (lift (assrt (p \<noteq> None))) (\<lambda>_.
     act (super_at p) (\<lambda>sb. act (sdesc_at p) (\<lambda>d.
     act (alloc_loop (imaps sb) BLOCK_BITS imap_start (ucast (inodes d)) 0 IMAP_NR None) (\<lambda>(b, prv).
     act (write_last prv) (\<lambda>_. ret b))))))"

definition ifree :: "int \<Rightarrow> u32 \<Rightarrow> ('h, unit) fsm" where
  "ifree dev idx =
     act (get_super dev) (\<lambda>p. act (lift (assrt (p \<noteq> None))) (\<lambda>_.
     act (super_at p) (\<lambda>sb. act (sdesc_at p) (\<lambda>d.
     act (lift (assrt (idx < ucast (inodes d)))) (\<lambda>_.
     act (free_loop (imaps sb) BLOCK_BITS imap_start idx 0 IMAP_NR) write_last)))))"

subsection \<open>The blocks of a file\<close>

text \<open>
  \<open>arr_get\<close> and \<open>arr_set\<close> read and write entry \<open>index\<close> of the 16-bit array that
  starts at byte \<open>base\<close> of the buffer.
\<close>

definition arr_get :: "bkey \<Rightarrow> nat \<Rightarrow> u16 \<Rightarrow> 'h fs \<Rightarrow> u16" where
  "arr_get k base index s = ld16 (bytes s k) (base + 2 * unat index)"

definition arr_set :: "bkey \<Rightarrow> nat \<Rightarrow> u16 \<Rightarrow> u16 \<Rightarrow> 'h fs \<Rightarrow> 'h fs" where
  "arr_set k base index v = upd_bytes k (st16 (base + 2 * unat index) v)"

fun bmap_loop :: "int \<Rightarrow> bool \<Rightarrow> nat \<Rightarrow> bkey \<Rightarrow> nat \<Rightarrow> u16 \<Rightarrow> u32 \<Rightarrow> u32 \<Rightarrow> ('h, u32) fsm" where
  "bmap_loop dev create level k base index block divider =
     act (look (arr_get k base index)) (\<lambda>z.
     act (whenM (z = 0 \<and> create)
            (act (balloc dev) (\<lambda>b. act (change (arr_set k base index (ucast b))) (\<lambda>_.
             change (mark_dirty k))))) (\<lambda>_.
     act (blk_release (Some k)) (\<lambda>_.
     act (look (arr_get k base index)) (\<lambda>z.
     case level of
       0 \<Rightarrow> ret (ucast z)
     | Suc l \<Rightarrow>
         if z = 0 then ret 0
         else act (blk_read dev (ucast z)) (\<lambda>k.
              bmap_loop dev create l k 0 (ucast (block div divider)) (block mod divider)
                (divider div BLOCK_INDEXES))))))"

definition bmap :: "addr \<Rightarrow> u32 \<Rightarrow> bool \<Rightarrow> ('h, u32) fsm" where
  "bmap p block create =
     act (lift (assrt (block < TOTAL_BLOCK))) (\<lambda>_.
     act (inode_at p) (\<lambda>i.
     let k = ibuf i; base = islot i + 14
     in act (change (\<lambda>s. s\<lparr>bref := (bref s)(k := bref s k + 1)\<rparr>)) (\<lambda>_.
        if block < DIRECT_BLOCK then bmap_loop (idev i) create 0 k base (ucast block) block 1
        else let block = block - DIRECT_BLOCK
             in if block < INDIRECT1_BLOCK
                then bmap_loop (idev i) create 1 k base (ucast DIRECT_BLOCK) block 1
                else let block = block - INDIRECT1_BLOCK
                     in act (lift (assrt (block < INDIRECT2_BLOCK))) (\<lambda>_.
                        bmap_loop (idev i) create 2 k base (ucast (DIRECT_BLOCK + 1)) block BLOCK_INDEXES))))"

end
