(* ===== verification/Inode.thy ===== *)
theory Inode
  imports Bmap
begin

text \<open>
  Inodes and the contents of files: \<^verbatim>\<open>fs/inode.c\<close>.  The inodes in use of a device are in
  its super block's list, the newest first; an inode that is taken out of a list is taken out of
  whichever list holds it.
\<close>

subsection \<open>The inode table\<close>

fun free_inode_loop :: "inode list \<Rightarrow> nat \<Rightarrow> addr res" where
  "free_inode_loop [] i = Inl Panic"
| "free_inode_loop (x # xs) i = (if idev x = -1 then Inr (i + 1) else free_inode_loop xs (Suc i))"

definition get_free_inode :: "('h, addr) fsm" where
  "get_free_inode = act (look inode_table) (\<lambda>t. lift (free_inode_loop t 0))"

definition get_root_inode :: addr where "get_root_inode = 1"

definition put_free_inode :: "addr \<Rightarrow> ('h, unit) fsm" where
  "put_free_inode p =
     act (lift (assrt (p \<noteq> get_root_inode))) (\<lambda>_.
     act (look (icnt p)) (\<lambda>n. act (lift (assrt (n = 0))) (\<lambda>_.
     upd_inode p (\<lambda>i. i\<lparr>idev := -1\<rparr>))))"

definition inc_icnt :: "addr \<Rightarrow> ('h, unit) fsm" where
  "inc_icnt p = act (inode_at p) (\<lambda>_. change (\<lambda>s. set_icnt p (icnt p s + 1) s))"

definition dec_icnt :: "addr \<Rightarrow> ('h, unit) fsm" where
  "dec_icnt p = act (inode_at p) (\<lambda>_. change (\<lambda>s. set_icnt p (icnt p s - 1) s))"

subsection \<open>Pipe inodes\<close>

definition FIFO_SIZE :: u32 where "FIFO_SIZE = 16"

definition fs_kmalloc :: "u32 \<Rightarrow> ('h, addr) fsm" where
  "fs_kmalloc n s =
     bnd (kmalloc (heaps (kst s)) (mm (sched_of s)) (nodes_at (sched_of s)) n) (\<lambda>(a, m, h, p).
     Inr (p, s\<lparr>kst := (kst s)\<lparr>heaps := a, sch := (sched_of s)\<lparr>mm := m, nodes_at := h\<rparr>\<rparr>\<rparr>))"

definition fs_kfree :: "addr \<Rightarrow> ('h, unit) fsm" where
  "fs_kfree p s =
     bnd (kfree (heaps (kst s)) (mm (sched_of s)) (nodes_at (sched_of s)) p) (\<lambda>(a, m, h).
     Inr ((), s\<lparr>kst := (kst s)\<lparr>heaps := a, sch := (sched_of s)\<lparr>mm := m, nodes_at := h\<rparr>\<rparr>\<rparr>))"

definition fs_alloc_kpage :: "u32 \<Rightarrow> ('h, u32) fsm" where
  "fs_alloc_kpage n s =
     bnd (alloc_kpage (mm (sched_of s)) n) (\<lambda>(m, p). Inr (p, upd_sched (\<lambda>k. k\<lparr>mm := m\<rparr>) s))"

definition fs_free_kpage :: "u32 \<Rightarrow> u32 \<Rightarrow> ('h, unit) fsm" where
  "fs_free_kpage p n s =
     bnd (free_kpage (mm (sched_of s)) p n) (\<lambda>m. Inr ((), upd_sched (\<lambda>k. k\<lparr>mm := m\<rparr>) s))"

definition load_bytes :: "mem \<Rightarrow> addr \<Rightarrow> nat \<Rightarrow> u8 list" where
  "load_bytes m a n = map (\<lambda>i. m (a + i)) [0..<n]"

definition get_pipe_inode :: "('h, addr) fsm" where
  "get_pipe_inode =
     act get_free_inode (\<lambda>p.
     act (upd_inode p (\<lambda>i. i\<lparr>idev := -2\<rparr>)) (\<lambda>_.
     act (fs_kmalloc FIFO_SIZE) (\<lambda>d.
     act (upd_inode p (\<lambda>i. i\<lparr>pdesc := d\<rparr>)) (\<lambda>_.
     act (fs_alloc_kpage 1) (\<lambda>page.
     act (upd_inode p (\<lambda>i. i\<lparr>pbuf := page\<rparr>)) (\<lambda>_.
     act (change (set_icnt p 2)) (\<lambda>_.
     act (upd_inode p (\<lambda>i. i\<lparr>ipipe := True\<rparr>)) (\<lambda>_.
     act (look (\<lambda>s. load_bytes (mem_of s) (unat page) (unat PAGE_SIZE))) (\<lambda>bs.
     act (upd_inode p (\<lambda>i. i\<lparr>pfifo := fifo_init bs (unat PAGE_SIZE)\<rparr>)) (\<lambda>_. ret p))))))))))"

definition put_pipe_inode :: "addr \<Rightarrow> ('h, unit) fsm" where
  "put_pipe_inode p =
     (if p = 0 then ret ()
      else act (dec_icnt p) (\<lambda>_. act (look (icnt p)) (\<lambda>n.
           if n \<noteq> 0 then ret ()
           else act (upd_inode p (\<lambda>i. i\<lparr>ipipe := False\<rparr>)) (\<lambda>_. act (inode_at p) (\<lambda>i.
                act (fs_kfree (pdesc i)) (\<lambda>_.
                act (fs_free_kpage (pbuf i) 1) (\<lambda>_. put_free_inode p)))))))"

subsection \<open>Getting and putting an inode\<close>

definition inode_block :: "super_desc \<Rightarrow> u32 \<Rightarrow> u32" where
  "inode_block d nr = 2 + ucast (imap_blocks d) + ucast (zmap_blocks d) + (nr - 1) div BLOCK_INODES"

fun find_loop :: "inode list \<Rightarrow> u32 \<Rightarrow> addr list \<Rightarrow> addr res" where
  "find_loop t nr [] = Inr 0"
| "find_loop t nr (p # ps) = bnd (rd t (p - 1)) (\<lambda>i. if inr i = nr then Inr p else find_loop t nr ps)"

definition find_inode :: "int \<Rightarrow> u32 \<Rightarrow> ('h, addr) fsm" where
  "find_inode dev nr =
     act (get_super dev) (\<lambda>sp. act (lift (assrt (sp \<noteq> None))) (\<lambda>_.
     act (super_at sp) (\<lambda>sb. act (look inode_table) (\<lambda>t. lift (find_loop t nr (inode_list sb))))))"

definition remove_node :: "addr \<Rightarrow> ('h, unit) fsm" where
  "remove_node p =
     act (look (\<lambda>s. \<exists>sb\<in>set (super_table s). p \<in> set (inode_list sb))) (\<lambda>linked.
     act (lift (assrt linked)) (\<lambda>_.
     change (\<lambda>s. s\<lparr>super_table := map (\<lambda>sb. sb\<lparr>inode_list := remove1 p (inode_list sb)\<rparr>) (super_table s)\<rparr>)))"

definition iput :: "addr \<Rightarrow> ('h, unit) fsm" where
  "iput p =
     (if p = 0 then ret ()
      else act (inode_at p) (\<lambda>i.
           if ipipe i then put_pipe_inode p
           else act (change (blk_write (ibuf i))) (\<lambda>_.
                act (dec_icnt p) (\<lambda>_. act (look (icnt p)) (\<lambda>n.
                if n \<noteq> 0 then ret ()
                else act (blk_release (Some (ibuf i))) (\<lambda>_.
                     act (remove_node p) (\<lambda>_. put_free_inode p)))))))"

definition fit_inode :: "addr \<Rightarrow> ('h, addr) fsm" where
  "fit_inode p =
     act (inode_at p) (\<lambda>i.
     if imount i = 0 then ret p
     else act (get_super (imount i)) (\<lambda>sp. act (lift (assrt (sp \<noteq> None))) (\<lambda>_.
          act (iput p) (\<lambda>_. act (super_at sp) (\<lambda>sb.
          act (inc_icnt (siroot sb)) (\<lambda>_. ret (siroot sb)))))))"

definition stamp_atime :: "addr \<Rightarrow> ('h, u32) fsm" where
  "stamp_atime p = act get_time (\<lambda>t. act (upd_inode p (\<lambda>i. i\<lparr>iatime := t\<rparr>)) (\<lambda>_. ret t))"

definition link_inode :: "nat option \<Rightarrow> addr \<Rightarrow> ('h, unit) fsm" where
  "link_inode sp p =
     act (super_at sp) (\<lambda>sb. act (lift (assrt (p \<notin> set (inode_list sb)))) (\<lambda>_.
     upd_super sp (\<lambda>sb. sb\<lparr>inode_list := p # inode_list sb\<rparr>)))"

text \<open>The rest of \<^verbatim>\<open>iget\<close> for an inode that is not in use yet.\<close>

definition iget_new :: "int \<Rightarrow> u32 \<Rightarrow> ('h, addr) fsm" where
  "iget_new dev nr =
     act (get_super dev) (\<lambda>sp. act (lift (assrt (sp \<noteq> None))) (\<lambda>_.
     act (sdesc_at sp) (\<lambda>d. act (lift (assrt (nr \<le> ucast (inodes d)))) (\<lambda>_.
     act get_free_inode (\<lambda>p.
     act (upd_inode p (\<lambda>i. i\<lparr>idev := dev, inr := nr\<rparr>)) (\<lambda>_.
     act (inc_icnt p) (\<lambda>_.
     act (link_inode sp p) (\<lambda>_.
     act (sdesc_at sp) (\<lambda>d. act (blk_read dev (inode_block d nr)) (\<lambda>k.
     act (upd_inode p (\<lambda>i. i\<lparr>ibuf := k, islot := unat (((nr - 1) mod BLOCK_INODES) * INODE_DESC_SIZE)\<rparr>)) (\<lambda>_.
     act (desc_at p) (\<lambda>d. act (upd_inode p (\<lambda>i. i\<lparr>ictime := imtime d\<rparr>)) (\<lambda>_.
     act (stamp_atime p) (\<lambda>_. ret p))))))))))))))"

definition iget :: "int \<Rightarrow> u32 \<Rightarrow> ('h, addr) fsm" where
  "iget dev nr =
     act (find_inode dev nr) (\<lambda>p.
     if p \<noteq> 0 then act (inc_icnt p) (\<lambda>_. act (stamp_atime p) (\<lambda>_. fit_inode p))
     else iget_new dev nr)"

definition new_inode :: "int \<Rightarrow> u32 \<Rightarrow> ('h, addr) fsm" where
  "new_inode dev nr =
     act (look cur_task) (\<lambda>t.
     act (iget dev nr) (\<lambda>p.
     act (dirty_inode p) (\<lambda>_.
     act (upd_desc p (\<lambda>d. d\<lparr>imode := 0x1ff AND NOT (umask t), iuid := ucast (uid t), isize := 0\<rparr>)) (\<lambda>_.
     act (stamp_atime p) (\<lambda>now.
     act (upd_desc p (\<lambda>d. d\<lparr>imtime := now, igid := ucast (gid t), inlinks := 1\<rparr>)) (\<lambda>_. ret p))))))"

subsection \<open>Reading and writing a file\<close>

definition store_bytes :: "addr \<Rightarrow> u8 list \<Rightarrow> mem \<Rightarrow> mem" where
  "store_bytes a bs m = (\<lambda>x. if a \<le> x \<and> x < a + length bs then bs ! (x - a) else m x)"

text \<open>\<^verbatim>\<open>memcpy\<close> between a block and memory; leaving the block is a fault.\<close>

definition copy_out :: "bkey \<Rightarrow> u32 \<Rightarrow> u32 \<Rightarrow> addr \<Rightarrow> ('h, unit) fsm" where
  "copy_out k start n a s =
     (if unat start + unat n \<le> length (bytes s k)
      then Inr ((), upd_mem (store_bytes a (take (unat n) (drop (unat start) (bytes s k)))) s)
      else Inl Fault)"

definition copy_in :: "bkey \<Rightarrow> u32 \<Rightarrow> u32 \<Rightarrow> addr \<Rightarrow> ('h, unit) fsm" where
  "copy_in k start n a s =
     (if unat start + unat n \<le> length (bytes s k)
      then Inr ((), upd_bytes k (\<lambda>b. take (unat start) b @ load_bytes (mem_of s) a (unat n)
                       @ drop (unat start + unat n) b) s)
      else Inl Fault)"

definition block_index :: "u32 \<Rightarrow> u32" where
  "block_index off = word_of_int (sint off sdiv 1024)"

definition block_start :: "u32 \<Rightarrow> u32" where
  "block_start off = word_of_int (sint off smod 1024)"

partial_function (option) read_loop :: "addr \<Rightarrow> addr \<Rightarrow> u32 \<Rightarrow> u32 \<Rightarrow> 'h fs \<Rightarrow> (u32 \<times> 'h fs) res option" where
  "read_loop p a left off s =
     (if left = 0 then Some (Inr (off, s))
      else let start = block_start off; chars = min (BLOCK_SIZE - start) left in
        case act (bmap p (block_index off) False) (\<lambda>nr. act (lift (assrt (nr \<noteq> 0))) (\<lambda>_.
             act (inode_at p) (\<lambda>i. act (blk_read (idev i) nr) (\<lambda>k.
             act (copy_out k start chars a) (\<lambda>_. blk_release (Some k)))))) s of
          Inl e \<Rightarrow> Some (Inl e)
        | Inr (_, s) \<Rightarrow> read_loop p (a + unat chars) (left - chars) (off + chars) s)"

definition inode_read :: "addr \<Rightarrow> addr \<Rightarrow> u32 \<Rightarrow> u32 \<Rightarrow> ('h, u32) fsm" where
  "inode_read p a len off =
     act (desc_at p) (\<lambda>d. act (lift (assrt (ISFILE (imode d) \<or> ISDIR (imode d)))) (\<lambda>_.
     if off \<ge> isize d then ret EOF
     else act (\<lambda>s. run (read_loop p a (min len (isize d - off)) off s)) (\<lambda>end.
          act (stamp_atime p) (\<lambda>_. ret (end - off)))))"

text \<open>One round of the loop of \<^verbatim>\<open>inode_write\<close>.\<close>

definition write_round :: "addr \<Rightarrow> addr \<Rightarrow> u32 \<Rightarrow> u32 \<Rightarrow> ('h, unit) fsm" where
  "write_round p a chars off =
     act (bmap p (block_index off) True) (\<lambda>nr. act (lift (assrt (nr \<noteq> 0))) (\<lambda>_.
     act (inode_at p) (\<lambda>i. act (blk_read (idev i) nr) (\<lambda>k.
     act (change (mark_dirty k)) (\<lambda>_.
     act (desc_at p) (\<lambda>d.
     act (whenM (off + chars > isize d)
            (act (upd_desc p (\<lambda>d. d\<lparr>isize := off + chars\<rparr>)) (\<lambda>_. dirty_inode p))) (\<lambda>_.
     act (copy_in k (block_start off) chars a) (\<lambda>_. blk_release (Some k)))))))))"

partial_function (option) write_loop :: "addr \<Rightarrow> addr \<Rightarrow> u32 \<Rightarrow> u32 \<Rightarrow> 'h fs \<Rightarrow> (u32 \<times> 'h fs) res option" where
  "write_loop p a left off s =
     (if left = 0 then Some (Inr (off, s))
      else let chars = min (BLOCK_SIZE - block_start off) left in
        case write_round p a chars off s of
          Inl e \<Rightarrow> Some (Inl e)
        | Inr (_, s) \<Rightarrow> write_loop p (a + unat chars) (left - chars) (off + chars) s)"

definition inode_write :: "addr \<Rightarrow> addr \<Rightarrow> u32 \<Rightarrow> u32 \<Rightarrow> ('h, u32) fsm" where
  "inode_write p a len off =
     act (desc_at p) (\<lambda>d. act (lift (assrt (ISFILE (imode d)))) (\<lambda>_.
     act (\<lambda>s. run (write_loop p a len off s)) (\<lambda>end.
     act (stamp_atime p) (\<lambda>now.
     act (upd_desc p (\<lambda>d. d\<lparr>imtime := now\<rparr>)) (\<lambda>_.
     act (write_inode p) (\<lambda>_. ret (end - off)))))))"

subsection \<open>Releasing a file's blocks\<close>

fun for_loop :: "nat \<Rightarrow> nat \<Rightarrow> (nat \<Rightarrow> ('h, unit) fsm) \<Rightarrow> ('h, unit) fsm" where
  "for_loop i 0 body = ret ()"
| "for_loop i (Suc n) body = act (body i) (\<lambda>_. for_loop (Suc i) n body)"

primrec inode_bfree :: "nat \<Rightarrow> int \<Rightarrow> bkey \<Rightarrow> nat \<Rightarrow> nat \<Rightarrow> ('h, unit) fsm" where
  "inode_bfree 0 dev k base index =
     act (look (arr_get k base (of_nat index))) (\<lambda>z. if z = 0 then ret () else bfree dev (ucast z))"
| "inode_bfree (Suc level) dev k base index =
     act (look (arr_get k base (of_nat index))) (\<lambda>z.
     if z = 0 then ret ()
     else act (blk_read dev (ucast z)) (\<lambda>b.
          act (for_loop 0 (unat BLOCK_INDEXES) (inode_bfree level dev b 0)) (\<lambda>_.
          act (blk_release (Some b)) (\<lambda>_.
          act (look (arr_get k base (of_nat index))) (\<lambda>z. bfree dev (ucast z))))))"

definition free_zone :: "inode \<Rightarrow> nat \<Rightarrow> nat \<Rightarrow> ('h, unit) fsm" where
  "free_zone i level index =
     act (inode_bfree level (idev i) (ibuf i) (islot i + 14) index) (\<lambda>_.
     change (arr_set (ibuf i) (islot i + 14) (of_nat index) 0))"

definition inode_truncate :: "addr \<Rightarrow> ('h, unit) fsm" where
  "inode_truncate p =
     act (desc_at p) (\<lambda>d.
     if \<not> ISFILE (imode d) \<and> \<not> ISDIR (imode d) then ret ()
     else act (inode_at p) (\<lambda>i.
          act (for_loop 0 (unat DIRECT_BLOCK) (free_zone i 0)) (\<lambda>_.
          act (free_zone i 1 (unat DIRECT_BLOCK)) (\<lambda>_.
          act (free_zone i 2 (unat DIRECT_BLOCK + 1)) (\<lambda>_.
          act (upd_desc p (\<lambda>d. d\<lparr>isize := 0\<rparr>)) (\<lambda>_.
          act (dirty_inode p) (\<lambda>_.
          act get_time (\<lambda>now.
          act (upd_desc p (\<lambda>d. d\<lparr>imtime := now\<rparr>)) (\<lambda>_. write_inode p)))))))))"

definition inode_init :: "'h fs \<Rightarrow> 'h fs" where
  "inode_init s =
     s\<lparr>inode_table := map (\<lambda>i. i\<lparr>idev := -1, ipipe := False, rxwaiter := 0, txwaiter := 0\<rparr>) (inode_table s)\<rparr>"

end
