(* ===== verification/Namei.thy ===== *)
theory Namei
  imports Inode
begin

text \<open>
  Names, directories and the system calls on them: \<^verbatim>\<open>fs/namei.c\<close>.  Path names are
  zero-terminated strings in memory and a directory entry is sixteen bytes of a block: the inode
  number, then the name.  Where the code stores through a pointer parameter the function returns the
  value: \<open>find_entry\<close> gives the directory it ended in (\<^verbatim>\<open>..\<close> of a mounted root
  leaves it for the directory it is mounted on) and, when it finds the name, the buffer, the
  entry's place in it and the rest of the path.
\<close>

subsection \<open>Permissions and names\<close>

definition permission :: "addr \<Rightarrow> u16 \<Rightarrow> ('h, bool) fsm" where
  "permission p want =
     act (desc_at p) (\<lambda>d. act (look cur_task) (\<lambda>t.
     if inlinks d = 0 then ret False
     else if uid t = KERNEL_USER then ret True
     else let mode = (if uid t = ucast (iuid d) then drop_bit 6 (imode d)
                      else if gid t = ucast (igid d) then drop_bit 3 (imode d)
                      else imode d)
          in ret ((mode AND want AND 7) = want)))"

text \<open>The second name is read by position, as far as its buffer goes.\<close>

partial_function (option) match_loop :: "mem \<Rightarrow> addr \<Rightarrow> (nat \<Rightarrow> u8 res) \<Rightarrow> nat \<Rightarrow> (addr \<times> u8) res option" where
  "match_loop m lhs e rhs =
     (case e rhs of
        Inl err \<Rightarrow> Some (Inl err)
      | Inr c \<Rightarrow>
          if m lhs = c \<and> m lhs \<noteq> 0 \<and> c \<noteq> 0 then match_loop m (lhs + 1) e (rhs + 1)
          else Some (Inr (lhs, c)))"

definition match_name :: "mem \<Rightarrow> addr \<Rightarrow> (nat \<Rightarrow> u8 res) \<Rightarrow> nat \<Rightarrow> addr option res" where
  "match_name m name e rhs =
     bnd (run (match_loop m name e rhs)) (\<lambda>(lhs, c).
     Inr (if c \<noteq> 0 then None
          else if m lhs \<noteq> 0 \<and> \<not> IS_SEPARATOR (m lhs) then None
          else Some (if IS_SEPARATOR (m lhs) then lhs + 1 else lhs)))"

subsection \<open>Directory entries\<close>

definition entry_pos :: "nat \<Rightarrow> nat" where "entry_pos e = 16 * e"

definition entry_nr :: "bkey \<Rightarrow> nat \<Rightarrow> 'h fs \<Rightarrow> u16" where
  "entry_nr k e s = ld16 (bytes s k) (entry_pos e)"

definition set_entry_nr :: "bkey \<Rightarrow> nat \<Rightarrow> u16 \<Rightarrow> 'h fs \<Rightarrow> 'h fs" where
  "set_entry_nr k e nr = upd_bytes k (st16 (entry_pos e) nr)"

definition match_entry :: "addr \<Rightarrow> bkey \<Rightarrow> nat \<Rightarrow> ('h, addr option) fsm" where
  "match_entry name k e =
     act (look (\<lambda>s. match_name (mem_of s) name (rd (bytes s k)) (entry_pos e + 2))) lift"

text \<open>
  The block of entry \<open>i\<close>: the one at hand while \<open>e\<close> is inside it, else the next one.
\<close>

definition entry_block :: "addr \<Rightarrow> bool \<Rightarrow> u32 \<Rightarrow> bkey option \<Rightarrow> nat \<Rightarrow> ('h, bkey \<times> nat) fsm" where
  "entry_block p create i b e =
     (case b of
        Some k \<Rightarrow>
          if e < unat BLOCK_DENTRIES then ret (k, e)
          else act (blk_release b) (\<lambda>_. act (bmap p (i div BLOCK_DENTRIES) create) (\<lambda>blk.
               act (lift (assrt (blk \<noteq> 0))) (\<lambda>_. act (inode_at p) (\<lambda>x.
               act (blk_read (idev x) blk) (\<lambda>k. ret (k, 0))))))
      | None \<Rightarrow>
          act (bmap p (i div BLOCK_DENTRIES) create) (\<lambda>blk.
          act (lift (assrt (blk \<noteq> 0))) (\<lambda>_. act (inode_at p) (\<lambda>x.
          act (blk_read (idev x) blk) (\<lambda>k. ret (k, 0))))))"

fun find_entry_loop :: "addr \<Rightarrow> addr \<Rightarrow> nat \<Rightarrow> nat \<Rightarrow> bkey option \<Rightarrow> nat \<Rightarrow> ('h, (bkey \<times> nat \<times> addr) option) fsm" where
  "find_entry_loop p name i 0 b e = act (blk_release b) (\<lambda>_. ret None)"
| "find_entry_loop p name i (Suc n) b e =
     act (entry_block p False (of_nat i) b e) (\<lambda>(k, e).
     act (match_entry name k e) (\<lambda>next. act (look (entry_nr k e)) (\<lambda>nr.
     case next of
       Some nx \<Rightarrow> if nr \<noteq> 0 then ret (Some (k, e, nx)) else find_entry_loop p name (Suc i) n (Some k) (Suc e)
     | None \<Rightarrow> find_entry_loop p name (Suc i) n (Some k) (Suc e))))"

definition leave_mount :: "addr \<Rightarrow> addr \<Rightarrow> ('h, addr) fsm" where
  "leave_mount p name =
     act (look (\<lambda>s. match_name (mem_of s) name (rd [46, 46, 0]) 0)) (\<lambda>r. act (lift r) (\<lambda>next.
     act (inode_at p) (\<lambda>i.
     if next \<noteq> None \<and> inr i = 1
     then act (get_super (idev i)) (\<lambda>sp. act (super_at sp) (\<lambda>sb.
          act (inc_icnt (simount sb)) (\<lambda>_. act (iput p) (\<lambda>_. ret (simount sb)))))
     else ret p)))"

definition find_entry :: "addr \<Rightarrow> addr \<Rightarrow> ('h, addr \<times> (bkey \<times> nat \<times> addr) option) fsm" where
  "find_entry dp name =
     act (desc_at dp) (\<lambda>d. act (lift (assrt (ISDIR (imode d)))) (\<lambda>_.
     act (leave_mount dp name) (\<lambda>dp.
     act (desc_at dp) (\<lambda>d.
     act (find_entry_loop dp name 0 (unat (isize d div DENTRY_SIZE)) None 0) (\<lambda>r. ret (dp, r))))))"

fun name_loop :: "mem \<Rightarrow> addr \<Rightarrow> nat \<Rightarrow> nat \<Rightarrow> u8 list \<Rightarrow> u8 list" where
  "name_loop m src pos 0 b = b[pos - 1 := 0]"
| "name_loop m src pos (Suc n) b =
     (let b = b[pos := m src] in if m src = 0 then b else name_loop m (src + 1) (pos + 1) n b)"

fun no_separator :: "mem \<Rightarrow> addr \<Rightarrow> nat \<Rightarrow> bool" where
  "no_separator m name 0 = True"
| "no_separator m name (Suc n) =
     (m name = 0 \<or> (\<not> IS_SEPARATOR (m name) \<and> no_separator m (name + 1) n))"

text \<open>One round of the search for a place: \<open>Some\<close> entry is free and has got the name.\<close>

definition add_round :: "addr \<Rightarrow> addr \<Rightarrow> u32 \<Rightarrow> bkey option \<Rightarrow> nat \<Rightarrow> ('h, bool \<times> bkey \<times> nat) fsm" where
  "add_round dp name i b e =
     act (entry_block dp True i b e) (\<lambda>(k, e).
     act (desc_at dp) (\<lambda>d.
     act (whenM (i * DENTRY_SIZE \<ge> isize d)
            (act (change (set_entry_nr k e 0)) (\<lambda>_.
             act (upd_desc dp (\<lambda>d. d\<lparr>isize := (i + 1) * DENTRY_SIZE\<rparr>)) (\<lambda>_. dirty_inode dp)))) (\<lambda>_.
     act (look (entry_nr k e)) (\<lambda>nr.
     if nr \<noteq> 0 then ret (False, k, e)
     else act (change (\<lambda>s. upd_bytes k (name_loop (mem_of s) name (entry_pos e + 2) NAME_LEN) s)) (\<lambda>_.
          act (change (mark_dirty k)) (\<lambda>_.
          act get_time (\<lambda>now.
          act (upd_desc dp (\<lambda>d. d\<lparr>imtime := now\<rparr>)) (\<lambda>_.
          act (dirty_inode dp) (\<lambda>_. ret (True, k, e))))))))))"

partial_function (option) add_loop :: "addr \<Rightarrow> addr \<Rightarrow> u32 \<Rightarrow> bkey option \<Rightarrow> nat \<Rightarrow> 'h fs \<Rightarrow> ((bkey \<times> nat) \<times> 'h fs) res option" where
  "add_loop dp name i b e s =
     (case add_round dp name i b e s of
        Inl err \<Rightarrow> Some (Inl err)
      | Inr ((done_, k, e), s) \<Rightarrow>
          if done_ then Some (Inr ((k, e), s)) else add_loop dp name (i + 1) (Some k) (Suc e) s)"

definition add_entry :: "addr \<Rightarrow> addr \<Rightarrow> ('h, bkey \<times> nat) fsm" where
  "add_entry dp name =
     act (find_entry dp name) (\<lambda>(dp, r).
     case r of
       Some (k, e, nx) \<Rightarrow> ret (k, e)
     | None \<Rightarrow>
         act (look (\<lambda>s. no_separator (mem_of s) name NAME_LEN)) (\<lambda>plain.
         act (lift (assrt plain)) (\<lambda>_. (\<lambda>s. run (add_loop dp name 0 None 0 s)))))"

subsection \<open>Path names\<close>

definition named_fail :: "bkey option \<Rightarrow> addr \<Rightarrow> ('h, addr \<times> addr) fsm" where
  "named_fail b p = act (blk_release b) (\<lambda>_. act (iput p) (\<lambda>_. ret (0, 0)))"

datatype step = Found bkey addr addr | Failed

definition named_step :: "addr \<Rightarrow> addr \<Rightarrow> ('h, step) fsm" where
  "named_step p left =
     act (find_entry p left) (\<lambda>(p, r).
     case r of
       None \<Rightarrow> act (named_fail None p) (\<lambda>_. ret Failed)
     | Some (k, e, next) \<Rightarrow>
         act (inode_at p) (\<lambda>i. act (iput p) (\<lambda>_. act (look (entry_nr k e)) (\<lambda>nr.
         act (iget (idev i) (ucast nr)) (\<lambda>p.
         act (desc_at p) (\<lambda>d. act (permission p P_EXEC) (\<lambda>ok.
         if \<not> ISDIR (imode d) \<or> \<not> ok then act (named_fail (Some k) p) (\<lambda>_. ret Failed)
         else ret (Found k p next))))))))"

partial_function (option) named_loop :: "addr \<Rightarrow> addr \<Rightarrow> addr \<Rightarrow> 'h fs \<Rightarrow> ((addr \<times> addr) \<times> 'h fs) res option" where
  "named_loop right p left s =
     (case named_step p left s of
        Inl e \<Rightarrow> Some (Inl e)
      | Inr (Failed, s) \<Rightarrow> Some (Inr ((0, 0), s))
      | Inr (Found k p next, s) \<Rightarrow>
          if right = next then Some (act (blk_release (Some k)) (\<lambda>_. ret (p, next)) s)
          else named_loop right p next s)"

definition named :: "addr \<Rightarrow> ('h, addr \<times> addr) fsm" where
  "named pathname =
     act (look mem_of) (\<lambda>m. act (look cur_task) (\<lambda>t.
     if m pathname = 0 then ret (0, 0)
     else let p = (if IS_SEPARATOR (m pathname) then iroot t else ipwd t);
              left = (if IS_SEPARATOR (m pathname) then pathname + 1 else pathname)
          in act (inc_icnt p) (\<lambda>_.
             if m left = 0 then ret (p, left)
             else act (lift (case strrsep m left of None \<Rightarrow> Inl Diverge | Some r \<Rightarrow> Inr r)) (\<lambda>right.
                  if right = 0 \<or> right < left then ret (p, left)
                  else (\<lambda>s. run (named_loop (right + 1) p left s))))))"

definition char_at :: "addr \<Rightarrow> 'h fs \<Rightarrow> u8" where "char_at a s = mem_of s a"

definition namei :: "addr \<Rightarrow> ('h, addr) fsm" where
  "namei pathname =
     act (named pathname) (\<lambda>(dp, next).
     if dp = 0 then ret 0
     else act (look (char_at next)) (\<lambda>c.
          if c = 0 then ret dp
          else act (find_entry dp next) (\<lambda>(dp, r).
               case r of
                 None \<Rightarrow> act (iput dp) (\<lambda>_. ret 0)
               | Some (k, e, nx) \<Rightarrow>
                   act (inode_at dp) (\<lambda>i. act (look (entry_nr k e)) (\<lambda>nr.
                   act (iget (idev i) (ucast nr)) (\<lambda>p.
                   act (iput dp) (\<lambda>_. act (blk_release (Some k)) (\<lambda>_. ret p))))))))"

end
