(* ===== verification/Dirs.thy ===== *)
theory Dirs
  imports Namei
begin

text \<open>
  The system calls on directories and names, and the current directory: the second half of
  \<^verbatim>\<open>fs/namei.c\<close>.  Every early exit of the code goes to a label that releases what the
  call holds; here the release is \<open>give_back\<close> with the result.  The memory of the task's
  \<^verbatim>\<open>pwd\<close> page is written out for \<^verbatim>\<open>abspath\<close> and read back after it.
\<close>

text \<open>The closing releases, in the order the code has them.\<close>

definition give_back :: "bkey option \<Rightarrow> addr \<Rightarrow> addr \<Rightarrow> 'a \<Rightarrow> ('h, 'a) fsm" where
  "give_back b p q r = act (blk_release b) (\<lambda>_. act (iput p) (\<lambda>_. act (iput q) (\<lambda>_. ret r)))"

definition inodes_first :: "addr \<Rightarrow> addr \<Rightarrow> bkey option \<Rightarrow> u32 \<Rightarrow> ('h, u32) fsm" where
  "inodes_first p q b r = act (iput p) (\<lambda>_. act (iput q) (\<lambda>_. act (blk_release b) (\<lambda>_. ret r)))"

definition put_name :: "bkey \<Rightarrow> nat \<Rightarrow> u8 list \<Rightarrow> 'h fs \<Rightarrow> 'h fs" where
  "put_name k e cs = upd_bytes k (\<lambda>b. take (entry_pos e + 2) b @ cs @ drop (entry_pos e + 2 + length cs) b)"

subsection \<open>mkdir\<close>

text \<open>The part of \<^verbatim>\<open>sys_mkdir\<close> that makes the new directory, once its entry is there.\<close>

definition make_dir :: "addr \<Rightarrow> bkey \<Rightarrow> nat \<Rightarrow> u32 \<Rightarrow> ('h, u32) fsm" where
  "make_dir d k e mode =
     act (change (mark_dirty k)) (\<lambda>_.
     act (inode_at d) (\<lambda>di.
     act (ialloc (idev di)) (\<lambda>nr.
     act (change (set_entry_nr k e (ucast nr))) (\<lambda>_.
     act (look cur_task) (\<lambda>t.
     act (look (entry_nr k e)) (\<lambda>nr.
     act (new_inode (idev di) (ucast nr)) (\<lambda>p.
     act (upd_desc p (\<lambda>x. x\<lparr>imode := (ucast mode AND 0x1ff AND NOT (umask t)) OR IFDIR,
                              isize := DENTRY_SIZE * 2, inlinks := 2\<rparr>)) (\<lambda>_.
     act (dirty_inode d) (\<lambda>_.
     act (upd_desc d (\<lambda>x. x\<lparr>inlinks := inlinks x + 1\<rparr>)) (\<lambda>_.
     act (inode_at p) (\<lambda>pi.
     act (bmap p 0 True) (\<lambda>blk. act (blk_read (idev pi) blk) (\<lambda>z.
     act (change (mark_dirty z)) (\<lambda>_.
     act (change (put_name z 0 [46, 0])) (\<lambda>_.
     act (change (set_entry_nr z 0 (ucast (inr pi)))) (\<lambda>_.
     act (change (put_name z 1 [46, 46, 0])) (\<lambda>_.
     act (change (set_entry_nr z 1 (ucast (inr di)))) (\<lambda>_.
     act (iput p) (\<lambda>_. act (iput d) (\<lambda>_.
     act (blk_release (Some k)) (\<lambda>_. act (blk_release (Some z)) (\<lambda>_. ret 0))))))))))))))))))))))"

definition sys_mkdir :: "addr \<Rightarrow> u32 \<Rightarrow> ('h, u32) fsm" where
  "sys_mkdir pathname mode =
     act (named pathname) (\<lambda>(d, next).
     if d = 0 then give_back None 0 d EOF
     else act (look (char_at next)) (\<lambda>c.
          if c = 0 then give_back None 0 d EOF
          else act (permission d P_WRITE) (\<lambda>ok.
               if \<not> ok then give_back None 0 d EOF
               else act (find_entry d next) (\<lambda>(d, r).
                    case r of
                      Some (k, e, nx) \<Rightarrow> give_back (Some k) 0 d EOF
                    | None \<Rightarrow> act (add_entry d next) (\<lambda>(k, e). make_dir d k e mode)))))"

subsection \<open>rmdir\<close>

fun count_entries :: "addr \<Rightarrow> nat \<Rightarrow> nat \<Rightarrow> bkey option \<Rightarrow> nat \<Rightarrow> nat \<Rightarrow> ('h, nat) fsm" where
  "count_entries p i 0 b e count = act (blk_release b) (\<lambda>_. ret count)"
| "count_entries p i (Suc n) b e count =
     act (entry_block p False (of_nat i) b e) (\<lambda>(k, e).
     act (look (entry_nr k e)) (\<lambda>nr.
     count_entries p (Suc i) n (Some k) (Suc e) (if nr \<noteq> 0 then count + 1 else count)))"

definition is_empty :: "addr \<Rightarrow> ('h, bool) fsm" where
  "is_empty p =
     act (desc_at p) (\<lambda>d. act (lift (assrt (ISDIR (imode d)))) (\<lambda>_.
     let entries = unat (isize d div DENTRY_SIZE)
     in if entries < 2 \<or> izone d ! 0 = 0 then ret False
        else act (count_entries p 0 entries None 0 0) (\<lambda>count. ret (count = 2))))"

text \<open>The part of \<^verbatim>\<open>sys_rmdir\<close> after its last test.\<close>

definition remove_dir :: "addr \<Rightarrow> addr \<Rightarrow> bkey \<Rightarrow> nat \<Rightarrow> ('h, unit) fsm" where
  "remove_dir d p k e =
     act (desc_at p) (\<lambda>x. act (lift (assrt (inlinks x = 2))) (\<lambda>_.
     act (inode_truncate p) (\<lambda>_.
     act (inode_at p) (\<lambda>i.
     act (ifree (idev i) (inr i)) (\<lambda>_.
     act (upd_desc p (\<lambda>x. x\<lparr>inlinks := 0\<rparr>)) (\<lambda>_.
     act (dirty_inode p) (\<lambda>_.
     act (upd_inode p (\<lambda>i. i\<lparr>inr := 0\<rparr>)) (\<lambda>_.
     act (upd_desc d (\<lambda>x. x\<lparr>inlinks := inlinks x - 1\<rparr>)) (\<lambda>_.
     act get_time (\<lambda>now.
     act (upd_desc d (\<lambda>x. x\<lparr>imtime := now\<rparr>)) (\<lambda>_.
     act (upd_inode d (\<lambda>i. i\<lparr>iatime := now, ictime := now\<rparr>)) (\<lambda>_.
     act (dirty_inode d) (\<lambda>_.
     act (desc_at d) (\<lambda>x. act (lift (assrt (inlinks x > 0))) (\<lambda>_.
     act (change (set_entry_nr k e 0)) (\<lambda>_. change (mark_dirty k)))))))))))))))))"

definition rmdir_allowed :: "addr \<Rightarrow> addr \<Rightarrow> ('h, bool) fsm" where
  "rmdir_allowed d p =
     (if p = 0 \<or> p = d then ret False
      else act (desc_at p) (\<lambda>x. act (desc_at d) (\<lambda>y. act (look cur_task) (\<lambda>t.
           act (inode_at p) (\<lambda>pi. act (inode_at d) (\<lambda>di. act (look (icnt p)) (\<lambda>n.
           if \<not> ISDIR (imode x) then ret False
           else if imode y AND ISVTX \<noteq> 0 \<and> uid t \<noteq> ucast (iuid x) then ret False
           else if idev di \<noteq> idev pi \<or> n > 1 then ret False
           else is_empty p)))))))"

definition sys_rmdir :: "addr \<Rightarrow> ('h, u32) fsm" where
  "sys_rmdir pathname =
     act (named pathname) (\<lambda>(d, next).
     if d = 0 then inodes_first 0 d None EOF
     else act (look (char_at next)) (\<lambda>c.
          if c = 0 then inodes_first 0 d None EOF
          else act (permission d P_WRITE) (\<lambda>ok.
               if \<not> ok then inodes_first 0 d None EOF
               else act (find_entry d next) (\<lambda>(d, r).
                    case r of
                      None \<Rightarrow> inodes_first 0 d None EOF
                    | Some (k, e, nx) \<Rightarrow>
                        act (inode_at d) (\<lambda>di. act (look (entry_nr k e)) (\<lambda>nr.
                        act (iget (idev di) (ucast nr)) (\<lambda>p.
                        act (rmdir_allowed d p) (\<lambda>ok.
                        if \<not> ok then inodes_first p d (Some k) EOF
                        else act (remove_dir d p k e) (\<lambda>_. inodes_first p d (Some k) 0)))))))))"

subsection \<open>link and unlink\<close>

definition sys_link :: "addr \<Rightarrow> addr \<Rightarrow> ('h, u32) fsm" where
  "sys_link oldname newname =
     act (namei oldname) (\<lambda>p.
     if p = 0 then give_back None p 0 EOF
     else act (desc_at p) (\<lambda>x.
     if ISDIR (imode x) then give_back None p 0 EOF
     else act (named newname) (\<lambda>(d, next).
     if d = 0 then give_back None p d EOF
     else act (look (char_at next)) (\<lambda>c. act (inode_at d) (\<lambda>di. act (inode_at p) (\<lambda>pi.
     if c = 0 \<or> idev di \<noteq> idev pi then give_back None p d EOF
     else act (permission d P_WRITE) (\<lambda>ok.
     if \<not> ok then give_back None p d EOF
     else act (find_entry d next) (\<lambda>(d, r).
     case r of
       Some (k, e, nx) \<Rightarrow> give_back (Some k) p d EOF
     | None \<Rightarrow>
         act (add_entry d next) (\<lambda>(k, e).
         act (change (set_entry_nr k e (ucast (inr pi)))) (\<lambda>_.
         act (change (mark_dirty k)) (\<lambda>_.
         act (upd_desc p (\<lambda>x. x\<lparr>inlinks := inlinks x + 1\<rparr>)) (\<lambda>_.
         act get_time (\<lambda>now.
         act (upd_inode p (\<lambda>i. i\<lparr>ictime := now\<rparr>)) (\<lambda>_.
         act (dirty_inode p) (\<lambda>_. give_back (Some k) p d 0)))))))))))))))"

text \<open>The part of \<^verbatim>\<open>sys_unlink\<close> that takes the name away.\<close>

definition drop_link :: "addr \<Rightarrow> bkey \<Rightarrow> nat \<Rightarrow> ('h, unit) fsm" where
  "drop_link p k e =
     act (change (set_entry_nr k e 0)) (\<lambda>_.
     act (change (mark_dirty k)) (\<lambda>_.
     act (upd_desc p (\<lambda>x. x\<lparr>inlinks := inlinks x - 1\<rparr>)) (\<lambda>_.
     act (dirty_inode p) (\<lambda>_.
     act (desc_at p) (\<lambda>x. act (inode_at p) (\<lambda>i.
     whenM (inlinks x = 0)
       (act (inode_truncate p) (\<lambda>_. ifree (idev i) (inr i)))))))))"

definition sys_unlink :: "addr \<Rightarrow> ('h, u32) fsm" where
  "sys_unlink filename =
     act (named filename) (\<lambda>(d, next).
     if d = 0 then give_back None 0 d EOF
     else act (look (char_at next)) (\<lambda>c.
     if c = 0 then give_back None 0 d EOF
     else act (permission d P_WRITE) (\<lambda>ok.
     if \<not> ok then give_back None 0 d EOF
     else act (find_entry d next) (\<lambda>(d, r).
     case r of
       None \<Rightarrow> give_back None 0 d EOF
     | Some (k, e, nx) \<Rightarrow>
         act (inode_at d) (\<lambda>di. act (look (entry_nr k e)) (\<lambda>nr.
         act (iget (idev di) (ucast nr)) (\<lambda>p.
         act (desc_at p) (\<lambda>x. act (look cur_task) (\<lambda>t.
         if ISDIR (imode x) \<or> (imode x AND ISVTX \<noteq> 0 \<and> uid t \<noteq> ucast (iuid x))
         then give_back (Some k) p d EOF
         else act (drop_link p k e) (\<lambda>_. give_back (Some k) p d 0))))))))))"

subsection \<open>Opening\<close>

text \<open>
  The label \<^verbatim>\<open>makeup\<close>: the checks on the inode found or made, then the release of the
  entry's buffer and of the directory.
\<close>

definition open_makeup :: "addr \<Rightarrow> bkey \<Rightarrow> addr \<Rightarrow> u32 \<Rightarrow> ('h, addr) fsm" where
  "open_makeup d k p flag =
     act (permission p (ACC_MODE (flag AND O_ACCMODE))) (\<lambda>ok. act (desc_at p) (\<lambda>x.
     if \<not> ok \<or> (ISDIR (imode x) \<and> flag AND O_ACCMODE \<noteq> O_RDONLY)
     then act (blk_release (Some k)) (\<lambda>_. act (iput d) (\<lambda>_. act (iput p) (\<lambda>_. ret 0)))
     else act (stamp_atime p) (\<lambda>_.
          act (whenM (flag AND O_TRUNC \<noteq> 0) (inode_truncate p)) (\<lambda>_.
          act (blk_release (Some k)) (\<lambda>_. act (iput d) (\<lambda>_. ret p))))))"

definition make_file :: "addr \<Rightarrow> bkey \<Rightarrow> nat \<Rightarrow> u16 \<Rightarrow> ('h, addr) fsm" where
  "make_file d k e mode =
     act (inode_at d) (\<lambda>di.
     act (ialloc (idev di)) (\<lambda>nr.
     act (change (set_entry_nr k e (ucast nr))) (\<lambda>_.
     act (look (entry_nr k e)) (\<lambda>nr.
     act (new_inode (idev di) (ucast nr)) (\<lambda>p.
     act (upd_desc p (\<lambda>x. x\<lparr>imode := mode\<rparr>)) (\<lambda>_. ret p))))))"

definition open_flags :: "u32 \<Rightarrow> u32" where
  "open_flags flag = (if flag AND O_TRUNC \<noteq> 0 \<and> flag AND O_ACCMODE = O_RDONLY then flag OR O_RDWR else flag)"

definition inode_open :: "addr \<Rightarrow> u32 \<Rightarrow> u32 \<Rightarrow> ('h, addr) fsm" where
  "inode_open pathname flag mode =
     act (named pathname) (\<lambda>(d, next).
     if d = 0 then give_back None d 0 0
     else act (look (char_at next)) (\<lambda>c.
     if c = 0 then ret d
     else let flag = open_flags flag in
       act (find_entry d next) (\<lambda>(d, r).
       case r of
         Some (k, e, nx) \<Rightarrow>
           act (inode_at d) (\<lambda>di. act (look (entry_nr k e)) (\<lambda>nr.
           act (iget (idev di) (ucast nr)) (\<lambda>p. open_makeup d k p flag)))
       | None \<Rightarrow>
           if flag AND O_CREAT = 0 then give_back None d 0 0
           else act (permission d P_WRITE) (\<lambda>ok.
                if \<not> ok then give_back None d 0 0
                else act (add_entry d next) (\<lambda>(k, e).
                     act (look cur_task) (\<lambda>t.
                     act (make_file d k e ((ucast mode AND (0x1ff AND NOT (umask t))) OR IFREG)) (\<lambda>p.
                     open_makeup d k p flag)))))))"

definition sys_mknod :: "addr \<Rightarrow> u32 \<Rightarrow> u32 \<Rightarrow> ('h, u32) fsm" where
  "sys_mknod filename mode dev =
     act (named filename) (\<lambda>(d, next).
     if d = 0 then give_back None 0 d EOF
     else act (look (char_at next)) (\<lambda>c.
     if c = 0 then give_back None 0 d EOF
     else act (permission d P_WRITE) (\<lambda>ok.
     if \<not> ok then give_back None 0 d EOF
     else act (find_entry d next) (\<lambda>(d, r).
     case r of
       Some (k, e, nx) \<Rightarrow> give_back (Some k) 0 d EOF
     | None \<Rightarrow>
         act (add_entry d next) (\<lambda>(k, e).
         act (change (mark_dirty k)) (\<lambda>_.
         act (make_file d k e (ucast mode)) (\<lambda>p.
         act (whenM (ISBLK (ucast mode) \<or> ISCHR (ucast mode))
                (upd_desc p (\<lambda>x. x\<lparr>izone := (izone x)[0 := ucast dev]\<rparr>))) (\<lambda>_.
         give_back (Some k) p d 0))))))))"

subsection \<open>The current directory\<close>

definition starts :: "mem \<Rightarrow> addr \<Rightarrow> u8 list \<Rightarrow> bool" where
  "starts m p cs = (\<forall>i<length cs. m (p + i) = cs ! i)"

text \<open>A store through a pointer that may be null, and the step back to the parent directory.\<close>

definition put_char :: "mem \<Rightarrow> addr \<Rightarrow> u8 \<Rightarrow> mem res" where
  "put_char m p c = (if p = 0 then Inl Fault else Inr (m(p := c)))"

definition sep_end :: "mem \<Rightarrow> addr \<Rightarrow> addr res" where
  "sep_end m p = (case strrsep m p of None \<Rightarrow> Inl Diverge
                    | Some q \<Rightarrow> if q = 0 then Inl Fault else Inr (q + 1))"

definition up_one :: "mem \<Rightarrow> addr \<Rightarrow> addr \<Rightarrow> (mem \<times> addr) res" where
  "up_one m cwd cur =
     (if cur - 1 \<noteq> cwd
      then bnd (put_char m (cur - 1) 0) (\<lambda>m.
           bnd (sep_end m cwd) (\<lambda>cur. Inr (m(cur := 0), cur)))
      else Inr (m, cur))"

partial_function (option) abspath_loop :: "mem \<Rightarrow> addr \<Rightarrow> addr \<Rightarrow> addr \<Rightarrow> (mem \<times> addr \<times> addr) res option" where
  "abspath_loop m cwd cur pathname =
     (if m pathname = 0 then Some (Inr (m, cur, pathname))
      else Option.bind (strsep m pathname) (\<lambda>ptr.
        if ptr = 0 then Some (Inr (m, cur, pathname))
        else let len = ptr - pathname + 1; m = m(ptr := 47) in
          if starts m pathname [46, 47] then abspath_loop m cwd cur (pathname + len)
          else if starts m pathname [46, 46, 47]
          then (case up_one m cwd cur of
                  Inl e \<Rightarrow> Some (Inl e)
                | Inr (m, cur) \<Rightarrow> abspath_loop m cwd cur (pathname + len))
          else abspath_loop (fst (strncpy m cur pathname (len + 1))) cwd (cur + len) (pathname + len)))"

definition abspath_last :: "mem \<Rightarrow> addr \<Rightarrow> addr \<Rightarrow> addr \<Rightarrow> mem res" where
  "abspath_last m cwd cur pathname =
     (if m pathname = 0 then Inr m
      else if starts m pathname [46, 0] then Inr m
      else if \<not> starts m pathname [46, 46, 0]
      then (case strcpy m cur pathname of
              None \<Rightarrow> Inl Diverge
            | Some (m, _) \<Rightarrow>
                (case strlen m pathname of
                   None \<Rightarrow> Inl Diverge
                 | Some n \<Rightarrow> Inr (m(cur + n := 47, cur + n + 1 := 0))))
      else bnd (up_one m cwd cur) (\<lambda>(m, _). Inr m))"

definition abspath :: "mem \<Rightarrow> addr \<Rightarrow> addr \<Rightarrow> mem res" where
  "abspath m cwd pathname =
     bnd (if IS_SEPARATOR (m pathname) then Inr (cwd + 1, pathname + 1)
          else bnd (sep_end m cwd) (\<lambda>cur. Inr (cur, pathname))) (\<lambda>(cur, pathname).
     bnd (run (abspath_loop (m(cur := 0)) cwd cur pathname)) (\<lambda>(m, cur, pathname).
     abspath_last m cwd cur pathname))"

partial_function (option) read_str :: "mem \<Rightarrow> addr \<Rightarrow> u8 list option" where
  "read_str m p = (if m p = 0 then Some [] else Option.bind (read_str m (p + 1)) (\<lambda>cs. Some (m p # cs)))"

definition set_pwd :: "addr \<Rightarrow> ('h, unit) fsm" where
  "set_pwd pathname =
     act (look cur_task) (\<lambda>t. act (look mem_of) (\<lambda>m.
     let cwd = unat (pwd_page t)
     in act (lift (abspath (store_bytes cwd (pwd t @ [0]) m) cwd pathname)) (\<lambda>m.
        act (change (upd_mem (\<lambda>_. m))) (\<lambda>_.
        act (lift (case read_str m cwd of None \<Rightarrow> Inl Diverge | Some cs \<Rightarrow> Inr cs)) (\<lambda>cs.
        change (upd_cur (\<lambda>t. t\<lparr>pwd := cs\<rparr>)))))))"

definition sys_getcwd :: "addr \<Rightarrow> nat \<Rightarrow> ('h, addr) fsm" where
  "sys_getcwd out count =
     act (look cur_task) (\<lambda>t.
     act (change (upd_mem (\<lambda>m. let cwd = unat (pwd_page t)
        in fst (strncpy (store_bytes cwd (pwd t @ [0]) m) out cwd count)))) (\<lambda>_. ret out))"

definition sys_chdir :: "addr \<Rightarrow> ('h, u32) fsm" where
  "sys_chdir pathname =
     act (look cur_task) (\<lambda>t.
     act (namei pathname) (\<lambda>p.
     if p = 0 then act (iput p) (\<lambda>_. ret EOF)
     else act (desc_at p) (\<lambda>d.
          if \<not> ISDIR (imode d) \<or> p = ipwd t then act (iput p) (\<lambda>_. ret EOF)
          else act (set_pwd pathname) (\<lambda>_.
               act (iput (ipwd t)) (\<lambda>_.
               act (change (upd_cur (\<lambda>t. t\<lparr>ipwd := p\<rparr>))) (\<lambda>_. ret 0)))))) "

definition sys_chroot :: "addr \<Rightarrow> ('h, u32) fsm" where
  "sys_chroot pathname =
     act (look cur_task) (\<lambda>t.
     act (namei pathname) (\<lambda>p.
     if p = 0 then act (iput p) (\<lambda>_. ret EOF)
     else act (desc_at p) (\<lambda>d.
          if \<not> ISDIR (imode d) \<or> p = iroot t then act (iput p) (\<lambda>_. ret EOF)
          else act (iput (iroot t)) (\<lambda>_.
               act (change (upd_cur (\<lambda>t. t\<lparr>iroot := p\<rparr>))) (\<lambda>_. ret 0)))))"

end
