(* ===== verification/Super.thy ===== *)
theory Super
  imports Dirs
begin

text \<open>
  Super blocks, mounting and making a file system: \<^verbatim>\<open>fs/super.c\<close>.  A super block
  pointer is an index of \<^verbatim>\<open>super_table\<close> or none.  \<^verbatim>\<open>bread\<close> never returns a
  null pointer, so the loops over the maps do not leave early.
\<close>

subsection \<open>The table\<close>

fun release_all :: "bkey option list \<Rightarrow> nat \<Rightarrow> nat \<Rightarrow> ('h, unit) fsm" where
  "release_all maps i 0 = ret ()"
| "release_all maps i (Suc n) =
     act (lift (rd maps i)) (\<lambda>b. act (blk_release b) (\<lambda>_. release_all maps (Suc i) n))"

definition put_super :: "nat option \<Rightarrow> ('h, unit) fsm" where
  "put_super sp =
     (if sp = None then ret ()
      else act (super_at sp) (\<lambda>sb. act (lift (assrt (scount sb > 0))) (\<lambda>_.
           act (upd_super sp (\<lambda>sb. sb\<lparr>scount := scount sb - 1\<rparr>)) (\<lambda>_.
           act (super_at sp) (\<lambda>sb.
           if scount sb \<noteq> 0 then ret ()
           else act (upd_super sp (\<lambda>sb. sb\<lparr>sdev := -1\<rparr>)) (\<lambda>_.
                act (iput (simount sb)) (\<lambda>_. act (iput (siroot sb)) (\<lambda>_.
                act (sdesc_at sp) (\<lambda>d.
                act (release_all (imaps sb) 0 (unat (imap_blocks d))) (\<lambda>_.
                act (release_all (zmaps sb) 0 (unat (zmap_blocks d))) (\<lambda>_.
                blk_release (Some (sbuf sb)))))))))))))"

fun free_super_loop :: "super list \<Rightarrow> nat \<Rightarrow> nat res" where
  "free_super_loop [] i = Inl Panic"
| "free_super_loop (sb # sbs) i = (if sdev sb = -1 then Inr i else free_super_loop sbs (Suc i))"

definition get_free_super :: "('h, nat option) fsm" where
  "get_free_super = act (look super_table) (\<lambda>t. act (lift (free_super_loop t 0)) (\<lambda>i. ret (Some i)))"

definition put_imap :: "nat \<Rightarrow> bkey \<Rightarrow> super \<Rightarrow> super" where
  "put_imap i k sb = sb\<lparr>imaps := (imaps sb)[i := Some k]\<rparr>"

definition put_zmap :: "nat \<Rightarrow> bkey \<Rightarrow> super \<Rightarrow> super" where
  "put_zmap i k sb = sb\<lparr>zmaps := (zmaps sb)[i := Some k]\<rparr>"

text \<open>
  The loops that read the bitmap blocks, from block \<open>idx\<close> on; \<open>each\<close> is what is done
  with each buffer, and the result is the number of the next block.
\<close>

fun read_maps :: "nat option \<Rightarrow> int \<Rightarrow> (nat \<Rightarrow> bkey \<Rightarrow> super \<Rightarrow> super) \<Rightarrow> (bkey \<Rightarrow> ('h, unit) fsm) \<Rightarrow> nat \<Rightarrow> nat \<Rightarrow> u32 \<Rightarrow> ('h, u32) fsm" where
  "read_maps sp dev put each i 0 idx = ret idx"
| "read_maps sp dev put each i (Suc n) idx =
     act (lift (assrt (i < IMAP_NR))) (\<lambda>_.
     act (blk_read dev idx) (\<lambda>k. act (upd_super sp (put i k)) (\<lambda>_. act (each k) (\<lambda>_.
     read_maps sp dev put each (Suc i) n (idx + 1)))))"

definition no_maps :: "bkey option list" where "no_maps = replicate 8 None"

definition read_super :: "int \<Rightarrow> ('h, nat option) fsm" where
  "read_super dev =
     act (get_super dev) (\<lambda>sp.
     if sp \<noteq> None then act (upd_super sp (\<lambda>sb. sb\<lparr>scount := scount sb + 1\<rparr>)) (\<lambda>_. ret sp)
     else act get_free_super (\<lambda>sp.
          act (blk_read dev 1) (\<lambda>k.
          act (upd_super sp (\<lambda>sb. sb\<lparr>sbuf := k, sdev := dev, scount := 1\<rparr>)) (\<lambda>_.
          act (sdesc_at sp) (\<lambda>d. act (lift (assrt (smagic d = MINIX1_MAGIC))) (\<lambda>_.
          act (upd_super sp (\<lambda>sb. sb\<lparr>imaps := no_maps, zmaps := no_maps\<rparr>)) (\<lambda>_.
          act (read_maps sp dev put_imap (\<lambda>_. ret ()) 0 (unat (imap_blocks d)) 2) (\<lambda>idx.
          act (read_maps sp dev put_zmap (\<lambda>_. ret ()) 0 (unat (zmap_blocks d)) idx) (\<lambda>_.
          ret sp)))))))))"

subsection \<open>Mounting\<close>

definition find_dev :: "'h machine device option \<Rightarrow> int \<Rightarrow> u32 \<Rightarrow> ('h, 'h machine device option) fsm" where
  "find_dev junk sub idx = look (\<lambda>s. device_find junk (devices (kst s)) sub idx)"

definition mount_root :: "'h machine device option \<Rightarrow> ('h, unit) fsm" where
  "mount_root junk =
     act (find_dev junk DEV_IDE_PART 0) (\<lambda>d.
     case d of
       None \<Rightarrow> stop_with Assertion
     | Some d \<Rightarrow>
         act (read_super (ddev d)) (\<lambda>sp.
         act (change (\<lambda>s. s\<lparr>root_super := the sp\<rparr>)) (\<lambda>_.
         act (iget (ddev d) 1) (\<lambda>p. act (upd_super sp (\<lambda>sb. sb\<lparr>siroot := p\<rparr>)) (\<lambda>_.
         act (iget (ddev d) 1) (\<lambda>q. act (upd_super sp (\<lambda>sb. sb\<lparr>simount := q\<rparr>)) (\<lambda>_.
         upd_inode p (\<lambda>i. i\<lparr>imount := ddev d\<rparr>))))))))"

definition unmount_back :: "nat option \<Rightarrow> addr \<Rightarrow> addr \<Rightarrow> u32 \<Rightarrow> ('h, u32) fsm" where
  "unmount_back sp p q r = act (put_super sp) (\<lambda>_. act (iput p) (\<lambda>_. act (iput q) (\<lambda>_. ret r)))"

definition sys_mount :: "addr \<Rightarrow> addr \<Rightarrow> ('h, u32) fsm" where
  "sys_mount devname dirname =
     act (namei devname) (\<lambda>p.
     if p = 0 then unmount_back None p 0 EOF
     else act (desc_at p) (\<lambda>d.
     if \<not> ISBLK (imode d) then unmount_back None p 0 EOF
     else let dev = uint (izone d ! 0) in
     act (namei dirname) (\<lambda>q.
     if q = 0 then unmount_back None p q EOF
     else act (desc_at q) (\<lambda>x. act (inode_at q) (\<lambda>i. act (look (icnt q)) (\<lambda>n.
     if \<not> ISDIR (imode x) \<or> n \<noteq> 1 \<or> imount i \<noteq> 0 then unmount_back None p q EOF
     else act (read_super dev) (\<lambda>sp. act (super_at sp) (\<lambda>sb.
     if simount sb \<noteq> 0 then unmount_back sp p q EOF
     else act (iget dev 1) (\<lambda>r.
          act (upd_super sp (\<lambda>sb. sb\<lparr>siroot := r, simount := q\<rparr>)) (\<lambda>_.
          act (upd_inode q (\<lambda>i. i\<lparr>imount := dev\<rparr>)) (\<lambda>_.
          act (iput p) (\<lambda>_. ret 0))))))))))))"

text \<open>The part of \<^verbatim>\<open>sys_umount\<close> after its last test.\<close>

definition unmount :: "nat option \<Rightarrow> ('h, unit) fsm" where
  "unmount sp =
     act (super_at sp) (\<lambda>sb. act (iput (siroot sb)) (\<lambda>_.
     act (upd_super sp (\<lambda>sb. sb\<lparr>siroot := 0\<rparr>)) (\<lambda>_.
     act (upd_inode (simount sb) (\<lambda>i. i\<lparr>imount := 0\<rparr>)) (\<lambda>_.
     act (iput (simount sb)) (\<lambda>_.
     upd_super sp (\<lambda>sb. sb\<lparr>simount := 0\<rparr>))))))"

definition sys_umount :: "addr \<Rightarrow> ('h, u32) fsm" where
  "sys_umount target =
     act (namei target) (\<lambda>p.
     if p = 0 then unmount_back None p 0 EOF
     else act (desc_at p) (\<lambda>d. act (inode_at p) (\<lambda>i.
     act (look root_super) (\<lambda>rt. act (super_at (Some rt)) (\<lambda>rsb.
     if (\<not> ISBLK (imode d) \<and> inr i \<noteq> 1) \<or> p = simount rsb then unmount_back None p 0 EOF
     else act (get_super (if ISBLK (imode d) then uint (izone d ! 0) else idev i)) (\<lambda>sp.
     act (super_at sp) (\<lambda>sb.
     if simount sb = 0 \<or> length (inode_list sb) > 1 then unmount_back sp p 0 EOF
     else act (unmount sp) (\<lambda>_. unmount_back sp p 0 0))))))))"

definition super_init :: "'h machine device option \<Rightarrow> ('h, unit) fsm" where
  "super_init junk =
     act (change (\<lambda>s. s\<lparr>super_table := map (\<lambda>sb. sb\<lparr>sdev := -1, siroot := 0, simount := 0, inode_list := []\<rparr>) (super_table s)\<rparr>))
       (\<lambda>_. mount_root junk)"

subsection \<open>Making a file system\<close>

definition mkfs_desc :: "u32 \<Rightarrow> u32 \<Rightarrow> super_desc" where
  "mkfs_desc nblk ninodes =
     (let inode_blocks = div_round_up (ninodes * INODE_DESC_SIZE) BLOCK_SIZE;
          im = ucast (div_round_up ninodes BLOCK_BITS) :: u16;
          zcount = nblk - ucast im - inode_blocks - 2;
          zm = ucast (div_round_up zcount BLOCK_BITS) :: u16
      in \<lparr>inodes = ucast ninodes, zones = ucast nblk, imap_blocks = im, zmap_blocks = zm,
          firstdatazone = ucast (2 + ucast im + ucast zm + inode_blocks), log_zone_size = 0,
          max_size = BLOCK_SIZE * TOTAL_BLOCK, smagic = MINIX1_MAGIC\<rparr>)"

definition mkfs_zcount :: "u32 \<Rightarrow> u32 \<Rightarrow> u32" where
  "mkfs_zcount nblk ninodes =
     nblk - ucast (imap_blocks (mkfs_desc nblk ninodes)) - div_round_up (ninodes * INODE_DESC_SIZE) BLOCK_SIZE - 2"

definition zero_block :: "bkey \<Rightarrow> ('h, unit) fsm" where
  "zero_block k = act (change (upd_bytes k (\<lambda>b. replicate (length b) 0))) (\<lambda>_. change (mark_dirty k))"

fun tail_byte :: "nat \<Rightarrow> u8 \<Rightarrow> u8 \<Rightarrow> u8" where
  "tail_byte 0 b d = d"
| "tail_byte (Suc n) b d = tail_byte n (drop_bit 1 b) (d OR b)"

text \<open>The bits of a bitmap block from number \<open>count\<close> on are set; the byte that number falls in is overwritten.\<close>

definition fill_tail :: "nat \<Rightarrow> u8 list \<Rightarrow> u8 list" where
  "fill_tail off b =
     (let begin = off div 8
      in take begin b @ [tail_byte (8 - off mod 8) 0x80 0] @ replicate (unat BLOCK_SIZE - begin - 1) 0xff)"

definition set_tail :: "bkey option list \<Rightarrow> u16 \<Rightarrow> u32 \<Rightarrow> ('h, unit) fsm" where
  "set_tail maps n count =
     (if n = 0 then stop_with Fault
      else act (lift (rd maps (unat n - 1))) (\<lambda>b.
           case b of
             None \<Rightarrow> stop_with Fault
           | Some k \<Rightarrow>
               let off = sint count smod 8192
               in act (change (mark_dirty k)) (\<lambda>_.
                  if off < 0 then stop_with Fault
                  else change (upd_bytes k (fill_tail (nat off))))))"

text \<open>The new root directory with its two entries.\<close>

definition mkfs_root :: "nat option \<Rightarrow> int \<Rightarrow> ('h, unit) fsm" where
  "mkfs_root sp dev =
     act (look cur_task) (\<lambda>t.
     act (new_inode dev 1) (\<lambda>p. act (upd_super sp (\<lambda>sb. sb\<lparr>siroot := p\<rparr>)) (\<lambda>_.
     act (upd_desc p (\<lambda>d. d\<lparr>imode := (0x1ff AND NOT (umask t)) OR IFDIR, isize := DENTRY_SIZE * 2, inlinks := 2\<rparr>)) (\<lambda>_.
     act (bmap p 0 True) (\<lambda>blk. act (blk_read dev blk) (\<lambda>k.
     act (change (mark_dirty k)) (\<lambda>_.
     act (zero_block k) (\<lambda>_.
     act (inode_at p) (\<lambda>i.
     act (change (put_name k 0 [46, 0])) (\<lambda>_.
     act (change (set_entry_nr k 0 (ucast (inr i)))) (\<lambda>_.
     act (change (put_name k 1 [46, 46, 0])) (\<lambda>_.
     act (change (set_entry_nr k 1 (ucast (inr i)))) (\<lambda>_.
     blk_release (Some k))))))))))))))"

definition fs_ioctl :: "int \<Rightarrow> int \<Rightarrow> ('h, int) fsm" where
  "fs_ioctl dev cmd s =
     bnd (device_ioctl (devices (kst s)) dev cmd 0 0 (world (kst s))) (\<lambda>(w, n).
     Inr (n, s\<lparr>kst := (kst s)\<lparr>world := w\<rparr>\<rparr>))"

definition devmkfs :: "int \<Rightarrow> u32 \<Rightarrow> ('h, u32) fsm" where
  "devmkfs dev ninodes =
     act (fs_ioctl dev DEV_CMD_SECTOR_COUNT) (\<lambda>n.
     let tb = n sdiv 2; nblk = word_of_int tb :: u32
     in act (lift (assrt (tb \<noteq> 0))) (\<lambda>_. act (lift (assrt (ninodes < nblk))) (\<lambda>_.
     let ninodes = (if ninodes = 0 then word_of_int (tb sdiv 3) else ninodes); d = mkfs_desc nblk ninodes
     in act get_free_super (\<lambda>sp.
        act (upd_super sp (\<lambda>sb. sb\<lparr>sdev := dev, scount := 1\<rparr>)) (\<lambda>_.
        act (blk_read dev 1) (\<lambda>k.
        act (upd_super sp (\<lambda>sb. sb\<lparr>sbuf := k, imaps := no_maps, zmaps := no_maps\<rparr>)) (\<lambda>_.
        act (change (mark_dirty k)) (\<lambda>_.
        act (change (upd_bytes k (put_sdesc d))) (\<lambda>_.
        act (read_maps sp dev put_imap zero_block 0 (unat (imap_blocks d)) 2) (\<lambda>idx.
        act (read_maps sp dev put_zmap zero_block 0 (unat (zmap_blocks d)) idx) (\<lambda>_.
        act (balloc dev) (\<lambda>_. act (ialloc dev) (\<lambda>_. act (ialloc dev) (\<lambda>_.
        act (super_at sp) (\<lambda>sb.
        act (set_tail (imaps sb) (imap_blocks d) (ninodes + 1)) (\<lambda>_.
        act (set_tail (zmaps sb) (zmap_blocks d) (mkfs_zcount nblk ninodes)) (\<lambda>_.
        act (mkfs_root sp dev) (\<lambda>_.
        act (put_super sp) (\<lambda>_. ret 0)))))))))))))))))))"

definition sys_mkfs :: "addr \<Rightarrow> u32 \<Rightarrow> ('h, u32) fsm" where
  "sys_mkfs devname ninodes =
     act (namei devname) (\<lambda>p.
     if p = 0 then act (iput p) (\<lambda>_. ret EOF)
     else act (desc_at p) (\<lambda>d.
          if \<not> ISBLK (imode d) then act (iput p) (\<lambda>_. ret EOF)
          else act (lift (assrt (izone d ! 0 \<noteq> 0))) (\<lambda>_.
               act (devmkfs (uint (izone d ! 0)) ninodes) (\<lambda>r.
               act (iput p) (\<lambda>_. ret r)))))"

end
