(* ===== verification/Files.thy ===== *)
theory Files
  imports Super
begin

text \<open>
  Open files, pipes and file status: \<^verbatim>\<open>fs/file.c\<close>, \<^verbatim>\<open>fs/pipe.c\<close>,
  \<^verbatim>\<open>fs/stat.c\<close> and \<^verbatim>\<open>fs/dev.c\<close>.  A read or write of a pipe that finds it
  empty or full blocks its task; the value then says how many bytes are moved so far, and the call
  goes on with \<open>pipe_read_resume\<close> or \<open>pipe_write_resume\<close> when the task runs
  again, without another test, as the code does.
\<close>

subsection \<open>Pipes\<close>

datatype io = Io_done u32 | Io_waits u32

definition running :: "'h fs \<Rightarrow> addr" where "running s = current (sched_of s)"

definition block_here :: "(addr \<Rightarrow> inode \<Rightarrow> inode) \<Rightarrow> addr \<Rightarrow> ('h, unit) fsm" where
  "block_here f p =
     act (look running) (\<lambda>t. act (upd_inode p (f t)) (\<lambda>_.
     with_sched (\<lambda>k. task_block k t 0 TASK_BLOCKED)))"

definition wake_up :: "addr \<Rightarrow> ('h, unit) fsm" where
  "wake_up t = with_sched (\<lambda>k. task_unblock k t)"

text \<open>One byte out of the pipe, and the writer that waits for room is woken.\<close>

definition pipe_get :: "addr \<Rightarrow> addr \<Rightarrow> ('h, unit) fsm" where
  "pipe_get p a =
     act (inode_at p) (\<lambda>i. act (lift (fifo_get (pfifo i))) (\<lambda>(q, byte).
     act (upd_inode p (\<lambda>i. i\<lparr>pfifo := q\<rparr>)) (\<lambda>_.
     act (change (upd_mem (\<lambda>m. m(a := byte)))) (\<lambda>_.
     whenM (txwaiter i \<noteq> 0)
       (act (wake_up (txwaiter i)) (\<lambda>_. upd_inode p (\<lambda>i. i\<lparr>txwaiter := 0\<rparr>)))))))"

definition pipe_put :: "addr \<Rightarrow> addr \<Rightarrow> ('h, unit) fsm" where
  "pipe_put p a =
     act (inode_at p) (\<lambda>i. act (look mem_of) (\<lambda>m. act (lift (fifo_put (pfifo i) (m a))) (\<lambda>q.
     act (upd_inode p (\<lambda>i. i\<lparr>pfifo := q\<rparr>)) (\<lambda>_.
     whenM (rxwaiter i \<noteq> 0)
       (act (wake_up (rxwaiter i)) (\<lambda>_. upd_inode p (\<lambda>i. i\<lparr>rxwaiter := 0\<rparr>)))))))"

fun pipe_read_loop :: "addr \<Rightarrow> addr \<Rightarrow> nat \<Rightarrow> nat \<Rightarrow> ('h, io) fsm" where
  "pipe_read_loop p a nr 0 = ret (Io_done (of_nat nr))"
| "pipe_read_loop p a nr (Suc n) =
     act (inode_at p) (\<lambda>i.
     if fifo_empty (pfifo i)
     then act (lift (assrt (rxwaiter i = 0))) (\<lambda>_.
          act (block_here (\<lambda>t i. i\<lparr>rxwaiter := t\<rparr>) p) (\<lambda>_. ret (Io_waits (of_nat nr))))
     else act (pipe_get p (a + nr)) (\<lambda>_. pipe_read_loop p a (Suc nr) n))"

fun pipe_write_loop :: "addr \<Rightarrow> addr \<Rightarrow> nat \<Rightarrow> nat \<Rightarrow> ('h, io) fsm" where
  "pipe_write_loop p a nr 0 = ret (Io_done (of_nat nr))"
| "pipe_write_loop p a nr (Suc n) =
     act (inode_at p) (\<lambda>i. act (lift (fifo_full (pfifo i))) (\<lambda>full.
     if full
     then act (lift (assrt (txwaiter i = 0))) (\<lambda>_.
          act (block_here (\<lambda>t i. i\<lparr>txwaiter := t\<rparr>) p) (\<lambda>_. ret (Io_waits (of_nat nr))))
     else act (pipe_put p (a + nr)) (\<lambda>_. pipe_write_loop p a (Suc nr) n)))"

definition pipe_read_resume :: "addr \<Rightarrow> addr \<Rightarrow> nat \<Rightarrow> nat \<Rightarrow> ('h, io) fsm" where
  "pipe_read_resume p a nr n = act (pipe_get p (a + nr)) (\<lambda>_. pipe_read_loop p a (Suc nr) n)"

definition pipe_write_resume :: "addr \<Rightarrow> addr \<Rightarrow> nat \<Rightarrow> nat \<Rightarrow> ('h, io) fsm" where
  "pipe_write_resume p a nr n = act (pipe_put p (a + nr)) (\<lambda>_. pipe_write_loop p a (Suc nr) n)"

definition pipe_read :: "addr \<Rightarrow> addr \<Rightarrow> nat \<Rightarrow> ('h, io) fsm" where
  "pipe_read p a count = pipe_read_loop p a 0 count"

definition pipe_write :: "addr \<Rightarrow> addr \<Rightarrow> nat \<Rightarrow> ('h, io) fsm" where
  "pipe_write p a count = pipe_write_loop p a 0 count"

subsection \<open>The file table\<close>

fun free_file_loop :: "(addr \<Rightarrow> u32) \<Rightarrow> nat \<Rightarrow> nat \<Rightarrow> addr res" where
  "free_file_loop c i 0 = Inl Panic"
| "free_file_loop c i (Suc n) = (if c (i + 1) = 0 then Inr (i + 1) else free_file_loop c (Suc i) n)"

definition get_file :: "('h, addr) fsm" where
  "get_file =
     act (look (\<lambda>s. free_file_loop (fcount (sched_of s)) 3 (FILE_NR - 3))) (\<lambda>r. act (lift r) (\<lambda>f.
     act (change (\<lambda>s. set_fcnt f (fcnt f s + 1) s)) (\<lambda>_. ret f)))"

definition put_file :: "addr \<Rightarrow> ('h, unit) fsm" where
  "put_file f =
     act (file_at f) (\<lambda>x. act (look (fcnt f)) (\<lambda>n. act (lift (assrt (n > 0))) (\<lambda>_.
     act (change (set_fcnt f (n - 1))) (\<lambda>_.
     whenM (n - 1 = 0) (iput (finode x))))))"

definition file_init :: "'h fs \<Rightarrow> 'h fs" where
  "file_init s =
     upd_sched (\<lambda>k. k\<lparr>fcount := (\<lambda>f. if 4 \<le> f \<and> f \<le> FILE_NR then 0 else fcount k f)\<rparr>)
       (s\<lparr>file_table := take 3 (file_table s) @
            map (\<lambda>x. x\<lparr>fmode := 0, fflags := 0, foffset := 0, finode := 0\<rparr>) (drop 3 (file_table s))\<rparr>)"

text \<open>Entry \<open>fd\<close> of the running task's files.\<close>

definition task_file :: "int \<Rightarrow> ('h, addr) fsm" where
  "task_file fd =
     act (look cur_task) (\<lambda>t. lift (if fd < 0 then Inl Fault else rd (files t) (nat fd)))"

definition set_task_file :: "nat \<Rightarrow> addr \<Rightarrow> ('h, unit) fsm" where
  "set_task_file fd f = change (upd_cur (\<lambda>t. t\<lparr>files := (files t)[fd := f]\<rparr>))"

definition sys_open :: "addr \<Rightarrow> u32 \<Rightarrow> u32 \<Rightarrow> ('h, int) fsm" where
  "sys_open filename flags mode =
     act (inode_open filename flags mode) (\<lambda>p.
     if p = 0 then ret (-1)
     else act (look cur_task) (\<lambda>t. act (lift (task_get_fd t)) (\<lambda>fd.
          act get_file (\<lambda>f.
          act (task_file (int fd)) (\<lambda>old. act (lift (assrt (old = 0))) (\<lambda>_.
          act (set_task_file fd f) (\<lambda>_.
          act (desc_at p) (\<lambda>d.
          act (upd_file f (\<lambda>x. x\<lparr>finode := p, fflags := flags, fmode := ucast (imode d), foffset := 0\<rparr>)) (\<lambda>_.
          act (change (set_fcnt f 1)) (\<lambda>_.
          act (whenM (flags AND O_APPEND \<noteq> 0) (upd_file f (\<lambda>x. x\<lparr>foffset := isize d\<rparr>))) (\<lambda>_.
          ret (int fd))))))))))))"

definition sys_creat :: "addr \<Rightarrow> u32 \<Rightarrow> ('h, int) fsm" where
  "sys_creat filename mode = sys_open filename (O_CREAT OR O_TRUNC) mode"

definition sys_close :: "int \<Rightarrow> ('h, unit) fsm" where
  "sys_close fd =
     act (lift (assrt (fd < int TASK_FILE_NR))) (\<lambda>_.
     act (task_file fd) (\<lambda>f.
     if f = 0 then ret ()
     else act (file_at f) (\<lambda>x. act (lift (assrt (finode x \<noteq> 0))) (\<lambda>_.
          act (put_file f) (\<lambda>_.
          act (look cur_task) (\<lambda>t. act (lift (task_put_fd t (nat fd))) (\<lambda>t'.
          change (upd_cur (\<lambda>_. t')))))))))"

subsection \<open>Reading and writing\<close>

definition dev_rw ::
  "('h machine device list \<Rightarrow> int \<Rightarrow> addr \<Rightarrow> u32 \<Rightarrow> u32 \<Rightarrow> int \<Rightarrow> 'h machine \<Rightarrow> ('h machine \<times> int) res)
   \<Rightarrow> int \<Rightarrow> addr \<Rightarrow> u32 \<Rightarrow> u32 \<Rightarrow> ('h, io) fsm" where
  "dev_rw f dev a count idx s =
     bnd (f (devices (kst s)) dev a count idx 0 (world (kst s))) (\<lambda>(w, n).
     Inr (Io_done (word_of_int n), s\<lparr>kst := (kst s)\<lparr>world := w\<rparr>\<rparr>))"

text \<open>
  The branch a read or write takes for a block device: both the offset and the count are whole
  blocks, and the quotients are those of \<^verbatim>\<open>int\<close>.
\<close>

definition block_rw ::
  "('h machine device list \<Rightarrow> int \<Rightarrow> addr \<Rightarrow> u32 \<Rightarrow> u32 \<Rightarrow> int \<Rightarrow> 'h machine \<Rightarrow> ('h machine \<times> int) res)
   \<Rightarrow> int \<Rightarrow> addr \<Rightarrow> int \<Rightarrow> u32 \<Rightarrow> ('h, io) fsm" where
  "block_rw f dev a count off =
     act (lift (assrt (dev \<noteq> 0))) (\<lambda>_.
     act (look (\<lambda>s. device_get (devices (kst s)) dev)) (\<lambda>r. act (lift r) (\<lambda>_.
     act (lift (assrt (sint off smod 1024 = 0))) (\<lambda>_.
     act (lift (assrt (count smod 1024 = 0))) (\<lambda>_.
     dev_rw f dev a (word_of_int (count sdiv 1024)) (block_index off))))))"

definition advance :: "addr \<Rightarrow> u32 \<Rightarrow> ('h, io) fsm" where
  "advance f len =
     act (whenM (len \<noteq> EOF) (upd_file f (\<lambda>x. x\<lparr>foffset := foffset x + len\<rparr>))) (\<lambda>_. ret (Io_done len))"

definition sys_read :: "int \<Rightarrow> addr \<Rightarrow> int \<Rightarrow> ('h, io) fsm" where
  "sys_read fd a count =
     act (task_file fd) (\<lambda>f. act (lift (assrt (f \<noteq> 0))) (\<lambda>_. act (lift (assrt (count > 0))) (\<lambda>_.
     act (file_at f) (\<lambda>x.
     if fflags x AND O_ACCMODE = O_WRONLY then ret (Io_done EOF)
     else act (inode_at (finode x)) (\<lambda>i.
          if ipipe i then pipe_read (finode x) a (nat count)
          else act (desc_at (finode x)) (\<lambda>d. let dev = uint (izone d ! 0) in
               if ISCHR (imode d)
               then act (lift (assrt (dev \<noteq> 0))) (\<lambda>_. dev_rw device_read dev a (word_of_int count) 0)
               else if ISBLK (imode d) then block_rw device_read dev a count (foffset x)
               else act (inode_read (finode x) a (word_of_int count) (foffset x)) (advance f)))))))"

definition sys_write :: "int \<Rightarrow> addr \<Rightarrow> int \<Rightarrow> ('h, io) fsm" where
  "sys_write fd a count =
     act (task_file fd) (\<lambda>f. act (lift (assrt (f \<noteq> 0))) (\<lambda>_. act (lift (assrt (count > 0))) (\<lambda>_.
     act (file_at f) (\<lambda>x.
     if fflags x AND O_ACCMODE = O_RDONLY then ret (Io_done EOF)
     else act (lift (assrt (finode x \<noteq> 0))) (\<lambda>_. act (inode_at (finode x)) (\<lambda>i.
          if ipipe i then pipe_write (finode x) a (nat count)
          else act (desc_at (finode x)) (\<lambda>d. let dev = uint (izone d ! 0) in
               if ISCHR (imode d)
               then act (lift (assrt (dev \<noteq> 0))) (\<lambda>_.
                    act (look (\<lambda>s. device_get (devices (kst s)) dev)) (\<lambda>r. act (lift r) (\<lambda>_.
                    dev_rw device_write dev a (word_of_int count) 0)))
               else if ISBLK (imode d) then block_rw device_write dev a count (foffset x)
               else act (inode_write (finode x) a (word_of_int count) (foffset x)) (advance f))))))))"

datatype whence = SEEK_SET | SEEK_CUR | SEEK_END | SEEK_OTHER

definition set_offset :: "addr \<Rightarrow> u32 \<Rightarrow> ('h, u32) fsm" where
  "set_offset f off = act (upd_file f (\<lambda>x. x\<lparr>foffset := off\<rparr>)) (\<lambda>_. ret off)"

definition sys_lseek :: "int \<Rightarrow> u32 \<Rightarrow> whence \<Rightarrow> ('h, u32) fsm" where
  "sys_lseek fd off whence =
     act (lift (assrt (fd < int TASK_FILE_NR))) (\<lambda>_.
     act (task_file fd) (\<lambda>f. act (lift (assrt (f \<noteq> 0))) (\<lambda>_.
     act (file_at f) (\<lambda>x. act (lift (assrt (finode x \<noteq> 0))) (\<lambda>_.
     case whence of
       SEEK_SET \<Rightarrow> act (lift (assrt (sint off \<ge> 0))) (\<lambda>_. set_offset f off)
     | SEEK_CUR \<Rightarrow> act (lift (assrt (sint (foffset x + off) \<ge> 0))) (\<lambda>_. set_offset f (foffset x + off))
     | SEEK_END \<Rightarrow> act (desc_at (finode x)) (\<lambda>d. set_offset f (isize d + off))
     | SEEK_OTHER \<Rightarrow> stop_with Panic)))))"

definition sys_readdir :: "int \<Rightarrow> addr \<Rightarrow> ('h, io) fsm" where
  "sys_readdir fd a = sys_read fd a (uint DENTRY_SIZE)"

subsection \<open>Duplicating descriptors and pipes\<close>

fun dup_slot :: "addr list \<Rightarrow> nat \<Rightarrow> nat \<Rightarrow> nat" where
  "dup_slot fs i 0 = i"
| "dup_slot fs i (Suc n) = (if fs ! i = 0 then i else dup_slot fs (Suc i) n)"

definition dupfd :: "int \<Rightarrow> int \<Rightarrow> ('h, int) fsm" where
  "dupfd fd arg =
     (if fd \<ge> int TASK_FILE_NR then ret (-1)
      else act (task_file fd) (\<lambda>f.
           if f = 0 then ret (-1)
           else if arg < 0 then stop_with Fault
           else act (look cur_task) (\<lambda>t.
                let slot = dup_slot (files t) (nat arg) (TASK_FILE_NR - nat arg)
                in if slot \<ge> TASK_FILE_NR then ret (-1)
                   else act (set_task_file slot f) (\<lambda>_.
                        act (change (\<lambda>s. set_fcnt f (fcnt f s + 1) s)) (\<lambda>_. ret (int slot))))))"

definition sys_dup :: "int \<Rightarrow> ('h, int) fsm" where
  "sys_dup oldfd = dupfd oldfd 0"

definition sys_dup2 :: "int \<Rightarrow> int \<Rightarrow> ('h, int) fsm" where
  "sys_dup2 oldfd newfd = act (sys_close newfd) (\<lambda>_. dupfd oldfd newfd)"

text \<open>A free descriptor and a free file for it.\<close>

definition open_slot :: "('h, nat \<times> addr) fsm" where
  "open_slot =
     act (look cur_task) (\<lambda>t. act (lift (task_get_fd t)) (\<lambda>fd.
     act get_file (\<lambda>f. act (set_task_file fd f) (\<lambda>_. ret (fd, f)))))"

definition sys_pipe :: "('h, nat \<times> nat) fsm" where
  "sys_pipe =
     act get_pipe_inode (\<lambda>p.
     act open_slot (\<lambda>(fd0, f0). act open_slot (\<lambda>(fd1, f1).
     act (upd_file f0 (\<lambda>x. x\<lparr>finode := p, fflags := O_RDONLY\<rparr>)) (\<lambda>_.
     act (upd_file f1 (\<lambda>x. x\<lparr>finode := p, fflags := O_WRONLY\<rparr>)) (\<lambda>_. ret (fd0, fd1))))))"

subsection \<open>File status\<close>

record stat =
  st_dev :: int
  st_nr :: u32
  st_mode :: u16
  st_nlinks :: u8
  st_uid :: u16
  st_gid :: u8
  st_rdev :: int
  st_size :: u32
  st_atime :: u32
  st_mtime :: u32
  st_ctime :: u32

definition copy_stat :: "addr \<Rightarrow> ('h, stat) fsm" where
  "copy_stat p =
     act (inode_at p) (\<lambda>i. act (desc_at p) (\<lambda>d.
     ret \<lparr>st_dev = idev i, st_nr = inr i, st_mode = imode d, st_nlinks = inlinks d, st_uid = iuid d,
          st_gid = igid d, st_rdev = uint (izone d ! 0), st_size = isize d, st_atime = iatime i,
          st_mtime = imtime d, st_ctime = ictime i\<rparr>))"

definition sys_stat :: "addr \<Rightarrow> ('h, stat option) fsm" where
  "sys_stat filename =
     act (namei filename) (\<lambda>p.
     if p = 0 then ret None
     else act (copy_stat p) (\<lambda>st. act (iput p) (\<lambda>_. ret (Some st))))"

definition sys_fstat :: "int \<Rightarrow> ('h, stat option) fsm" where
  "sys_fstat fd =
     (if fd \<ge> int TASK_FILE_NR then ret None
      else act (task_file fd) (\<lambda>f.
           if f = 0 then ret None
           else act (file_at f) (\<lambda>x. act (lift (assrt (finode x \<noteq> 0))) (\<lambda>_.
                act (copy_stat (finode x)) (\<lambda>st. ret (Some st))))))"

subsection \<open>The device files\<close>

text \<open>
  \<open>lit\<close> gives the address of a string literal and \<open>scratch\<close> that of the stack buffer
  \<^verbatim>\<open>sprintf\<close> writes a device's path to.
\<close>

definition dev_path :: "u8 list" where "dev_path = [47, 100, 101, 118, 47]"

definition mknod_dev :: "addr \<Rightarrow> u32 \<Rightarrow> 'h machine device \<Rightarrow> ('h, unit) fsm" where
  "mknod_dev scratch mode d =
     act (change (upd_mem (store_bytes scratch (dev_path @ dname d @ [0])))) (\<lambda>_.
     act (sys_mknod scratch mode (word_of_int (ddev d))) (\<lambda>_. ret ()))"

partial_function (option) mknod_loop ::
    "'h machine device option \<Rightarrow> addr \<Rightarrow> int \<Rightarrow> u32 \<Rightarrow> u32 \<Rightarrow> 'h fs \<Rightarrow> (unit \<times> 'h fs) res option" where
  "mknod_loop junk scratch sub mode i s =
     (case device_find junk (devices (kst s)) sub i of
        None \<Rightarrow> Some (Inr ((), s))
      | Some d \<Rightarrow>
          (case mknod_dev scratch mode d s of
             Inl e \<Rightarrow> Some (Inl e)
           | Inr (_, s) \<Rightarrow> mknod_loop junk scratch sub mode (i + 1) s))"

definition mknod_all :: "'h machine device option \<Rightarrow> addr \<Rightarrow> int \<Rightarrow> u32 \<Rightarrow> u32 \<Rightarrow> ('h, unit) fsm" where
  "mknod_all junk scratch sub mode i = (\<lambda>s. run (mknod_loop junk scratch sub mode i s))"

definition std_file :: "addr \<Rightarrow> addr \<Rightarrow> u32 \<Rightarrow> ('h, unit) fsm" where
  "std_file f path flags =
     act (namei path) (\<lambda>p. act (desc_at p) (\<lambda>d.
     upd_file f (\<lambda>x. x\<lparr>finode := p, fmode := ucast (imode d), fflags := flags, foffset := 0\<rparr>)))"

definition the_dev :: "'h machine device option \<Rightarrow> ('h, 'h machine device) fsm" where
  "the_dev d = (case d of None \<Rightarrow> stop_with Fault | Some d \<Rightarrow> ret d)"

definition mount_dev :: "'h machine device option \<Rightarrow> (u8 list \<Rightarrow> addr) \<Rightarrow> ('h, unit) fsm" where
  "mount_dev junk lit =
     act (find_dev junk DEV_RAMDISK 0) (\<lambda>d. act (lift (assrt (d \<noteq> None))) (\<lambda>_. act (the_dev d) (\<lambda>d.
     act (devmkfs (ddev d) 0) (\<lambda>_.
     act (read_super (ddev d)) (\<lambda>sp.
     act (iget (ddev d) 1) (\<lambda>p. act (upd_super sp (\<lambda>sb. sb\<lparr>siroot := p\<rparr>)) (\<lambda>_.
     act (namei (lit [47, 100, 101, 118])) (\<lambda>q. act (upd_super sp (\<lambda>sb. sb\<lparr>simount := q\<rparr>)) (\<lambda>_.
     upd_inode q (\<lambda>i. i\<lparr>imount := ddev d\<rparr>))))))))))"

definition console_path :: "u8 list" where "console_path = dev_path @ [99, 111, 110, 115, 111, 108, 101]"
definition keyboard_path :: "u8 list" where "keyboard_path = dev_path @ [107, 101, 121, 98, 111, 97, 114, 100]"
definition stdin_path :: "u8 list" where "stdin_path = dev_path @ [115, 116, 100, 105, 110]"
definition stdout_path :: "u8 list" where "stdout_path = dev_path @ [115, 116, 100, 111, 117, 116]"
definition stderr_path :: "u8 list" where "stderr_path = dev_path @ [115, 116, 100, 101, 114, 114]"

definition dev_init :: "'h machine device option \<Rightarrow> (u8 list \<Rightarrow> addr) \<Rightarrow> addr \<Rightarrow> ('h, unit) fsm" where
  "dev_init junk lit scratch =
     act (sys_mkdir (lit [47, 100, 101, 118]) 0x1ed) (\<lambda>_.
     act (mount_dev junk lit) (\<lambda>_.
     act (find_dev junk DEV_CONSOLE 0) (\<lambda>d. act (the_dev d) (\<lambda>d.
     act (sys_mknod (lit console_path) (ucast IFCHR OR 0x80) (word_of_int (ddev d))) (\<lambda>_.
     act (find_dev junk DEV_KEYBOARD 0) (\<lambda>d. act (the_dev d) (\<lambda>d.
     act (sys_mknod (lit keyboard_path) (ucast IFCHR OR 0x100) (word_of_int (ddev d))) (\<lambda>_.
     act (mknod_all junk scratch DEV_IDE_DISK (ucast IFBLK OR 0x180) 0) (\<lambda>_.
     act (mknod_all junk scratch DEV_IDE_PART (ucast IFBLK OR 0x180) 0) (\<lambda>_.
     act (mknod_all junk scratch DEV_RAMDISK (ucast IFBLK OR 0x180) 1) (\<lambda>_.
     act (mknod_all junk scratch DEV_SERIAL (ucast IFCHR OR 0x180) 0) (\<lambda>_.
     act (sys_link (lit console_path) (lit stdout_path)) (\<lambda>_.
     act (sys_link (lit console_path) (lit stderr_path)) (\<lambda>_.
     act (sys_link (lit keyboard_path) (lit stdin_path)) (\<lambda>_.
     act (std_file 1 (lit stdin_path) O_RDONLY) (\<lambda>_.
     act (std_file 2 (lit stdout_path) O_WRONLY) (\<lambda>_.
     std_file 3 (lit stderr_path) O_WRONLY)))))))))))))))))"

text \<open>The file mode mask of the running task (\<^verbatim>\<open>kernel/system.c\<close>).\<close>

definition sys_umask :: "u16 \<Rightarrow> ('h, u16) fsm" where
  "sys_umask mode =
     act (look cur_task) (\<lambda>t.
     act (change (upd_cur (\<lambda>t. t\<lparr>umask := mode AND 0x1ff\<rparr>))) (\<lambda>_. ret (umask t)))"

end
