(* ===== verification/Fs_Bytes.thy ===== *)
theory Fs_Bytes
  imports Fsys
begin

text \<open>
  The on-disk structures as bytes: reading back a field that was written, leaving the others
  alone, for 16- and 32-bit fields, inode descriptors and super block descriptors.
\<close>

subsection \<open>Fields\<close>

lemma nth_upd: "xs[i := v] ! j = (if i = j \<and> j < length xs then v else xs ! j)"
  by (cases "i < length xs") (auto simp: nth_list_update list_update_beyond)

lemma st16_length [simp]: "length (st16 i w b) = length b"
  by (simp add: st16_def)

lemma st16_nth: "st16 i w b ! j = (if j = i + 1 \<and> j < length b then ucast (drop_bit 8 w)
    else if j = i \<and> j < length b then ucast w else b ! j)"
  by (auto simp: st16_def nth_upd)

lemma join16: "ucast (ucast w :: u8) OR push_bit 8 (ucast (ucast (drop_bit 8 w) :: u8)) = (w :: u16)"
  by (rule bit_word_eqI) (auto simp: bit_simps)

lemma ld16_st16 [simp]: "i + 1 < length b \<Longrightarrow> ld16 (st16 i w b) i = w"
  by (simp add: ld16_def st16_nth join16)

lemma ld16_st16_other [simp]: "j + 2 \<le> i \<or> i + 2 \<le> j \<Longrightarrow> ld16 (st16 i w b) j = ld16 b j"
  by (auto simp: ld16_def st16_nth)

lemma sw32_length [simp]: "length (sw32 i w b) = length b"
  by (simp add: sw32_def)

lemma join32: "ucast (ucast w :: u16) OR push_bit 16 (ucast (ucast (drop_bit 16 w) :: u16)) = (w :: u32)"
  by (rule bit_word_eqI) (auto simp: bit_simps)

lemma lw32_sw32 [simp]: "i + 3 < length b \<Longrightarrow> lw32 (sw32 i w b) i = w"
  by (simp add: lw32_def sw32_def join32)

lemma lw32_st16_other [simp]: "j + 4 \<le> i \<or> i + 2 \<le> j \<Longrightarrow> lw32 (st16 i w b) j = lw32 b j"
  by (auto simp: lw32_def)

lemma ld16_sw32_other [simp]: "j + 2 \<le> i \<or> i + 4 \<le> j \<Longrightarrow> ld16 (sw32 i w b) j = ld16 b j"
  by (auto simp: sw32_def)

lemma lw32_sw32_other [simp]: "j + 4 \<le> i \<or> i + 4 \<le> j \<Longrightarrow> lw32 (sw32 i w b) j = lw32 b j"
  by (auto simp: sw32_def)

lemma ld16_update_other [simp]: "k \<noteq> i \<Longrightarrow> k \<noteq> i + 1 \<Longrightarrow> ld16 (b[k := v]) i = ld16 b i"
  by (simp add: ld16_def)

lemma lw32_update_other [simp]: "k < i \<or> i + 3 < k \<Longrightarrow> lw32 (b[k := v]) i = lw32 b i"
  by (auto simp: lw32_def)

lemma st16_nth_other [simp]: "j < i \<or> i + 1 < j \<Longrightarrow> st16 i w b ! j = b ! j"
  by (auto simp: st16_nth)

lemma sw32_nth_other [simp]: "j < i \<or> i + 3 < j \<Longrightarrow> sw32 i w b ! j = b ! j"
  by (auto simp: sw32_def)

subsection \<open>Descriptors\<close>

lemma put_zones_length [simp]: "length (put_zones k zs b) = length b"
  by (induction zs arbitrary: k b) simp_all

lemma put_zones_nth_other: "j < k \<or> k + 2 * length zs \<le> j \<Longrightarrow> put_zones k zs b ! j = b ! j"
  by (induction zs arbitrary: k b) auto

lemma put_zones_ld16_other:
  "j + 2 \<le> k \<or> k + 2 * length zs \<le> j \<Longrightarrow> ld16 (put_zones k zs b) j = ld16 b j"
  by (elim disjE) (simp_all add: ld16_def put_zones_nth_other)

lemma put_zones_lw32_other: "j + 4 \<le> k \<Longrightarrow> lw32 (put_zones k zs b) j = lw32 b j"
  by (simp add: lw32_def put_zones_ld16_other)

lemma put_zones_ld16:
  "k + 2 * length zs \<le> length b \<Longrightarrow> i < length zs \<Longrightarrow> ld16 (put_zones k zs b) (k + 2 * i) = zs ! i"
proof (induction zs arbitrary: k b i)
  case (Cons z zs)
  show ?case
  proof (cases i)
    case 0
    then show ?thesis using Cons.prems by (simp add: put_zones_ld16_other)
  next
    case (Suc j)
    then show ?thesis using Cons.IH[of "k + 2" "st16 k z b" j] Cons.prems by simp
  qed
qed simp

lemma put_desc_length [simp]: "length (put_desc k d b) = length b"
  by (simp add: put_desc_def)

lemma get_put_desc:
  assumes "k + 32 \<le> length b" "length (izone d) = 9"
  shows "get_desc k (put_desc k d b) = d"
proof -
  have z: "map (\<lambda>i. ld16 (put_zones (k + 14) (izone d) c) (k + 14 + 2 * i)) [0..<9] = izone d"
    if "length c = length b" for c
    by (rule nth_equalityI) (use assms that in \<open>simp_all add: put_zones_ld16\<close>)
  show ?thesis
    using assms z
    by (cases d) (simp add: get_desc_def put_desc_def put_zones_ld16_other put_zones_lw32_other
        put_zones_nth_other nth_upd)
qed

lemma put_desc_nth_other:
  "length (izone d) = 9 \<Longrightarrow> j < k \<or> k + 32 \<le> j \<Longrightarrow> put_desc k d b ! j = b ! j"
  by (auto simp: put_desc_def put_zones_nth_other nth_upd)

lemma get_put_desc_other:
  assumes "length (izone d) = 9" "j + 32 \<le> k \<or> k + 32 \<le> j"
  shows "get_desc j (put_desc k d b) = get_desc j b"
  using assms(2) by (elim disjE) (simp_all add: get_desc_def ld16_def lw32_def put_desc_nth_other[OF assms(1)])

lemma split16: "ucast (ucast (a :: u8) OR push_bit 8 (ucast (c :: u8)) :: u16) = a"
  "ucast (drop_bit 8 (ucast a OR push_bit 8 (ucast c) :: u16)) = (c :: u8)"
  by (rule bit_word_eqI, auto simp: bit_simps dest: bit_imp_le_length)+

lemma st16_ld16: "st16 i (ld16 b i) b = b"
  by (simp only: st16_def ld16_def split16 list_update_id)

lemma split32: "ucast (ucast (a :: u16) OR push_bit 16 (ucast (c :: u16)) :: u32) = a"
  "ucast (drop_bit 16 (ucast a OR push_bit 16 (ucast c) :: u32)) = (c :: u16)"
  by (rule bit_word_eqI, auto simp: bit_simps dest: bit_imp_le_length)+

lemma sw32_lw32: "sw32 i (lw32 b i) b = b"
  by (simp only: sw32_def lw32_def split32 st16_ld16)

lemma put_zones_get: "\<forall>i<length zs. zs ! i = ld16 b (k + 2 * i) \<Longrightarrow> put_zones k zs b = b"
proof (induction zs arbitrary: k)
  case (Cons z zs)
  have "\<forall>i<length zs. zs ! i = ld16 b (k + 2 + 2 * i)"
    using Cons.prems by (auto dest: spec[where x = "Suc _"])
  moreover have "z = ld16 b k" using Cons.prems by auto
  ultimately show ?case using Cons.IH[of "k + 2"] by (simp add: st16_ld16)
qed simp

lemma put_get_desc: 
  assumes "k + 32 \<le> length b"
  shows "put_desc k (get_desc k b) b = b"
  by (simp add: put_desc_def get_desc_def st16_ld16 sw32_lw32 put_zones_get)

lemma get_put_sdesc: "18 \<le> length b \<Longrightarrow> get_sdesc (put_sdesc d b) = d"
  by (cases d) (simp add: get_sdesc_def put_sdesc_def)

end
