(* ===== verification/Bmap_Laws.thy ===== *)
theory Bmap_Laws
  imports Inode Fs_Bytes
begin

text \<open>
  What \<^verbatim>\<open>bmap\<close> computes: the entry at the end of a path of one to three array indices,
  starting at the zone array of the descriptor.  A lookup changes nothing but what is written back;
  with \<^verbatim>\<open>create\<close> the same holds while every entry on the way is there.
\<close>

declare bmap_loop.simps [simp del]

definition synced :: "'h fs \<Rightarrow> 'h fs \<Rightarrow> bool" where
  "synced s t = (t = s\<lparr>disk := disk t, bdirty := bdirty t\<rparr>)"

lemma synced_refl [simp]: "synced s s"
  by (simp add: synced_def)

lemma synced_trans: "synced s t \<Longrightarrow> synced t u \<Longrightarrow> synced s u"
  by (cases s, cases t, cases u) (simp add: synced_def)

lemma syncedD:
  assumes "synced s t"
  shows "bytes t = bytes s" "bref t = bref s" "kst t = kst s" "inode_table t = inode_table s"
    "super_table t = super_table s" "root_super t = root_super s" "file_table t = file_table s"
    "clock_at t = clock_at s" "clock_n t = clock_n s"
  using assms by (cases s, cases t, simp add: synced_def)+

lemma synced_write: "synced s (blk_write k s)"
  by (cases s) (simp add: synced_def blk_write_def)

text \<open>The block numbers met on a path of array indices.\<close>

fun follow :: "'h fs \<Rightarrow> int \<Rightarrow> bkey \<Rightarrow> nat \<Rightarrow> nat list \<Rightarrow> u16" where
  "follow s dev k base [] = 0"
| "follow s dev k base [i] = ld16 (bytes s k) (base + 2 * i)"
| "follow s dev k base (i # j # is) =
     (let z = ld16 (bytes s k) (base + 2 * i) in if z = 0 then 0 else follow s dev (dev, ucast z) 0 (j # is))"

fun loop_path :: "nat \<Rightarrow> u16 \<Rightarrow> u32 \<Rightarrow> u32 \<Rightarrow> nat list" where
  "loop_path 0 index block divider = [unat index]"
| "loop_path (Suc l) index block divider =
     unat index # loop_path l (ucast (block div divider)) (block mod divider) (divider div BLOCK_INDEXES)"

definition block_path :: "nat \<Rightarrow> nat list" where
  "block_path b = (if b < 7 then [b] else if b < 519 then [7, b - 7]
     else [8, (b - 519) div 512, (b - 519) mod 512])"

definition held :: "bkey \<Rightarrow> 'h fs \<Rightarrow> 'h fs" where
  "held k s = s\<lparr>bref := (bref s)(k := bref s k + 1)\<rparr>"

lemma held_simps [simp]:
  "bytes (held k s) = bytes s" "kst (held k s) = kst s" "inode_table (held k s) = inode_table s"
  "super_table (held k s) = super_table s" "bdirty (held k s) = bdirty s" "disk (held k s) = disk s"
  "bref (held k s) = (bref s)(k := bref s k + 1)"
  by (simp_all add: held_def)

lemma blk_read_eq: "blk_read dev b s = Inr ((dev, b), held (dev, b) s)"
  by (simp add: blk_read_def held_def Let_def)

lemma release_held:
  assumes "0 \<le> bref s k"
  shows "\<exists>t. blk_release (Some k) (held k s) = Inr ((), t) \<and> synced s t"
  using assms by (cases s) (auto simp: blk_release_def held_def blk_write_def Let_def synced_def)

lemma arr_get_synced: "synced s t \<Longrightarrow> arr_get k base i t = arr_get k base i s"
  by (simp add: arr_get_def syncedD)

lemma follow_synced: "synced s t \<Longrightarrow> follow t dev k base is = follow s dev k base is"
  by (induction s dev k base "is" rule: follow.induct) (auto simp: syncedD Let_def)

lemma loop_path_Cons: "\<exists>j is. loop_path l i b d = j # is"
  by (cases l) auto

lemma bmap_loop_lookup:
  assumes "\<forall>k. 0 \<le> bref s k"
    and "create \<Longrightarrow> follow s dev k base (loop_path l index block divider) \<noteq> 0"
  shows "\<exists>t. bmap_loop dev create l k base index block divider (held k s)
      = Inr (ucast (follow s dev k base (loop_path l index block divider)), t) \<and> synced s t"
  using assms
proof (induction l arbitrary: s k base index block divider)
  case 0
  obtain t where "blk_release (Some k) (held k s) = Inr ((), t)" "synced s t"
    using release_held 0 by blast
  moreover have "create \<Longrightarrow> ld16 (bytes s k) (base + 2 * unat index) \<noteq> 0" using 0(2) by simp
  ultimately show ?case by (subst bmap_loop.simps) (auto simp: act_def look_def whenM_def ret_def arr_get_def syncedD)
next
  case (Suc l)
  obtain t where t: "blk_release (Some k) (held k s) = Inr ((), t)" "synced s t"
    using release_held Suc.prems by blast
  have nonneg: "\<forall>k. 0 \<le> bref t k" using Suc.prems t by (simp add: syncedD)
  let ?z = "ld16 (bytes s k) (base + 2 * unat index)"
  obtain j "is" where p: "loop_path l (ucast (block div divider)) (block mod divider) (divider div BLOCK_INDEXES) = j # is"
    using loop_path_Cons by blast
  show ?case
  proof (cases "?z = 0")
    case True
    then have "\<not> create" using Suc.prems(2) p by auto
    then show ?thesis using t p True
      by (subst bmap_loop.simps) (auto simp: act_def look_def whenM_def ret_def arr_get_def syncedD Let_def)
  next
    case False
    let ?k = "(dev, ucast ?z :: u32)"
    obtain u where u: "bmap_loop dev create l ?k 0 (ucast (block div divider)) (block mod divider)
        (divider div BLOCK_INDEXES) (held ?k t) = Inr (ucast (follow t dev ?k 0 (loop_path l
          (ucast (block div divider)) (block mod divider) (divider div BLOCK_INDEXES))), u)" "synced t u"
      using Suc.IH[OF nonneg _, of ?k 0 "ucast (block div divider)" "block mod divider"
          "divider div BLOCK_INDEXES"] Suc.prems(2) False p follow_synced[OF t(2)] by (auto simp: Let_def)
    then show ?thesis
      using t False p
        synced_trans[OF t(2) u(2)] follow_synced[OF t(2)]
      by (subst bmap_loop.simps) (auto simp: act_def look_def whenM_def ret_def arr_get_def syncedD Let_def blk_read_eq)
  qed
qed

lemma fs_numbers:
  "BLOCK_SIZE = 1024" "BLOCK_INDEXES = 512" "DIRECT_BLOCK = 7" "INDIRECT1_BLOCK = 512" "INDIRECT2_BLOCK = 262144"
  "TOTAL_BLOCK = 262663" "BLOCK_BITS = 8192" "BLOCK_DENTRIES = 64" "BLOCK_INODES = 32"
  by (simp_all add: BLOCK_SIZE_def BLOCK_INDEXES_def DIRECT_BLOCK_def INDIRECT1_BLOCK_def INDIRECT2_BLOCK_def
      TOTAL_BLOCK_def BLOCK_BITS_def BLOCK_DENTRIES_def BLOCK_INODES_def DENTRY_SIZE_def INODE_DESC_SIZE_def)

lemma unat_ucast16: "unat (b :: u32) < 65536 \<Longrightarrow> unat (ucast b :: u16) = unat b"
  by (simp add: unsigned_ucast_eq take_bit_nat_eq_self)

lemma unat_sub32: "(k :: u32) \<le> b \<Longrightarrow> unat (b - k) = unat b - unat k"
  by (simp add: unat_sub)

lemma loop_path_2:
  "loop_path 2 i b 512 = [unat i, unat (ucast (b div 512) :: u16), unat (ucast (b mod 512) :: u16)]"
proof -
  have "(512 :: u32) div BLOCK_INDEXES = 1" by (simp add: fs_numbers)
  then show ?thesis unfolding numeral_2_eq_2 loop_path.simps by simp
qed

lemma block_path_loop:
  assumes "b < TOTAL_BLOCK"
  shows "block_path (unat b) =
    (if b < DIRECT_BLOCK then loop_path 0 (ucast b) b 1
     else if b - DIRECT_BLOCK < INDIRECT1_BLOCK then loop_path 1 (ucast DIRECT_BLOCK) (b - DIRECT_BLOCK) 1
     else loop_path 2 (ucast (DIRECT_BLOCK + 1)) (b - DIRECT_BLOCK - INDIRECT1_BLOCK) BLOCK_INDEXES)"
proof -
  have b: "unat b < 262663" using assms by (simp add: fs_numbers word_less_nat_alt)
  consider "unat b < 7" | "7 \<le> unat b" "unat b < 519" | "519 \<le> unat b" by linarith
  then show ?thesis
  proof cases
    case 1
    then show ?thesis by (simp add: block_path_def fs_numbers word_less_nat_alt unat_ucast16)
  next
    case 2
    then have s: "unat (b - 7) = unat b - 7" by (simp add: unat_sub32 word_le_nat_alt)
    then have "\<not> b < 7" "b - 7 < 512" using 2 by (simp_all add: word_less_nat_alt)
    moreover have "unat (ucast (b - 7) :: u16) = unat b - 7" using 2 s by (simp add: unat_ucast16)
    ultimately show ?thesis using 2 by (simp add: block_path_def fs_numbers)
  next
    case 3
    then have s: "unat (b - 7) = unat b - 7" by (simp add: unat_sub32 word_le_nat_alt)
    then have s2: "unat (b - 7 - 512) = unat b - 519" using 3 by (simp add: unat_sub32 word_le_nat_alt)
    have "\<not> b < 7" "\<not> b - 7 < 512" using 3 s by (simp_all add: word_less_nat_alt)
    moreover have "unat ((b - 7 - 512) div 512) = (unat b - 519) div 512"
      "unat ((b - 7 - 512) mod 512) = (unat b - 519) mod 512"
      using s2 by (simp_all add: unat_div unat_mod)
    then have "unat (ucast ((b - 7 - 512) div 512) :: u16) = (unat b - 519) div 512"
      "unat (ucast ((b - 7 - 512) mod 512) :: u16) = (unat b - 519) mod 512"
      using b by (simp_all add: unat_ucast16)
    moreover have "unat (ucast (8 :: u32) :: u16) = 8" by simp
    ultimately show ?thesis using 3 by (simp add: block_path_def fs_numbers loop_path_2)
  qed
qed

definition file_block :: "'h fs \<Rightarrow> inode \<Rightarrow> nat \<Rightarrow> u16" where
  "file_block s i b = follow s (idev i) (ibuf i) (islot i + 14) (block_path b)"

lemma indirect2_bound:
  assumes "b < TOTAL_BLOCK" "\<not> b < DIRECT_BLOCK" "\<not> b - DIRECT_BLOCK < INDIRECT1_BLOCK"
  shows "b - DIRECT_BLOCK - INDIRECT1_BLOCK < INDIRECT2_BLOCK"
proof -
  have "7 \<le> unat b" using assms(2) by (simp add: fs_numbers word_less_nat_alt)
  then have s: "unat (b - 7) = unat b - 7" by (simp add: unat_sub32 word_le_nat_alt)
  then have "519 \<le> unat b" using assms(3) by (simp add: fs_numbers word_less_nat_alt)
  then have "unat (b - 7 - 512) = unat b - 519" using s by (simp add: unat_sub32 word_le_nat_alt)
  then show ?thesis using assms(1) by (simp add: fs_numbers word_less_nat_alt)
qed

text \<open>Which round the walk starts with.\<close>

definition first_round :: "u32 \<Rightarrow> nat \<times> u16 \<times> u32 \<times> u32" where
  "first_round b =
     (if b < DIRECT_BLOCK then (0, ucast b, b, 1)
      else if b - DIRECT_BLOCK < INDIRECT1_BLOCK then (1, ucast DIRECT_BLOCK, b - DIRECT_BLOCK, 1)
      else (2, ucast (DIRECT_BLOCK + 1), b - DIRECT_BLOCK - INDIRECT1_BLOCK, BLOCK_INDEXES))"

lemma bmap_eq:
  assumes "inode_at p s = Inr (i, s)" "b < TOTAL_BLOCK"
  shows "bmap p b create s = (case first_round b of (l, ix, c, d) \<Rightarrow>
     bmap_loop (idev i) create l (ibuf i) (islot i + 14) ix c d (held (ibuf i) s))"
  using assms indirect2_bound[of b]
  by (simp add: bmap_def first_round_def act_def[of "inode_at p"] Let_def held_def[symmetric])

lemma block_path_round:
  "b < TOTAL_BLOCK \<Longrightarrow> block_path (unat b) = (case first_round b of (l, ix, c, d) \<Rightarrow> loop_path l ix c d)"
  using block_path_loop[of b] by (simp only: first_round_def split: if_split) simp

lemma bmap_lookup:
  assumes "inode_at p s = Inr (i, s)" "b < TOTAL_BLOCK" "\<forall>k. 0 \<le> bref s k"
    and "create \<Longrightarrow> file_block s i (unat b) \<noteq> 0"
  shows "\<exists>t. bmap p b create s = Inr (ucast (file_block s i (unat b)), t) \<and> synced s t"
proof -
  obtain l ix c d where f: "first_round b = (l, ix, c, d)" by (cases "first_round b")
  then show ?thesis
    using bmap_loop_lookup[OF assms(3), of create "idev i" "ibuf i" "islot i + 14" l ix c d] assms(4)
    unfolding bmap_eq[OF assms(1,2)] file_block_def block_path_round[OF assms(2)] by simp
qed

end
