(* ===== verification/File_Laws.thy ===== *)
theory File_Laws
  imports Bmap_Laws
begin

text \<open>
  A file as a byte array.  \<open>file_byte s i j\<close> is byte \<open>j\<close> of the file with the inode
  \<open>i\<close>: the byte at the offset in the block that \<^verbatim>\<open>bmap\<close> finds.
  \<open>mapped s p i n\<close> says that the first \<open>n\<close> blocks of the file are there, are
  different blocks, and are none of the blocks a lookup goes through, and that no index block is the
  block of the descriptor.
\<close>

subsection \<open>The abstraction\<close>

fun path_keys :: "'h fs \<Rightarrow> int \<Rightarrow> bkey \<Rightarrow> nat \<Rightarrow> nat list \<Rightarrow> bkey list" where
  "path_keys s dev k base [] = []"
| "path_keys s dev k base [i] = [k]"
| "path_keys s dev k base (i # j # is) =
     k # path_keys s dev (dev, ucast (ld16 (bytes s k) (base + 2 * i))) 0 (j # is)"

definition file_keys :: "'h fs \<Rightarrow> inode \<Rightarrow> nat \<Rightarrow> bkey list" where
  "file_keys s i b = path_keys s (idev i) (ibuf i) (islot i + 14) (block_path b)"

definition data_key :: "'h fs \<Rightarrow> inode \<Rightarrow> nat \<Rightarrow> bkey" where
  "data_key s i b = (idev i, ucast (file_block s i b))"

definition file_byte :: "'h fs \<Rightarrow> inode \<Rightarrow> nat \<Rightarrow> u8" where
  "file_byte s i j = bytes s (data_key s i (j div 1024)) ! (j mod 1024)"

definition file_slice :: "'h fs \<Rightarrow> inode \<Rightarrow> nat \<Rightarrow> nat \<Rightarrow> u8 list" where
  "file_slice s i from n = map (file_byte s i) [from..<from + n]"

definition inode_of :: "'h fs \<Rightarrow> addr \<Rightarrow> inode \<Rightarrow> bool" where
  "inode_of s p i = (inode_at p s = Inr (i, s))"

definition sized :: "'h fs \<Rightarrow> bool" where
  "sized s = ((\<forall>k. length (bytes s k) = 1024) \<and> (\<forall>k. 0 \<le> bref s k))"

definition mapped :: "'h fs \<Rightarrow> inode \<Rightarrow> nat \<Rightarrow> bool" where
  "mapped s i n =
     (islot i + 32 \<le> 1024 \<and> n \<le> 262663 \<and>
      (\<forall>b<n. file_block s i b \<noteq> 0) \<and>
      (\<forall>b<n. \<forall>c<n. b \<noteq> c \<longrightarrow> data_key s i b \<noteq> data_key s i c) \<and>
      (\<forall>b<n. \<forall>c<n. data_key s i b \<notin> set (file_keys s i c)) \<and>
      (\<forall>c<n. ibuf i \<notin> set (tl (file_keys s i c))))"

text \<open>The states agree in what a file's contents and the lookup of its blocks depend on.\<close>

definition alike :: "'h fs \<Rightarrow> 'h fs \<Rightarrow> bool" where
  "alike s t = (bytes t = bytes s \<and> bref t = bref s \<and> inode_table t = inode_table s \<and>
     super_table t = super_table s \<and> file_table t = file_table s \<and> sched_of t = sched_of s)"

lemma sizedD: "sized s \<Longrightarrow> length (bytes s k) = 1024" "sized s \<Longrightarrow> 0 \<le> bref s k"
  by (cases k, simp add: sized_def)+

lemma unat_ucast32: "unat (ucast (z :: u16) :: u32) = unat z"
  by (simp add: unsigned_ucast_eq take_bit_nat_eq_self order_less_trans[OF unsigned_less])

lemma ucast32_zero [simp]: "(ucast (z :: u16) :: u32) = 0 \<longleftrightarrow> z = 0"
  by (metis unat_ucast32 unat_0 word_unat_eqI)

lemma alike_refl [simp]: "alike s s" by (simp add: alike_def)

lemma alike_trans: "alike s t \<Longrightarrow> alike t u \<Longrightarrow> alike s u" by (simp add: alike_def)

lemma synced_alike: "synced s t \<Longrightarrow> alike s t"
  by (simp add: alike_def syncedD sched_of_def)

lemma alike_upd_mem [simp]: "alike s (upd_mem f t) = alike s t"
  by (simp add: alike_def upd_mem_def sched_of_def)

lemma mem_of_upd_mem [simp]: "mem_of (upd_mem f s) = f (mem_of s)"
  by (simp add: mem_of_def upd_mem_def)

lemma synced_mem: "synced s t \<Longrightarrow> mem_of t = mem_of s"
  by (simp add: mem_of_def syncedD)

lemma follow_bytes: "bytes t = bytes s \<Longrightarrow> follow t dev k base is = follow s dev k base is"
  by (induction s dev k base "is" rule: follow.induct) (auto simp: Let_def)

lemma path_keys_bytes: "bytes t = bytes s \<Longrightarrow> path_keys t dev k base is = path_keys s dev k base is"
  by (induction s dev k base "is" rule: path_keys.induct) auto

lemma bytes_file:
  assumes b: "bytes t = bytes s"
  shows "file_block t i b = file_block s i b" "data_key t i b = data_key s i b"
    "file_keys t i b = file_keys s i b" "file_byte t i j = file_byte s i j" "file_slice t i m n = file_slice s i m n"
    "mapped t i n = mapped s i n"
proof -
  show 1: "file_block t i b = file_block s i b" for b unfolding file_block_def by (rule follow_bytes[OF b])
  show 2: "data_key t i b = data_key s i b" for b by (simp add: data_key_def 1)
  show 3: "file_keys t i b = file_keys s i b" for b unfolding file_keys_def by (rule path_keys_bytes[OF b])
  show 4: "file_byte t i j = file_byte s i j" for j by (simp add: file_byte_def 2 b)
  show "file_slice t i m n = file_slice s i m n" by (simp add: file_slice_def 4)
  show "mapped t i n = mapped s i n" by (simp add: mapped_def 1 2 3)
qed

lemma alikeD: "alike s t \<Longrightarrow> bytes t = bytes s" "alike s t \<Longrightarrow> sized t = sized s"
  by (simp_all add: alike_def sized_def)

lemmas alike_file = bytes_file[OF alikeD(1)] alikeD(2)

lemma alike_inode: "alike s t \<Longrightarrow> inode_of t p i = inode_of s p i"
  by (auto simp: inode_of_def inode_at_def alike_def)

lemma alike_desc: "alike s t \<Longrightarrow> inode_of s p i \<Longrightarrow> desc_at p t = Inr (get_desc (islot i) (bytes s (ibuf i)), t)"
  by (auto simp: desc_at_def inode_of_def inode_at_def alike_def act_def look_def)

subsection \<open>Offsets\<close>

lemma signed_take_small: "n < 2 ^ 31 \<Longrightarrow> signed_take_bit 31 (int n) = int n"
  by (rule signed_take_bit_int_eq_self) simp_all

lemma sint_small:
  assumes "unat (w :: u32) < 2 ^ 31"
  shows "sint w = int (unat w)"
proof -
  have "sint w = signed_take_bit 31 (int (unat w))" by (simp add: sint_uint)
  then show ?thesis by (simp only: signed_take_small[OF assms])
qed

lemma sdiv_nat: "int n sdiv 1024 = int (n div 1024)"
  by (cases n) (simp_all add: signed_divide_int_def sgn_if zdiv_int)

lemma smod_nat: "int n smod 1024 = int (n mod 1024)"
  by (cases "n = 0") (simp_all add: signed_modulo_int_def sdiv_nat zdiv_int zmod_int minus_div_mult_eq_mod)

lemma block_index_eq:
  assumes "unat off < 2 ^ 31"
  shows "unat (block_index off) = unat off div 1024"
proof -
  have "unat off div 1024 < 2 ^ 32" by (rule order_le_less_trans[OF div_le_dividend unat_lt32])
  then show ?thesis by (simp only: block_index_def sint_small[OF assms] sdiv_nat of_int_of_nat_eq unat_of_nat32)
qed

lemma block_start_eq:
  assumes "unat off < 2 ^ 31"
  shows "unat (block_start off) = unat off mod 1024"
proof -
  have "unat off mod 1024 < 2 ^ 32" by (rule order_le_less_trans[OF mod_less_eq_dividend unat_lt32])
  then show ?thesis by (simp only: block_start_def sint_small[OF assms] smod_nat of_int_of_nat_eq unat_of_nat32)
qed

lemma chars_eq:
  assumes "unat off < 2 ^ 31"
  shows "unat (min (BLOCK_SIZE - block_start off) left) = min (1024 - unat off mod 1024) (unat left)"
proof -
  have "block_start off \<le> 1024" using block_start_eq[OF assms] by (simp add: word_le_nat_alt)
  then have "unat (BLOCK_SIZE - block_start off) = 1024 - unat off mod 1024"
    by (simp add: fs_numbers unat_sub32 block_start_eq[OF assms])
  then show ?thesis by (auto simp: min_def word_le_nat_alt)
qed

subsection \<open>Reading\<close>

lemma slice_length [simp]: "length (file_slice s i m n) = n"
  by (simp add: file_slice_def)

lemma slice_nth [simp]: "x < n \<Longrightarrow> file_slice s i m n ! x = file_byte s i (m + x)"
  by (simp add: file_slice_def)

lemma file_slice_append: "file_slice s i m a @ file_slice s i (m + a) b = file_slice s i m (a + b)"
  by (rule nth_equalityI) (auto simp: nth_append)

lemma store_bytes_append:
  "store_bytes (a + length xs) ys (store_bytes a xs m) = store_bytes a (xs @ ys) m"
  by (auto simp: store_bytes_def nth_append fun_eq_iff)

lemma same_block:
  assumes "j mod 1024 + x < (1024 :: nat)"
  shows "(j + x) div 1024 = j div 1024" "(j + x) mod 1024 = j mod 1024 + x"
proof -
  have "j + x = j div 1024 * 1024 + (j mod 1024 + x)" by simp
  then show "(j + x) div 1024 = j div 1024" "(j + x) mod 1024 = j mod 1024 + x"
    using assms by (metis div_mult_self3 div_less add_0_right zero_neq_numeral)
      (metis \<open>j + x = j div 1024 * 1024 + (j mod 1024 + x)\<close> assms mod_less mod_mult_self3)
qed

lemma block_slice:
  assumes "sized s" "j mod 1024 + c \<le> 1024"
  shows "take c (drop (j mod 1024) (bytes s (data_key s i (j div 1024)))) = file_slice s i j c"
  by (rule nth_equalityI) (use assms in \<open>auto simp: sizedD file_byte_def same_block\<close>)

lemma inode_of_synced: "synced s t \<Longrightarrow> inode_of s p i \<Longrightarrow> inode_at p t = Inr (i, t)"
  using alike_inode[OF synced_alike] by (auto simp: inode_of_def)

lemma copy_out_ok:
  assumes "sized s" "unat start = j mod 1024" "unat n \<le> 1024 - j mod 1024" "k = data_key s i (j div 1024)"
  shows "copy_out k start n a s = Inr ((), upd_mem (store_bytes a (file_slice s i j (unat n))) s)"
proof -
  have "j mod 1024 + unat n \<le> 1024"
    using assms(3) mod_less_divisor[of 1024 j] by linarith
  then show ?thesis using assms block_slice[OF assms(1)] by (simp add: copy_out_def sizedD)
qed

lemma read_round:
  assumes p: "inode_of s p i" and m: "mapped s i n" and z: "sized s"
    and off: "unat off div 1024 < n" and c: "unat c \<le> 1024 - unat off mod 1024"
  shows "\<exists>t. act (bmap p (block_index off) False) (\<lambda>nr. act (lift (assrt (nr \<noteq> 0))) (\<lambda>_.
             act (inode_at p) (\<lambda>i. act (blk_read (idev i) nr) (\<lambda>k.
             act (copy_out k (block_start off) c a) (\<lambda>_. blk_release (Some k)))))) s = Inr ((), t)
    \<and> alike s t \<and> mem_of t = store_bytes a (file_slice s i (unat off) (unat c)) (mem_of s)"
proof -
  have n: "n \<le> 262663" using m by (simp add: mapped_def)
  then have o31: "unat off < 2 ^ 31" using off by simp
  note bi = block_index_eq[OF o31] and bs = block_start_eq[OF o31]
  have "block_index off < TOTAL_BLOCK" using bi off n by (simp add: fs_numbers word_less_nat_alt)
  then obtain t where t: "bmap p (block_index off) False s = Inr (ucast (file_block s i (unat off div 1024)), t)"
      "synced s t"
    using bmap_lookup[of p s i "block_index off" False] p z by (auto simp: inode_of_def sized_def bi)
  have nz: "(ucast (file_block s i (unat off div 1024)) :: u32) \<noteq> 0"
    using m off by (simp add: mapped_def)
  let ?k = "data_key s i (unat off div 1024)" and ?u = "held (data_key s i (unat off div 1024)) t"
  note al = synced_alike[OF t(2)]
  have hu: "bytes ?u = bytes s" "mem_of ?u = mem_of s"
    using t(2) synced_mem[OF t(2)] by (simp_all add: syncedD mem_of_def)
  have su: "sized ?u"
    unfolding sized_def using t(2) sizedD[OF z] by (auto simp: syncedD add_nonneg_nonneg)
  have fu: "data_key ?u i b = data_key s i b" "file_slice ?u i j c' = file_slice s i j c'" for b j c'
    by (rule bytes_file[OF hu(1)])+
  have co: "copy_out ?k (block_start off) c a ?u
      = Inr ((), upd_mem (store_bytes a (file_slice s i (unat off) (unat c))) ?u)"
    using copy_out_ok[OF su bs c fu(1)[symmetric]] by (simp only: fu)
  let ?v = "upd_mem (store_bytes a (file_slice s i (unat off) (unat c))) t"
  have v: "upd_mem f ?u = held ?k (upd_mem f t)" for f
    by (simp add: upd_mem_def held_def)
  have "0 \<le> bref ?v ?k" using t(2) by (simp add: upd_mem_def syncedD sizedD[OF z])
  then obtain w where w: "blk_release (Some ?k) (held ?k ?v) = Inr ((), w)" "synced ?v w"
    using release_held by blast
  have "alike s w" using alike_trans[OF al] synced_alike[OF w(2)] by (simp add: alike_def upd_mem_def sched_of_def)
  moreover have "mem_of w = store_bytes a (file_slice s i (unat off) (unat c)) (mem_of s)"
    using synced_mem[OF w(2)] synced_mem[OF t(2)] by simp
  ultimately show ?thesis
    using t nz inode_of_synced[OF t(2) p] co w
    by (auto simp: act_def blk_read_eq v data_key_def[symmetric])
qed

lemma store_bytes_Nil [simp]: "store_bytes a [] m = m"
  by (auto simp: store_bytes_def fun_eq_iff)

lemma file_slice_0 [simp]: "file_slice s i m 0 = []"
  by (simp add: file_slice_def)

text \<open>One round moves \<open>c\<close> bytes of the \<open>left\<close> ones, at least one and never past the block.\<close>

lemma round_size:
  assumes "left \<noteq> (0 :: u32)" "unat off + unat left \<le> 1024 * n" "n \<le> 262663"
    and "c = min (BLOCK_SIZE - block_start off) left"
  shows "unat off div 1024 < n" "unat c \<le> 1024 - unat off mod 1024" "0 < unat c" "unat c \<le> unat left"
    "unat (off + c) = unat off + unat c" "unat (left - c) = unat left - unat c"
proof -
  have "0 < unat left" using assms(1) by (simp add: unat_gt_0)
  moreover have o: "unat off < 2 ^ 31" using assms(2,3) by simp
  moreover note c = chars_eq[OF o, of left, folded assms(4)]
  moreover have "unat off mod 1024 < 1024" by simp
  ultimately show c': "unat c \<le> 1024 - unat off mod 1024" "0 < unat c" "unat c \<le> unat left"
    by (auto simp: min_def)
  show "unat off div 1024 < n" using assms(2) \<open>0 < unat left\<close> by (simp add: less_mult_imp_div_less)
  show "unat (off + c) = unat off + unat c" using assms(2,3) c' by (simp add: unat_word_ariths)
  show "unat (left - c) = unat left - unat c" using c' by (simp add: unat_sub32 word_le_nat_alt)
qed

lemma read_loop_ok:
  assumes "inode_of s p i" "mapped s i n" "sized s" "unat off + unat left \<le> 1024 * n"
  shows "\<exists>t. read_loop p a left off s = Some (Inr (off + left, t)) \<and> alike s t
    \<and> mem_of t = store_bytes a (file_slice s i (unat off) (unat left)) (mem_of s)"
  using assms
proof (induction "unat left" arbitrary: s off left a rule: less_induct)
  case less
  show ?case
  proof (cases "left = 0")
    case True
    then show ?thesis by (simp add: read_loop.simps)
  next
    case False
    have n: "n \<le> 262663" using less.prems(2) by (simp add: mapped_def)
    let ?c = "min (BLOCK_SIZE - block_start off) left"
    note c = round_size[OF False less.prems(4) n refl]
    obtain u where u: "act (bmap p (block_index off) False) (\<lambda>nr. act (lift (assrt (nr \<noteq> 0))) (\<lambda>_.
             act (inode_at p) (\<lambda>i. act (blk_read (idev i) nr) (\<lambda>k.
             act (copy_out k (block_start off) ?c a) (\<lambda>_. blk_release (Some k)))))) s = Inr ((), u)"
        "alike s u" "mem_of u = store_bytes a (file_slice s i (unat off) (unat ?c)) (mem_of s)"
      using read_round[OF less.prems(1,2,3) c(1,2)] by blast
    have pre: "inode_of u p i" "mapped u i n" "sized u" "unat (off + ?c) + unat (left - ?c) \<le> 1024 * n"
      using less.prems u(2) alike_inode[OF u(2)] alike_file(6,7)[OF u(2)] c(4-6) by auto
    obtain t where t: "read_loop p (a + unat ?c) (left - ?c) (off + ?c) u = Some (Inr (off + ?c + (left - ?c), t))"
        "alike u t" "mem_of t = store_bytes (a + unat ?c) (file_slice u i (unat (off + ?c)) (unat (left - ?c))) (mem_of u)"
      using less.hyps[OF _ pre] c(3-6) by auto
    have "mem_of t = store_bytes a (file_slice s i (unat off) (unat left)) (mem_of s)"
      using store_bytes_append[of a "file_slice s i (unat off) (unat ?c)"] c(4-6)
      by (simp add: t(3) u(3) alike_file(5)[OF u(2)] file_slice_append)
    then show ?thesis
      using u(1) t(1) alike_trans[OF u(2) t(2)] False
      by (subst read_loop.simps) (simp add: Let_def)
  qed
qed

lemma stamp_ok:
  assumes "inode_of s p i"
  shows "\<exists>now t. stamp_atime p s = Inr (now, t) \<and> inode_of t p (i\<lparr>iatime := now\<rparr>)
    \<and> bytes t = bytes s \<and> bref t = bref s \<and> mem_of t = mem_of s \<and> sched_of t = sched_of s
    \<and> super_table t = super_table s \<and> bdirty t = bdirty s"
  using assms
  by (auto simp: stamp_atime_def act_def get_time_def upd_inode_def inode_of_def inode_at_def ret_def
      mem_of_def sched_of_def)

lemma inode_read_ok:
  assumes p: "inode_of s p i" and m: "mapped s i n" and z: "sized s"
    and k: "ISFILE (imode (get_desc (islot i) (bytes s (ibuf i)))) \<or> ISDIR (imode (get_desc (islot i) (bytes s (ibuf i))))"
    and off: "off < isize (get_desc (islot i) (bytes s (ibuf i)))"
    and len: "len' = min len (isize (get_desc (islot i) (bytes s (ibuf i))) - off)"
    and n: "unat off + unat len' \<le> 1024 * n"
  shows "\<exists>t. inode_read p a len off s = Inr (len', t) \<and> bytes t = bytes s \<and> bref t = bref s
    \<and> sched_of t = sched_of s \<and> mem_of t = store_bytes a (file_slice s i (unat off) (unat len')) (mem_of s)"
proof -
  obtain u where u: "read_loop p a len' off s = Some (Inr (off + len', u))" "alike s u"
      "mem_of u = store_bytes a (file_slice s i (unat off) (unat len')) (mem_of s)"
    using read_loop_ok[OF p m z n] by blast
  have "inode_of u p i" using p alike_inode[OF u(2)] by simp
  then obtain now t where "stamp_atime p u = Inr (now, t)" "bytes t = bytes u" "bref t = bref u"
      "mem_of t = mem_of u" "sched_of t = sched_of u"
    using stamp_ok by blast
  then show ?thesis
    using u alike_desc[OF alike_refl p] k off
    by (auto simp: inode_read_def act_def[of "desc_at p"] act_def[of "stamp_atime p"] act_def[of "\<lambda>s. run (read_loop p a (min len _) off s)"]
        len alike_def ret_def)
qed

end
