(* ===== verification/Write_Laws.thy ===== *)
theory Write_Laws
  imports File_Laws
begin

text \<open>
  Writing a file as an update of its byte array: one round of the loop of
  \<^verbatim>\<open>inode_write\<close> splices its bytes into one block and lets the size grow, the rounds
  compose, and the closing steps touch the times only.  The index blocks, the other files' blocks and
  the tables stay as they are.
\<close>

subsection \<open>Writing\<close>

lemma block_path_hd: "block_path b \<noteq> [] \<and> hd (block_path b) < 9"
  by (simp add: block_path_def)

lemma path_keys_frame:
  assumes "is \<noteq> []" "\<forall>x\<in>set (tl (path_keys s dev k base is)). bytes t x = bytes s x"
    and "ld16 (bytes t k) (base + 2 * hd is) = ld16 (bytes s k) (base + 2 * hd is)"
  shows "path_keys t dev k base is = path_keys s dev k base is"
  using assms
proof (induction s dev k base "is" rule: path_keys.induct)
  case (3 s dev k base i j "is")
  let ?k = "(dev, ucast (ld16 (bytes s k) (base + 2 * i)) :: u32)"
  have "?k \<in> set (path_keys s dev ?k 0 (j # is))" by (cases "is") auto
  then have "bytes t ?k = bytes s ?k" using "3.prems"(2) by auto
  moreover have "\<forall>x\<in>set (tl (path_keys s dev ?k 0 (j # is))). bytes t x = bytes s x"
    using "3.prems"(2) by (cases "is") auto
  ultimately show ?case using "3.IH" "3.prems"(3) by simp
qed auto

lemma follow_frame:
  assumes "is \<noteq> []" "\<forall>x\<in>set (tl (path_keys s dev k base is)). bytes t x = bytes s x"
    and "ld16 (bytes t k) (base + 2 * hd is) = ld16 (bytes s k) (base + 2 * hd is)"
  shows "follow t dev k base is = follow s dev k base is"
  using assms
proof (induction s dev k base "is" rule: follow.induct)
  case (3 s dev k base i j "is")
  let ?k = "(dev, ucast (ld16 (bytes s k) (base + 2 * i)) :: u32)"
  have "?k \<in> set (path_keys s dev ?k 0 (j # is))" by (cases "is") auto
  then have "bytes t ?k = bytes s ?k" using "3.prems"(2) by auto
  moreover have "\<forall>x\<in>set (tl (path_keys s dev ?k 0 (j # is))). bytes t x = bytes s x"
    using "3.prems"(2) by (cases "is") auto
  ultimately show ?case using "3.IH"[OF refl] "3.prems"(3) by (auto simp: Let_def)
qed auto

lemma path_keys_hd: "is \<noteq> [] \<Longrightarrow> path_keys s dev k base is = k # tl (path_keys s dev k base is)"
  by (cases "is"; cases "tl is") auto

lemma file_keys_hd: "file_keys s i b = ibuf i # tl (file_keys s i b)"
  unfolding file_keys_def using path_keys_hd block_path_hd by blast

text \<open>Two states whose blocks agree where the lookups of the first \<open>n\<close> blocks read.\<close>

definition same_zones :: "'h fs \<Rightarrow> 'h fs \<Rightarrow> inode \<Rightarrow> nat \<Rightarrow> bool" where
  "same_zones s t i n =
     ((\<forall>c<n. \<forall>x\<in>set (tl (file_keys s i c)). bytes t x = bytes s x) \<and>
      (\<forall>j<9. ld16 (bytes t (ibuf i)) (islot i + 14 + 2 * j) = ld16 (bytes s (ibuf i)) (islot i + 14 + 2 * j)))"

lemma same_zones_file:
  assumes "same_zones s t i n" "b < n"
  shows "file_block t i b = file_block s i b" "data_key t i b = data_key s i b" "file_keys t i b = file_keys s i b"
proof -
  note h = block_path_hd[of b]
  have "\<forall>x\<in>set (tl (path_keys s (idev i) (ibuf i) (islot i + 14) (block_path b))). bytes t x = bytes s x"
    "ld16 (bytes t (ibuf i)) (islot i + 14 + 2 * hd (block_path b)) = ld16 (bytes s (ibuf i)) (islot i + 14 + 2 * hd (block_path b))"
    using assms h by (auto simp: same_zones_def file_keys_def)
  then show "file_block t i b = file_block s i b" "file_keys t i b = file_keys s i b"
    unfolding file_block_def file_keys_def using h follow_frame path_keys_frame by blast+
  then show "data_key t i b = data_key s i b" by (simp add: data_key_def)
qed

lemma same_zones_mapped: "same_zones s t i n \<Longrightarrow> mapped s i n \<Longrightarrow> mapped t i n"
  unfolding mapped_def by (auto simp: same_zones_file)

lemma size_keeps_zones:
  assumes "k + 32 \<le> length b" "j < 9"
  shows "ld16 (put_desc k (get_desc k b\<lparr>isize := n\<rparr>) b) (k + 14 + 2 * j) = ld16 b (k + 14 + 2 * j)"
proof -
  let ?d = "get_desc k b\<lparr>isize := n\<rparr>"
  have "length (izone ?d) = 9" by (simp add: get_desc_def)
  then have "izone (get_desc k (put_desc k ?d b)) ! j = izone (get_desc k b) ! j"
    using get_put_desc[OF assms(1)] by simp
  then show ?thesis using assms(2) by (simp add: get_desc_def)
qed

definition splice :: "nat \<Rightarrow> u8 list \<Rightarrow> u8 list \<Rightarrow> u8 list" where
  "splice m xs b = take m b @ xs @ drop (m + length xs) b"

lemma splice_length: "m + length xs \<le> length b \<Longrightarrow> length (splice m xs b) = length b"
  by (simp add: splice_def)

lemma splice_nth:
  "m + length xs \<le> length b \<Longrightarrow> j < length b \<Longrightarrow> splice m xs b ! j = (if m \<le> j \<and> j < m + length xs then xs ! (j - m) else b ! j)"
  by (auto simp: splice_def nth_append min_def)

text \<open>What one round of the loop makes of the blocks.\<close>

definition grow :: "u32 \<Rightarrow> inode_desc \<Rightarrow> inode_desc" where
  "grow e d = d\<lparr>isize := max (isize d) e\<rparr>"

definition round_bytes :: "'h fs \<Rightarrow> inode \<Rightarrow> u32 \<Rightarrow> u32 \<Rightarrow> u8 list \<Rightarrow> bkey \<Rightarrow> u8 list" where
  "round_bytes s i off e xs =
     (\<lambda>k. if k = data_key s i (unat off div 1024) then splice (unat off mod 1024) xs (bytes s k)
          else if k = ibuf i then put_desc (islot i) (grow e (get_desc (islot i) (bytes s k))) (bytes s k)
          else bytes s k)"

text \<open>The tables, counts, tasks and memory are the same.\<close>

definition framed :: "'h fs \<Rightarrow> 'h fs \<Rightarrow> bool" where
  "framed s t = (inode_table t = inode_table s \<and> super_table t = super_table s \<and> bref t = bref s \<and>
     sched_of t = sched_of s \<and> mem_of t = mem_of s)"

lemma framed_refl [simp]: "framed s s" by (simp add: framed_def)

lemma framed_trans: "framed s t \<Longrightarrow> framed t u \<Longrightarrow> framed s u" by (simp add: framed_def)

lemma framed_synced: "synced s t \<Longrightarrow> framed s t"
  by (simp add: framed_def syncedD sched_of_def mem_of_def)

lemma framed_inode: "framed s t \<Longrightarrow> inode_of t p i = inode_of s p i"
  by (auto simp: inode_of_def inode_at_def framed_def)

lemma data_not_desc: "mapped s i n \<Longrightarrow> b < n \<Longrightarrow> data_key s i b \<noteq> ibuf i"
  unfolding mapped_def using file_keys_hd[of s i b] list.set_intros(1) by metis

lemma grow_off:
  shows "\<not> isize d < e \<Longrightarrow> grow e d = d" "isize d < e \<Longrightarrow> grow e d = d\<lparr>isize := e\<rparr>"
proof -
  assume "\<not> isize d < e"
  then have "max (isize d) e = isize d" by (simp add: max.absorb1)
  then show "grow e d = d" by (simp add: grow_def)
qed (simp add: grow_def max.absorb2)

lemma act_step: "f s = Inr (x, t) \<Longrightarrow> act f g s = g x t"
  by (simp add: act_def)

lemma inode_of_desc:
  assumes "inode_of s p i"
  shows "inode_at p s = Inr (i, s)" "desc_at p s = Inr (get_desc (islot i) (bytes s (ibuf i)), s)"
    "upd_desc p f s = Inr ((), upd_bytes (ibuf i) (\<lambda>b. put_desc (islot i) (f (get_desc (islot i) b)) b) s)"
    "dirty_inode p s = Inr ((), mark_dirty (ibuf i) s)"
  using assms by (simp_all add: inode_of_def desc_at_def upd_desc_def dirty_inode_def act_step look_def change_def)

lemma framed_simps [simp]:
  "framed s (upd_bytes k f t) = framed s t" "framed s (mark_dirty k t) = framed s t"
  by (simp_all add: framed_def upd_bytes_def mark_dirty_def sched_of_def mem_of_def)

lemma bytes_simps [simp]:
  "bytes (upd_bytes k f t) = (bytes t)(k := f (bytes t k))" "bytes (mark_dirty k t) = bytes t"
  by (simp_all add: upd_bytes_def mark_dirty_def)

lemma inode_of_upd_bytes [simp]: "inode_of (upd_bytes k f s) p i = inode_of s p i"
  using framed_inode[of s "upd_bytes k f s"] by simp

lemma round_desc:
  assumes "inode_of s p i" "islot i + 32 \<le> length (bytes s (ibuf i))"
  shows "\<exists>t. whenM (e > isize (get_desc (islot i) (bytes s (ibuf i))))
            (act (upd_desc p (\<lambda>d. d\<lparr>isize := e\<rparr>)) (\<lambda>_. dirty_inode p)) s = Inr ((), t)
      \<and> bytes t = (bytes s)(ibuf i := put_desc (islot i) (grow e (get_desc (islot i) (bytes s (ibuf i)))) (bytes s (ibuf i)))
      \<and> framed s t"
proof (cases "isize (get_desc (islot i) (bytes s (ibuf i))) < e")
  case True
  then show ?thesis
    by (simp add: whenM_def act_step[of "upd_desc p _", OF inode_of_desc(3)[OF assms(1)]] assms(1)
        inode_of_desc(4)[of _ p i] grow_off)
next
  case False
  then show ?thesis using assms(2) by (simp add: whenM_def ret_def grow_off put_get_desc)
qed

lemma copy_in_ok:
  assumes "unat start + unat n \<le> length (bytes s k)"
  shows "copy_in k start n a s
    = Inr ((), upd_bytes k (splice (unat start) (load_bytes (mem_of s) a (unat n))) s)"
proof -
  have "length (load_bytes (mem_of s) a (unat n)) = unat n" by (simp add: load_bytes_def)
  then show ?thesis using assms by (simp add: copy_in_def splice_def[abs_def])
qed

lemma release_after:
  assumes "bref s k = m + 1" "0 \<le> m"
  shows "\<exists>t. blk_release (Some k) s = Inr ((), t) \<and> bytes t = bytes s \<and> bref t = (bref s)(k := m)
    \<and> framed (s\<lparr>bref := (bref s)(k := m)\<rparr>) t"
  using assms by (auto simp: blk_release_def blk_write_def Let_def framed_def sched_of_def mem_of_def)

lemma write_round_ok:
  assumes p: "inode_of s p i" and m: "mapped s i n" and z: "sized s"
    and off: "unat off div 1024 < n" and c: "unat c \<le> 1024 - unat off mod 1024"
  shows "\<exists>t. write_round p a c off s = Inr ((), t) \<and> framed s t
    \<and> bytes t = round_bytes s i off (off + c) (load_bytes (mem_of s) a (unat c))"
proof -
  have n: "n \<le> 262663" and sl: "islot i + 32 \<le> 1024" using m by (simp_all add: mapped_def)
  then have o31: "unat off < 2 ^ 31" using off by simp
  note bi = block_index_eq[OF o31] and bs = block_start_eq[OF o31]
  let ?k = "data_key s i (unat off div 1024)"
  have nz: "file_block s i (unat off div 1024) \<noteq> 0" using m off by (simp add: mapped_def)
  have "block_index off < TOTAL_BLOCK" using bi off n by (simp add: fs_numbers word_less_nat_alt)
  then obtain t where t: "bmap p (block_index off) True s = Inr (ucast (file_block s i (unat off div 1024)), t)"
      "synced s t"
    using bmap_lookup[of p s i "block_index off" True] p z nz by (auto simp: inode_of_def sized_def bi)
  let ?u = "mark_dirty ?k (held ?k t)"
  have u: "bytes ?u = bytes s" "bref ?u = (bref s)(?k := bref s ?k + 1)" "inode_table ?u = inode_table s"
    "super_table ?u = super_table s" "sched_of ?u = sched_of s" "mem_of ?u = mem_of s"
    using t(2) synced_mem[OF t(2)] by (simp_all add: syncedD mark_dirty_def sched_of_def mem_of_def)
  have "inode_of ?u p i" using p by (auto simp: inode_of_def inode_at_def u)
  note iu = this
  then obtain v where v: "whenM (off + c > isize (get_desc (islot i) (bytes ?u (ibuf i))))
            (act (upd_desc p (\<lambda>d. d\<lparr>isize := off + c\<rparr>)) (\<lambda>_. dirty_inode p)) ?u = Inr ((), v)"
      "bytes v = (bytes s)(ibuf i := put_desc (islot i) (grow (off + c) (get_desc (islot i) (bytes s (ibuf i)))) (bytes s (ibuf i)))"
      "framed ?u v"
    using round_desc[OF iu, of "off + c"] sl sizedD(1)[OF z] unfolding u(1) by auto
  have ne: "?k \<noteq> ibuf i" using data_not_desc[OF m off] .
  have "unat (block_start off) + unat c \<le> length (bytes v ?k)"
    using c bs sizedD(1)[OF z] ne by (simp add: v(2))
  then have ci: "copy_in ?k (block_start off) c a v
      = Inr ((), upd_bytes ?k (splice (unat off mod 1024) (load_bytes (mem_of s) a (unat c))) v)"
    using copy_in_ok[of "block_start off" c v ?k a] v(3) u(6) bs by (simp add: framed_def)
  let ?w = "upd_bytes ?k (splice (unat off mod 1024) (load_bytes (mem_of s) a (unat c))) v"
  have "bref ?w ?k = bref s ?k + 1" using v(3) u(2) by (simp add: framed_def upd_bytes_def)
  then obtain x where x: "blk_release (Some ?k) ?w = Inr ((), x)" "bytes x = bytes ?w"
      "framed (?w\<lparr>bref := (bref ?w)(?k := bref s ?k)\<rparr>) x"
    using release_after sizedD(2)[OF z] by blast
  have "framed s x" using x(3) v(3) u
    by (auto simp: framed_def upd_bytes_def sched_of_def mem_of_def fun_eq_iff)
  moreover have "bytes x = round_bytes s i off (off + c) (load_bytes (mem_of s) a (unat c))"
    using ne by (auto simp: x(2) v(2) upd_bytes_def round_bytes_def fun_eq_iff)
  moreover have "write_round p a c off s = Inr ((), x)"
    using nz t(1) inode_of_synced[OF t(2) p] inode_of_desc(2)[OF iu] v(1) ci x(1)
    by (simp add: write_round_def act_def[of "bmap p (block_index off) True"] act_def[of "inode_at p"]
        act_def[of "blk_read _ _"] blk_read_eq data_key_def[symmetric] act_def[of "desc_at p"] act_def[of "whenM _ _"]
        act_def[of "copy_in _ _ _ _"] u(1))
  ultimately show ?thesis by blast
qed

text \<open>
  The state after bytes were written: the file's bytes are replaced from \<open>off\<close> on, its size
  covers them, and no block outside the file and its descriptor has changed.
\<close>

definition desc_in :: "'h fs \<Rightarrow> inode \<Rightarrow> inode_desc" where
  "desc_in s i = get_desc (islot i) (bytes s (ibuf i))"

definition others_kept :: "'h fs \<Rightarrow> 'h fs \<Rightarrow> inode \<Rightarrow> nat \<Rightarrow> bool" where
  "others_kept s t i n = (\<forall>k. k \<noteq> ibuf i \<and> k \<notin> data_key s i ` {..<n} \<longrightarrow> bytes t k = bytes s k)"

definition written :: "'h fs \<Rightarrow> 'h fs \<Rightarrow> inode \<Rightarrow> nat \<Rightarrow> u32 \<Rightarrow> u8 list \<Rightarrow> bool" where
  "written s t i n off xs =
     (framed s t \<and> mapped t i n \<and> sized t \<and> others_kept s t i n \<and> (\<forall>b<n. data_key t i b = data_key s i b) \<and>
      (\<forall>j<1024 * n. file_byte t i j =
         (if unat off \<le> j \<and> j < unat off + length xs then xs ! (j - unat off) else file_byte s i j)) \<and>
      desc_in t i = (if xs = [] then desc_in s i else grow (off + of_nat (length xs)) (desc_in s i)))"

lemma grow_grow: "a \<le> b \<Longrightarrow> grow b (grow a d) = grow b d"
  by (simp add: grow_def max.assoc max.absorb2)

lemma written_refl: "mapped s i n \<Longrightarrow> sized s \<Longrightarrow> written s s i n off []"
  by (auto simp: written_def others_kept_def)

lemma izone_length [simp]: "length (izone (get_desc k b)) = 9" "length (izone (grow e d)) = length (izone d)"
  by (simp_all add: get_desc_def grow_def)

lemma written_trans:
  assumes a: "written s t i n off xs" and b: "written t u i n off' ys"
    and o': "off' = off + of_nat (length xs)" "unat off + length xs + length ys < 2 ^ 32"
  shows "written s u i n off (xs @ ys)"
proof -
  have l: "unat (of_nat (length xs) :: u32) = length xs" using o'(2) by (simp add: unat_of_nat32)
  then have o: "unat off' = unat off + length xs" using o' by (simp add: unat_word_ariths)
  have "others_kept s u i n" using a b unfolding written_def others_kept_def by (metis (no_types, lifting) image_cong lessThan_iff)
  moreover have "unat (of_nat (length xs + length ys) :: u32) = length xs + length ys"
    using o'(2) unat_of_nat32[of "length xs + length ys"] by simp
  then have "unat (off + of_nat (length xs + length ys)) = unat off + length xs + length ys"
    using o'(2) by (simp add: unat_word_ariths)
  then have "off + of_nat (length xs) \<le> off + of_nat (length xs + length ys)"
    using o o'(1) by (simp add: word_le_nat_alt)
  then have "desc_in u i = (if xs @ ys = [] then desc_in s i else grow (off + of_nat (length (xs @ ys))) (desc_in s i))"
    using a b grow_grow by (auto simp: written_def o'(1) add.assoc)
  moreover have "\<forall>j<1024 * n. file_byte u i j = (if unat off \<le> j \<and> j < unat off + length (xs @ ys)
      then (xs @ ys) ! (j - unat off) else file_byte s i j)"
    using a b by (auto simp: written_def o nth_append)
  ultimately show ?thesis
    using a b framed_trans[of s t u] by (auto simp: written_def)
qed

lemma round_bytes_length: "sized s \<Longrightarrow> m = unat off mod 1024 \<Longrightarrow> m + length xs \<le> 1024 \<Longrightarrow> length (round_bytes s i off e xs k) = 1024"
  by (simp add: round_bytes_def splice_length sizedD)

lemma round_zones:
  assumes "mapped s i n" "sized s" "bytes t = round_bytes s i off e xs" "unat off div 1024 < n"
  shows "same_zones s t i n"
  unfolding same_zones_def
proof (intro conjI allI impI ballI)
  fix c x
  assume "c < n" "x \<in> set (tl (file_keys s i c))"
  moreover have "x \<in> set (file_keys s i c)"
    using calculation file_keys_hd[of s i c] by (metis list.set_intros(2))
  ultimately show "bytes t x = bytes s x"
    using assms(1,4) unfolding mapped_def assms(3) round_bytes_def by auto
next
  fix j :: nat
  assume "j < 9"
  moreover have "islot i + 32 \<le> length (bytes s (ibuf i))" using assms(1) sizedD(1)[OF assms(2)] by (simp add: mapped_def)
  ultimately show "ld16 (bytes t (ibuf i)) (islot i + 14 + 2 * j) = ld16 (bytes s (ibuf i)) (islot i + 14 + 2 * j)"
    using size_keeps_zones data_not_desc[OF assms(1,4)] by (simp add: assms(3) round_bytes_def grow_def)
qed

lemma div_mod_same: "(j :: nat) div 1024 = k div 1024 \<Longrightarrow> j mod 1024 + k = j + k mod 1024"
  using div_mult_mod_eq[of j 1024] div_mult_mod_eq[of k 1024] by linarith

lemma round_file_byte:
  fixes s t :: "'h fs"
  assumes m: "mapped s i n" and z: "sized s" and t: "bytes t = round_bytes s i off e xs"
    and o: "unat off div 1024 < n" and l: "length xs \<le> 1024 - unat off mod 1024" and j: "j < 1024 * n"
  shows "file_byte t i j = (if unat off \<le> j \<and> j < unat off + length xs then xs ! (j - unat off) else file_byte s i j)"
proof -
  note sz = same_zones_file[OF round_zones[OF m z t o]]
  have jn: "j div 1024 < n" using j by (simp add: less_mult_imp_div_less)
  show ?thesis
  proof (cases "j div 1024 = unat off div 1024")
    case True
    have "unat off mod 1024 + length xs \<le> 1024" using l mod_less_divisor[of 1024 "unat off"] by linarith
    then have "file_byte t i j = (if unat off mod 1024 \<le> j mod 1024 \<and> j mod 1024 < unat off mod 1024 + length xs
        then xs ! (j mod 1024 - unat off mod 1024) else file_byte s i j)"
      by (simp add: file_byte_def True sz(2)[OF o] t round_bytes_def splice_nth sizedD[OF z])
    moreover have "j mod 1024 - unat off mod 1024 = j - unat off" "unat off mod 1024 \<le> j mod 1024 \<longleftrightarrow> unat off \<le> j"
      "j mod 1024 < unat off mod 1024 + length xs \<longleftrightarrow> j < unat off + length xs"
      using div_mod_same[OF True] by linarith+
    ultimately show ?thesis by simp
  next
    case False
    then have "data_key s i (j div 1024) \<noteq> data_key s i (unat off div 1024)" using m jn o by (simp add: mapped_def)
    then have "file_byte t i j = file_byte s i j"
      using data_not_desc[OF m jn] by (simp add: file_byte_def sz(2)[OF jn] t round_bytes_def)
    moreover have "\<not> (unat off \<le> j \<and> j < unat off + length xs)"
    proof
      assume *: "unat off \<le> j \<and> j < unat off + length xs"
      then obtain x where x: "j = unat off + x" "x < length xs" using le_Suc_ex by auto
      then have "unat off mod 1024 + x < 1024" using l by linarith
      then show False using same_block(1) False x(1) by metis
    qed
    ultimately show ?thesis by auto
  qed
qed

lemma round_written:
  assumes m: "mapped s i n" and z: "sized s" and t: "bytes t = round_bytes s i off (off + of_nat (length xs)) xs"
    and f: "framed s t" and o: "unat off div 1024 < n" and l: "length xs \<le> 1024 - unat off mod 1024" "xs \<noteq> []"
  shows "written s t i n off xs"
proof -
  note sz = round_zones[OF m z t o]
  have "unat off mod 1024 + length xs \<le> 1024" using l mod_less_divisor[of 1024 "unat off"] by linarith
  then have "sized t"
    unfolding sized_def using f sizedD(2)[OF z] round_bytes_length[OF z refl] by (auto simp: framed_def t)
  moreover have "others_kept s t i n"
    using o by (auto simp: others_kept_def t round_bytes_def)
  moreover have "desc_in t i = grow (off + of_nat (length xs)) (desc_in s i)"
    using data_not_desc[OF m o] m sizedD(1)[OF z]
    by (simp add: desc_in_def t round_bytes_def mapped_def get_put_desc)
  ultimately show ?thesis
    using f same_zones_mapped[OF sz m] same_zones_file(2)[OF sz] round_file_byte[OF m z t o l(1)] l(2)
    by (simp add: written_def)
qed

lemma load_length [simp]: "length (load_bytes m a n) = n"
  by (simp add: load_bytes_def)

lemma load_bytes_append: "load_bytes m a n @ load_bytes m (a + n) k = load_bytes m a (n + k)"
  by (rule nth_equalityI) (auto simp: load_bytes_def nth_append)

lemma write_loop_ok:
  assumes "inode_of s p i" "mapped s i n" "sized s" "unat off + unat left \<le> 1024 * n"
  shows "\<exists>t. write_loop p a left off s = Some (Inr (off + left, t))
    \<and> written s t i n off (load_bytes (mem_of s) a (unat left))"
  using assms
proof (induction "unat left" arbitrary: s off left a rule: less_induct)
  case less
  show ?case
  proof (cases "left = 0")
    case True
    then show ?thesis using written_refl less.prems by (subst write_loop.simps) (simp add: load_bytes_def)
  next
    case False
    have n: "n \<le> 262663" using less.prems(2) by (simp add: mapped_def)
    let ?c = "min (BLOCK_SIZE - block_start off) left"
    let ?xs = "load_bytes (mem_of s) a (unat ?c)"
    note c = round_size[OF False less.prems(4) n refl]
    obtain u where u: "write_round p a ?c off s = Inr ((), u)" "framed s u"
        "bytes u = round_bytes s i off (off + ?c) ?xs"
      using write_round_ok[OF less.prems(1,2,3) c(1,2)] by blast
    have "?xs \<noteq> []" using c(3) load_length by (metis length_0_conv less_numeral_extra(3))
    then have w: "written s u i n off ?xs"
      using round_written[OF less.prems(2,3) _ u(2) c(1)] u(3) c(2) by simp
    then have pre: "inode_of u p i" "mapped u i n" "sized u" "unat (off + ?c) + unat (left - ?c) \<le> 1024 * n"
      using less.prems framed_inode[OF u(2)] c(4-6) by (auto simp: written_def)
    obtain t where t: "write_loop p (a + unat ?c) (left - ?c) (off + ?c) u = Some (Inr (off + ?c + (left - ?c), t))"
        "written u t i n (off + ?c) (load_bytes (mem_of u) (a + unat ?c) (unat (left - ?c)))"
      using less.hyps[OF _ pre] c(3-6) by auto
    have "mem_of u = mem_of s" using u(2) by (simp add: framed_def)
    then have "written s t i n off (?xs @ load_bytes (mem_of s) (a + unat ?c) (unat (left - ?c)))"
      using written_trans[OF w t(2)] less.prems(4) n c(4-6) by simp
    then show ?thesis
      using u(1) t(1) False c(4-6) by (subst write_loop.simps) (simp add: Let_def load_bytes_append)
  qed
qed

subsection \<open>Whole operations\<close>

text \<open>The contents of a file as a list of bytes, and a file that is open with its blocks there.\<close>

definition content :: "'h fs \<Rightarrow> inode \<Rightarrow> u8 list" where
  "content s i = file_slice s i 0 (unat (isize (desc_in s i)))"

definition plain_file :: "'h fs \<Rightarrow> addr \<Rightarrow> inode \<Rightarrow> nat \<Rightarrow> bool" where
  "plain_file s p i n = (inode_of s p i \<and> mapped s i n \<and> sized s \<and> ISFILE (imode (desc_in s i)) \<and>
     unat (isize (desc_in s i)) \<le> 1024 * n)"

lemma file_iatime [simp]:
  "file_block s (i\<lparr>iatime := x\<rparr>) b = file_block s i b" "file_keys s (i\<lparr>iatime := x\<rparr>) b = file_keys s i b"
  "data_key s (i\<lparr>iatime := x\<rparr>) b = data_key s i b" "file_byte s (i\<lparr>iatime := x\<rparr>) j = file_byte s i j"
  "desc_in s (i\<lparr>iatime := x\<rparr>) = desc_in s i"
  by (simp_all add: file_block_def file_keys_def data_key_def file_byte_def desc_in_def)

lemma content_iatime [simp]:
  "content s (i\<lparr>iatime := x\<rparr>) = content s i" "mapped s (i\<lparr>iatime := x\<rparr>) n = mapped s i n"
  by (simp_all add: content_def file_slice_def mapped_def)

lemma content_bytes:
  assumes "bytes t = bytes s"
  shows "content t i = content s i"
  by (simp add: content_def desc_in_def bytes_file(5)[OF assms] assms)

lemma length_content [simp]: "length (content s i) = unat (isize (desc_in s i))"
  by (simp add: content_def)

lemma content_part:
  "unat off + n \<le> unat (isize (desc_in s i)) \<Longrightarrow> take n (drop (unat off) (content s i)) = file_slice s i (unat off) n"
  by (rule nth_equalityI) (auto simp: content_def)

lemma imtime_zones:
  assumes "k + 32 \<le> length b" "j < 9"
  shows "ld16 (put_desc k (get_desc k b\<lparr>imtime := n\<rparr>) b) (k + 14 + 2 * j) = ld16 b (k + 14 + 2 * j)"
proof -
  let ?d = "get_desc k b\<lparr>imtime := n\<rparr>"
  have "izone (get_desc k (put_desc k ?d b)) ! j = izone (get_desc k b) ! j"
    using get_put_desc[OF assms(1), of ?d] by simp
  then show ?thesis using assms(2) by (simp add: get_desc_def)
qed

text \<open>The closing steps of \<^verbatim>\<open>inode_write\<close> touch the times only.\<close>

lemma stamp_mtime:
  assumes p: "inode_of s p i" and m: "mapped s i n" and z: "sized s"
  shows "\<exists>now t. act (stamp_atime p) (\<lambda>now. act (upd_desc p (\<lambda>d. d\<lparr>imtime := now\<rparr>)) (\<lambda>_. write_inode p)) s = Inr ((), t)
    \<and> inode_of t p (i\<lparr>iatime := now\<rparr>) \<and> mapped t i n \<and> sized t \<and> desc_in t i = desc_in s i\<lparr>imtime := now\<rparr>
    \<and> (\<forall>b<n. data_key t i b = data_key s i b) \<and> (\<forall>j<1024 * n. file_byte t i j = file_byte s i j)
    \<and> (\<forall>k. k \<noteq> ibuf i \<longrightarrow> bytes t k = bytes s k) \<and> mem_of t = mem_of s"
proof -
  obtain now u where u: "stamp_atime p s = Inr (now, u)" "inode_of u p (i\<lparr>iatime := now\<rparr>)" "bytes u = bytes s"
      "bref u = bref s" "mem_of u = mem_of s"
    using stamp_ok[OF p] by blast
  let ?v = "upd_bytes (ibuf i) (\<lambda>b. put_desc (islot i) (get_desc (islot i) b\<lparr>imtime := now\<rparr>) b) u"
  let ?t = "blk_write (ibuf i) ?v"
  have v: "upd_desc p (\<lambda>d. d\<lparr>imtime := now\<rparr>) u = Inr ((), ?v)"
    using inode_of_desc(3)[OF u(2), of "\<lambda>d. d\<lparr>imtime := now\<rparr>"] by simp
  have iv: "inode_at p ?v = Inr (i\<lparr>iatime := now\<rparr>, ?v)" using u(2) inode_of_upd_bytes unfolding inode_of_def by blast
  then have t: "write_inode p ?v = Inr ((), ?t)"
    by (simp add: write_inode_def act_def[of "inode_at p"] change_def)
  have sy: "synced ?v ?t" by (rule synced_write)
  have bt: "bytes ?t = (bytes s)(ibuf i := put_desc (islot i) (get_desc (islot i) (bytes s (ibuf i))\<lparr>imtime := now\<rparr>) (bytes s (ibuf i)))"
    using syncedD(1)[OF sy] u(3) by simp
  have sl: "islot i + 32 \<le> length (bytes s (ibuf i))" using m sizedD(1)[OF z] by (simp add: mapped_def)
  have sz: "same_zones s ?t i n"
    unfolding same_zones_def bt using imtime_zones[OF sl] m by (auto simp: mapped_def)
  have "bref ?t = bref s" using syncedD(2)[OF sy] u(4) by (simp add: upd_bytes_def)
  then have "sized ?t" unfolding sized_def bt using sizedD[OF z] by simp
  moreover have "inode_of ?t p (i\<lparr>iatime := now\<rparr>)"
    using framed_inode[OF framed_synced[OF sy]] iv by (simp add: inode_of_def)
  moreover have "desc_in ?t i = desc_in s i\<lparr>imtime := now\<rparr>"
    using get_put_desc[OF sl] by (simp add: desc_in_def bt)
  moreover have "file_byte ?t i j = file_byte s i j" if "j < 1024 * n" for j
  proof -
    have jn: "j div 1024 < n" using that by (simp add: less_mult_imp_div_less)
    then show ?thesis using data_not_desc[OF m jn] by (simp add: file_byte_def same_zones_file(2)[OF sz] bt)
  qed
  moreover have "mem_of ?t = mem_of s" using synced_mem[OF sy] u(5) by (simp add: upd_bytes_def mem_of_def)
  moreover have "act (stamp_atime p) (\<lambda>now. act (upd_desc p (\<lambda>d. d\<lparr>imtime := now\<rparr>)) (\<lambda>_. write_inode p)) s = Inr ((), ?t)"
    using u(1) v t by (simp add: act_def[of "stamp_atime p"] act_def[of "upd_desc p _"])
  ultimately show ?thesis
    using same_zones_mapped[OF sz m] same_zones_file(2)[OF sz] bt by (metis (no_types, lifting) fun_upd_other)
qed

lemma inode_write_ok:
  assumes p: "inode_of s p i" and m: "mapped s i n" and z: "sized s" and k: "ISFILE (imode (desc_in s i))"
    and n: "unat off + unat len \<le> 1024 * n"
  shows "\<exists>now t. inode_write p a len off s = Inr (len, t) \<and> inode_of t p (i\<lparr>iatime := now\<rparr>)
    \<and> mapped t i n \<and> sized t \<and> others_kept s t i n \<and> mem_of t = mem_of s
    \<and> desc_in t i = (if len = 0 then desc_in s i else grow (off + len) (desc_in s i))\<lparr>imtime := now\<rparr>
    \<and> (\<forall>j<1024 * n. file_byte t i j = (if unat off \<le> j \<and> j < unat off + unat len
         then mem_of s (a + (j - unat off)) else file_byte s i j))"
proof -
  obtain u where u: "write_loop p a len off s = Some (Inr (off + len, u))"
      "written s u i n off (load_bytes (mem_of s) a (unat len))"
    using write_loop_ok[OF p m z n] by blast
  have w: "inode_of u p i" "mapped u i n" "sized u" "others_kept s u i n" "mem_of u = mem_of s"
    using u(2) framed_inode[of s u] p by (auto simp: written_def framed_def)
  have d: "desc_in u i = (if len = 0 then desc_in s i else grow (off + len) (desc_in s i))"
    using u(2) by (auto simp: written_def load_bytes_def unat_eq_0)
  obtain now t where t: "act (stamp_atime p) (\<lambda>now. act (upd_desc p (\<lambda>d. d\<lparr>imtime := now\<rparr>)) (\<lambda>_. write_inode p)) u = Inr ((), t)"
    "inode_of t p (i\<lparr>iatime := now\<rparr>)" "mapped t i n" "sized t" "desc_in t i = desc_in u i\<lparr>imtime := now\<rparr>"
    "\<forall>b<n. data_key t i b = data_key u i b" "\<forall>j<1024 * n. file_byte t i j = file_byte u i j"
    "\<forall>k. k \<noteq> ibuf i \<longrightarrow> bytes t k = bytes u k" "mem_of t = mem_of u"
    using stamp_mtime[OF w(1-3)] by blast
  have "inode_write p a len off s = Inr (len, t)"
    using inode_of_desc(2)[OF p] k u(1) t(1)
    by (simp add: inode_write_def act_def[of "desc_at p"] desc_in_def act_def[of "\<lambda>s. run (write_loop p a len off s)"]
        act_assoc[symmetric]) (simp add: act_assoc act_def ret_def)
  moreover have "others_kept s t i n" using w(4) t(8) unfolding others_kept_def by metis
  moreover have "\<forall>j<1024 * n. file_byte t i j = (if unat off \<le> j \<and> j < unat off + unat len
         then mem_of s (a + (j - unat off)) else file_byte s i j)"
    using t(7) u(2) by (auto simp: written_def load_bytes_def)
  ultimately show ?thesis using t w d by auto
qed

end
