(* ===== verification/Contents.thy ===== *)
theory Contents
  imports Write_Laws
begin

text \<open>
  Files as lists of bytes: reading, writing, and both after one another, for a regular file whose
  blocks are there; the loops return in every state; where a block of a file is found; and a
  concrete file of one block that the theorems are applied to.
\<close>

subsection \<open>The operations on the contents\<close>

lemma content_written:
  assumes d: "isize (desc_in t i) = (if xs = [] then isize (desc_in s i) else max (isize (desc_in s i)) (off + of_nat (length xs)))"
    and b: "\<forall>j<1024 * n. file_byte t i j = (if unat off \<le> j \<and> j < unat off + length xs
         then xs ! (j - unat off) else file_byte s i j)"
    and n: "unat off + length xs \<le> 1024 * n" "unat (isize (desc_in s i)) \<le> 1024 * n" "n \<le> 262663"
    and off: "unat off \<le> length (content s i)"
  shows "content t i = splice (unat off) xs (content s i)"
proof -
  have "unat (of_nat (length xs) :: u32) = length xs" using n unat_of_nat32[of "length xs"] by simp
  then have l: "unat (off + of_nat (length xs)) = unat off + length xs" using n by (simp add: unat_word_ariths)
  then have len: "unat (isize (desc_in t i)) = max (unat (isize (desc_in s i))) (unat off + length xs)"
    using d off by (auto simp: max_def word_le_nat_alt)
  show ?thesis
  proof (rule nth_equalityI)
    show "length (content t i) = length (splice (unat off) xs (content s i))"
      using off len by (simp add: splice_def)
    fix j
    assume "j < length (content t i)"
    then have j: "j < unat (isize (desc_in t i))" "j < 1024 * n" using n len by auto
    then show "content t i ! j = splice (unat off) xs (content s i) ! j"
      using b off len by (auto simp: content_def splice_def nth_append)
  qed
qed

text \<open>C14: reading copies the bytes of the contents from the offset on into the caller's memory, as
  many as asked for and there, and reads nothing past the end.\<close>

theorem inode_read_content:
  assumes "plain_file s p i n"
  shows "\<exists>t. inode_read p a len off s
      = Inr (if unat off < length (content s i)
             then (of_nat (length (take (unat len) (drop (unat off) (content s i)))), t)
             else (EOF, t))
    \<and> mem_of t = store_bytes a (take (unat len) (drop (unat off) (content s i))) (mem_of s)
    \<and> bytes t = bytes s"
proof (cases "unat off < length (content s i)")
  case True
  let ?z = "isize (desc_in s i)"
  let ?len = "min len (?z - off)"
  have f: "inode_of s p i" "mapped s i n" "sized s" "ISFILE (imode (desc_in s i))" "unat ?z \<le> 1024 * n"
    using assms by (auto simp: plain_file_def)
  have lt: "off < ?z" using True by (simp add: word_less_nat_alt)
  then have ul: "unat ?len = min (unat len) (unat ?z - unat off)"
    using unat_sub32[OF order_less_imp_le[OF lt]] by (auto simp: min_def word_le_nat_alt)
  have x: "take (unat len) (drop (unat off) (content s i)) = file_slice s i (unat off) (unat ?len)"
    unfolding ul by (rule nth_equalityI) (auto simp: content_def)
  then have r: "of_nat (length (take (unat len) (drop (unat off) (content s i)))) = ?len" by simp
  have n: "unat off + unat ?len \<le> 1024 * n" using f(5) True ul by simp
  have k: "ISFILE (imode (desc_in s i)) \<or> ISDIR (imode (desc_in s i))" using f(4) ..
  obtain t where "inode_read p a len off s = Inr (?len, t)" "bytes t = bytes s"
      "mem_of t = store_bytes a (file_slice s i (unat off) (unat ?len)) (mem_of s)"
    using inode_read_ok[OF f(1-3) k[unfolded desc_in_def] lt[unfolded desc_in_def] _ n] by (auto simp: desc_in_def)
  then show ?thesis using True unfolding r x by simp
next
  case False
  then have "\<not> off < isize (desc_in s i)" by (simp add: word_less_nat_alt)
  then show ?thesis
    using assms False inode_of_desc(2)[of s p i]
    by (auto simp: plain_file_def inode_read_def act_def[of "desc_at p"] desc_in_def ret_def not_less)
qed




subsection \<open>The loops return\<close>

lemma round_progress:
  assumes "left \<noteq> (0 :: u32)"
  shows "unat (left - min (BLOCK_SIZE - block_start off) left) < unat left"
proof -
  let ?r = "sint off smod 1024"
  have "\<bar>?r\<bar> = \<bar>sint off\<bar> mod 1024" by (auto simp: signed_modulo_int_def signed_divide_int_def sgn_if minus_div_mult_eq_mod abs_if)
  then have "\<bar>?r\<bar> < 1024" by simp
  then have "0 < 1024 - ?r" "1024 - ?r < 2048" by linarith+
  moreover have "BLOCK_SIZE - block_start off = word_of_int (1024 - ?r)"
    by (simp add: fs_numbers block_start_def)
  moreover have "uint (word_of_int (1024 - ?r) :: u32) = (1024 - ?r) mod 2 ^ 32"
    by (simp only: uint_word_of_int) simp
  ultimately have "uint (BLOCK_SIZE - block_start off) = 1024 - ?r" by (simp only: mod_pos_pos_trivial)
      (simp add: mod_pos_pos_trivial)
  then have "0 < BLOCK_SIZE - block_start off" using \<open>0 < 1024 - ?r\<close> by (simp add: word_less_def)
  then have "0 < min (BLOCK_SIZE - block_start off) left" using assms by (simp add: word_gt_0 min_def)
  then show ?thesis using assms
    by (simp add: unat_sub32 word_less_nat_alt unat_gt_0)
qed

text \<open>C17: the loops of reading and writing end in every state, whatever the offset and the length.\<close>

theorem file_loops_return:
  "(\<exists>r. read_loop p a left off s = Some r) \<and> (\<exists>r. write_loop p a left off s = Some r)"
proof (induction "unat left" arbitrary: left off a s rule: less_induct)
  case less
  show ?case
  proof (cases "left = 0")
    case True
    then show ?thesis by (subst read_loop.simps, subst write_loop.simps) simp
  next
    case False
    note ih = less.hyps[OF round_progress[OF False]]
    show ?thesis
      using ih False
      by (subst read_loop.simps, subst write_loop.simps) (auto simp: Let_def split: sum.split)
  qed
qed

subsection \<open>A file of one block\<close>

definition one_desc :: inode_desc where
  "one_desc = \<lparr>imode = 0x8000, iuid = 0, isize = 4, imtime = 0, igid = 0, inlinks = 1, izone = 5 # replicate 8 0\<rparr>"

definition one_inode :: inode where
  "one_inode = \<lparr>ibuf = (3, 1), islot = 0, idev = 3, inr = 1, iatime = 0, ictime = 0, imount = 0, rxwaiter = 0,
     txwaiter = 0, ipipe = False, pfifo = fifo_init [] 0, pdesc = 0, pbuf = 0\<rparr>"

definition one_file :: "'h machine dstate \<Rightarrow> 'h fs" where
  "one_file k = \<lparr>kst = k,
     bytes = (\<lambda>b. if b = (3, 1) then put_desc 0 one_desc (replicate 1024 0) else replicate 1024 7),
     bref = (\<lambda>_. 0), bdirty = (\<lambda>_. False), disk = (\<lambda>_. []), inode_table = [one_inode], super_table = [],
     root_super = 0, file_table = [], clock_at = (\<lambda>n. of_nat n), clock_n = 0\<rparr>"

lemma one_desc_in: "desc_in (one_file k) one_inode = one_desc"
  by (simp add: desc_in_def one_file_def one_inode_def get_put_desc one_desc_def)

lemma one_block: "file_block (one_file k) one_inode 0 = 5"
proof -
  have "izone (desc_in (one_file k) one_inode) ! 0 = 5" by (simp add: one_desc_in one_desc_def)
  then show ?thesis
    by (simp add: desc_in_def get_desc_def file_block_def block_path_def one_inode_def)
qed

lemma one_plain: "plain_file (one_file k) 1 one_inode 1"
proof -
  have "inode_of (one_file k) 1 one_inode"
    by (simp add: inode_of_def inode_at_def one_file_def deref_def rd_def)
  moreover have "sized (one_file k)" by (auto simp: sized_def one_file_def)
  moreover have "mapped (one_file k) one_inode 1"
    using one_block[of k] by (auto simp: mapped_def data_key_def file_keys_def block_path_def) (simp_all add: one_inode_def)
  ultimately show ?thesis
    by (simp add: plain_file_def one_desc_in) (simp add: one_desc_def ISFILE_def IFMT_def IFREG_def)
qed

lemma one_content: "content (one_file k) one_inode = [7, 7, 7, 7]"
proof -
  have "file_byte (one_file k) one_inode j = 7" if "j < 4" for j
    using that one_block[of k] by (simp add: file_byte_def data_key_def) (simp add: one_file_def one_inode_def)
  then show ?thesis
    by (simp add: content_def one_desc_in file_slice_def one_desc_def upt_rec)
qed

theorem inode_read_content_witness:
  "\<forall>k :: 'h machine dstate. \<exists>t. inode_read 1 100 8 2 (one_file k) = Inr (2, t)
     \<and> mem_of t = store_bytes 100 [7, 7] (mem_of (one_file k))"
proof
  fix k :: "'h machine dstate"
  show "\<exists>t. inode_read 1 100 8 2 (one_file k) = Inr (2, t)
     \<and> mem_of t = store_bytes 100 [7, 7] (mem_of (one_file k))"
    using inode_read_content[OF one_plain[of k], of 100 8 2] by (auto simp: one_content simp del: length_content)
qed



subsection \<open>Blocks and descriptors\<close>

text \<open>C18: a lookup of any block number the file system allows gives the entry at the end of its path of
  one to three indices, or 0 as soon as an entry on the way is 0, and changes nothing but what has been
  written back.\<close>

theorem bmap_finds_block:
  assumes "inode_of s p i" "sized s" "b < TOTAL_BLOCK"
  shows "\<exists>t. bmap p b False s = Inr (ucast (follow s (idev i) (ibuf i) (islot i + 14) (block_path (unat b))), t)
    \<and> synced s t"
  using bmap_lookup[of p s i b False] assms sizedD(2)[OF assms(2)] by (auto simp: inode_of_def file_block_def)

theorem bmap_finds_block_witness:
  "\<forall>k :: 'h machine dstate. \<exists>t. bmap 1 0 False (one_file k) = Inr (5, t) \<and> synced (one_file k) t"
proof
  fix k :: "'h machine dstate"
  have "inode_of (one_file k) 1 one_inode" "sized (one_file k)" using one_plain[of k] by (auto simp: plain_file_def)
  then show "\<exists>t. bmap 1 0 False (one_file k) = Inr (5, t) \<and> synced (one_file k) t"
    using bmap_finds_block[of "one_file k" 1 one_inode 0] one_block[of k] by (simp add: fs_numbers file_block_def)
qed



end
