(* ===== verification/Dir_Laws.thy ===== *)
theory Dir_Laws
  imports Dirs Contents
begin

text \<open>
  Directories: \<^verbatim>\<open>find_entry\<close> is a search of the directory's entries in order for the
  first one in use whose name is the first part of the path.
\<close>

subsection \<open>Comparing names\<close>

text \<open>The name at a place of a block, and the paths whose first part it is.\<close>

definition name_at :: "u8 list \<Rightarrow> nat \<Rightarrow> u8 list" where
  "name_at b pos = takeWhile (\<lambda>c. c \<noteq> 0) (drop pos b)"

definition ended :: "u8 list \<Rightarrow> nat \<Rightarrow> bool" where
  "ended b pos = (pos + length (name_at b pos) < length b)"

definition first_part :: "mem \<Rightarrow> addr \<Rightarrow> u8 list \<Rightarrow> bool" where
  "first_part m a cs = ((\<forall>j<length cs. m (a + j) = cs ! j)
     \<and> (m (a + length cs) = 0 \<or> IS_SEPARATOR (m (a + length cs))))"

definition next_part :: "mem \<Rightarrow> addr \<Rightarrow> u8 list \<Rightarrow> addr" where
  "next_part m a cs = (if IS_SEPARATOR (m (a + length cs)) then a + length cs + 1 else a + length cs)"

lemma name_at_step:
  assumes "ended b pos"
  shows "pos < length b" "b ! pos = 0 \<Longrightarrow> name_at b pos = []"
    "b ! pos \<noteq> 0 \<Longrightarrow> name_at b pos = b ! pos # name_at b (pos + 1) \<and> ended b (pos + 1)"
proof -
  show l: "pos < length b" using assms by (simp add: ended_def)
  have d: "drop pos b = b ! pos # drop (pos + 1) b" using Cons_nth_drop_Suc[OF l] by simp
  show "b ! pos = 0 \<Longrightarrow> name_at b pos = []" by (simp add: name_at_def d)
  assume "b ! pos \<noteq> 0"
  then have "name_at b pos = b ! pos # name_at b (pos + 1)" by (simp add: name_at_def d)
  then show "name_at b pos = b ! pos # name_at b (pos + 1) \<and> ended b (pos + 1)" using assms by (simp add: ended_def)
qed

lemma first_part_Cons: "first_part m a (c # cs) \<longleftrightarrow> m a = c \<and> first_part m (a + 1) cs"
  by (auto simp: first_part_def less_Suc_eq_0_disj)

lemma match_loop_spec:
  assumes "ended b pos"
  shows "\<exists>lhs c. match_loop m a (rd b) pos = Some (Inr (lhs, c))
    \<and> (first_part m a (name_at b pos) \<longleftrightarrow> c = 0 \<and> (m lhs = 0 \<or> IS_SEPARATOR (m lhs)))
    \<and> (c = 0 \<longrightarrow> lhs = a + length (name_at b pos))"
  using assms
proof (induction "length (name_at b pos)" arbitrary: pos a)
  case 0
  note n = name_at_step[OF 0(2)]
  have z: "b ! pos = 0" using n(3) 0(1) by auto
  have "match_loop m a (rd b) pos = Some (Inr (a, 0))" using n(1) z by (subst match_loop.simps) simp
  then show ?case using 0(1) by (auto simp: first_part_def)
next
  case (Suc k)
  note n = name_at_step[OF Suc(3)]
  have z: "b ! pos \<noteq> 0" using n(2) Suc(2) by auto
  note nm = n(3)[OF z]
  show ?case
  proof (cases "m a = b ! pos")
    case False
    then have "match_loop m a (rd b) pos = Some (Inr (a, b ! pos))" using n(1) by (subst match_loop.simps) simp
    then show ?thesis using z nm False by (auto simp: first_part_Cons)
  next
    case True
    then have "match_loop m a (rd b) pos = match_loop m (a + 1) (rd b) (pos + 1)"
      using n(1) z by (subst match_loop.simps) simp
    moreover have "k = length (name_at b (pos + 1))" using nm Suc(2) by simp
    ultimately show ?thesis using Suc(1)[of "pos + 1" "a + 1"] nm True by (auto simp: first_part_Cons)
  qed
qed

lemma match_name_spec:
  assumes "ended b pos"
  shows "match_name m a (rd b) pos
    = Inr (if first_part m a (name_at b pos) then Some (next_part m a (name_at b pos)) else None)"
proof -
  obtain lhs c where "match_loop m a (rd b) pos = Some (Inr (lhs, c))"
    "first_part m a (name_at b pos) \<longleftrightarrow> c = 0 \<and> (m lhs = 0 \<or> IS_SEPARATOR (m lhs))" "c = 0 \<longrightarrow> lhs = a + length (name_at b pos)"
    using match_loop_spec[OF assms, of m a] by blast
  then show ?thesis by (cases "c = 0") (auto simp: match_name_def next_part_def)
qed

subsection \<open>The entries of a directory\<close>

definition entry_key :: "'h fs \<Rightarrow> inode \<Rightarrow> nat \<Rightarrow> bkey" where
  "entry_key s x j = data_key s x (j div 64)"

definition entry_used :: "'h fs \<Rightarrow> inode \<Rightarrow> nat \<Rightarrow> bool" where
  "entry_used s x j = (entry_nr (entry_key s x j) (j mod 64) s \<noteq> 0)"

definition entry_name :: "'h fs \<Rightarrow> inode \<Rightarrow> nat \<Rightarrow> u8 list" where
  "entry_name s x j = name_at (bytes s (entry_key s x j)) (16 * (j mod 64) + 2)"

definition names_end :: "'h fs \<Rightarrow> inode \<Rightarrow> nat \<Rightarrow> bool" where
  "names_end s x n = (\<forall>j<n. ended (bytes s (entry_key s x j)) (16 * (j mod 64) + 2))"

text \<open>The first entry in use whose name is the first part of the path.\<close>

definition first_entry :: "'h fs \<Rightarrow> inode \<Rightarrow> addr \<Rightarrow> nat list \<Rightarrow> nat option" where
  "first_entry s x name js = List.find (\<lambda>j. entry_used s x j \<and> first_part (mem_of s) name (entry_name s x j)) js"

definition found_entry :: "'h fs \<Rightarrow> inode \<Rightarrow> addr \<Rightarrow> nat \<Rightarrow> bkey \<times> nat \<times> addr" where
  "found_entry s x name j = (entry_key s x j, j mod 64, next_part (mem_of s) name (entry_name s x j))"

lemma synced_entries:
  assumes "synced s t"
  shows "entry_key t x j = entry_key s x j" "entry_used t x j = entry_used s x j" "entry_name t x j = entry_name s x j"
    "names_end t x n = names_end s x n" "first_entry t x name js = first_entry s x name js" "found_entry t x name j = found_entry s x name j"
proof -
  note b = syncedD(1)[OF assms] and f = alike_file[OF synced_alike[OF assms]]
  show k: "entry_key t x j = entry_key s x j" for j by (simp add: entry_key_def f)
  show u: "entry_used t x j = entry_used s x j" for j by (simp add: entry_used_def entry_nr_def k b)
  show n: "entry_name t x j = entry_name s x j" for j by (simp add: entry_name_def k b)
  show "names_end t x n = names_end s x n" by (simp add: names_end_def k b)
  show "first_entry t x name js = first_entry s x name js" by (simp add: first_entry_def u n synced_mem[OF assms])
  show "found_entry t x name j = found_entry s x name j" by (simp add: found_entry_def k n synced_mem[OF assms])
qed

lemma mem_of_held [simp]: "mem_of (held k s) = mem_of s"
  by (simp add: mem_of_def)

lemma match_entry_ok:
  assumes "names_end s x n" "j < n" "k = entry_key s x j"
  shows "match_entry name k (j mod 64) (held k s)
    = Inr (if first_part (mem_of s) name (entry_name s x j) then Some (next_part (mem_of s) name (entry_name s x j)) else None, held k s)"
  using assms match_name_spec[of "bytes s k" "16 * (j mod 64) + 2" "mem_of s" name]
  by (simp add: match_entry_def entry_pos_def entry_name_def names_end_def lift_def)

text \<open>The block at hand before entry \<open>i\<close> is looked at: none, or the one of the entry before.\<close>

definition at_hand :: "'h fs \<Rightarrow> inode \<Rightarrow> nat \<Rightarrow> bkey option \<Rightarrow> nat \<Rightarrow> 'h fs \<Rightarrow> bool" where
  "at_hand s x i b e s0 = (if i = 0 then b = None \<and> s0 = s
     else b = Some (entry_key s x (i - 1)) \<and> e = (i - 1) mod 64 + 1 \<and> s0 = held (entry_key s x (i - 1)) s)"

lemma get_block_ok:
  assumes p: "inode_of s p x" and m: "mapped s x nb" and z: "sized s" and i: "i div 64 < nb" "i < 2 ^ 32"
  shows "\<exists>t. act (bmap p (of_nat i div BLOCK_DENTRIES) create) (\<lambda>blk. act (lift (assrt (blk \<noteq> 0))) (\<lambda>_. act (inode_at p) (\<lambda>x.
      act (blk_read (idev x) blk) (\<lambda>k. ret (k, 0))))) s = Inr ((entry_key s x i, 0), held (entry_key s x i) t) \<and> synced s t"
proof -
  let ?b = "of_nat i div BLOCK_DENTRIES :: u32"
  have b: "unat ?b = i div 64" using i(2) by (simp add: fs_numbers unat_div unat_of_nat32)
  have nz: "file_block s x (i div 64) \<noteq> 0" "i div 64 < 262663" using m i(1) by (auto simp: mapped_def)
  have lt: "?b < TOTAL_BLOCK" using nz(2) b by (simp add: fs_numbers word_less_nat_alt)
  have pos: "\<forall>k. 0 \<le> bref s k" using sizedD(2)[OF z] by blast
  obtain t where t: "bmap p ?b create s = Inr (ucast (file_block s x (i div 64)), t)" "synced s t"
    using bmap_lookup[OF _ lt pos, of p x create] p nz(1) b by (auto simp: inode_of_def)
  have pt: "inode_at p t = Inr (x, t)" by (rule inode_of_synced[OF t(2) p])
  show ?thesis
    using t pt nz(1) by (intro exI[of _ t]) (simp add: act_def lift_def blk_read_eq ret_def entry_key_def data_key_def)
qed

lemma next_entry:
  "0 < i \<Longrightarrow> (i - 1) mod 64 + 1 < 64 \<Longrightarrow> i div 64 = (i - 1) div 64 \<and> i mod 64 = (i - 1) mod 64 + 1"
  "0 < i \<Longrightarrow> \<not> (i - 1) mod 64 + 1 < 64 \<Longrightarrow> i mod 64 = (0 :: nat)"
  by (cases i, simp, simp add: div_Suc mod_Suc)+

lemma entry_block_ok:
  assumes p: "inode_of s p x" and m: "mapped s x nb" and z: "sized s" and i: "i div 64 < nb" "i < 2 ^ 32"
    and h: "at_hand s x i b e s0"
  shows "\<exists>t. entry_block p create (of_nat i) b e s0 = Inr ((entry_key s x i, i mod 64), held (entry_key s x i) t) \<and> synced s t"
proof (cases "i = 0")
  case True
  then show ?thesis using get_block_ok[OF p m z i] h by (simp add: entry_block_def at_hand_def)
next
  case False
  let ?k = "entry_key s x (i - 1)"
  have h: "b = Some ?k" "e = (i - 1) mod 64 + 1" "s0 = held ?k s" using h False by (simp_all add: at_hand_def)
  show ?thesis
  proof (cases "e < 64")
    case True
    then have "i div 64 = (i - 1) div 64" "i mod 64 = e" using next_entry(1)[of i] h(2) False by simp_all
    then show ?thesis using True h by (intro exI[of _ s]) (simp add: entry_block_def fs_numbers entry_key_def ret_def)
  next
    case e: False
    then have im: "i mod 64 = 0" using next_entry(2)[of i] h(2) False by simp
    obtain t where t: "blk_release (Some ?k) (held ?k s) = Inr ((), t)" "synced s t"
      using release_held[of s ?k] sizedD(2)[OF z] by blast
    note a = synced_alike[OF t(2)]
    have "inode_of t p x" "mapped t x nb" "sized t" using p m z alike_inode[OF a] alike_file[OF a] by auto
    from get_block_ok[OF this i, of create] show ?thesis
      using t e h im synced_entries(1)[OF t(2)] synced_trans[OF t(2)]
      by (auto simp: entry_block_def fs_numbers act_def[of "blk_release _"])
  qed
qed

subsection \<open>The search\<close>

lemma release_at_hand:
  assumes "sized s" "at_hand s x i b e s0"
  shows "\<exists>t. blk_release b s0 = Inr ((), t) \<and> synced s t"
proof (cases "i = 0")
  case True
  then show ?thesis using assms(2) by (intro exI[of _ s]) (simp add: at_hand_def blk_release_def)
next
  case False
  then show ?thesis using assms(2) release_held[of s "entry_key s x (i - 1)"] sizedD(2)[OF assms(1)] by (simp add: at_hand_def)
qed

lemma find_entry_loop_ok:
  assumes "inode_of s p x" "mapped s x nb" "sized s" "names_end s x (i + n)" "i + n \<le> 64 * nb" "i + n < 2 ^ 32"
    "at_hand s x i b e s0"
  shows "\<exists>t. synced s t \<and> find_entry_loop p name i n b e s0
    = (case first_entry s x name [i..<i + n] of None \<Rightarrow> Inr (None, t)
       | Some j \<Rightarrow> Inr (Some (found_entry s x name j), held (entry_key s x j) t))"
  using assms
proof (induction n arbitrary: i b e s0 s)
  case 0
  then show ?case using release_at_hand[of s x i b e s0] by (auto simp: first_entry_def act_def ret_def)
next
  case (Suc n)
  have i: "i div 64 < nb" "i < 2 ^ 32" using Suc.prems(5,6) by (simp_all add: div_less_iff_less_mult)
  obtain t where t: "entry_block p False (of_nat i) b e s0 = Inr ((entry_key s x i, i mod 64), held (entry_key s x i) t)" "synced s t"
    using entry_block_ok[OF Suc.prems(1-3) i Suc.prems(7)] by blast
  note a = synced_alike[OF t(2)] and e = synced_entries[OF t(2)]
  have k: "entry_key s x i = entry_key t x i" by (simp add: e)
  have w: "inode_of t p x" "mapped t x nb" "sized t" "names_end t x (Suc i + n)"
    using Suc.prems(1-4) alike_inode[OF a] alike_file[OF a] e(4) by simp_all
  have nm: "match_entry name (entry_key t x i) (i mod 64) (held (entry_key t x i) t)
      = Inr (if first_part (mem_of t) name (entry_name t x i) then Some (next_part (mem_of t) name (entry_name t x i)) else None,
             held (entry_key t x i) t)"
    by (rule match_entry_ok[OF w(4)]) simp_all
  have nr: "entry_nr (entry_key t x i) (i mod 64) (held (entry_key t x i) t) = entry_nr (entry_key t x i) (i mod 64) t"
    by (simp add: entry_nr_def)
  let ?hit = "entry_used t x i \<and> first_part (mem_of t) name (entry_name t x i)"
  let ?rest = "find_entry_loop p name (Suc i) n (Some (entry_key t x i)) (Suc (i mod 64)) (held (entry_key t x i) t)"
  have step: "find_entry_loop p name i (Suc n) b e s0
      = (if ?hit then Inr (Some (found_entry t x name i), held (entry_key t x i) t) else ?rest)"
    unfolding find_entry_loop.simps act_def[of "entry_block _ _ _ _ _"] t(1)
    by (simp add: act_def[of "match_entry _ _ _"] k nm nr entry_used_def found_entry_def ret_def)
  have up: "[i..<i + Suc n] = i # [Suc i..<Suc i + n]" by (simp add: upt_conv_Cons del: upt_Suc)
  have lk: "first_entry s x name [i..<i + Suc n] = (if ?hit then Some i else first_entry t x name [Suc i..<Suc i + n])"
    unfolding up e(5)[symmetric] by (simp add: first_entry_def)
  show ?case
  proof (cases ?hit)
    case True
    then show ?thesis using step lk t(2) e(1,6) by (intro exI[of _ t]) simp
  next
    case False
    have "at_hand t x (Suc i) (Some (entry_key t x i)) (Suc (i mod 64)) (held (entry_key t x i) t)" by (simp add: at_hand_def)
    then obtain u where u: "synced t u" "?rest = (case first_entry t x name [Suc i..<Suc i + n] of None \<Rightarrow> Inr (None, u)
        | Some j \<Rightarrow> Inr (Some (found_entry t x name j), held (entry_key t x j) u))"
      using Suc.IH[OF w] Suc.prems(5,6) by fastforce
    then show ?thesis using step lk False e(1,6) synced_trans[OF t(2) u(1)]
      by (intro exI[of _ u]) (simp split: option.split)
  qed
qed

text \<open>Only \<^verbatim>\<open>..\<close> of a root inode leaves the directory.\<close>

definition stays :: "'h fs \<Rightarrow> inode \<Rightarrow> addr \<Rightarrow> bool" where
  "stays s x name = (first_part (mem_of s) name [46, 46] \<longrightarrow> inr x \<noteq> 1)"

lemma leave_mount_stays:
  assumes "inode_of s p x" "stays s x name"
  shows "leave_mount p name s = Inr (p, s)"
proof -
  have "name_at [46, 46, 0] 0 = [46, 46]" by (simp add: name_at_def)
  then have "match_name (mem_of s) name (rd [46, 46, 0]) 0
      = Inr (if first_part (mem_of s) name [46, 46] then Some (next_part (mem_of s) name [46, 46]) else None)"
    using match_name_spec[of "[46, 46, 0]" 0 "mem_of s" name] by (simp add: ended_def)
  then show ?thesis using assms
    by (auto simp: leave_mount_def stays_def inode_of_def act_def[of "inode_at p"] act_def[of "lift _"] lift_def ret_def)
qed

lemma find_entry_ok:
  assumes p: "inode_of s p x" "mapped s x nb" "sized s" and d: "ISDIR (imode (desc_in s x))"
    and n: "n = unat (isize (desc_in s x)) div 16" "n \<le> 64 * nb" "names_end s x n" and st: "stays s x name"
  shows "\<exists>t. synced s t \<and> find_entry p name s
    = (case first_entry s x name [0..<n] of None \<Rightarrow> Inr ((p, None), t)
       | Some j \<Rightarrow> Inr ((p, Some (found_entry s x name j)), held (entry_key s x j) t))"
proof -
  have ds: "desc_at p s = Inr (desc_in s x, s)" using alike_desc[OF alike_refl p(1)] by (simp add: desc_in_def)
  have n2: "unat (isize (desc_in s x) div DENTRY_SIZE) = n" by (simp add: n(1) DENTRY_SIZE_def unat_div)
  have "n < 2 ^ 32" using unat_lt32[of "isize (desc_in s x) div DENTRY_SIZE"] n2 by simp
  then obtain t where t: "synced s t" "find_entry_loop p name 0 n None 0 s = (case first_entry s x name [0..<n] of None \<Rightarrow> Inr (None, t)
       | Some j \<Rightarrow> Inr (Some (found_entry s x name j), held (entry_key s x j) t))"
    using find_entry_loop_ok[OF p, of 0 n None 0 s name] n(2,3) by (auto simp: at_hand_def)
  have "find_entry p name s = act (find_entry_loop p name 0 n None 0) (\<lambda>r. ret (p, r)) s"
    using d n2 leave_mount_stays[OF p(1) st] by (simp add: find_entry_def act_def[of "desc_at p"] ds act_def[of "leave_mount _ _"])
  then show ?thesis using t by (intro exI[of _ t]) (simp add: act_def ret_def split: option.split)
qed

subsection \<open>A directory of three entries\<close>

text \<open>The first entry is free, the second has the name \<open>ab\<close>, the third \<open>a\<close>; the path is \<open>a/b\<close>.\<close>

definition three_entries :: "u8 list" where
  "three_entries = [0, 0, 97, 0, 0, 0, 0, 0, 0, 0, 0, 0, 0, 0, 0, 0, 2, 0, 97, 98, 0, 0, 0, 0, 0, 0, 0, 0, 0, 0, 0, 0,
     3, 0, 97, 0] @ replicate 988 0"

definition dir_desc :: inode_desc where
  "dir_desc = one_desc\<lparr>imode := 0x4000, isize := 48\<rparr>"

definition one_dir :: "'h machine dstate \<Rightarrow> 'h fs" where
  "one_dir k = (one_file (k\<lparr>world := (world k)\<lparr>ram := (\<lambda>a. if a = 101 then 47 else if a = 100 then 97 else 98)\<rparr>\<rparr>))
     \<lparr>bytes := (\<lambda>b. if b = (3, 1) then put_desc 0 dir_desc (replicate 1024 0) else three_entries)\<rparr>"

lemma dir_desc_in: "desc_in (one_dir k) one_inode = dir_desc"
  by (simp add: desc_in_def one_dir_def one_file_def one_inode_def get_put_desc dir_desc_def one_desc_def)

lemma dir_block: "file_block (one_dir k) one_inode 0 = 5"
proof -
  have "izone (desc_in (one_dir k) one_inode) ! 0 = 5" by (simp add: dir_desc_in dir_desc_def one_desc_def)
  then show ?thesis
    by (simp add: desc_in_def get_desc_def file_block_def block_path_def one_inode_def)
qed

lemma dir_ok:
  "inode_of (one_dir k) 1 one_inode" "mapped (one_dir k) one_inode 1" "sized (one_dir k)"
proof -
  show "inode_of (one_dir k) 1 one_inode"
    by (simp add: inode_of_def inode_at_def one_dir_def one_file_def deref_def rd_def)
  show "mapped (one_dir k) one_inode 1"
    using dir_block[of k] by (auto simp: mapped_def data_key_def file_keys_def block_path_def) (simp_all add: one_inode_def)
  show "sized (one_dir k)" by (auto simp: sized_def one_dir_def one_file_def three_entries_def)
qed

lemma dir_key: "j < 64 \<Longrightarrow> entry_key (one_dir k) one_inode j = (3, 5)"
  using dir_block[of k] by (simp add: entry_key_def data_key_def) (simp add: one_inode_def)

lemma dir_bytes: "bytes (one_dir k) (3, 5) = three_entries"
  by (simp add: one_dir_def)

lemma less_three: "j < 3 \<Longrightarrow> j = 0 \<or> j = Suc 0 \<or> j = (2::nat)"
  by arith

lemma dir_names:
  "entry_name (one_dir k) one_inode 0 = [97]" "entry_name (one_dir k) one_inode (Suc 0) = [97, 98]"
  "entry_name (one_dir k) one_inode 2 = [97]" "names_end (one_dir k) one_inode 3"
proof -
  show n: "entry_name (one_dir k) one_inode 0 = [97]" "entry_name (one_dir k) one_inode (Suc 0) = [97, 98]"
    "entry_name (one_dir k) one_inode 2 = [97]"
    by (simp_all add: entry_name_def dir_key dir_bytes name_at_def three_entries_def)
  have "length three_entries = 1024" by (simp add: three_entries_def)
  then have "ended three_entries (16 * (j mod 64) + 2)" if "j < 3" for j
    using n less_three[OF that] by (auto simp: ended_def entry_name_def dir_key dir_bytes)
  then show "names_end (one_dir k) one_inode 3" by (simp add: names_end_def dir_key dir_bytes)
qed

lemma dir_first_entry: "first_entry (one_dir k) one_inode 100 [0..<3] = Some 2"
  "found_entry (one_dir k) one_inode 100 2 = ((3, 5), 2, 102)"
proof -
  have m: "mem_of (one_dir k) = (\<lambda>a. if a = 101 then 47 else if a = 100 then 97 else 98)"
    by (simp add: mem_of_def one_dir_def one_file_def)
  have "entry_nr (3, 5) 0 (one_dir k) = 0" "entry_nr (3, 5) (Suc 0) (one_dir k) = 2" "entry_nr (3, 5) 2 (one_dir k) = 3"
    by (simp_all add: entry_nr_def entry_pos_def dir_bytes three_entries_def ld16_def)
  then have "entry_used (one_dir k) one_inode j = (j \<noteq> 0)" if "j < 3" for j
    using less_three[OF that] by (auto simp: entry_used_def dir_key)
  moreover have upt: "[0..<3] = [0, Suc 0, 2]" by (simp add: upt_rec)
  ultimately show "first_entry (one_dir k) one_inode 100 [0..<3] = Some 2"
    using dir_names[of k] unfolding first_entry_def upt
    by (simp add: first_part_def m IS_SEPARATOR_def SEPARATOR1_def SEPARATOR2_def)
  show "found_entry (one_dir k) one_inode 100 2 = ((3, 5), 2, 102)"
    by (simp add: found_entry_def dir_key dir_names next_part_def m IS_SEPARATOR_def SEPARATOR1_def SEPARATOR2_def)
qed

subsection \<open>The property\<close>

text \<open>C16: \<^verbatim>\<open>find_entry\<close> on a directory whose blocks are all mapped returns the first entry
  in use whose name is the first part of the path, with the place after that part, and holds the
  entry's block; it returns nothing, and holds nothing, when no entry in use has that name.\<close>

theorem find_entry_first_match:
  assumes "inode_of s p x" "mapped s x nb" "sized s" "ISDIR (imode (desc_in s x))"
    "n = unat (isize (desc_in s x)) div 16" "n \<le> 64 * nb" "names_end s x n" "stays s x name"
  shows "\<exists>t. synced s t \<and> find_entry p name s
    = (case first_entry s x name [0..<n] of None \<Rightarrow> Inr ((p, None), t)
       | Some j \<Rightarrow> Inr ((p, Some (found_entry s x name j)), held (entry_key s x j) t))"
  using assms by (rule find_entry_ok)

theorem find_entry_first_match_witness:
  "\<forall>k :: 'h machine dstate. \<exists>t. synced (one_dir k) t
     \<and> find_entry 1 100 (one_dir k) = Inr ((1, Some ((3, 5), 2, 102)), held (3, 5) t)"
proof
  fix k :: "'h machine dstate"
  have d: "ISDIR (imode (desc_in (one_dir k) one_inode))" "3 = unat (isize (desc_in (one_dir k) one_inode)) div 16"
    by (simp_all add: dir_desc_in dir_desc_def ISDIR_def IFMT_def IFDIR_def)
  have "stays (one_dir k) one_inode 100"
    by (simp add: stays_def first_part_Cons mem_of_def one_dir_def one_file_def)
  from find_entry_first_match[OF dir_ok d _ dir_names(4) this]
  show "\<exists>t. synced (one_dir k) t \<and> find_entry 1 100 (one_dir k) = Inr ((1, Some ((3, 5), 2, 102)), held (3, 5) t)"
    using dir_first_entry[of k] dir_key[of 2 k] by simp
qed

end
