(* ===== verification/Vsprintf.thy ===== *)
theory Vsprintf
  imports Stdlib
begin

text \<open>
  Formatted printing: \<^verbatim>\<open>lib/vsprintf.c\<close>.  The output, the format and the string arguments
  are in the same byte memory, so a format or an argument inside the output buffer is overwritten as
  the code overwrites it.  The variable arguments are the 32-bit words on the stack; taking one that
  was not passed is a fault.  Widths and precisions are \<^verbatim>\<open>int\<close> values, whose overflow is
  undefined in C and not modelled.
\<close>

definition ZEROPAD :: u32 where "ZEROPAD = 1"
definition SIGN :: u32 where "SIGN = 2"
definition PLUS :: u32 where "PLUS = 4"
definition SPACE :: u32 where "SPACE = 8"
definition LEFT :: u32 where "LEFT = 16"
definition SPECIAL :: u32 where "SPECIAL = 32"
definition SMALL :: u32 where "SMALL = 64"

definition is_digit :: "u8 \<Rightarrow> bool" where
  "is_digit c = (48 \<le> c \<and> c \<le> 57)"

subsection \<open>Output\<close>

fun emit :: "u8 list \<Rightarrow> mem \<times> addr \<Rightarrow> mem \<times> addr" where
  "emit [] q = q"
| "emit (c # cs) (m, p) = emit cs (m(p := c), p + 1)"

text \<open>\<^verbatim>\<open>while (n-- > 0) *str++ = c;\<close> and the value the counter is left with.\<close>

definition fill :: "int \<Rightarrow> u8 \<Rightarrow> mem \<times> addr \<Rightarrow> mem \<times> addr" where
  "fill n c = emit (replicate (nat n) c)"

definition after_fill :: "int \<Rightarrow> int" where
  "after_fill n = min n 0 - 1"

fun copy_str :: "nat \<Rightarrow> addr \<Rightarrow> mem \<times> addr \<Rightarrow> mem \<times> addr" where
  "copy_str 0 s q = q"
| "copy_str (Suc n) s (m, p) = copy_str n (s + 1) (m(p := m s), p + 1)"

subsection \<open>Numbers\<close>

partial_function (option) skip_atoi_loop :: "mem \<Rightarrow> addr \<Rightarrow> int \<Rightarrow> (int \<times> addr) option" where
  "skip_atoi_loop m s i =
     (if is_digit (m s) then skip_atoi_loop m (s + 1) (i * 10 + uint (m s) - 48) else Some (i, s))"

definition skip_atoi :: "mem \<Rightarrow> addr \<Rightarrow> (int \<times> addr) option" where
  "skip_atoi m s = skip_atoi_loop m s 0"

definition digit_set :: "u32 \<Rightarrow> u8 list" where
  "digit_set flags =
     (if flags AND SMALL \<noteq> 0 then map of_char ''0123456789abcdefghijklmnopqrstuvwxyz''
      else map of_char ''0123456789ABCDEFGHIJKLMNOPQRSTUVWXYZ'')"

text \<open>The digits, lowest first, as \<^verbatim>\<open>tmp\<close> holds them.\<close>

partial_function (option) digit_loop :: "u8 list \<Rightarrow> u32 \<Rightarrow> u32 \<Rightarrow> u8 list \<Rightarrow> u8 list option" where
  "digit_loop digits base num tmp =
     (if num \<noteq> 0
      then digit_loop digits base (num div base) (tmp @ [digits ! unat (num mod base)])
      else Some tmp)"

definition number :: "mem \<Rightarrow> addr \<Rightarrow> u32 \<Rightarrow> int \<Rightarrow> int \<Rightarrow> int \<Rightarrow> u32 \<Rightarrow> (mem \<times> addr) option" where
  "number m str num base size' precision flags =
     (let digits = digit_set flags;
          flags = (if flags AND LEFT \<noteq> 0 then flags AND NOT ZEROPAD else flags)
      in if base < 2 \<or> base > 36 then Some (m, 0)
      else
        let c = (if flags AND ZEROPAD \<noteq> 0 then 48 else 32);
            (sign, num) = (if flags AND SIGN \<noteq> 0 \<and> num < 0 then (45, - num)
              else (if flags AND PLUS \<noteq> 0 then 43 else if flags AND SPACE \<noteq> 0 then 32 else 0, num));
            size' = (if sign \<noteq> 0 then size' - 1 else size');
            size' = (if flags AND SPECIAL \<noteq> 0
                     then (if base = 16 then size' - 2 else if base = 8 then size' - 1 else size') else size')
        in Option.bind (if num = 0 then Some [48] else digit_loop digits (of_int base) num []) (\<lambda>tmp.
           let i = int (length tmp);
               precision = max i precision;
               size' = size' - precision;
               blank = (flags AND (ZEROPAD + LEFT) = 0);
               q = (if blank then fill size' 32 (m, str) else (m, str));
               size' = (if blank then after_fill size' else size');
               q = (if sign \<noteq> 0 then emit [sign] q else q);
               q = (if flags AND SPECIAL \<noteq> 0
                    then (if base = 8 then emit [48] q else if base = 16 then emit [48, digits ! 33] q else q) else q);
               right = (flags AND LEFT = 0);
               q = (if right then fill size' c q else q);
               size' = (if right then after_fill size' else size');
               q = fill (precision - i) 48 q;
               q = emit (rev tmp) q
           in Some (fill size' 32 q)))"

subsection \<open>Directives\<close>

record vspr =
  vmem :: mem
  vstr :: addr
  vfmt :: addr
  vargs :: "u32 list"

definition va_arg :: "vspr \<Rightarrow> (u32 \<times> vspr) res" where
  "va_arg v = (case vargs v of [] \<Rightarrow> Inl Fault | a # as \<Rightarrow> Inr (a, v\<lparr>vargs := as\<rparr>))"

definition out_of :: "vspr \<Rightarrow> mem \<times> addr" where
  "out_of v = (vmem v, vstr v)"

definition set_out :: "vspr \<Rightarrow> mem \<times> addr \<Rightarrow> vspr" where
  "set_out v q = v\<lparr>vmem := fst q, vstr := snd q\<rparr>"

definition fmt_char :: "vspr \<Rightarrow> u8" where
  "fmt_char v = vmem v (vfmt v)"

definition skip_char :: "vspr \<Rightarrow> vspr" where
  "skip_char v = v\<lparr>vfmt := vfmt v + 1\<rparr>"

partial_function (option) flag_loop :: "mem \<Rightarrow> addr \<Rightarrow> u32 \<Rightarrow> (addr \<times> u32) option" where
  "flag_loop m fmt flags =
     (let fmt = fmt + 1; c = m fmt
      in if c = 45 then flag_loop m fmt (flags OR LEFT)
         else if c = 43 then flag_loop m fmt (flags OR PLUS)
         else if c = 32 then flag_loop m fmt (flags OR SPACE)
         else if c = 35 then flag_loop m fmt (flags OR SPECIAL)
         else if c = 48 then flag_loop m fmt (flags OR ZEROPAD)
         else Some (fmt, flags))"

definition get_width :: "vspr \<Rightarrow> u32 \<Rightarrow> (int \<times> u32 \<times> vspr) res" where
  "get_width v flags =
     (if is_digit (fmt_char v)
      then bnd (run (map_option Inr (skip_atoi (vmem v) (vfmt v)))) (\<lambda>(w, p). Inr (w, flags, v\<lparr>vfmt := p\<rparr>))
      else if fmt_char v = 42
      then bnd (va_arg (skip_char v)) (\<lambda>(a, v).
           let w = sint a in Inr (if w < 0 then (- w, flags OR LEFT, v) else (w, flags, v)))
      else Inr (-1, flags, v))"

definition get_precision :: "vspr \<Rightarrow> (int \<times> vspr) res" where
  "get_precision v =
     (if fmt_char v = 46
      then let v = skip_char v
           in bnd (if is_digit (fmt_char v)
                   then bnd (run (map_option Inr (skip_atoi (vmem v) (vfmt v)))) (\<lambda>(p, f). Inr (p, v\<lparr>vfmt := f\<rparr>))
                   else if fmt_char v = 42 then bnd (va_arg v) (\<lambda>(a, v). Inr (sint a, v))
                   else Inr (-1, v)) (\<lambda>(p, v). Inr (if p < 0 then 0 else p, v))
      else Inr (-1, v))"

definition skip_qualifier :: "vspr \<Rightarrow> vspr" where
  "skip_qualifier v = (if fmt_char v \<in> {104, 108, 76} then skip_char v else v)"

definition print_char :: "vspr \<Rightarrow> u32 \<Rightarrow> int \<Rightarrow> vspr res" where
  "print_char v flags width =
     (let left = (flags AND LEFT \<noteq> 0);
          q = (if left then out_of v else fill (width - 1) 32 (out_of v));
          width = (if left then width else min (width - 1) 0)
      in bnd (va_arg v) (\<lambda>(a, v).
         Inr (set_out v (fill (width - 1) 32 (emit [ucast a] q)))))"

definition print_string :: "vspr \<Rightarrow> u32 \<Rightarrow> int \<Rightarrow> int \<Rightarrow> vspr res" where
  "print_string v flags width precision =
     bnd (va_arg v) (\<lambda>(s, v).
     bnd (run (map_option Inr (strlen (vmem v) (unat s)))) (\<lambda>n.
     let len = (if precision < 0 then int n else min (int n) precision);
         right = (flags AND LEFT = 0);
         q = (if right then fill (width - len) 32 (out_of v) else out_of v);
         width = (if right then min width len - 1 else width);
         q = copy_str (nat len) (unat s) q
     in Inr (set_out v (fill (width - len) 32 q))))"

definition print_number :: "vspr \<Rightarrow> int \<Rightarrow> int \<Rightarrow> int \<Rightarrow> u32 \<Rightarrow> vspr res" where
  "print_number v base width precision flags =
     bnd (va_arg v) (\<lambda>(a, v).
     bnd (run (map_option Inr (number (vmem v) (vstr v) a base width precision flags))) (\<lambda>q. Inr (set_out v q)))"

definition word_bytes :: "u32 \<Rightarrow> u8 list" where
  "word_bytes w = [ucast w, ucast (drop_bit 8 w), ucast (drop_bit 16 w), ucast (drop_bit 24 w)]"

definition convert :: "addr \<Rightarrow> vspr \<Rightarrow> u32 \<Rightarrow> int \<Rightarrow> int \<Rightarrow> vspr res" where
  "convert buf v flags width precision =
     (let c = fmt_char v
      in if c = 99 then print_char v flags width
      else if c = 115 then print_string v flags width precision
      else if c = 111 then print_number v 8 width precision flags
      else if c = 112 then (if width = -1 then print_number v 16 8 precision (flags OR ZEROPAD)
                            else print_number v 16 width precision flags)
      else if c = 120 then print_number v 16 width precision (flags OR SMALL)
      else if c = 88 then print_number v 16 width precision flags
      else if c = 100 \<or> c = 105 then print_number v 10 width precision (flags OR SIGN)
      else if c = 117 then print_number v 10 width precision flags
      else if c = 110
      then bnd (va_arg v) (\<lambda>(ip, v).
           Inr (v\<lparr>vmem := fst (emit (word_bytes (of_nat (vstr v - buf))) (vmem v, unat ip))\<rparr>))
      else let v = (if c \<noteq> 37 then set_out v (emit [37] (out_of v)) else v);
               c = fmt_char v
           in Inr (if c \<noteq> 0 then set_out v (emit [c] (out_of v)) else v\<lparr>vfmt := vfmt v - 1\<rparr>))"

definition directive :: "addr \<Rightarrow> vspr \<Rightarrow> vspr res" where
  "directive buf v =
     bnd (run (map_option Inr (flag_loop (vmem v) (vfmt v) 0))) (\<lambda>(f, flags).
     bnd (get_width (v\<lparr>vfmt := f\<rparr>) flags) (\<lambda>(width, flags, v).
     bnd (get_precision v) (\<lambda>(precision, v).
     convert buf (skip_qualifier v) flags width precision)))"

partial_function (option) vsprintf_loop :: "addr \<Rightarrow> vspr \<Rightarrow> vspr res option" where
  "vsprintf_loop buf v =
     (if fmt_char v = 0 then Some (Inr v)
      else if fmt_char v \<noteq> 37
      then vsprintf_loop buf (skip_char (set_out v (emit [fmt_char v] (out_of v))))
      else case directive buf v of
             Inl e \<Rightarrow> Some (Inl e)
           | Inr v \<Rightarrow> vsprintf_loop buf (skip_char v))"

definition vsprintf :: "mem \<Rightarrow> addr \<Rightarrow> addr \<Rightarrow> u32 list \<Rightarrow> (mem \<times> nat) res" where
  "vsprintf m buf fmt args =
     bnd (run (vsprintf_loop buf \<lparr>vmem = m, vstr = buf, vfmt = fmt, vargs = args\<rparr>)) (\<lambda>v.
     Inr ((vmem v)(vstr v := 0), vstr v - buf))"

definition sprintf :: "mem \<Rightarrow> addr \<Rightarrow> addr \<Rightarrow> u32 list \<Rightarrow> (mem \<times> nat) res" where
  "sprintf m buf fmt args = vsprintf m buf fmt args"

end
