(* ===== verification/Print_Laws.thy ===== *)
theory Print_Laws
  imports Vsprintf
begin

text \<open>
  What formatted printing writes: characters outside directives as they are, numbers as their digits.
  Printing a number and reading it back with \<^verbatim>\<open>atoi\<close> gives the number.
\<close>

declare digit_loop.simps [simp del] skip_atoi_loop.simps [simp del] flag_loop.simps [simp del]
  vsprintf_loop.simps [simp del] atoi_loop.simps [simp del]

subsection \<open>Emitted bytes\<close>

lemma emit_eq: "emit xs (m, p) = (\<lambda>a. if p \<le> a \<and> a < p + length xs then xs ! (a - p) else m a, p + length xs)"
proof (induction xs arbitrary: m p)
  case (Cons c cs)
  then show ?case by (auto simp: fun_eq_iff nth_Cons' Suc_diff_le)
qed (auto simp: fun_eq_iff)

lemma fill_neg [simp]: "n \<le> 0 \<Longrightarrow> fill n c q = q"
  by (simp add: fill_def)

lemma emit_append: "emit (xs @ ys) q = emit ys (emit xs q)"
  by (induction xs q rule: emit.induct) auto

subsection \<open>Digits\<close>

fun digs :: "nat \<Rightarrow> nat \<Rightarrow> nat list" where
  "digs b n = (if n = 0 \<or> b < 2 then [] else (n mod b) # digs b (n div b))"

declare digs.simps [simp del]

lemma digs_bound: "d \<in> set (digs b n) \<Longrightarrow> d < b"
  by (induction b n rule: digs.induct) (subst (asm) (2) digs.simps, auto split: if_splits)

fun value_of :: "nat \<Rightarrow> nat list \<Rightarrow> nat" where
  "value_of b [] = 0"
| "value_of b (d # ds) = d + b * value_of b ds"

lemma value_digs: "2 \<le> b \<Longrightarrow> value_of b (digs b n) = n"
proof (induction b n rule: digs.induct)
  case (1 b n)
  then show ?case by (cases "n = 0") (simp_all add: digs.simps[of b n] digs.simps[of b 0])
qed

lemma digit_loop_digs:
  assumes "2 \<le> unat base"
  shows "digit_loop ds base num tmp = Some (tmp @ map ((!) ds) (digs (unat base) (unat num)))"
proof (induction "unat num" arbitrary: num tmp rule: less_induct)
  case less
  show ?case
  proof (cases "num = 0")
    case True
    then show ?thesis by (simp add: digit_loop.simps digs.simps)
  next
    case False
    then have "unat (num div base) < unat num" using assms by (simp add: unat_div unat_gt_0)
    then show ?thesis
      using less[of "num div base"] False assms
      by (subst digit_loop.simps, subst digs.simps) (simp add: unat_div unat_mod unat_eq_0)
  qed
qed

definition digit_chars :: "u32 \<Rightarrow> nat \<Rightarrow> nat \<Rightarrow> u8 list" where
  "digit_chars flags b n = (if n = 0 then [48] else rev (map ((!) (digit_set flags)) (digs b n)))"

lemma unat_of_int_small: "0 \<le> b \<Longrightarrow> b \<le> 36 \<Longrightarrow> unat (of_int b :: u32) = nat b"
  by (simp add: unat_eq_nat_uint take_bit_int_eq_self uint_word_of_int)

text \<open>The flags as bits.\<close>

lemma flag_bits:
  "(f :: u32) AND ZEROPAD = 0 \<longleftrightarrow> \<not> bit f 0" "f AND SIGN = 0 \<longleftrightarrow> \<not> bit f 1" "f AND PLUS = 0 \<longleftrightarrow> \<not> bit f 2"
  "f AND SPACE = 0 \<longleftrightarrow> \<not> bit f 3" "f AND LEFT = 0 \<longleftrightarrow> \<not> bit f 4" "f AND SPECIAL = 0 \<longleftrightarrow> \<not> bit f 5"
  "f AND SMALL = 0 \<longleftrightarrow> \<not> bit f 6"
  using and_exp_eq_0_iff_not_bit[of f 0] and_exp_eq_0_iff_not_bit[of f 1] and_exp_eq_0_iff_not_bit[of f 2]
    and_exp_eq_0_iff_not_bit[of f 3] and_exp_eq_0_iff_not_bit[of f 4] and_exp_eq_0_iff_not_bit[of f 5]
    and_exp_eq_0_iff_not_bit[of f 6]
  by (simp_all add: ZEROPAD_def SIGN_def PLUS_def SPACE_def LEFT_def SPECIAL_def SMALL_def)

lemma flag_pair: "(f :: u32) AND (ZEROPAD + LEFT) = 0 \<longleftrightarrow> \<not> bit f 0 \<and> \<not> bit f 4"
proof -
  have "ZEROPAD + LEFT = ZEROPAD OR LEFT" by (simp add: ZEROPAD_def LEFT_def)
  then have "f AND (ZEROPAD + LEFT) = 0 \<longleftrightarrow> f AND ZEROPAD = 0 \<and> f AND LEFT = 0"
    by (simp add: bit.conj_disj_distrib or_eq_0_iff)
  then show ?thesis by (simp add: flag_bits)
qed

lemma flag_cleared: "bit ((f :: u32) AND NOT ZEROPAD) k \<longleftrightarrow> k \<noteq> 0 \<and> bit f k"
  by (auto simp: bit_simps ZEROPAD_def dest: bit_imp_le_length)

text \<open>A number is the sign, the prefix and the digits, with the padding before, between or after.\<close>

definition sign_text :: "u32 \<Rightarrow> u8 list" where
  "sign_text flags = (if flags AND PLUS \<noteq> 0 then [43] else if flags AND SPACE \<noteq> 0 then [32] else [])"

definition prefix_text :: "u32 \<Rightarrow> int \<Rightarrow> u8 list" where
  "prefix_text flags b =
     (if flags AND SPECIAL = 0 then [] else if b = 16 then [48, digit_set flags ! 33] else if b = 8 then [48] else [])"

definition number_text :: "u32 \<Rightarrow> int \<Rightarrow> int \<Rightarrow> int \<Rightarrow> u32 \<Rightarrow> u8 list" where
  "number_text num b width precision flags =
     (let ds = digit_chars flags (nat b) (unat num);
          body = replicate (nat precision - length ds) 48 @ ds;
          lead = sign_text flags @ prefix_text flags b;
          gap = nat (width - int (length (lead @ body)))
      in if flags AND LEFT \<noteq> 0 then lead @ body @ replicate gap 32
         else if flags AND ZEROPAD \<noteq> 0 then lead @ replicate gap 48 @ body
         else replicate gap 32 @ lead @ body)"

lemma digits_of:
  assumes "2 \<le> b" "b \<le> 36"
  shows "(if num = 0 then Some [48] else digit_loop (digit_set flags) (of_int b) num [])
    = Some (rev (digit_chars flags (nat b) (unat num)))"
proof -
  have "2 \<le> unat (of_int b :: u32)" using assms by (simp add: unat_of_int_small)
  then show ?thesis
    using digit_loop_digs[of "of_int b" "digit_set flags" num "[]"] assms
    by (simp add: digit_chars_def unat_of_int_small unat_eq_0)
qed

lemma fill_emit: "fill n c (emit xs q) = emit (xs @ replicate (nat n) c) q"
  by (simp add: fill_def emit_append)

lemma emit_emit: "emit ys (emit xs q) = emit (xs @ ys) q"
  by (simp add: emit_append)

lemma fill_start: "fill n c q = emit (replicate (nat n) c) q"
  by (simp add: fill_def)

definition sign_code :: "u32 \<Rightarrow> u8" where
  "sign_code flags = (if flags AND PLUS \<noteq> 0 then 43 else if flags AND SPACE \<noteq> 0 then 32 else 0)"

lemma sign_step:
  "(if sign_code flags \<noteq> 0 then emit [sign_code flags] q else q) = emit (sign_text flags) q"
  "(if sign_code flags \<noteq> 0 then w - 1 else w) = w - int (length (sign_text flags))"
  by (simp_all add: sign_code_def sign_text_def)

lemma prefix_step:
  "(if flags AND SPECIAL \<noteq> 0 then (if b = 8 then emit [48] q else if b = 16 then emit [48, digit_set flags ! 33] q else q)
    else q) = emit (prefix_text flags b) q"
  "(if flags AND SPECIAL \<noteq> 0 then (if b = 16 then w - 2 else if b = 8 then w - 1 else w) else w)
    = w - int (length (prefix_text flags b))"
  by (simp_all add: prefix_text_def)

lemma cleared_same:
  "((f :: u32) AND NOT ZEROPAD) AND PLUS = f AND PLUS" "(f AND NOT ZEROPAD) AND SPACE = f AND SPACE"
  "(f AND NOT ZEROPAD) AND SPECIAL = f AND SPECIAL" "(f AND NOT ZEROPAD) AND LEFT = f AND LEFT"
  "(f AND NOT ZEROPAD) AND ZEROPAD = 0"
  "(f AND NOT ZEROPAD) AND (ZEROPAD + LEFT) = f AND LEFT"
  by (simp_all add: and.assoc ZEROPAD_def PLUS_def SPACE_def SPECIAL_def LEFT_def)

text \<open>\<^verbatim>\<open>number\<close> with the sign test of its unsigned argument decided and the steps named.\<close>

lemma number_steps:
  assumes "2 \<le> b" "b \<le> 36"
  shows "number m str num b width precision flags =
    (let ds = digit_chars flags (nat b) (unat num); i = int (length ds); p = max i precision;
         f = (if flags AND LEFT \<noteq> 0 then flags AND NOT ZEROPAD else flags);
         w = width - int (length (sign_text flags)) - int (length (prefix_text flags b)) - p;
         blank = (f AND (ZEROPAD + LEFT) = 0);
         q = (if blank then fill w 32 (m, str) else (m, str)); w = (if blank then after_fill w else w);
         q = emit (sign_text flags @ prefix_text flags b) q;
         right = (f AND LEFT = 0);
         q = (if right then fill w (if f AND ZEROPAD \<noteq> 0 then 48 else 32) q else q);
         w = (if right then after_fill w else w)
     in Some (fill w 32 (emit ds (fill (p - i) 48 q))))"
proof -
  have f: "f AND PLUS = flags AND PLUS" "f AND SPACE = flags AND SPACE" "f AND SPECIAL = flags AND SPECIAL"
    if "f = (if flags AND LEFT \<noteq> 0 then flags AND NOT ZEROPAD else flags)" for f
    using that by (simp_all add: cleared_same)
  have t: "sign_text (if flags AND LEFT \<noteq> 0 then flags AND NOT ZEROPAD else flags) = sign_text flags"
    by (simp add: sign_text_def cleared_same)
  have b: "\<not> (b < 2 \<or> b > 36)" using assms by simp
  show ?thesis
    unfolding number_def Let_def f[OF refl] word_not_simps(1) sign_code_def[symmetric]
    by (simp only: b if_False simp_thms prod.case sign_step prefix_step digits_of[OF assms] bind.bind_lunit
        sign_code_def[symmetric] word_not_simps length_rev rev_rev_ident emit_emit t)
qed

lemma number_layout_aux:
  assumes "2 \<le> b" "b \<le> 36"
  shows "number m str num b width precision flags = Some (emit (number_text num b width precision flags) (m, str))"
proof -
  let ?ds = "digit_chars flags (nat b) (unat num)"
  have r: "nat (max (int (length ?ds)) precision - int (length ?ds)) = nat precision - length ?ds"
    and l: "int (nat precision - length ?ds + length ?ds) = max (int (length ?ds)) precision"
    by linarith+
  have g: "width - int (length ((sign_text flags @ prefix_text flags b) @ replicate (nat precision - length ?ds) 48 @ ?ds))
    = width - int (length (sign_text flags)) - int (length (prefix_text flags b)) - max (int (length ?ds)) precision"
    unfolding l[symmetric] by simp
  show ?thesis
    unfolding number_steps[OF assms] number_text_def Let_def g
    by (cases "flags AND LEFT = 0"; cases "flags AND ZEROPAD = 0")
      (simp_all add: flag_cleared flag_pair flag_bits after_fill_def fill_start emit_emit r)
qed

subsection \<open>Reading back\<close>

lemma atoi_loop_cstr: "cstr m p s \<Longrightarrow> atoi_loop m p r = Some (fold (\<lambda>c r. r * 10 + (scast c - 48)) s r)"
  by (induction s arbitrary: p r) (simp_all add: atoi_loop.simps)

lemma decimal_char: "d < 10 \<Longrightarrow> digit_set flags ! d = (48 + of_nat d :: u8)"
  by (auto simp: digit_set_def less_Suc_eq numeral_nat)

lemma fold_digits:
  "\<forall>d\<in>set ds. d < 10 \<Longrightarrow> fold (\<lambda>c r. r * 10 + (scast (c :: u8) - 48)) (rev (map ((!) (digit_set flags)) ds)) 0
     = (of_nat (value_of 10 ds) :: u32)"
proof (induction ds)
  case (Cons d ds)
  have d: "d < 10" using Cons.prems by simp
  then have "d \<in> {0,1,2,3,4,5,6,7,8,9}" by auto
  then have "(scast (48 + of_nat d :: u8) :: u32) - 48 = of_nat d" by auto
  then show ?case using Cons d by (simp add: decimal_char)
qed simp

lemma digit_chars_value: "fold (\<lambda>c r. r * 10 + (scast c - 48)) (digit_chars flags 10 (unat n)) 0 = (n :: u32)"
proof (cases "unat n = 0")
  case False
  have "\<forall>d\<in>set (digs 10 (unat n)). d < 10" using digs_bound by blast
  then show ?thesis using fold_digits False value_digs[of 10 "unat n"] by (simp add: digit_chars_def)
qed (simp add: digit_chars_def unat_eq_0)

lemma digit_chars_range:
  assumes "c \<in> set (digit_chars flags 10 n)"
  shows "is_digit c"
proof (cases "n = 0")
  case False
  then obtain d where d: "d \<in> set (digs 10 n)" "c = digit_set flags ! d" using assms by (auto simp: digit_chars_def)
  then have "d < 10" using digs_bound by blast
  then have "d \<in> {0,1,2,3,4,5,6,7,8,9}" by auto
  then show ?thesis using d(2) decimal_char[OF \<open>d < 10\<close>] by (auto simp: is_digit_def)
qed (use assms in \<open>auto simp: digit_chars_def is_digit_def\<close>)

lemma digs_length: "n < 10 ^ k \<Longrightarrow> length (digs 10 n) \<le> k"
proof (induction k arbitrary: n)
  case (Suc k)
  then have "n div 10 < 10 ^ k" by (simp add: less_mult_imp_div_less mult.commute)
  then show ?case using Suc.IH by (subst digs.simps) auto
qed (simp add: digs.simps)

lemma digit_chars_length: "length (digit_chars flags 10 (unat (n :: u32))) \<le> 10"
proof -
  have "unat n < 10 ^ 10" using unat_lt32[of n] by simp
  then show ?thesis using digs_length[of "unat n" 10] by (simp add: digit_chars_def)
qed

lemma emit_cstr: "0 \<notin> set xs \<Longrightarrow> cstr ((fst (emit xs (m, p)))(p + length xs := 0)) p xs"
  by (auto simp: emit_eq cstr_iff)

lemma plain_number_text:
  "precision \<le> 1 \<Longrightarrow> width \<le> 1 \<Longrightarrow> flags \<in> {0, SIGN} \<Longrightarrow> number_text n 10 width precision flags = digit_chars flags 10 (unat n)"
proof -
  assume a: "precision \<le> 1" "width \<le> 1" "flags \<in> {0, SIGN}"
  have "flags AND PLUS = 0" "flags AND SPACE = 0" "flags AND SPECIAL = 0" "flags AND LEFT = 0" "flags AND ZEROPAD = 0"
    using a(3) by (auto simp: SIGN_def PLUS_def SPACE_def SPECIAL_def LEFT_def ZEROPAD_def)
  moreover have "digit_chars flags 10 (unat n) \<noteq> []"
    by (auto simp: digit_chars_def digs.simps[of 10 "unat n"])
  then have "1 \<le> length (digit_chars flags 10 (unat n))" by (simp add: Suc_le_eq)
  ultimately show ?thesis using a(1,2) by (simp add: number_text_def Let_def sign_text_def prefix_text_def)
qed

text \<open>One directive \<^verbatim>\<open>%d\<close>, \<^verbatim>\<open>%i\<close> or \<^verbatim>\<open>%u\<close>.\<close>

lemma directive_decimal:
  assumes "cstr m f [37, c]" "c \<in> {100, 105, 117}"
  shows "directive b \<lparr>vmem = m, vstr = p, vfmt = f, vargs = [n]\<rparr>
    = Inr \<lparr>vmem = fst (emit (digit_chars 0 10 (unat n)) (m, p)), vstr = snd (emit (digit_chars 0 10 (unat n)) (m, p)),
           vfmt = f + 1, vargs = []\<rparr>"
proof -
  have c: "m f = 37" "m (f + 1) = c" "m (Suc f) = c" using assms(1) by auto
  have "digit_chars SIGN 10 k = digit_chars 0 10 k" for k
    by (simp add: digit_chars_def digit_set_def SIGN_def SMALL_def)
  then have k: "number m p n 10 (-1) (-1) fl = Some (emit (digit_chars 0 10 (unat n)) (m, p))"
    if "fl \<in> {0, SIGN}" for fl
    using number_layout_aux[of 10 m p n "-1" "-1" fl] plain_number_text[of "-1" "-1" fl n] that by auto
  have fl: "flag_loop m f 0 = Some (f + 1, 0)" using c assms(2) by (subst flag_loop.simps) (auto simp: Let_def)
  consider "c = 100" | "c = 105" | "c = 117" using assms(2) by auto
  then show ?thesis
    by cases (simp_all add: directive_def run_def fl get_width_def get_precision_def skip_qualifier_def fmt_char_def
        is_digit_def convert_def Let_def print_number_def va_arg_def set_out_def k c)
qed

lemma emit_fst: "same_but p (length xs) m (fst (emit xs (m, p)))" "snd (emit xs (m, p)) = p + length xs"
  by (auto simp: emit_eq same_but_def)

text \<open>C33: a number printed in decimal and read back with \<^verbatim>\<open>atoi\<close> is the number, and the printing
  writes at most eleven bytes.\<close>

theorem sprintf_atoi_roundtrip:
  assumes f: "cstr m f [37, c]" "c \<in> {100, 105, 117}" and a: "apart b 11 f 3" "b \<noteq> 0"
  shows "\<exists>m' k. sprintf m b f [n] = Inr (m', k) \<and> k \<le> 10 \<and> atoi m' b = Some n \<and> same_but b 11 m m'"
proof -
  let ?xs = "digit_chars 0 10 (unat n)"
  let ?m = "fst (emit ?xs (m, b))"
  let ?r = "?m(b + length ?xs := 0)"
  have l: "length ?xs \<le> 10" by (rule digit_chars_length)
  have sb: "same_but b 11 m ?m" using emit_fst(1)[of b ?xs m] l by (auto simp: same_but_def)
  have "?m (f + 2) = m (f + 2)" using sb a(1) by (auto simp: same_but_def apart_def)
  moreover have "m f = 37" "m (f + 2) = 0" using f(1) by auto
  ultimately have "vsprintf_loop b \<lparr>vmem = m, vstr = b, vfmt = f, vargs = [n]\<rparr>
      = Some (Inr \<lparr>vmem = ?m, vstr = b + length ?xs, vfmt = f + 2, vargs = []\<rparr>)"
    using directive_decimal[OF f, of b b n] emit_fst(2)[of ?xs m b]
    by (subst vsprintf_loop.simps) (simp add: fmt_char_def skip_char_def vsprintf_loop.simps[of b "vspr.make _ _ _ _"]
        vsprintf_loop.simps[of b "\<lparr>vmem = ?m, vstr = _, vfmt = _, vargs = _\<rparr>"])
  then have r: "sprintf m b f [n] = Inr (?r, length ?xs)"
    by (simp add: sprintf_def vsprintf_def run_def)
  have d: "\<forall>x\<in>set ?xs. is_digit x" using digit_chars_range by blast
  then have "0 \<notin> set ?xs" by (auto simp: is_digit_def)
  then have cs: "cstr ?r b ?xs" by (rule emit_cstr)
  have ne: "?xs \<noteq> []" by (auto simp: digit_chars_def digs.simps[of 10 "unat n"])
  then have "?r b = hd ?xs" using cs by (cases ?xs) auto
  then have "?r b \<noteq> 45" using d ne by (cases ?xs) (auto simp: is_digit_def)
  then have "atoi ?r b = Some n"
    using atoi_loop_cstr[OF cs, of 0] digit_chars_value[of 0 n] a(2) by (simp add: atoi_def to_bool_def)
  moreover have "same_but b 11 m ?r" using sb l by (auto simp: same_but_def)
  ultimately show ?thesis using r l by blast
qed

definition fmt_mem :: "u8 list \<Rightarrow> mem" where
  "fmt_mem fmt = (\<lambda>a. if 10 \<le> a \<and> a < 10 + length fmt then fmt ! (a - 10) else 0)"

theorem sprintf_atoi_roundtrip_witness:
  "\<exists>m' k. sprintf (fmt_mem [37, 100]) 100 10 [4000000000] = Inr (m', k) \<and> k \<le> 10 \<and> atoi m' 100 = Some 4000000000
     \<and> same_but 100 11 (fmt_mem [37, 100]) m'"
  by (rule sprintf_atoi_roundtrip[of "fmt_mem [37, 100]" 10 100 100 4000000000]) (simp_all add: fmt_mem_def apart_def)

text \<open>C34: a number takes its sign, its prefix and its digits, filled up to the width with blanks on the
  left, with zeros between the prefix and the digits, or with blanks on the right.\<close>

theorem number_layout:
  assumes "2 \<le> b" "b \<le> 36"
  shows "number m str num b width precision flags
    = Some ((\<lambda>a. let t = number_text num b width precision flags
               in if str \<le> a \<and> a < str + length t then t ! (a - str) else m a),
            str + length (number_text num b width precision flags))"
  using number_layout_aux[OF assms] by (simp add: emit_eq Let_def)

theorem number_layout_witness:
  "map_option snd (number (\<lambda>_. 0) 100 255 16 8 (-1) (ZEROPAD OR SPECIAL)) = Some 108
   \<and> number_text 255 16 8 (-1) (ZEROPAD OR SPECIAL) = map of_char ''0X0000FF''"
proof -
  have d: "digs 16 255 = [15, 15]" by (simp add: digs.simps)
  have s: "digit_set (ZEROPAD OR SPECIAL) ! 15 = 70" "digit_set (ZEROPAD OR SPECIAL) ! 33 = 88"
    by (simp_all add: digit_set_def ZEROPAD_def SPECIAL_def SMALL_def)
  have c: "digit_chars (ZEROPAD OR SPECIAL) 16 255 = [70, 70]" by (simp add: digit_chars_def d s)
  have z: "sign_text (ZEROPAD OR SPECIAL) = []" "prefix_text (ZEROPAD OR SPECIAL) 16 = [48, 88]"
    "(ZEROPAD OR SPECIAL) AND LEFT = 0" "(ZEROPAD OR SPECIAL) AND ZEROPAD \<noteq> 0"
    by (simp_all add: sign_text_def prefix_text_def s) (simp_all add: ZEROPAD_def SPECIAL_def PLUS_def SPACE_def LEFT_def)
  have "replicate 4 (48 :: u8) = [48, 48, 48, 48]" by (simp add: eval_nat_numeral)
  then have t: "number_text 255 16 8 (-1) (ZEROPAD OR SPECIAL) = map of_char ''0X0000FF''"
    using z(4) by (simp add: number_text_def Let_def c z(1-3))
  show ?thesis using number_layout[of 16 "\<lambda>_. 0" 100 255 8 "-1" "ZEROPAD OR SPECIAL"] unfolding t by simp
qed

end
