(* ===== verification/Drivers.thy ===== *)
theory Drivers
  imports Device Mutex Ops Interrupts Fifo Vsprintf
begin

text \<open>
  What the hardware drivers share: the tasks, the byte memory, the interrupt controller and handler
  table, and the ports.  What a port returns is decided by its device: \<open>env n p\<close> is the
  value of the \<open>n\<close>-th read when it reads port \<open>p\<close>; \<open>sent\<close> is
  every value written to a port, oldest first.  A driver extends this state with its own variables.

  A driver's function in the device table is a function pointer; the ones that may block are not
  functions of the table's type here, so the pointers a driver installs are arguments of its
  \<^verbatim>\<open>init\<close>.
\<close>

record drv =
  dsch :: sched
  dram :: mem
  pic :: ports
  didt :: idt_state
  env :: "nat \<Rightarrow> u16 \<Rightarrow> u16"
  env_n :: nat
  sent :: "(u16 \<times> u16) list"

definition in16 :: "u16 \<Rightarrow> 'a drv_scheme \<Rightarrow> (u16 \<times> 'a drv_scheme) res" where
  "in16 p s = Inr (env s (env_n s) p, s\<lparr>env_n := env_n s + 1\<rparr>)"

definition in8 :: "u16 \<Rightarrow> 'a drv_scheme \<Rightarrow> (u8 \<times> 'a drv_scheme) res" where
  "in8 p s = Inr (ucast (env s (env_n s) p), s\<lparr>env_n := env_n s + 1\<rparr>)"

definition out16 :: "u16 \<Rightarrow> u16 \<Rightarrow> 'a drv_scheme \<Rightarrow> (unit \<times> 'a drv_scheme) res" where
  "out16 p v s = Inr ((), s\<lparr>sent := sent s @ [(p, v)]\<rparr>)"

definition out8 :: "u16 \<Rightarrow> u8 \<Rightarrow> 'a drv_scheme \<Rightarrow> (unit \<times> 'a drv_scheme) res" where
  "out8 p v = out16 p (ucast v)"

definition eoi :: "int \<Rightarrow> 'a drv_scheme \<Rightarrow> (unit \<times> 'a drv_scheme) res" where
  "eoi vector = change (\<lambda>s. s\<lparr>pic := send_eoi vector (pic s)\<rparr>)"

text \<open>\<^verbatim>\<open>set_interrupt_handler\<close> and \<^verbatim>\<open>set_interrupt_mask\<close> on this state.\<close>

definition hook :: "nat \<Rightarrow> handler \<Rightarrow> 'a drv_scheme \<Rightarrow> (unit \<times> 'a drv_scheme) res" where
  "hook irq h s = bnd (set_interrupt_handler irq h (didt s)) (\<lambda>i. Inr ((), s\<lparr>didt := i\<rparr>))"

definition unmask :: "nat \<Rightarrow> 'a drv_scheme \<Rightarrow> (unit \<times> 'a drv_scheme) res" where
  "unmask irq s = bnd (set_interrupt_mask irq True (pic s)) (\<lambda>p. Inr ((), s\<lparr>pic := p\<rparr>))"

definition on_sched :: "(sched \<Rightarrow> sched res) \<Rightarrow> 'a drv_scheme \<Rightarrow> (unit \<times> 'a drv_scheme) res" where
  "on_sched f s = bnd (f (dsch s)) (\<lambda>k. Inr ((), s\<lparr>dsch := k\<rparr>))"

definition running_task :: "'a drv_scheme \<Rightarrow> addr" where
  "running_task s = current (dsch s)"

text \<open>Blocking the running task and waking one that waits.\<close>

definition block_running :: "'a drv_scheme \<Rightarrow> (unit \<times> 'a drv_scheme) res" where
  "block_running = act (look running_task) (\<lambda>t. on_sched (\<lambda>k. task_block k t 0 TASK_BLOCKED))"

definition wake :: "addr \<Rightarrow> 'a drv_scheme \<Rightarrow> (unit \<times> 'a drv_scheme) res" where
  "wake t = on_sched (\<lambda>k. task_unblock k t)"

text \<open>Storing bytes in memory, and reading a word of the low-endian memory.\<close>

definition poke :: "addr \<Rightarrow> u8 list \<Rightarrow> 'a drv_scheme \<Rightarrow> (unit \<times> 'a drv_scheme) res" where
  "poke a bs = change (\<lambda>s. s\<lparr>dram := fst (emit bs (dram s, a))\<rparr>)"

text \<open>Taking and giving back a lock that a driver keeps in its own state.\<close>

datatype entry = Entered | Lock_wait

definition take_lock ::
  "('a drv_scheme \<Rightarrow> lock) \<Rightarrow> (lock \<Rightarrow> 'a drv_scheme \<Rightarrow> 'a drv_scheme) \<Rightarrow> 'a drv_scheme \<Rightarrow> (entry \<times> 'a drv_scheme) res" where
  "take_lock get put s =
     bnd (lock_acquire (get s) (dsch s)) (\<lambda>r.
     case r of Acquired l k \<Rightarrow> Inr (Entered, put l (s\<lparr>dsch := k\<rparr>))
             | Lock_waits k \<Rightarrow> Inr (Lock_wait, s\<lparr>dsch := k\<rparr>))"

definition drop_lock ::
  "('a drv_scheme \<Rightarrow> lock) \<Rightarrow> (lock \<Rightarrow> 'a drv_scheme \<Rightarrow> 'a drv_scheme) \<Rightarrow> 'a drv_scheme \<Rightarrow> (unit \<times> 'a drv_scheme) res" where
  "drop_lock get put s =
     bnd (lock_release (get s) (dsch s)) (\<lambda>r.
     case r of Released l k \<Rightarrow> Inr ((), put l (s\<lparr>dsch := k\<rparr>))
             | Release_yielded l k old \<Rightarrow> Inr ((), put l (s\<lparr>dsch := k\<rparr>)))"

definition IRQ_KEYBOARD :: nat where "IRQ_KEYBOARD = 1"
definition IRQ_CASCADE :: nat where "IRQ_CASCADE = 2"
definition IRQ_SERIAL_2 :: nat where "IRQ_SERIAL_2 = 3"
definition IRQ_SERIAL_1 :: nat where "IRQ_SERIAL_1 = 4"
definition IRQ_HARDDISK :: nat where "IRQ_HARDDISK = 14"
definition IRQ_HARDDISK2 :: nat where "IRQ_HARDDISK2 = 15"

end
