(* ===== verification/Keyboard.thy ===== *)
theory Keyboard
  imports Drivers
begin

text \<open>
  The keyboard driver: \<^verbatim>\<open>kernel/keyboard.c\<close>.  A row of \<open>keymap\<close> is the
  character of a key, the one with shift, and whether the key is down, alone or with the
  extension prefix.  \<^verbatim>\<open>keyboard_read\<close> is cut where its task blocks; it goes on with
  \<open>keyboard_fill\<close>, which tests the queue again.
\<close>

definition KEYBOARD_CMD_LED :: u8 where "KEYBOARD_CMD_LED = 0xed"
definition KEYBOARD_CMD_ACK :: u8 where "KEYBOARD_CMD_ACK = 0xfa"
definition KEYBOARD_DATA_PORT :: u16 where "KEYBOARD_DATA_PORT = 0x60"
definition KEYBOARD_CTRL_PORT :: u16 where "KEYBOARD_CTRL_PORT = 0x64"
definition INV :: u8 where "INV = 0"
definition CODE_PRINT_SCREEN_DOWN :: u16 where "CODE_PRINT_SCREEN_DOWN = 0xb7"

definition KEY_CTRL_L :: nat where "KEY_CTRL_L = 0x1d"
definition KEY_SHIFT_L :: nat where "KEY_SHIFT_L = 0x2a"
definition KEY_SLASH :: nat where "KEY_SLASH = 0x35"
definition KEY_SHIFT_R :: nat where "KEY_SHIFT_R = 0x36"
definition KEY_ALT_L :: nat where "KEY_ALT_L = 0x38"
definition KEY_CAPSLOCK :: nat where "KEY_CAPSLOCK = 0x3a"
definition KEY_NUMLOCK :: nat where "KEY_NUMLOCK = 0x45"
definition KEY_SCRLOCK :: nat where "KEY_SCRLOCK = 0x46"
definition KEY_PRINT_SCREEN :: nat where "KEY_PRINT_SCREEN = 0x5f"

text \<open>The characters of the keys 0 to 0x5f, without and with shift.\<close>

definition key_chars :: "(u8 \<times> u8) list" where
  "key_chars = [
     (0, 0), (0x1b, 0x1b), (0x31, 0x21), (0x32, 0x40), (0x33, 0x23), (0x34, 0x24), (0x35, 0x25), (0x36, 0x5e),
     (0x37, 0x26), (0x38, 0x2a), (0x39, 0x28), (0x30, 0x29), (0x2d, 0x5f), (0x3d, 0x2b), (8, 8), (9, 9),
     (0x71, 0x51), (0x77, 0x57), (0x65, 0x45), (0x72, 0x52), (0x74, 0x54), (0x79, 0x59), (0x75, 0x55), (0x69, 0x49),
     (0x6f, 0x4f), (0x70, 0x50), (0x5b, 0x7b), (0x5d, 0x7d), (10, 10), (0, 0), (0x61, 0x41), (0x73, 0x53),
     (0x64, 0x44), (0x66, 0x46), (0x67, 0x47), (0x68, 0x48), (0x6a, 0x4a), (0x6b, 0x4b), (0x6c, 0x4c), (0x3b, 0x3a),
     (0x27, 0x22), (0x60, 0x7e), (0, 0), (0x5c, 0x7c), (0x7a, 0x5a), (0x78, 0x58), (0x63, 0x43), (0x76, 0x56),
     (0x62, 0x42), (0x6e, 0x4e), (0x6d, 0x4d), (0x2c, 0x3c), (0x2e, 0x3e), (0x2f, 0x3f), (0, 0), (0x2a, 0x2a),
     (0, 0), (0x20, 0x20), (0, 0), (0, 0), (0, 0), (0, 0), (0, 0), (0, 0),
     (0, 0), (0, 0), (0, 0), (0, 0), (0, 0), (0, 0), (0, 0), (0x37, 0),
     (0x38, 0), (0x39, 0), (0x2d, 0x2d), (0x34, 0), (0x35, 0), (0x36, 0), (0x2b, 0x2b), (0x31, 0),
     (0x32, 0), (0x33, 0), (0x30, 0), (0x2e, 0x7f), (0, 0), (0, 0), (0, 0), (0, 0),
     (0, 0), (0, 0), (0, 0), (0, 0), (0, 0), (0, 0), (0, 0), (0, 0)]"

definition keymap0 :: "u8 list list" where
  "keymap0 = map (\<lambda>(c, d). [c, d, 0, 0]) key_chars"

record kbd = drv +
  keymap :: "u8 list list"
  capslock_state :: bool
  scrlock_state :: bool
  numlock_state :: bool
  extcode_state :: bool
  klock :: lock
  kwaiter :: addr
  kfifo :: fifo

definition key_at :: "kbd \<Rightarrow> nat \<Rightarrow> nat \<Rightarrow> u8 res" where
  "key_at s code i = bnd (rd (keymap s) code) (\<lambda>row. rd row i)"

definition set_key :: "nat \<Rightarrow> nat \<Rightarrow> u8 \<Rightarrow> kbd \<Rightarrow> (unit \<times> kbd) res" where
  "set_key code i v s =
     bnd (rd (keymap s) code) (\<lambda>row. bnd (wr row i v) (\<lambda>row. bnd (wr (keymap s) code row) (\<lambda>k.
     Inr ((), s\<lparr>keymap := k\<rparr>))))"

definition shift_state :: "kbd \<Rightarrow> bool res" where
  "shift_state s =
     bnd (key_at s KEY_SHIFT_L 2) (\<lambda>l. if l \<noteq> 0 then Inr True
     else bnd (key_at s KEY_SHIFT_R 2) (\<lambda>r. Inr (r \<noteq> 0)))"

subsection \<open>The controller\<close>

partial_function (option) keyboard_wait_loop :: "kbd \<Rightarrow> (unit \<times> kbd) res option" where
  "keyboard_wait_loop s =
     (case in8 KEYBOARD_CTRL_PORT s of
        Inl e \<Rightarrow> Some (Inl e)
      | Inr (st, s) \<Rightarrow> if st AND 2 \<noteq> 0 then keyboard_wait_loop s else Some (Inr ((), s)))"

partial_function (option) keyboard_ack_loop :: "kbd \<Rightarrow> (unit \<times> kbd) res option" where
  "keyboard_ack_loop s =
     (case in8 KEYBOARD_DATA_PORT s of
        Inl e \<Rightarrow> Some (Inl e)
      | Inr (st, s) \<Rightarrow> if st \<noteq> KEYBOARD_CMD_ACK then keyboard_ack_loop s else Some (Inr ((), s)))"

definition keyboard_wait :: "kbd \<Rightarrow> (unit \<times> kbd) res" where
  "keyboard_wait s = run (keyboard_wait_loop s)"

definition keyboard_ack :: "kbd \<Rightarrow> (unit \<times> kbd) res" where
  "keyboard_ack s = run (keyboard_ack_loop s)"

definition leds :: "kbd \<Rightarrow> u8" where
  "leds s = push_bit 2 (of_bool (capslock_state s)) OR push_bit 1 (of_bool (numlock_state s))
     OR of_bool (scrlock_state s)"

definition set_leds :: "kbd \<Rightarrow> (unit \<times> kbd) res" where
  "set_leds =
     act (look leds) (\<lambda>l.
     act keyboard_wait (\<lambda>_. act (out8 KEYBOARD_DATA_PORT KEYBOARD_CMD_LED) (\<lambda>_. act keyboard_ack (\<lambda>_.
     act keyboard_wait (\<lambda>_. act (out8 KEYBOARD_DATA_PORT l) (\<lambda>_. keyboard_ack))))))"

subsection \<open>The interrupt\<close>

text \<open>A locking key flips its state and the lights follow.\<close>

definition lock_key :: "nat \<Rightarrow> kbd \<Rightarrow> (unit \<times> kbd) res" where
  "lock_key makecode =
     (if makecode = KEY_NUMLOCK
      then act (change (\<lambda>s. s\<lparr>numlock_state := \<not> numlock_state s\<rparr>)) (\<lambda>_. set_leds)
      else if makecode = KEY_CAPSLOCK
      then act (change (\<lambda>s. s\<lparr>capslock_state := \<not> capslock_state s\<rparr>)) (\<lambda>_. set_leds)
      else if makecode = KEY_SCRLOCK
      then act (change (\<lambda>s. s\<lparr>scrlock_state := \<not> scrlock_state s\<rparr>)) (\<lambda>_. set_leds)
      else ret ())"

text \<open>
  \<^verbatim>\<open>'a' <= c <= 'z'\<close> compares the truth value of the first comparison with
  \<^verbatim>\<open>'z'\<close>.
\<close>

definition chained :: "u8 \<Rightarrow> bool" where
  "chained c = (of_bool (97 \<le> sint c) \<le> (122 :: int))"

definition key_char :: "nat \<Rightarrow> nat \<Rightarrow> kbd \<Rightarrow> u8 res" where
  "key_char makecode ext s =
     bnd (key_at s makecode 0) (\<lambda>c.
     let shift = (capslock_state s \<and> chained c)
     in bnd (shift_state s) (\<lambda>sh.
        let shift = (if sh then \<not> shift else shift)
        in if ext = 3 \<and> makecode \<noteq> KEY_SLASH then key_at s makecode 1
           else key_at s makecode (if shift then 1 else 0)))"

definition deliver :: "u8 \<Rightarrow> kbd \<Rightarrow> (unit \<times> kbd) res" where
  "deliver ch =
     act (look kfifo) (\<lambda>q. act (lift (fifo_put q ch)) (\<lambda>q.
     act (change (\<lambda>s. s\<lparr>kfifo := q\<rparr>)) (\<lambda>_. act (look kwaiter) (\<lambda>t.
     if t \<noteq> 0 then act (wake t) (\<lambda>_. change (\<lambda>s. s\<lparr>kwaiter := 0\<rparr>)) else ret ()))))"

definition keyboard_handler :: "int \<Rightarrow> kbd \<Rightarrow> (unit \<times> kbd) res" where
  "keyboard_handler vector =
     act (lift (assrt (vector = 0x21))) (\<lambda>_.
     act (eoi vector) (\<lambda>_.
     act (in8 KEYBOARD_DATA_PORT) (\<lambda>b. let scancode = (ucast b :: u16) in
     if scancode = 0xe0 then change (\<lambda>s. s\<lparr>extcode_state := True\<rparr>)
     else act (look extcode_state) (\<lambda>ex.
     let ext = (if ex then 3 else 2); scancode = (if ex then scancode OR 0xe000 else scancode) in
     act (change (\<lambda>s. s\<lparr>extcode_state := False\<rparr>)) (\<lambda>_.
     let makecode = scancode AND 0x7f;
         makecode = unat (if makecode = CODE_PRINT_SCREEN_DOWN then of_nat KEY_PRINT_SCREEN else makecode)
     in if makecode > KEY_PRINT_SCREEN then ret ()
     else if scancode AND 0x80 \<noteq> 0 then set_key makecode ext 0
     else act (set_key makecode ext 1) (\<lambda>_.
          act (lock_key makecode) (\<lambda>_.
          act (look (key_char makecode ext)) (\<lambda>r. act (lift r) (\<lambda>ch.
          if ch = INV then ret () else deliver ch)))))))))"

subsection \<open>Reading\<close>

datatype chars_end = Chars_done u32 | Chars_wait nat | Chars_lock

definition keyboard_release :: "kbd \<Rightarrow> (unit \<times> kbd) res" where
  "keyboard_release = drop_lock klock (\<lambda>l s. s\<lparr>klock := l\<rparr>)"

fun keyboard_fill :: "addr \<Rightarrow> u32 \<Rightarrow> nat \<Rightarrow> nat \<Rightarrow> kbd \<Rightarrow> (chars_end \<times> kbd) res" where
  "keyboard_fill b count nr 0 = act keyboard_release (\<lambda>_. ret (Chars_done count))"
| "keyboard_fill b count nr (Suc n) =
     act (look kfifo) (\<lambda>q.
     if fifo_empty q
     then act (look running_task) (\<lambda>t. act (change (\<lambda>s. s\<lparr>kwaiter := t\<rparr>)) (\<lambda>_.
          act block_running (\<lambda>_. ret (Chars_wait nr))))
     else act (lift (fifo_get q)) (\<lambda>(q, ch). act (change (\<lambda>s. s\<lparr>kfifo := q\<rparr>)) (\<lambda>_.
          act (poke (b + nr) [ch]) (\<lambda>_. keyboard_fill b count (Suc nr) n))))"

definition keyboard_read :: "addr \<Rightarrow> u32 \<Rightarrow> kbd \<Rightarrow> (chars_end \<times> kbd) res" where
  "keyboard_read b count =
     act (take_lock klock (\<lambda>l s. s\<lparr>klock := l\<rparr>)) (\<lambda>r.
     case r of Lock_wait \<Rightarrow> ret Chars_lock | Entered \<Rightarrow> keyboard_fill b count 0 (unat count))"

text \<open>
  \<open>w\<close> is the node of the lock's list of waiters and \<open>h\<close> the handler's address;
  \<open>rdf\<close> is the read function's pointer in the device table.
\<close>

definition BUFFER_SIZE :: nat where "BUFFER_SIZE = 64"

definition keyboard_init ::
  "addr \<Rightarrow> handler \<Rightarrow> 'w io_fn \<Rightarrow> 'w device list \<Rightarrow> kbd \<Rightarrow> ('w device list \<times> kbd) res" where
  "keyboard_init w h rdf ds =
     act (change (\<lambda>s. s\<lparr>numlock_state := False, scrlock_state := False, capslock_state := False, extcode_state := False,
            kfifo := fifo_init (buf (kfifo s)) BUFFER_SIZE\<rparr>)) (\<lambda>_.
     act (change (\<lambda>s. let (l, k) = lock_init w (dsch s) in s\<lparr>klock := l, dsch := k, kwaiter := 0\<rparr>)) (\<lambda>_.
     act set_leds (\<lambda>_.
     act (hook IRQ_KEYBOARD h) (\<lambda>_. act (unmask IRQ_KEYBOARD) (\<lambda>_.
     act (lift (device_install DEV_CHAR DEV_KEYBOARD 0 (map of_char ''keyboard'') 0 None (Some rdf) None ds)) (\<lambda>(ds, _).
     ret ds))))))"

end
