(* ===== verification/Keyboard_Laws.thy ===== *)
theory Keyboard_Laws
  imports Keyboard
begin

text \<open>What pressing and releasing a key does to the table of keys and to the queue of characters.\<close>

definition down :: "kbd \<Rightarrow> nat \<Rightarrow> bool" where
  "down s c = (keymap s ! c ! 2 \<noteq> 0)"

text \<open>The table has its rows, and its characters are those of the source.\<close>

definition keymap_ok :: "u8 list list \<Rightarrow> bool" where
  "keymap_ok km = (length km = 96 \<and> (\<forall>c<96. length (km ! c) = 4 \<and> (km ! c ! 0, km ! c ! 1) = key_chars ! c))"

definition shifted :: "kbd \<Rightarrow> bool" where
  "shifted s = (capslock_state s \<noteq> (down s KEY_SHIFT_L \<or> down s KEY_SHIFT_R))"

definition char_of_key :: "kbd \<Rightarrow> nat \<Rightarrow> u8" where
  "char_of_key s c = (if shifted s then snd (key_chars ! c) else fst (key_chars ! c))"

lemma keymap0_ok: "keymap_ok keymap0" "\<not> (keymap0 ! c ! 2 \<noteq> 0 \<and> c < 96)"
proof -
  have l: "length key_chars = 96" by (simp add: key_chars_def)
  then show "keymap_ok keymap0" by (simp add: keymap_ok_def keymap0_def split: prod.split)
  show "\<not> (keymap0 ! c ! 2 \<noteq> 0 \<and> c < 96)" using l by (cases "key_chars ! c") (auto simp: keymap0_def)
qed

lemma chained_always: "chained c"
  by (simp add: chained_def)

lemma scan_bits:
  assumes "c < 96"
  shows "(ucast (of_nat c :: u8) :: u16) AND 0x7f = of_nat c" "(ucast (of_nat (c + 128) :: u8) :: u16) AND 0x7f = of_nat c"
    "(ucast (of_nat c :: u8) :: u16) AND 0x80 = 0" "(ucast (of_nat (c + 128) :: u8) :: u16) AND 0x80 \<noteq> 0"
    "(ucast (of_nat c :: u8) :: u16) \<noteq> 0xe0"
proof -
  have "\<forall>c\<in>set [0..<96]. (ucast (of_nat c :: u8) :: u16) AND 0x7f = of_nat c
      \<and> (ucast (of_nat (c + 128) :: u8) :: u16) AND 0x7f = of_nat c \<and> (ucast (of_nat c :: u8) :: u16) AND 0x80 = 0
      \<and> (ucast (of_nat (c + 128) :: u8) :: u16) AND 0x80 \<noteq> 0 \<and> (ucast (of_nat c :: u8) :: u16) \<noteq> 0xe0"
    by code_simp
  then show "(ucast (of_nat c :: u8) :: u16) AND 0x7f = of_nat c" "(ucast (of_nat (c + 128) :: u8) :: u16) AND 0x7f = of_nat c"
    "(ucast (of_nat c :: u8) :: u16) AND 0x80 = 0" "(ucast (of_nat (c + 128) :: u8) :: u16) AND 0x80 \<noteq> 0"
    "(ucast (of_nat c :: u8) :: u16) \<noteq> 0xe0"
    using assms by auto
qed

lemma set_key_ok:
  assumes "keymap_ok (keymap s)" "c < 96"
  shows "\<exists>km. set_key c 2 v s = Inr ((), s\<lparr>keymap := km\<rparr>) \<and> keymap_ok km
    \<and> (\<forall>k<96. km ! k ! 2 = (if k = c then v else keymap s ! k ! 2))"
proof -
  let ?km = "(keymap s)[c := (keymap s ! c)[2 := v]]"
  have "set_key c 2 v s = Inr ((), s\<lparr>keymap := ?km\<rparr>)" using assms by (simp add: set_key_def keymap_ok_def)
  moreover have "keymap_ok ?km" using assms by (auto simp: keymap_ok_def nth_list_update)
  moreover have "\<forall>k<96. ?km ! k ! 2 = (if k = c then v else keymap s ! k ! 2)"
    using assms by (auto simp: keymap_ok_def nth_list_update)
  ultimately show ?thesis by blast
qed

lemma key_char_table:
  assumes "keymap_ok (keymap s)" "c < 96"
  shows "key_char c 2 s = Inr (char_of_key s c)"
proof -
  have k: "key_at s j i = Inr (keymap s ! j ! i)" if "j < 96" "i < 4" for i j
    using assms(1) that by (simp add: key_at_def keymap_ok_def)
  have sh: "shift_state s = Inr (down s KEY_SHIFT_L \<or> down s KEY_SHIFT_R)"
    by (simp add: shift_state_def k down_def KEY_SHIFT_L_def KEY_SHIFT_R_def)
  have "(keymap s ! c ! 0, keymap s ! c ! 1) = key_chars ! c" using assms by (simp add: keymap_ok_def)
  then have "keymap s ! c ! 0 = fst (key_chars ! c)" "keymap s ! c ! Suc 0 = snd (key_chars ! c)"
    by (metis fst_conv, metis One_nat_def snd_conv)
  then show ?thesis
    using assms(2) by (auto simp: key_char_def k sh chained_always char_of_key_def shifted_def Let_def)
qed

text \<open>A key that is not one of the three locking keys.\<close>

definition plain_key :: "nat \<Rightarrow> bool" where
  "plain_key c = (c < 96 \<and> c \<noteq> KEY_CAPSLOCK \<and> c \<noteq> KEY_NUMLOCK \<and> c \<noteq> KEY_SCRLOCK)"

definition scan_code :: "nat \<Rightarrow> bool \<Rightarrow> u8" where
  "scan_code c press = (if press then of_nat c else of_nat (c + 128))"

lemma fifo_put_newest:
  assumes "fifo_wf q"
  shows "\<exists>q'. fifo_put q b = Inr q' \<and> fifo_wf q' \<and> flen q' = flen q
    \<and> fifo_list q' = newest (flen q - 1) (fifo_list q @ [b])"
  using bq.put_all_newest[OF assms, of "[b]"] fifo_put_list[OF assms, of b] by auto

text \<open>The state after the handler has read and acknowledged the byte.\<close>

definition noticed :: "kbd \<Rightarrow> kbd" where
  "noticed s = s\<lparr>pic := send_eoi 0x21 (pic s), env_n := env_n s + 1, extcode_state := False\<rparr>"

lemma handler_key:
  assumes "plain_key c" "\<not> extcode_state s" "ucast (env s (env_n s) KEYBOARD_DATA_PORT) = scan_code c press"
    "unat (of_nat c :: u16) = c"
  shows "keyboard_handler 0x21 s =
    (if press then act (set_key c 2 1) (\<lambda>_. act (look (key_char c 2)) (\<lambda>r. act (lift r) (\<lambda>ch.
       if ch = INV then ret () else deliver ch))) (noticed s)
     else set_key c 2 0 (noticed s))"
proof -
  have c: "c < 96" using assms(1) by (simp add: plain_key_def)
  let ?b = "ucast (scan_code c press) :: u16"
  have b: "?b AND 0x7f = of_nat c" "?b AND 0x80 \<noteq> 0 \<longleftrightarrow> \<not> press"
    using scan_bits[OF c] by (auto simp: scan_code_def)
  have e: "?b \<noteq> 0xe0"
  proof
    assume "?b = 0xe0"
    then have "of_nat c = (0x60 :: u16)" using b(1) by simp
    then have "unat (of_nat c :: u16) = unat (0x60 :: u16)" by (rule arg_cong)
    then show False using assms(4) c by simp
  qed
  have m: "(of_nat c :: u16) \<noteq> CODE_PRINT_SCREEN_DOWN" "\<not> KEY_PRINT_SCREEN < c"
    using c assms(4) by (auto simp: CODE_PRINT_SCREEN_DOWN_def KEY_PRINT_SCREEN_def)
  have k: "lock_key c = ret ()" using assms(1) by (auto simp: lock_key_def plain_key_def)
  have r: "in8 KEYBOARD_DATA_PORT (s\<lparr>pic := send_eoi 0x21 (pic s)\<rparr>)
      = Inr (scan_code c press, s\<lparr>pic := send_eoi 0x21 (pic s), env_n := env_n s + 1\<rparr>)"
    using assms(3) by (simp add: in8_def)
  show ?thesis
    using assms(2) e b m assms(4)
    by (cases press) (simp_all add: keyboard_handler_def eoi_def act_def[of "in8 _"] act_def[of "set_key _ _ _"] r Let_def k
        noticed_def cong: if_cong)
qed

lemma deliver_quiet:
  assumes "fifo_wf (kfifo s)" "kwaiter s = 0"
  shows "\<exists>q. deliver ch s = Inr ((), s\<lparr>kfifo := q\<rparr>) \<and> fifo_wf q \<and> flen q = flen (kfifo s)
    \<and> fifo_list q = newest (flen (kfifo s) - 1) (fifo_list (kfifo s) @ [ch])"
proof -
  obtain q where q: "fifo_put (kfifo s) ch = Inr q" "fifo_wf q" "flen q = flen (kfifo s)"
    "fifo_list q = newest (flen (kfifo s) - 1) (fifo_list (kfifo s) @ [ch])"
    using fifo_put_newest[OF assms(1)] by blast
  then show ?thesis using assms(2) by (auto simp: deliver_def ret_def)
qed



end
