(* ===== verification/Console.thy ===== *)
theory Console
  imports Drivers Timing
begin

text \<open>
  The text console: \<^verbatim>\<open>kernel/console.c\<close>.  \<open>screen\<close> is the address of the
  first character shown and \<open>pos\<close> the address of the cursor, both in the video memory, which
  is part of the byte memory; \<open>cx\<close> and \<open>cy\<close> are the cursor's column and line.
\<close>

definition CRT_ADDR_REG :: u16 where "CRT_ADDR_REG = 0x3d4"
definition CRT_DATA_REG :: u16 where "CRT_DATA_REG = 0x3d5"
definition CRT_START_ADDR_H :: u8 where "CRT_START_ADDR_H = 0xc"
definition CRT_START_ADDR_L :: u8 where "CRT_START_ADDR_L = 0xd"
definition CRT_CURSOR_H :: u8 where "CRT_CURSOR_H = 0xe"
definition CRT_CURSOR_L :: u8 where "CRT_CURSOR_L = 0xf"
definition MEM_BASE :: u32 where "MEM_BASE = 0xb8000"
definition MEM_SIZE :: u32 where "MEM_SIZE = 0x4000"
definition MEM_END :: u32 where "MEM_END = MEM_BASE + MEM_SIZE"
definition WIDTH :: u32 where "WIDTH = 80"
definition HEIGHT :: u32 where "HEIGHT = 25"
definition ROW_SIZE :: u32 where "ROW_SIZE = WIDTH * 2"
definition SCR_SIZE :: u32 where "SCR_SIZE = ROW_SIZE * HEIGHT"

record console = drv +
  screen :: u32
  pos :: u32
  cx :: u32
  cy :: u32
  cattr :: u8
  erase :: u16
  bell :: clock

type_synonym 'a consm = "console \<Rightarrow> ('a \<times> console) res"

definition crt_get :: "u8 \<Rightarrow> u8 consm" where
  "crt_get r = act (out8 CRT_ADDR_REG r) (\<lambda>_. in8 CRT_DATA_REG)"

definition crt_set :: "u8 \<Rightarrow> u32 \<Rightarrow> unit consm" where
  "crt_set r v = act (out8 CRT_ADDR_REG r) (\<lambda>_. out8 CRT_DATA_REG (ucast (v AND 0xff)))"

definition get_screen :: "unit consm" where
  "get_screen =
     act (crt_get CRT_START_ADDR_H) (\<lambda>h. act (crt_get CRT_START_ADDR_L) (\<lambda>l.
     change (\<lambda>s. s\<lparr>screen := push_bit 1 (push_bit 8 (ucast h) OR ucast l) + MEM_BASE\<rparr>)))"

definition set_screen :: "unit consm" where
  "set_screen =
     act (look screen) (\<lambda>x.
     act (crt_set CRT_START_ADDR_H (drop_bit 9 (x - MEM_BASE))) (\<lambda>_.
     crt_set CRT_START_ADDR_L (drop_bit 1 (x - MEM_BASE))))"

definition get_cursor :: "unit consm" where
  "get_cursor =
     act (crt_get CRT_CURSOR_H) (\<lambda>h. act (crt_get CRT_CURSOR_L) (\<lambda>l.
     act get_screen (\<lambda>_.
     change (\<lambda>s. let p = push_bit 1 (push_bit 8 (ucast h) OR ucast l) + MEM_BASE;
                     delta = drop_bit 1 (p - screen s)
                 in s\<lparr>pos := p, cx := delta mod WIDTH, cy := delta div WIDTH\<rparr>))))"

definition set_cursor :: "unit consm" where
  "set_cursor =
     act (look pos) (\<lambda>x.
     act (crt_set CRT_CURSOR_H (drop_bit 9 (x - MEM_BASE))) (\<lambda>_.
     crt_set CRT_CURSOR_L (drop_bit 1 (x - MEM_BASE))))"

definition half_bytes :: "u16 \<Rightarrow> u8 list" where
  "half_bytes w = [ucast w, ucast (drop_bit 8 w)]"

fun repeated :: "nat \<Rightarrow> u8 list \<Rightarrow> u8 list" where
  "repeated 0 bs = []"
| "repeated (Suc n) bs = bs @ repeated n bs"

definition console_clear :: "unit consm" where
  "console_clear =
     act (change (\<lambda>s. s\<lparr>screen := MEM_BASE, pos := MEM_BASE, cx := 0, cy := 0\<rparr>)) (\<lambda>_.
     act set_cursor (\<lambda>_. act set_screen (\<lambda>_. act (look erase) (\<lambda>e.
     poke (unat MEM_BASE) (repeated (unat MEM_SIZE div 2) (half_bytes e))))))"

definition erase_here :: "unit consm" where
  "erase_here = act (look (\<lambda>s. (pos s, erase s))) (\<lambda>(p, e). poke (unat p) (half_bytes e))"

definition command_bs :: "unit consm" where
  "command_bs =
     act (look cx) (\<lambda>x.
     if x \<noteq> 0 then act (change (\<lambda>s. s\<lparr>cx := cx s - 1, pos := pos s - 2\<rparr>)) (\<lambda>_. erase_here) else ret ())"

definition scroll_up :: "unit consm" where
  "scroll_up =
     act (change (\<lambda>s. if screen s + SCR_SIZE + ROW_SIZE \<ge> MEM_END
        then s\<lparr>dram := memcpy (dram s) (unat MEM_BASE) (unat (screen s)) (unat SCR_SIZE),
               pos := pos s - (screen s - MEM_BASE), screen := MEM_BASE\<rparr>
        else s)) (\<lambda>_.
     act (look (\<lambda>s. (screen s, erase s))) (\<lambda>(x, e).
     act (poke (unat (x + SCR_SIZE)) (repeated (unat WIDTH) (word_bytes (ucast e)))) (\<lambda>_.
     act (change (\<lambda>s. s\<lparr>screen := screen s + ROW_SIZE, pos := pos s + ROW_SIZE\<rparr>)) (\<lambda>_. set_screen))))"

definition command_lf :: "unit consm" where
  "command_lf =
     act (look cy) (\<lambda>y.
     if y + 1 < HEIGHT then change (\<lambda>s. s\<lparr>cy := cy s + 1, pos := pos s + ROW_SIZE\<rparr>) else scroll_up)"

definition command_cr :: "unit consm" where
  "command_cr = change (\<lambda>s. s\<lparr>pos := pos s - push_bit 1 (cx s), cx := 0\<rparr>)"

definition command_del :: "unit consm" where
  "command_del = erase_here"

definition put_char :: "u8 \<Rightarrow> unit consm" where
  "put_char ch =
     act (look cx) (\<lambda>x.
     act (if x \<ge> WIDTH
          then act (change (\<lambda>s. s\<lparr>cx := cx s - WIDTH, pos := pos s - ROW_SIZE\<rparr>)) (\<lambda>_. command_lf)
          else ret ()) (\<lambda>_.
     act (look (\<lambda>s. (pos s, cattr s))) (\<lambda>(p, a).
     act (poke (unat p) [ch]) (\<lambda>_. act (poke (unat (p + 1)) [a]) (\<lambda>_.
     change (\<lambda>s. s\<lparr>pos := pos s + 2, cx := cx s + 1\<rparr>))))))"

definition write_char :: "u8 \<Rightarrow> unit consm" where
  "write_char ch =
     (if ch = 0 \<or> ch = 5 then ret ()
      else if ch = 7 then change (\<lambda>s. s\<lparr>bell := start_beep (bell s)\<rparr>)
      else if ch = 8 then command_bs
      else if ch = 9 then ret ()
      else if ch = 10 then act command_lf (\<lambda>_. command_cr)
      else if ch = 11 then ret ()
      else if ch = 12 then command_lf
      else if ch = 13 then command_cr
      else if ch = 0x7f then command_del
      else put_char ch)"

fun write_loop :: "addr \<Rightarrow> nat \<Rightarrow> unit consm" where
  "write_loop b 0 = ret ()"
| "write_loop b (Suc n) = act (look (\<lambda>s. dram s b)) (\<lambda>ch. act (write_char ch) (\<lambda>_. write_loop (b + 1) n))"

text \<open>
  The flag is cleared for the loop and put back; the loop's counter is one past the count when it
  ends, and is what the call returns.
\<close>

definition console_write :: "addr \<Rightarrow> u32 \<Rightarrow> u32 consm" where
  "console_write b count =
     act (look (\<lambda>s. intr (dsch s))) (\<lambda>old.
     act (change (\<lambda>s. s\<lparr>dsch := (dsch s)\<lparr>intr := False\<rparr>\<rparr>)) (\<lambda>_.
     act (write_loop b (unat count)) (\<lambda>_.
     act set_cursor (\<lambda>_.
     act (change (\<lambda>s. s\<lparr>dsch := (dsch s)\<lparr>intr := old\<rparr>\<rparr>)) (\<lambda>_. ret (count + 1))))))"

definition console_init :: "'w io_fn \<Rightarrow> 'w device list \<Rightarrow> 'w device list consm" where
  "console_init wrf ds =
     act console_clear (\<lambda>_.
     act (lift (device_install DEV_CHAR DEV_CONSOLE 0 (map of_char ''console'') 0 None None (Some wrf) ds)) (\<lambda>(ds, _).
     ret ds))"

text \<open>\<^verbatim>\<open>printk\<close> formats into its static buffer \<open>b\<close> and writes that.\<close>

definition printk :: "addr \<Rightarrow> addr \<Rightarrow> u32 list \<Rightarrow> u32 consm" where
  "printk b fmt args =
     act (look (\<lambda>s. vsprintf (dram s) b fmt args)) (\<lambda>r. act (lift r) (\<lambda>(m, i).
     act (change (\<lambda>s. s\<lparr>dram := m\<rparr>)) (\<lambda>_.
     act (console_write b (of_nat i)) (\<lambda>_. ret (of_nat i)))))"

end
