(* ===== verification/Console_Laws.thy ===== *)
theory Console_Laws
  imports Console Print_Laws
begin

text \<open>
  The console keeps its cursor on the screen and its screen in the text memory, and writes nowhere
  else.  An operation that always returns, keeps an invariant and changes the state only along a
  preorder is composed of such operations: the locale \<open>kept\<close> holds that calculus.
\<close>

subsection \<open>Operations that keep an invariant\<close>

definition keeps :: "('s \<Rightarrow> bool) \<Rightarrow> ('s \<Rightarrow> 's \<Rightarrow> bool) \<Rightarrow> ('s \<Rightarrow> ('a \<times> 's) res) \<Rightarrow> bool" where
  "keeps P R f = (\<forall>s. P s \<longrightarrow> (\<exists>x s'. f s = Inr (x, s') \<and> P s' \<and> R s s'))"

locale kept =
  fixes P :: "'s \<Rightarrow> bool" and R :: "'s \<Rightarrow> 's \<Rightarrow> bool"
  assumes refl: "R s s" and trans: "R s t \<Longrightarrow> R t u \<Longrightarrow> R s u"
begin

lemma keeps_ret [intro, simp]: "keeps P R (ret x)"
  by (simp add: keeps_def ret_def refl)

lemma keeps_act:
  assumes "keeps P R f" "\<And>x. keeps P R (g x)"
  shows "keeps P R (act f g)"
  unfolding keeps_def
proof (intro allI impI)
  fix s assume "P s"
  then obtain x t where t: "f s = Inr (x, t)" "P t" "R s t" using assms(1) by (auto simp: keeps_def)
  then obtain y u where "g x t = Inr (y, u)" "P u" "R t u" using assms(2) by (fastforce simp: keeps_def)
  then show "\<exists>y u. act f g s = Inr (y, u) \<and> P u \<and> R s u" using t trans by (auto simp: act_def)
qed

lemma keeps_look: "(\<And>x. keeps P R (g x)) \<Longrightarrow> keeps P R (act (look f) g)"
  by (rule keeps_act) (simp_all add: keeps_def look_def refl)

lemma keeps_change: "(\<And>s. P s \<Longrightarrow> P (f s) \<and> R s (f s)) \<Longrightarrow> keeps P R (change f)"
  by (simp add: keeps_def change_def)

end

subsection \<open>The cursor\<close>

text \<open>The screen starts at line \<open>k\<close> of the text memory; the cursor is in its line \<open>y\<close>,
  column \<open>x\<close>, or behind the last column.\<close>

definition cursor_at :: "nat \<Rightarrow> nat \<Rightarrow> nat \<Rightarrow> console \<Rightarrow> bool" where
  "cursor_at k y x s = (screen s = of_nat (0xb8000 + 160 * k) \<and> cy s = of_nat y \<and> cx s = of_nat x
     \<and> pos s = of_nat (0xb8000 + 160 * (k + y) + 2 * x))"

definition cursor_ok :: "console \<Rightarrow> bool" where
  "cursor_ok s = (\<exists>k\<le>77. \<exists>y<25. \<exists>x\<le>80. cursor_at k y x s)"

text \<open>The bytes outside the text memory and the 96 bytes behind it are as before.\<close>

definition video_only :: "console \<Rightarrow> console \<Rightarrow> bool" where
  "video_only s s' = (same_but 0xb8000 16480 (dram s) (dram s') \<and> intr (dsch s') = intr (dsch s))"

interpretation con: kept cursor_ok video_only
  by unfold_locales (auto simp: video_only_def same_but_def)

lemma console_sizes:
  "MEM_BASE = of_nat 0xb8000" "MEM_END = of_nat 0xbc000" "WIDTH = of_nat 80" "HEIGHT = of_nat 25"
  "ROW_SIZE = of_nat 160" "SCR_SIZE = of_nat 4000"
  by (simp_all add: MEM_BASE_def MEM_END_def MEM_SIZE_def WIDTH_def HEIGHT_def ROW_SIZE_def SCR_SIZE_def)

lemma cursor_okI: "cursor_at k y x s \<Longrightarrow> k \<le> 77 \<Longrightarrow> y < 25 \<Longrightarrow> x \<le> 80 \<Longrightarrow> cursor_ok s"
  by (auto simp: cursor_ok_def)

lemma same_cursor:
  "cursor_ok s \<Longrightarrow> screen t = screen s \<Longrightarrow> pos t = pos s \<Longrightarrow> cx t = cx s \<Longrightarrow> cy t = cy s \<Longrightarrow> cursor_ok t"
  by (simp add: cursor_ok_def cursor_at_def)

lemma out8_keeps: "keeps cursor_ok video_only (out8 p v)"
  by (auto simp: keeps_def out8_def out16_def video_only_def same_but_def intro: same_cursor)

lemma set_cursor_keeps: "keeps cursor_ok video_only set_cursor"
  unfolding set_cursor_def crt_set_def by (intro con.keeps_act con.keeps_look out8_keeps)

lemma set_screen_keeps: "keeps cursor_ok video_only set_screen"
  unfolding set_screen_def crt_set_def by (intro con.keeps_act con.keeps_look out8_keeps)

lemma emit_within:
  "0xb8000 \<le> a \<Longrightarrow> a + length bs \<le> 0xb8000 + 16480 \<Longrightarrow> same_but 0xb8000 16480 m (fst (emit bs (m, a)))"
  by (auto simp: same_but_def emit_eq)

lemma unat_sum: "a + c < 2 ^ 32 \<Longrightarrow> unat (of_nat a + of_nat c :: u32) = a + c"
  by (metis of_nat_add unat_of_nat32)

lemma unat_plus: "unat w + c < 2 ^ 32 \<Longrightarrow> unat (w + of_nat c :: u32) = unat w + c"
  using unat_sum[of "unat w" c] by simp

lemma screen_place:
  assumes "cursor_at k y x s" "k \<le> 77" "y < 25" "x \<le> 80"
  shows "unat (screen s) = 0xb8000 + 160 * k" "unat (pos s) = 0xb8000 + 160 * (k + y) + 2 * x"
    "unat (cx s) = x" "unat (cy s) = y"
  using assms by (simp_all add: cursor_at_def unat_of_nat32 del: of_nat_add of_nat_mult)

lemma poke_keeps_cursor:
  assumes "cursor_at k y x s" "0xb8000 \<le> a" "a + length bs \<le> 0xb8000 + 16480"
  shows "\<exists>t. poke a bs s = Inr ((), t) \<and> cursor_at k y x t \<and> video_only s t \<and> dram t = fst (emit bs (dram s, a))
    \<and> erase t = erase s"
  using assms emit_within[of a bs "dram s"] by (auto simp: poke_def change_def video_only_def cursor_at_def)

lemma erase_here_keeps: "keeps cursor_ok video_only erase_here"
  unfolding keeps_def
proof (intro allI impI)
  fix s assume "cursor_ok s"
  then obtain k y x where c: "cursor_at k y x s" "k \<le> 77" "y < 25" "x \<le> 80" by (auto simp: cursor_ok_def)
  have "\<exists>t. erase_here s = Inr ((), t) \<and> cursor_at k y x t \<and> video_only s t"
    using poke_keeps_cursor[OF c(1), of "unat (pos s)" "half_bytes (erase s)"] screen_place[OF c] c
    by (auto simp: erase_here_def half_bytes_def)
  then show "\<exists>u t. erase_here s = Inr (u, t) \<and> cursor_ok t \<and> video_only s t"
    using c by (blast intro: cursor_okI)
qed

lemma command_bs_keeps: "keeps cursor_ok video_only command_bs"
proof -
  have "\<exists>u t. command_bs s = Inr (u, t) \<and> cursor_ok t \<and> video_only s t" if ok: "cursor_ok s" for s
  proof (cases "cx s = 0")
    case True
    then show ?thesis using ok con.refl by (simp add: command_bs_def ret_def)
  next
    case False
    let ?s = "s\<lparr>cx := cx s - 1, pos := pos s - 2\<rparr>"
    obtain k y x where c: "cursor_at k y x s" "k \<le> 77" "y < 25" "x \<le> 80" using ok by (auto simp: cursor_ok_def)
    then obtain x' where "x = Suc x'" using False by (cases x) (auto simp: cursor_at_def)
    then have "cursor_at k y x' ?s" using c(1) by (simp add: cursor_at_def)
    then have "cursor_ok ?s" using c \<open>x = Suc x'\<close> by (auto intro: cursor_okI)
    then obtain u t where "erase_here ?s = Inr (u, t)" "cursor_ok t" "video_only ?s t"
      using erase_here_keeps unfolding keeps_def by blast
    then show ?thesis using False by (simp add: command_bs_def video_only_def)
  qed
  then show ?thesis by (simp add: keeps_def)
qed

lemma command_cr_keeps: "keeps cursor_ok video_only command_cr"
  unfolding command_cr_def
proof (rule con.keeps_change)
  fix s :: console assume "cursor_ok s"
  then obtain k y x where c: "cursor_at k y x s" "k \<le> 77" "y < 25" "x \<le> 80" by (auto simp: cursor_ok_def)
  then have "cursor_at k y 0 (s\<lparr>pos := pos s - push_bit 1 (cx s), cx := 0\<rparr>)"
    by (simp add: cursor_at_def push_bit_eq_mult)
  then show "cursor_ok (s\<lparr>pos := pos s - push_bit 1 (cx s), cx := 0\<rparr>)
      \<and> video_only s (s\<lparr>pos := pos s - push_bit 1 (cx s), cx := 0\<rparr>)"
    using c by (auto intro: cursor_okI simp: video_only_def same_but_def)
qed

lemma length_repeated [simp]: "length (repeated n bs) = n * length bs"
  by (induction n) simp_all

subsection \<open>Scrolling\<close>

text \<open>The state in which the code clears the next line: the screen is moved to the start of the text
  memory when no line is left behind it.\<close>

definition room :: "console \<Rightarrow> console" where
  "room s = (if screen s + SCR_SIZE + ROW_SIZE \<ge> MEM_END
     then s\<lparr>dram := memcpy (dram s) (unat MEM_BASE) (unat (screen s)) (unat SCR_SIZE),
            pos := pos s - (screen s - MEM_BASE), screen := MEM_BASE\<rparr>
     else s)"

lemma room_shows:
  assumes "cursor_at k y x s" "k \<le> 77" "y < 25" "x \<le> 80"
  shows "\<exists>j\<le>76. cursor_at j y x (room s) \<and> video_only s (room s)
    \<and> (\<forall>i<4000. dram (room s) (0xb8000 + 160 * j + i) = dram s (0xb8000 + 160 * k + i))"
proof (cases "k \<le> 76")
  case True
  then have "unat (screen s + SCR_SIZE + ROW_SIZE) = 0xb8000 + 160 * k + 4000 + 160"
    using screen_place(1)[OF assms] True unfolding console_sizes add.assoc of_nat_add[symmetric] by (subst unat_plus) auto
  then have "\<not> screen s + SCR_SIZE + ROW_SIZE \<ge> MEM_END"
    using True unfolding word_le_nat_alt console_sizes by simp
  then have "room s = s" by (simp add: room_def)
  then show ?thesis using True assms(1) con.refl by auto
next
  case False
  then have k: "k = 77" using assms(2) by simp
  have "screen s + SCR_SIZE + ROW_SIZE \<ge> MEM_END"
    using assms(1) k unfolding cursor_at_def console_sizes word_le_nat_alt by simp
  moreover have "unat (screen s) = 0xb8000 + 160 * 77" using screen_place(1)[OF assms] k by simp
  ultimately have r: "room s = s\<lparr>dram := memcpy (dram s) 0xb8000 (0xb8000 + 160 * 77) 4000,
      pos := pos s - (screen s - MEM_BASE), screen := MEM_BASE\<rparr>"
    by (simp add: room_def console_sizes)
  have "cursor_at 0 y x (room s)" using assms(1) k by (simp add: r cursor_at_def console_sizes)
  moreover have m: "\<forall>i<4000. memcpy (dram s) 0xb8000 (0xb8000 + 160 * 77) 4000 (0xb8000 + i) = dram s (0xb8000 + 160 * 77 + i)"
    "same_but 0xb8000 4000 (dram s) (memcpy (dram s) 0xb8000 (0xb8000 + 160 * 77) 4000)"
    using memcpy_range[of "0xb8000" 4000 "0xb8000 + 160 * 77" "dram s"] by (simp_all add: apart_def)
  moreover have "video_only s (room s)" using m(2) by (auto simp: r video_only_def same_but_def)
  ultimately show ?thesis using k m(1) by (intro exI[of _ 0]) (simp add: r)
qed

lemma scroll_up_room:
  "scroll_up s = (let r = room s in
     act (poke (unat (screen r + SCR_SIZE)) (repeated (unat WIDTH) (word_bytes (ucast (erase r))))) (\<lambda>_.
     act (change (\<lambda>s. s\<lparr>screen := screen s + ROW_SIZE, pos := pos s + ROW_SIZE\<rparr>)) (\<lambda>_. set_screen)) r)"
  by (simp add: scroll_up_def room_def Let_def)

lemma set_screen_frame: "\<exists>t. set_screen s = Inr ((), t) \<and> cursor_at k y x t = cursor_at k y x s
    \<and> screen t = screen s \<and> dram t = dram s \<and> dsch t = dsch s"
  by (simp add: set_screen_def crt_set_def out8_def out16_def act_def cursor_at_def)

lemma scroll_up_shifts:
  assumes "cursor_at k y x s" "k \<le> 77" "y < 25" "x \<le> 80"
  shows "\<exists>j\<le>77. \<exists>t. scroll_up s = Inr ((), t) \<and> cursor_at j y x t \<and> video_only s t
    \<and> (\<forall>i<3840. dram t (0xb8000 + 160 * j + i) = dram s (0xb8000 + 160 * (k + 1) + i))"
proof -
  obtain j where j: "j \<le> 76" "cursor_at j y x (room s)" "video_only s (room s)"
    "\<forall>i<4000. dram (room s) (0xb8000 + 160 * j + i) = dram s (0xb8000 + 160 * k + i)"
    using room_shows[OF assms] by blast
  let ?r = "room s" and ?bs = "repeated (unat WIDTH) (word_bytes (ucast (erase (room s))))"
  let ?f = "\<lambda>s. s\<lparr>screen := screen s + ROW_SIZE, pos := pos s + ROW_SIZE\<rparr>"
  have p: "unat (screen ?r + SCR_SIZE) = 0xb8000 + 160 * j + 4000"
    using screen_place(1)[OF j(2) _ assms(3,4)] j(1) unfolding console_sizes by (subst unat_plus) auto
  have "length ?bs = 320" by (simp add: console_sizes word_bytes_def)
  then obtain t where t: "poke (unat (screen ?r + SCR_SIZE)) ?bs ?r = Inr ((), t)" "cursor_at j y x t" "video_only ?r t"
    "dram t = fst (emit ?bs (dram ?r, unat (screen ?r + SCR_SIZE)))"
    using poke_keeps_cursor[OF j(2), of "unat (screen ?r + SCR_SIZE)" ?bs] p j(1) by auto
  have "cursor_at (Suc j) y x (?f t)" using t(2) by (simp add: cursor_at_def console_sizes algebra_simps)
  then obtain u where u: "set_screen (?f t) = Inr ((), u)" "cursor_at (Suc j) y x u" "dram u = dram t" "dsch u = dsch t"
    using set_screen_frame[of "?f t" "Suc j" y x] by auto
  have "scroll_up s = Inr ((), u)" unfolding scroll_up_room Let_def by (simp add: act_def[of "poke _ _"] t(1) u(1))
  moreover have "video_only s u" using con.trans[OF j(3) t(3)] u(3,4) by (simp add: video_only_def)
  moreover have "dram u (0xb8000 + 160 * Suc j + i) = dram s (0xb8000 + 160 * (k + 1) + i)" if "i < 3840" for i
  proof -
    have "dram u (0xb8000 + 160 * Suc j + i) = dram ?r (0xb8000 + 160 * j + (160 + i))"
      using that unfolding u(3) t(4) emit_eq p by (simp add: algebra_simps)
    also have "\<dots> = dram s (0xb8000 + 160 * k + (160 + i))" using j(4)[rule_format, of "160 + i"] that by simp
    finally show ?thesis by (simp add: algebra_simps)
  qed
  ultimately show ?thesis using j(1) u(2) by (intro exI[of _ "Suc j"]) auto
qed

lemma command_lf_moves:
  assumes "cursor_at k y x s" "k \<le> 77" "y < 25" "x \<le> 80"
  shows "\<exists>j\<le>77. \<exists>z<25. \<exists>t. command_lf s = Inr ((), t) \<and> cursor_at j z x t \<and> video_only s t"
proof (cases "y < 24")
  case True
  have "cy s + 1 < HEIGHT"
    using True screen_place(4)[OF assms] unat_plus[of "cy s" 1] by (simp add: word_less_nat_alt console_sizes)
  moreover have "cursor_at k (Suc y) x (s\<lparr>cy := cy s + 1, pos := pos s + ROW_SIZE\<rparr>)"
    using assms(1) by (simp add: cursor_at_def console_sizes algebra_simps)
  ultimately show ?thesis using assms True
    by (intro exI[of _ k] conjI exI[of _ "Suc y"]) (auto simp: command_lf_def change_def video_only_def same_but_def)
next
  case False
  then have "\<not> cy s + 1 < HEIGHT"
    using assms(3) screen_place(4)[OF assms] unat_plus[of "cy s" 1] by (simp add: word_less_nat_alt console_sizes)
  then have "command_lf s = scroll_up s" by (simp add: command_lf_def)
  then show ?thesis using scroll_up_shifts[OF assms] assms(3) by metis
qed

lemma command_lf_keeps: "keeps cursor_ok video_only command_lf"
  unfolding keeps_def cursor_ok_def using command_lf_moves by blast

text \<open>Before a character is stored, a cursor behind the last column goes to the next line.\<close>

definition wrap :: "unit consm" where
  "wrap = act (look cx) (\<lambda>x.
     if x \<ge> WIDTH then act (change (\<lambda>s. s\<lparr>cx := cx s - WIDTH, pos := pos s - ROW_SIZE\<rparr>)) (\<lambda>_. command_lf) else ret ())"

lemma put_char_wrap:
  "put_char ch = act wrap (\<lambda>_. act (look (\<lambda>s. (pos s, cattr s))) (\<lambda>(p, a).
     act (poke (unat p) [ch]) (\<lambda>_. act (poke (unat (p + 1)) [a]) (\<lambda>_.
     change (\<lambda>s. s\<lparr>pos := pos s + 2, cx := cx s + 1\<rparr>)))))"
  by (rule ext) (auto simp: put_char_def wrap_def act_def[of "if _ then _ else _"] act_def[of "look cx"] act_def[of "act (look cx) _"] look_def)

lemma wrap_moves:
  assumes "cursor_at k y x s" "k \<le> 77" "y < 25" "x \<le> 80"
  shows "\<exists>j\<le>77. \<exists>z<25. \<exists>v<80. \<exists>t. wrap s = Inr ((), t) \<and> cursor_at j z v t \<and> video_only s t"
proof (cases "x = 80")
  case True
  let ?s = "s\<lparr>cx := cx s - WIDTH, pos := pos s - ROW_SIZE\<rparr>"
  have "cursor_at k y 0 ?s" using assms(1) True by (simp add: cursor_at_def console_sizes)
  then obtain j z t where t: "j \<le> 77" "z < 25" "command_lf ?s = Inr ((), t)" "cursor_at j z 0 t" "video_only ?s t"
    using command_lf_moves[of k y 0 ?s] assms by auto
  have "WIDTH \<le> cx s" using assms(1) True by (simp add: cursor_at_def console_sizes)
  then have "wrap s = Inr ((), t)" using t(3) by (simp add: wrap_def)
  moreover have "video_only s t" using t(5) by (simp add: video_only_def)
  ultimately show ?thesis using t by (intro exI[of _ j] conjI exI[of _ z] exI[of _ 0] exI[of _ t]) auto
next
  case False
  then have "\<not> WIDTH \<le> cx s" using assms(4) screen_place(3)[OF assms] by (simp add: word_le_nat_alt console_sizes)
  then have "wrap s = Inr ((), s)" by (simp add: wrap_def)
  then show ?thesis using assms False con.refl by (intro exI[of _ k] conjI exI[of _ y] exI[of _ x] exI[of _ s]) auto
qed

lemma put_char_keeps: "keeps cursor_ok video_only (put_char ch)"
proof -
  have "\<exists>u t. put_char ch s = Inr (u, t) \<and> cursor_ok t \<and> video_only s t" if ok: "cursor_ok s" for s
  proof -
    obtain k y x t where t: "k \<le> 77" "y < 25" "x < 80" "wrap s = Inr ((), t)" "cursor_at k y x t" "video_only s t"
      using ok wrap_moves unfolding cursor_ok_def by metis
    have p: "unat (pos t) = 0xb8000 + 160 * (k + y) + 2 * x" using screen_place(2)[OF t(5,1,2)] t(3) by simp
    have p1: "unat (pos t + 1) = 0xb8000 + 160 * (k + y) + 2 * x + 1"
      using unat_plus[of "pos t" 1] p t(1-3) by simp
    obtain u where u: "poke (unat (pos t)) [ch] t = Inr ((), u)" "cursor_at k y x u" "video_only t u"
      using poke_keeps_cursor[OF t(5), of "unat (pos t)" "[ch]"] p t(1-3) by auto
    obtain v where v: "poke (unat (pos t + 1)) [cattr t] u = Inr ((), v)" "cursor_at k y x v" "video_only u v"
      using poke_keeps_cursor[OF u(2), of "unat (pos t + 1)" "[cattr t]"] p1 t(1-3) by auto
    let ?v = "v\<lparr>pos := pos v + 2, cx := cx v + 1\<rparr>"
    have "put_char ch s = Inr ((), ?v)"
      unfolding put_char_wrap using t(4) u(1) v(1)
      by (simp add: act_def[of wrap] act_def[of "poke _ _"] change_def)
    moreover have "cursor_at k y (Suc x) ?v" using v(2) by (simp add: cursor_at_def algebra_simps)
    moreover have "video_only s ?v"
      using con.trans[OF t(6) con.trans[OF u(3) v(3)]] by (simp add: video_only_def)
    ultimately show ?thesis using t(1-3) by (intro exI[of _ "()"] exI[of _ ?v]) (auto intro: cursor_okI)
  qed
  then show ?thesis by (simp add: keeps_def)
qed

lemma write_char_keeps: "keeps cursor_ok video_only (write_char ch)"
  unfolding write_char_def command_del_def
  by (auto intro!: command_bs_keeps command_cr_keeps command_lf_keeps put_char_keeps erase_here_keeps
      con.keeps_act con.keeps_change intro: same_cursor simp: video_only_def same_but_def)

lemma write_loop_keeps: "keeps cursor_ok video_only (write_loop b n)"
  by (induction n arbitrary: b) (auto intro!: con.keeps_look con.keeps_act write_char_keeps)


lemma console_clear_ok: "\<exists>t. console_clear s = Inr ((), t) \<and> cursor_ok t"
proof -
  let ?s = "s\<lparr>screen := MEM_BASE, pos := MEM_BASE, cx := 0, cy := 0\<rparr>"
  have "cursor_ok ?s" by (rule cursor_okI[of 0 0 0]) (simp_all add: cursor_at_def console_sizes)
  then obtain t where t: "set_cursor ?s = Inr ((), t)" "cursor_ok t"
    using set_cursor_keeps unfolding keeps_def by fastforce
  then obtain u where u: "set_screen t = Inr ((), u)" "cursor_ok u"
    using set_screen_keeps unfolding keeps_def by fastforce
  have "\<exists>v. console_clear s = Inr ((), v) \<and> screen v = screen u \<and> pos v = pos u \<and> cx v = cx u \<and> cy v = cy u"
    using t(1) u(1) by (simp add: console_clear_def act_def[of set_cursor] act_def[of set_screen] poke_def change_def)
  then show ?thesis using same_cursor[OF u(2)] by metis
qed


text \<open>C39: scrolling shows every line but the first one line higher, also when the screen has to go back to
  the start of the text memory, and keeps the cursor on the screen.\<close>

theorem scroll_up_moves_lines:
  assumes "cursor_ok s"
  shows "\<exists>t. scroll_up s = Inr ((), t) \<and> cursor_ok t
    \<and> (\<forall>i<24 * 160. dram t (unat (screen t) + i) = dram s (unat (screen s) + 160 + i))"
proof -
  obtain k y x where c: "cursor_at k y x s" "k \<le> 77" "y < 25" "x \<le> 80" using assms by (auto simp: cursor_ok_def)
  obtain j t where t: "j \<le> 77" "scroll_up s = Inr ((), t)" "cursor_at j y x t"
    "\<forall>i<3840. dram t (0xb8000 + 160 * j + i) = dram s (0xb8000 + 160 * (k + 1) + i)"
    using scroll_up_shifts[OF c] by blast
  have "dram t (unat (screen t) + i) = dram s (unat (screen s) + 160 + i)" if "i < 24 * 160" for i
    using t(4)[rule_format, of i] that unfolding screen_place(1)[OF c] screen_place(1)[OF t(3,1) c(3,4)]
    by (simp add: algebra_simps)
  then show ?thesis using t c by (auto intro: cursor_okI)
qed

theorem scroll_up_moves_lines_witness:
  "\<forall>s. \<exists>t u. console_clear s = Inr ((), t) \<and> scroll_up t = Inr ((), u) \<and> cursor_ok u
     \<and> dram u (unat (screen u) + 7) = dram t (unat (screen t) + 167)"
proof
  fix s
  obtain t where t: "console_clear s = Inr ((), t)" "cursor_ok t" using console_clear_ok by blast
  then obtain u where "scroll_up t = Inr ((), u)" "cursor_ok u"
    "\<forall>i<24 * 160. dram u (unat (screen u) + i) = dram t (unat (screen t) + 160 + i)"
    using scroll_up_moves_lines by blast
  moreover from this(3)[rule_format, of 7] have "dram u (unat (screen u) + 7) = dram t (unat (screen t) + 167)" by (simp add: algebra_simps)
  ultimately show "\<exists>t u. console_clear s = Inr ((), t) \<and> scroll_up t = Inr ((), u) \<and> cursor_ok u
     \<and> dram u (unat (screen u) + 7) = dram t (unat (screen t) + 167)" using t(1) by blast
qed

end
