(* ===== verification/Device_Laws.thy ===== *)
theory Device_Laws
  imports Ramdisk
begin

text \<open>
  The order in which the requests of a block device are served, and the round trip of a block
  through a memory disk.
\<close>

subsection \<open>The elevator\<close>

text \<open>
  The queue's part of \<^verbatim>\<open>device_request\<close> for the request in service and, after it,
  for every task it wakes: choose the next request, take the served one off the queue.
\<close>

fun serve :: "nat \<Rightarrow> heap \<Rightarrow> 'w device \<Rightarrow> addr \<Rightarrow> (addr list \<times> heap) res" where
  "serve 0 h d r = Inr ([], h)"
| "serve (Suc k) h d r =
     (let (d, nxt) = request_nextreq h d r
      in bnd (list_remove h (req_node r)) (\<lambda>h.
         if nxt = 0 then Inr ([r], h)
         else bnd (serve k h d nxt) (\<lambda>(rs, h). Inr (r # rs, h))))"

text \<open>One sweep to the end the device moves to, then one back.\<close>

definition sweep :: "direction \<Rightarrow> addr list \<Rightarrow> addr list \<Rightarrow> addr list" where
  "sweep w us vs = (case w of DIRECT_UP \<Rightarrow> vs @ rev us | DIRECT_DOWN \<Rightarrow> rev us @ vs)"

lemma node_req_node [simp]: "node_req (req_node r) = r"
  by (simp add: node_req_def req_node_def)

lemma next_request:
  assumes "dll h (request_list d) (map req_node (us @ r # vs))"
  defines "p \<equiv> request_nextreq h d r"
  shows "request_list (fst p) = request_list d"
    and "snd p = (case sweep (direct d) us vs of [] \<Rightarrow> 0 | x # _ \<Rightarrow> x)"
    and "direct (fst p) = (case direct d of
           DIRECT_UP \<Rightarrow> if vs = [] then DIRECT_DOWN else DIRECT_UP
         | DIRECT_DOWN \<Rightarrow> if us = [] then DIRECT_UP else DIRECT_DOWN)"
proof -
  let ?l = "request_list d"
  have d: "dll h ?l (map req_node us @ req_node r # map req_node vs)" using assms(1) by simp
  have n: "nprev h (req_node r) = last (?l # map req_node us)"
    "nnext h (req_node r) = hd (map req_node vs @ [?l + 8])"
    using dll_split_node[OF d] by auto
  have out: "?l \<notin> req_node ` set us" "?l + 8 \<notin> req_node ` set us"
    "?l \<notin> req_node ` set vs" "?l + 8 \<notin> req_node ` set vs"
    using dll_D(4,5)[OF d] by auto
  have v: "hd (map req_node vs @ [?l + 8]) = ?l + 8 \<longleftrightarrow> vs = []" "hd (map req_node vs @ [?l + 8]) \<noteq> ?l"
    using out by (cases vs; auto)+
  have u: "last (?l # map req_node us) = ?l \<longleftrightarrow> us = []" "last (?l # map req_node us) \<noteq> ?l + 8"
    using out by (cases us rule: rev_cases; auto)+
  show "request_list (fst p) = ?l" by (simp add: p_def request_nextreq_def Let_def)
  show "snd p = (case sweep (direct d) us vs of [] \<Rightarrow> 0 | x # _ \<Rightarrow> x)"
    unfolding p_def request_nextreq_def turn_def Let_def head_of_def tail_of_def n
    using u v out
    by (cases vs; cases us rule: rev_cases; cases "direct d") (auto simp: sweep_def)
  show "direct (fst p) = (case direct d of DIRECT_UP \<Rightarrow> if vs = [] then DIRECT_DOWN else DIRECT_UP
         | DIRECT_DOWN \<Rightarrow> if us = [] then DIRECT_UP else DIRECT_DOWN)"
    unfolding p_def request_nextreq_def turn_def Let_def head_of_def tail_of_def n
    using u v by (cases "direct d") auto
qed

lemma serve_sweep:
  assumes "dll h (request_list d) (map req_node (us @ r # vs))" "0 \<notin> set (us @ vs)"
  shows "\<exists>h'. serve (Suc (length (us @ vs))) h d r = Inr (r # sweep (direct d) us vs, h')
    \<and> dll h' (request_list d) []"
  using assms
proof (induction "length (us @ vs)" arbitrary: h d us r vs)
  case 0
  then obtain h' where h': "list_remove h (req_node r) = Inr h'" "dll h' (request_list d) []"
    using dll_remove[of h "request_list d" "[]" "req_node r" "[]"] by auto
  obtain d' n where p: "request_nextreq h d r = (d', n)" by (cases "request_nextreq h d r")
  then have "n = 0" using next_request(2)[OF 0(2)] 0(1) by (cases "direct d") (auto simp: sweep_def)
  then show ?case using h' p 0(1) by (cases "direct d") (auto simp: sweep_def)
next
  case (Suc k)
  let ?l = "request_list d"
  obtain h' where h': "list_remove h (req_node r) = Inr h'" "dll h' ?l (map req_node (us @ vs))"
    using dll_remove[of h ?l "map req_node us" "req_node r" "map req_node vs"] Suc(3) by auto
  obtain d' n where p: "request_nextreq h d r = (d', n)" by (cases "request_nextreq h d r")
  have l: "request_list d' = ?l" using next_request(1)[OF Suc(3)] p by simp
  have dir: "direct d' = (case direct d of DIRECT_UP \<Rightarrow> if vs = [] then DIRECT_DOWN else DIRECT_UP
         | DIRECT_DOWN \<Rightarrow> if us = [] then DIRECT_UP else DIRECT_DOWN)"
    using next_request(3)[OF Suc(3)] p by simp
  have nx: "n = (case sweep (direct d) us vs of [] \<Rightarrow> 0 | x # _ \<Rightarrow> x)"
    using next_request(2)[OF Suc(3)] p by simp
  have "\<exists>us' vs'. us' @ n # vs' = us @ vs \<and> n # sweep (direct d') us' vs' = sweep (direct d) us vs"
  proof (cases "direct d' = DIRECT_UP")
    case True
    then obtain v vs' where v: "vs = v # vs'" "direct d = DIRECT_UP \<or> us = []"
      using dir Suc(2) by (cases vs) (auto split: direction.splits if_splits)
    then show ?thesis using True nx
      by (intro exI[of _ us] exI[of _ vs']) (auto simp: sweep_def split: direction.splits)
  next
    case False
    then have f: "direct d' = DIRECT_DOWN" by (cases "direct d'") auto
    then obtain u us' where u: "us = us' @ [u]" "direct d = DIRECT_DOWN \<or> vs = []"
      using dir Suc(2) by (cases us rule: rev_cases) (auto split: direction.splits if_splits)
    then show ?thesis using f nx
      by (intro exI[of _ us'] exI[of _ vs]) (auto simp: sweep_def split: direction.splits)
  qed
  then obtain us' vs' where s: "us' @ n # vs' = us @ vs" "n # sweep (direct d') us' vs' = sweep (direct d) us vs"
    by blast
  have "0 \<notin> set (us' @ n # vs')" using Suc(4) unfolding s(1) .
  then have ne: "n \<noteq> 0" "0 \<notin> set (us' @ vs')" by auto
  have len: "k = length (us' @ vs')" using Suc(2) arg_cong[OF s(1), of length] by simp
  obtain h'' where "serve (Suc k) h' d' n = Inr (n # sweep (direct d') us' vs', h'')" "dll h'' ?l []"
    using Suc(1)[OF len, of h' d' n] h'(2) ne(2) unfolding l s(1)[symmetric] len by auto
  then have "serve (Suc (Suc k)) h d r = Inr (r # sweep (direct d) us vs, h'')"
    using h'(1) p ne(1) unfolding s(2)[symmetric] by (simp del: serve.simps(2) add: serve.simps(2)[of "Suc k"])
  then show ?case using \<open>dll h'' ?l []\<close> Suc(2) by auto
qed

subsection \<open>A memory disk\<close>

text \<open>The bytes of the sectors from \<open>idx\<close> on of the disk \<open>i\<close> in memory.\<close>

definition sector_at :: "nat \<Rightarrow> u32 \<Rightarrow> addr" where
  "sector_at i idx = 0xc00000 + 0x100000 * i + 512 * unat idx"

lemma count_ucast: "ucast (of_nat n :: u32) = (of_nat n :: u8)"
  by (rule bit_word_eqI) (simp add: bit_simps)

lemma ramdisk_place:
  assumes "i < 4" "count < 256" "unat idx + count \<le> 2048"
  shows "unat (start (ramdisk_nth i) + idx * SECTOR_SIZE) = sector_at i idx"
    and "unat (ucast (of_nat count :: u8) * SECTOR_SIZE :: u32) = 512 * count"
    and "in_bounds (start (ramdisk_nth i) + idx * SECTOR_SIZE) (ucast (of_nat count :: u8) * SECTOR_SIZE) = Inr ()"
proof -
  let ?a = "start (ramdisk_nth i) + idx * SECTOR_SIZE" and ?n = "ucast (of_nat count :: u8) * SECTOR_SIZE :: u32"
  have c: "unat (ucast (of_nat count :: u8) :: u32) = count"
    using assms(2) by (simp add: unsigned_ucast_eq unat_of_nat take_bit_nat_eq_self)
  have "ramdisk_size = 0x100000" by (simp add: ramdisk_size_def KERNEL_RAMDISK_SIZE_def RAMDISK_NR_def)
  then have s: "start (ramdisk_nth i) = of_nat (0xc00000 + 0x100000 * i)"
    by (simp add: ramdisk_nth_def KERNEL_RAMDISK_MEM_def KERNEL_BUFFER_MEM_def KERNEL_BUFFER_SIZE_def)
  have "?a = of_nat (sector_at i idx)" by (simp add: s sector_at_def SECTOR_SIZE_def ac_simps)
  moreover have la: "sector_at i idx + 512 * count \<le> 0x1000000" using assms by (simp add: sector_at_def)
  ultimately show a: "unat ?a = sector_at i idx" by (simp add: unat_of_nat32 del: of_nat_add of_nat_mult)
  have "(ucast (of_nat count :: u8) :: u32) = of_nat count"
    using c assms(2) by (intro word_unat_eqI) (simp add: unat_of_nat32)
  then have "?n = of_nat (512 * count)" by (simp add: SECTOR_SIZE_def mult.commute)
  then show n: "unat ?n = 512 * count" using assms(2) by (simp add: unat_of_nat32 del: of_nat_mult)
  have "unat (?a + ?n) = sector_at i idx + 512 * count"
    using a n la by (subst unat_add_lem[THEN iffD1]) auto
  then have "?a + ?n < KERNEL_RAMDISK_MEM + KERNEL_MEMORY_SIZE"
    using la by (simp add: word_less_nat_alt KERNEL_RAMDISK_MEM_def KERNEL_BUFFER_MEM_def KERNEL_BUFFER_SIZE_def KERNEL_MEMORY_SIZE_def)
  then show "in_bounds ?a ?n = Inr ()" by (simp add: in_bounds_def)
qed

text \<open>C37: sectors written to a memory disk through the device table and read back are the bytes that were
  written; the write changes no byte outside them and the read none outside its buffer.\<close>

theorem ramdisk_roundtrip:
  assumes d: "device_get ds dev = Inr d" "dread d = Some (disk_read disks)" "dwrite d = Some (disk_write disks)"
    "disks = map ramdisk_nth [0..<RAMDISK_NR]" "dptr d < RAMDISK_NR"
    and n: "count < 256" "unat idx + count \<le> 2048"
    and b: "apart b (512 * count) (sector_at (dptr d) idx) (512 * count)"
      "apart c (512 * count) (sector_at (dptr d) idx) (512 * count)"
  shows "\<exists>w1 w2. device_write ds dev b (of_nat count) idx f w = Inr (w1, int count)
    \<and> device_read ds dev c (of_nat count) idx f w1 = Inr (w2, int count)
    \<and> (\<forall>k<512 * count. ram w2 (c + k) = ram w (b + k))
    \<and> same_but (sector_at (dptr d) idx) (512 * count) (ram w) (ram w1) \<and> same_but c (512 * count) (ram w1) (ram w2)"
proof -
  let ?p = "sector_at (dptr d) idx" and ?n = "512 * count"
  have i: "dptr d < 4" using d(5) by (simp add: RAMDISK_NR_def)
  note p = ramdisk_place[OF i n]
  have disk: "rd disks (dptr d) = Inr (ramdisk_nth (dptr d))" using d(4,5) by simp
  have u: "ucast (of_nat count :: u32) = (of_nat count :: u8)" by (rule count_ucast)
  have k: "uint (of_nat count :: u8) = int count" using n(1) by (simp add: uint_nat unat_of_nat take_bit_nat_eq_self)
  let ?m1 = "memcpy (ram w) ?p b ?n" and ?m2 = "memcpy (memcpy (ram w) ?p b ?n) c ?p ?n"
  have "device_write ds dev b (of_nat count) idx f w = Inr (w\<lparr>ram := ?m1\<rparr>, int count)"
    by (simp add: device_write_def d(1,3) disk_write_def on_ram_def disk ramdisk_write_def Let_def p u k)
  moreover have "device_read ds dev c (of_nat count) idx f (w\<lparr>ram := ?m1\<rparr>) = Inr (w\<lparr>ram := ?m2\<rparr>, int count)"
    by (simp add: device_read_def d(1,2) disk_read_def on_ram_def disk ramdisk_read_def Let_def p u k)
  moreover have "\<forall>k<?n. ?m2 (c + k) = ram w (b + k)" "same_but ?p ?n (ram w) ?m1" "same_but c ?n ?m1 ?m2"
    using memcpy_range[of ?p ?n b "ram w"] memcpy_range[of c ?n ?p ?m1] b by (auto simp: apart_def)
  ultimately show ?thesis by (intro exI[of _ "w\<lparr>ram := ?m1\<rparr>"] exI[of _ "w\<lparr>ram := ?m2\<rparr>"]) simp
qed

abbreviation "the_disks \<equiv> map ramdisk_nth [0..<RAMDISK_NR]"

definition the_disk :: "unit machine device" where
  "the_disk =
     \<lparr>dname = [109, 100, 98], dtype = DEV_BLOCK, subtype = DEV_RAMDISK, ddev = 0, parent = 0, dptr = 1, request_list = 0,
      direct = DIRECT_UP, dioctl = Some (disk_ioctl the_disks), dread = Some (disk_read the_disks),
      dwrite = Some (disk_write the_disks)\<rparr>"

theorem ramdisk_roundtrip_witness:
  "\<exists>w1 w2. device_write [the_disk] 0 0x800000 2 10 0 \<lparr>ram = (\<lambda>a. of_nat a), hw = ()\<rparr> = Inr (w1, 2)
    \<and> device_read [the_disk] 0 0x900000 2 10 0 w1 = Inr (w2, 2)
    \<and> ram w2 0x900003 = 3"
proof -
  have "device_get [the_disk] 0 = Inr the_disk" by (simp add: device_get_def the_disk_def DEVICE_NR_def)
  moreover have "dptr the_disk = 1" "dread the_disk = Some (disk_read the_disks)"
    "dwrite the_disk = Some (disk_write (map ramdisk_nth [0..<RAMDISK_NR]))"
    by (simp_all add: the_disk_def)
  ultimately obtain w1 w2 where
    "device_write [the_disk] 0 0x800000 (of_nat 2) 10 0 \<lparr>ram = (\<lambda>a. of_nat a), hw = ()\<rparr> = Inr (w1, int 2)"
    "device_read [the_disk] 0 0x900000 (of_nat 2) 10 0 w1 = Inr (w2, int 2)"
    "\<forall>k<512 * 2. ram w2 (0x900000 + k) = ram \<lparr>ram = (\<lambda>a. of_nat a), hw = ()\<rparr> (0x800000 + k)"
    using ramdisk_roundtrip[of "[the_disk]" 0 the_disk the_disks 2 10 "0x800000" "0x900000" 0
        "\<lparr>ram = (\<lambda>a. of_nat a), hw = ()\<rparr>"]
    by (auto simp: RAMDISK_NR_def apart_def sector_at_def)
  moreover from this(3)[rule_format, of 3] have "ram w2 0x900003 = 3" by simp
  ultimately show ?thesis by auto
qed



end
