(* ===== verification/Syscalls.thy ===== *)
theory Syscalls
  imports Prelude
begin

text \<open>
  The system call interface: the numbers of \<^verbatim>\<open>include/yui/syscall.h\<close>, the kernel's
  table in \<^verbatim>\<open>kernel/gate.c\<close> and the programs' stubs in
  \<^verbatim>\<open>lib/syscall.c\<close>.  A handler is named by its function.  A stub loads the number
  and its arguments into registers and traps: a \<open>call\<close> is the number with the arguments, and
  what it returns is the kernel's answer.
\<close>

subsection \<open>Numbers\<close>

definition SYS_NR_TEST :: u32 where "SYS_NR_TEST = 0"
definition SYS_NR_EXIT :: u32 where "SYS_NR_EXIT = 1"
definition SYS_NR_FORK :: u32 where "SYS_NR_FORK = 2"
definition SYS_NR_READ :: u32 where "SYS_NR_READ = 3"
definition SYS_NR_WRITE :: u32 where "SYS_NR_WRITE = 4"
definition SYS_NR_OPEN :: u32 where "SYS_NR_OPEN = 5"
definition SYS_NR_CLOSE :: u32 where "SYS_NR_CLOSE = 6"
definition SYS_NR_WAITPID :: u32 where "SYS_NR_WAITPID = 7"
definition SYS_NR_CREAT :: u32 where "SYS_NR_CREAT = 8"
definition SYS_NR_LINK :: u32 where "SYS_NR_LINK = 9"
definition SYS_NR_UNLINK :: u32 where "SYS_NR_UNLINK = 10"
definition SYS_NR_EXECVE :: u32 where "SYS_NR_EXECVE = 11"
definition SYS_NR_CHDIR :: u32 where "SYS_NR_CHDIR = 12"
definition SYS_NR_TIME :: u32 where "SYS_NR_TIME = 13"
definition SYS_NR_MKNOD :: u32 where "SYS_NR_MKNOD = 14"
definition SYS_NR_STAT :: u32 where "SYS_NR_STAT = 15"
definition SYS_NR_LSEEK :: u32 where "SYS_NR_LSEEK = 16"
definition SYS_NR_GETPID :: u32 where "SYS_NR_GETPID = 17"
definition SYS_NR_MOUNT :: u32 where "SYS_NR_MOUNT = 18"
definition SYS_NR_UMOUNT :: u32 where "SYS_NR_UMOUNT = 19"
definition SYS_NR_FSTAT :: u32 where "SYS_NR_FSTAT = 20"
definition SYS_NR_READDIR :: u32 where "SYS_NR_READDIR = 21"
definition SYS_NR_MMAP :: u32 where "SYS_NR_MMAP = 22"
definition SYS_NR_MUNMAP :: u32 where "SYS_NR_MUNMAP = 23"
definition SYS_NR_MKDIR :: u32 where "SYS_NR_MKDIR = 24"
definition SYS_NR_RMDIR :: u32 where "SYS_NR_RMDIR = 25"
definition SYS_NR_DUP :: u32 where "SYS_NR_DUP = 26"
definition SYS_NR_PIPE :: u32 where "SYS_NR_PIPE = 27"
definition SYS_NR_BRK :: u32 where "SYS_NR_BRK = 28"
definition SYS_NR_UMASK :: u32 where "SYS_NR_UMASK = 29"
definition SYS_NR_CHROOT :: u32 where "SYS_NR_CHROOT = 30"
definition SYS_NR_DUP2 :: u32 where "SYS_NR_DUP2 = 31"
definition SYS_NR_GETPPID :: u32 where "SYS_NR_GETPPID = 32"
definition SYS_NR_SLEEP :: u32 where "SYS_NR_SLEEP = 33"
definition SYS_NR_YEILD :: u32 where "SYS_NR_YEILD = 34"
definition SYS_NR_GETCWD :: u32 where "SYS_NR_GETCWD = 35"
definition SYS_NR_CLEAR :: u32 where "SYS_NR_CLEAR = 36"
definition SYS_NR_MKFS :: u32 where "SYS_NR_MKFS = 37"

subsection \<open>The table\<close>

datatype syscall =
  Sys_default | Sys_test | Task_exit | Task_fork | Sys_read | Task_waitpid | 
    Sys_link | Sys_unlink | Sys_time | Sys_lseek | Sys_write | Sys_umask | 
    Sys_getpid | Sys_mkdir | Sys_rmdir | Sys_open | Sys_creat | Sys_close | 
    Sys_brk | Sys_getppid | Task_sleep | Task_yield | Sys_chdir | Sys_chroot | 
    Sys_getcwd | Sys_readdir | Console_clear | Sys_stat | Sys_fstat | Sys_mknod | 
    Sys_mount | Sys_umount | Sys_mkfs | Sys_mmap | Sys_munmap | Sys_execve | 
    Sys_dup | Sys_dup2 | Sys_pipe

definition SYSCALL_SIZE :: nat where "SYSCALL_SIZE = 256"

definition syscall_check :: "u32 \<Rightarrow> unit res" where
  "syscall_check nr = (if nr \<ge> of_nat SYSCALL_SIZE then Inl Panic else Inr ())"

definition syscall_entries :: "(u32 \<times> syscall) list" where
  "syscall_entries =
     [(SYS_NR_TEST, Sys_test),
      (SYS_NR_EXIT, Task_exit),
      (SYS_NR_FORK, Task_fork),
      (SYS_NR_READ, Sys_read),
      (SYS_NR_WAITPID, Task_waitpid),
      (SYS_NR_LINK, Sys_link),
      (SYS_NR_UNLINK, Sys_unlink),
      (SYS_NR_TIME, Sys_time),
      (SYS_NR_LSEEK, Sys_lseek),
      (SYS_NR_WRITE, Sys_write),
      (SYS_NR_UMASK, Sys_umask),
      (SYS_NR_GETPID, Sys_getpid),
      (SYS_NR_MKDIR, Sys_mkdir),
      (SYS_NR_RMDIR, Sys_rmdir),
      (SYS_NR_OPEN, Sys_open),
      (SYS_NR_CREAT, Sys_creat),
      (SYS_NR_CLOSE, Sys_close),
      (SYS_NR_BRK, Sys_brk),
      (SYS_NR_GETPPID, Sys_getppid),
      (SYS_NR_SLEEP, Task_sleep),
      (SYS_NR_YEILD, Task_yield),
      (SYS_NR_CHDIR, Sys_chdir),
      (SYS_NR_CHROOT, Sys_chroot),
      (SYS_NR_GETCWD, Sys_getcwd),
      (SYS_NR_READDIR, Sys_readdir),
      (SYS_NR_CLEAR, Console_clear),
      (SYS_NR_STAT, Sys_stat),
      (SYS_NR_FSTAT, Sys_fstat),
      (SYS_NR_MKNOD, Sys_mknod),
      (SYS_NR_MOUNT, Sys_mount),
      (SYS_NR_UMOUNT, Sys_umount),
      (SYS_NR_MKFS, Sys_mkfs),
      (SYS_NR_MMAP, Sys_mmap),
      (SYS_NR_MUNMAP, Sys_munmap),
      (SYS_NR_EXECVE, Sys_execve),
      (SYS_NR_DUP, Sys_dup),
      (SYS_NR_DUP2, Sys_dup2),
      (SYS_NR_PIPE, Sys_pipe)]"

definition syscall_init :: "syscall list" where
  "syscall_init = fold (\<lambda>(nr, h) t. t[unat nr := h]) syscall_entries (replicate SYSCALL_SIZE Sys_default)"

text \<open>The trap's entry: the number is checked and the handler fetched from the table.\<close>

definition dispatch :: "syscall list \<Rightarrow> u32 \<Rightarrow> syscall res" where
  "dispatch table nr = bnd (syscall_check nr) (\<lambda>_. rd table (unat nr))"

subsection \<open>The stubs\<close>

type_synonym call = "u32 \<times> u32 list"

definition syscall0 :: "u32 \<Rightarrow> call" where "syscall0 nr = (nr, [])"
definition syscall1 :: "u32 \<Rightarrow> u32 \<Rightarrow> call" where "syscall1 nr a = (nr, [a])"
definition syscall2 :: "u32 \<Rightarrow> u32 \<Rightarrow> u32 \<Rightarrow> call" where "syscall2 nr a b = (nr, [a, b])"
definition syscall3 :: "u32 \<Rightarrow> u32 \<Rightarrow> u32 \<Rightarrow> u32 \<Rightarrow> call" where
  "syscall3 nr a b c = (nr, [a, b, c])"
definition syscall6 :: "u32 \<Rightarrow> u32 \<Rightarrow> u32 \<Rightarrow> u32 \<Rightarrow> u32 \<Rightarrow> u32 \<Rightarrow> u32 \<Rightarrow> call" where
  "syscall6 nr a b c d e f = (nr, [a, b, c, d, e, f])"

definition c_test :: "call" where "c_test = syscall0 SYS_NR_TEST"
definition c_yeild :: "call" where "c_yeild = syscall0 SYS_NR_YEILD"
definition c_sleep :: "u32 \<Rightarrow> call" where "c_sleep a = syscall1 SYS_NR_SLEEP a"
definition c_brk :: "u32 \<Rightarrow> call" where "c_brk a = syscall1 SYS_NR_BRK a"
definition c_getpid :: "call" where "c_getpid = syscall0 SYS_NR_GETPID"
definition c_getppid :: "call" where "c_getppid = syscall0 SYS_NR_GETPPID"
definition c_fork :: "call" where "c_fork = syscall0 SYS_NR_FORK"
definition c_exit :: "u32 \<Rightarrow> call" where "c_exit a = syscall1 SYS_NR_EXIT a"
definition c_waitpid :: "u32 \<Rightarrow> u32 \<Rightarrow> call" where "c_waitpid a b = syscall2 SYS_NR_WAITPID a b"
definition c_time :: "call" where "c_time = syscall0 SYS_NR_TIME"
definition c_umask :: "u32 \<Rightarrow> call" where "c_umask a = syscall1 SYS_NR_UMASK a"
definition c_mkdir :: "u32 \<Rightarrow> u32 \<Rightarrow> call" where "c_mkdir a b = syscall2 SYS_NR_MKDIR a b"
definition c_rmdir :: "u32 \<Rightarrow> call" where "c_rmdir a = syscall1 SYS_NR_RMDIR a"
definition c_link :: "u32 \<Rightarrow> u32 \<Rightarrow> call" where "c_link a b = syscall2 SYS_NR_LINK a b"
definition c_unlink :: "u32 \<Rightarrow> call" where "c_unlink a = syscall1 SYS_NR_UNLINK a"
definition c_open :: "u32 \<Rightarrow> u32 \<Rightarrow> u32 \<Rightarrow> call" where "c_open a b c = syscall3 SYS_NR_OPEN a b c"
definition c_creat :: "u32 \<Rightarrow> u32 \<Rightarrow> call" where "c_creat a b = syscall2 SYS_NR_CREAT a b"
definition c_close :: "u32 \<Rightarrow> call" where "c_close a = syscall1 SYS_NR_CLOSE a"
definition c_read :: "u32 \<Rightarrow> u32 \<Rightarrow> u32 \<Rightarrow> call" where "c_read a b c = syscall3 SYS_NR_READ a b c"
definition c_write :: "u32 \<Rightarrow> u32 \<Rightarrow> u32 \<Rightarrow> call" where "c_write a b c = syscall3 SYS_NR_WRITE a b c"
definition c_lseek :: "u32 \<Rightarrow> u32 \<Rightarrow> u32 \<Rightarrow> call" where "c_lseek a b c = syscall3 SYS_NR_LSEEK a b c"
definition c_getcwd :: "u32 \<Rightarrow> u32 \<Rightarrow> call" where "c_getcwd a b = syscall2 SYS_NR_GETCWD a b"
definition c_chdir :: "u32 \<Rightarrow> call" where "c_chdir a = syscall1 SYS_NR_CHDIR a"
definition c_chroot :: "u32 \<Rightarrow> call" where "c_chroot a = syscall1 SYS_NR_CHROOT a"
definition c_readdir :: "u32 \<Rightarrow> u32 \<Rightarrow> u32 \<Rightarrow> call" where "c_readdir a b c = syscall3 SYS_NR_READDIR a b c"
definition c_clear :: "call" where "c_clear = syscall0 SYS_NR_CLEAR"
definition c_stat :: "u32 \<Rightarrow> u32 \<Rightarrow> call" where "c_stat a b = syscall2 SYS_NR_STAT a b"
definition c_fstat :: "u32 \<Rightarrow> u32 \<Rightarrow> call" where "c_fstat a b = syscall2 SYS_NR_FSTAT a b"
definition c_mknod :: "u32 \<Rightarrow> u32 \<Rightarrow> u32 \<Rightarrow> call" where "c_mknod a b c = syscall3 SYS_NR_MKNOD a b c"
definition c_mount :: "u32 \<Rightarrow> u32 \<Rightarrow> u32 \<Rightarrow> call" where "c_mount a b c = syscall3 SYS_NR_MOUNT a b c"
definition c_umount :: "u32 \<Rightarrow> call" where "c_umount a = syscall1 SYS_NR_UMOUNT a"
definition c_mkfs :: "u32 \<Rightarrow> u32 \<Rightarrow> call" where "c_mkfs a b = syscall2 SYS_NR_MKFS a b"
definition c_mmap :: "u32 \<Rightarrow> u32 \<Rightarrow> u32 \<Rightarrow> u32 \<Rightarrow> u32 \<Rightarrow> u32 \<Rightarrow> call" where "c_mmap a b c d e f = syscall6 SYS_NR_MMAP a b c d e f"
definition c_munmap :: "u32 \<Rightarrow> u32 \<Rightarrow> call" where "c_munmap a b = syscall2 SYS_NR_MUNMAP a b"
definition c_execve :: "u32 \<Rightarrow> u32 \<Rightarrow> u32 \<Rightarrow> call" where "c_execve a b c = syscall3 SYS_NR_EXECVE a b c"
definition c_dup :: "u32 \<Rightarrow> call" where "c_dup a = syscall1 SYS_NR_DUP a"
definition c_dup2 :: "u32 \<Rightarrow> u32 \<Rightarrow> call" where "c_dup2 a b = syscall2 SYS_NR_DUP2 a b"
definition c_pipe :: "u32 \<Rightarrow> call" where "c_pipe a = syscall1 SYS_NR_PIPE a"

subsection \<open>Stubs and table agree\<close>

lemma table_nth:
  "k < length t \<Longrightarrow> fold (\<lambda>(nr, h) t. t[unat nr := h]) ps t ! k
     = (case map_of (rev (map (\<lambda>(nr, h). (unat nr, h)) ps)) k of None \<Rightarrow> t ! k | Some h \<Rightarrow> h)"
proof (induction ps arbitrary: t)
  case (Cons p ps)
  then show ?case by (cases p) (auto simp: map_add_def nth_list_update split: option.splits)
qed simp

lemma table_length: "length (fold (\<lambda>(nr, h) t. t[unat nr := h]) ps t) = length t"
  by (induction ps arbitrary: t) auto

lemmas numbers = SYS_NR_TEST_def SYS_NR_EXIT_def SYS_NR_FORK_def SYS_NR_READ_def SYS_NR_WRITE_def SYS_NR_OPEN_def SYS_NR_CLOSE_def SYS_NR_WAITPID_def SYS_NR_CREAT_def SYS_NR_LINK_def SYS_NR_UNLINK_def SYS_NR_EXECVE_def SYS_NR_CHDIR_def SYS_NR_TIME_def SYS_NR_MKNOD_def SYS_NR_STAT_def SYS_NR_LSEEK_def SYS_NR_GETPID_def SYS_NR_MOUNT_def SYS_NR_UMOUNT_def SYS_NR_FSTAT_def SYS_NR_READDIR_def SYS_NR_MMAP_def SYS_NR_MUNMAP_def SYS_NR_MKDIR_def SYS_NR_RMDIR_def SYS_NR_DUP_def SYS_NR_PIPE_def SYS_NR_BRK_def SYS_NR_UMASK_def SYS_NR_CHROOT_def SYS_NR_DUP2_def SYS_NR_GETPPID_def SYS_NR_SLEEP_def SYS_NR_YEILD_def SYS_NR_GETCWD_def SYS_NR_CLEAR_def SYS_NR_MKFS_def

lemmas stubs = c_test_def c_yeild_def c_sleep_def c_brk_def c_getpid_def c_getppid_def c_fork_def c_exit_def c_waitpid_def c_time_def c_umask_def c_mkdir_def c_rmdir_def c_link_def c_unlink_def c_open_def c_creat_def c_close_def c_read_def c_write_def c_lseek_def c_getcwd_def c_chdir_def c_chroot_def c_readdir_def c_clear_def c_stat_def c_fstat_def c_mknod_def c_mount_def c_umount_def c_mkfs_def c_mmap_def c_munmap_def c_execve_def c_dup_def c_dup2_def c_pipe_def
  syscall0_def syscall1_def syscall2_def syscall3_def syscall6_def

lemma dispatch_eq:
  "dispatch syscall_init nr = (if 256 \<le> nr then Inl Panic
     else Inr (case map_of (rev (map (\<lambda>(nr, h). (unat nr, h)) syscall_entries)) (unat nr) of
                 None \<Rightarrow> Sys_default | Some h \<Rightarrow> h))"
proof (cases "256 \<le> nr")
  case False
  then have "unat nr < 256" by (simp add: word_le_nat_alt)
  then show ?thesis
    using False table_nth[of "unat nr" "replicate SYSCALL_SIZE Sys_default" syscall_entries]
    by (simp add: dispatch_def syscall_check_def SYSCALL_SIZE_def rd_def syscall_init_def table_length split: option.split)
qed (simp add: dispatch_def syscall_check_def SYSCALL_SIZE_def)

lemma entry_numbers: "\<forall>p\<in>set syscall_entries. unat (fst p) < 38"
  by (simp add: syscall_entries_def numbers)



end
