(* ===== verification/Programs.thy ===== *)
theory Programs
  imports Vsprintf Syscalls Ops
begin

text \<open>
  A program on the kernel: its memory, the calls it has made, and the kernel as a parameter:
  \<open>kern n c m\<close> is the answer to the \<open>n\<close>-th call \<open>c\<close> with the memory
  it leaves.  \<open>lit\<close> gives the address of a string literal and the printing buffer's is
  \<open>printf_at\<close>, both the linker's choice.  A process that exits is the value \<open>None\<close>.
  \<^verbatim>\<open>printf\<close> is \<^verbatim>\<open>lib/printf.c\<close>.
\<close>

record prog =
  umem :: mem
  calls :: "call list"
  kern :: "nat \<Rightarrow> call \<Rightarrow> mem \<Rightarrow> u32 \<times> mem"
  lit :: "string \<Rightarrow> addr"
  printf_at :: addr

definition sys :: "call \<Rightarrow> 'a prog_scheme \<Rightarrow> (u32 \<times> 'a prog_scheme) res" where
  "sys c s = (let (r, m) = kern s (length (calls s)) c (umem s)
              in Inr (r, s\<lparr>umem := m, calls := calls s @ [c]\<rparr>))"

definition sysv :: "call \<Rightarrow> 'a prog_scheme \<Rightarrow> (unit \<times> 'a prog_scheme) res" where
  "sysv c = act (sys c) (\<lambda>_. ret ())"

definition umem_op :: "(mem \<Rightarrow> 'b option) \<Rightarrow> 'a prog_scheme \<Rightarrow> ('b \<times> 'a prog_scheme) res" where
  "umem_op f s = bnd (run (map_option Inr (f (umem s)))) (\<lambda>x. Inr (x, s))"

definition set_umem :: "(mem \<Rightarrow> mem) \<Rightarrow> 'a prog_scheme \<Rightarrow> (unit \<times> 'a prog_scheme) res" where
  "set_umem f = change (\<lambda>s. s\<lparr>umem := f (umem s)\<rparr>)"

definition load_word :: "addr \<Rightarrow> 'a prog_scheme \<Rightarrow> (u32 \<times> 'a prog_scheme) res" where
  "load_word a = look (\<lambda>s. ld32 (umem s) a)"

definition store_word :: "addr \<Rightarrow> u32 \<Rightarrow> 'a prog_scheme \<Rightarrow> (unit \<times> 'a prog_scheme) res" where
  "store_word a w = set_umem (\<lambda>m. fst (emit (word_bytes w) (m, a)))"

definition the_lit :: "string \<Rightarrow> 'a prog_scheme \<Rightarrow> (u32 \<times> 'a prog_scheme) res" where
  "the_lit t = look (\<lambda>s. of_nat (lit s t))"

text \<open>\<^verbatim>\<open>!strcmp(p, "...")\<close>\<close>

definition same_str :: "addr \<Rightarrow> string \<Rightarrow> 'a prog_scheme \<Rightarrow> (bool \<times> 'a prog_scheme) res" where
  "same_str p t =
     act (look (\<lambda>s. lit s t)) (\<lambda>q. act (umem_op (\<lambda>m. strcmp m p q)) (\<lambda>r. ret (r = 0)))"

definition STDIN_FILENO :: u32 where "STDIN_FILENO = 0"
definition STDOUT_FILENO :: u32 where "STDOUT_FILENO = 1"
definition STDERR_FILENO :: u32 where "STDERR_FILENO = 2"

definition printf :: "addr \<Rightarrow> u32 list \<Rightarrow> 'a prog_scheme \<Rightarrow> (u32 \<times> 'a prog_scheme) res" where
  "printf fmt args =
     act (look (\<lambda>s. (printf_at s, vsprintf (umem s) (printf_at s) fmt args))) (\<lambda>(b, r).
     act (lift r) (\<lambda>(m, i). act (set_umem (\<lambda>_. m)) (\<lambda>_.
     act (sys (c_write STDOUT_FILENO (of_nat b) (of_nat i))) (\<lambda>_. ret (of_nat i)))))"

definition print :: "string \<Rightarrow> u32 list \<Rightarrow> 'a prog_scheme \<Rightarrow> (unit \<times> 'a prog_scheme) res" where
  "print fmt args = act (look (\<lambda>s. lit s fmt)) (\<lambda>f. act (printf f args) (\<lambda>_. ret ()))"

definition sprint :: "addr \<Rightarrow> string \<Rightarrow> u32 list \<Rightarrow> 'a prog_scheme \<Rightarrow> (unit \<times> 'a prog_scheme) res" where
  "sprint b fmt args =
     act (look (\<lambda>s. sprintf (umem s) b (lit s fmt) args)) (\<lambda>r. act (lift r) (\<lambda>(m, i). set_umem (\<lambda>_. m)))"

text \<open>The start code of \<^verbatim>\<open>lib/crt1.c\<close>: the environment follows the arguments.\<close>

definition libc_start_main ::
  "(u32 \<Rightarrow> u32 \<Rightarrow> u32 \<Rightarrow> 'a prog_scheme \<Rightarrow> (u32 option \<times> 'a prog_scheme) res) \<Rightarrow> u32 \<Rightarrow> u32
   \<Rightarrow> 'a prog_scheme \<Rightarrow> (unit \<times> 'a prog_scheme) res" where
  "libc_start_main main argc argv =
     act (main argc argv (argv + 4 * argc + 4)) (\<lambda>r.
     case r of None \<Rightarrow> ret () | Some i \<Rightarrow> sysv (c_exit i))"

end
