(* ===== verification/Diagnostics.thy ===== *)
theory Diagnostics
  imports Console Programs
begin

text \<open>
  What the kernel and the library say when something is wrong: the messages of
  \<^verbatim>\<open>kernel/assert.c\<close>, \<^verbatim>\<open>lib/assert.c\<close>, \<^verbatim>\<open>kernel/debug.c\<close> and of
  \<^verbatim>\<open>exception_handler\<close> in \<^verbatim>\<open>kernel/interrupt.c\<close>, and the test call of
  \<^verbatim>\<open>kernel/gate.c\<close>.  \<open>lits\<close> gives the address of a string literal; \<open>b\<close> is
  \<^verbatim>\<open>printk\<close>'s buffer.  A function that spins ends with \<open>Diverge\<close>, after its message
  is on the console: the state before the end is the argument of its last step.
\<close>

subsection \<open>The kernel\<close>

text \<open>The end of a function that spins: the message is printed first.\<close>

definition spin :: "(string \<Rightarrow> addr) \<Rightarrow> addr \<Rightarrow> string \<Rightarrow> unit consm" where
  "spin lits b name =
     act (printk b (lits ''spinning in %s ...\<newline>'') [of_nat (lits name)]) (\<lambda>_. stop_with Diverge)"

definition assertion_message :: string where
  "assertion_message = ''\<newline>--> assert(%s) failed!!!\<newline>--> file: %s \<newline>--> base: %s \<newline>--> line: %d \<newline>''"

definition assertion_failure :: "(string \<Rightarrow> addr) \<Rightarrow> addr \<Rightarrow> u32 \<Rightarrow> u32 \<Rightarrow> u32 \<Rightarrow> u32 \<Rightarrow> unit consm" where
  "assertion_failure lits b exp fil base line =
     act (printk b (lits assertion_message) [exp, fil, base, line]) (\<lambda>_. spin lits b ''assertion_failure()'')"

text \<open>
  \<^verbatim>\<open>panic\<close> hands its argument pointer to \<^verbatim>\<open>sprintf\<close>, which takes it for the
  first argument: \<open>ap\<close> is that pointer and \<open>stack\<close> the words behind it.
\<close>

definition panic :: "(string \<Rightarrow> addr) \<Rightarrow> addr \<Rightarrow> addr \<Rightarrow> addr \<Rightarrow> u32 \<Rightarrow> u32 list \<Rightarrow> unit consm" where
  "panic lits b pbuf fmt ap stack =
     act (look (\<lambda>s. sprintf (dram s) pbuf fmt (ap # stack))) (\<lambda>r. act (lift r) (\<lambda>(m, i).
     act (change (\<lambda>s. s\<lparr>dram := m\<rparr>)) (\<lambda>_.
     act (printk b (lits ''!!! panic !!!\<newline>--> %s\<newline>'') [of_nat pbuf]) (\<lambda>_. spin lits b ''panic()''))))"

subsection \<open>Exceptions\<close>

definition messages :: "string list" where
  "messages =
     [''Divide Error - #DE'', ''Debug Exception - #DB'', ''Non-maskable Interrupt - #NMI'', ''Breakpoint - #BP'',
      ''Overflow - #OF'', ''BOUND Range Exceeded - #BR'', ''Invalid Opcode - #UD'', ''Device Not Available - #NM'',
      ''Double Fault - #DF'', ''Coprocessor Segment Overrun - #CSO'', ''Invalid TSS - #TS'', ''Segment Not Present - #NP'',
      ''Stack-Segment Fault - #SS'', ''General Protection Fault - #GP'', ''Page Fault - #PF'', ''Reserved'',
      ''x87 FPU Floating-Point Error (Math Fault) - #MF'', ''Alignment Check - #AC'', ''Machine Check - #MC'',
      ''SIMD Floating-Point Exception - #XM/#XF'', ''Virtualization Exception - #VE'', ''Control Protection Exception - #CP'']"

definition exception_message :: "int \<Rightarrow> string res" where
  "exception_message vector =
     (if vector < 22 then if vector < 0 then Inl Fault else rd messages (nat vector) else rd messages 15)"

definition exception_handler ::
  "(string \<Rightarrow> addr) \<Rightarrow> addr \<Rightarrow> int \<Rightarrow> u32 \<Rightarrow> u32 \<Rightarrow> u32 \<Rightarrow> u32 \<Rightarrow> u32 \<Rightarrow> unit consm" where
  "exception_handler lits b vector error eflags cs eip esp =
     (let say = (\<lambda>f xs. printk b (lits f) xs); v = word_of_int vector in
     act (lift (exception_message vector)) (\<lambda>t.
     act (say ''\<newline>Exception: [0x%02x] %s \<newline>'' [v, of_nat (lits t)]) (\<lambda>_.
     act (say ''    VECTOR: 0x%02X\<newline>'' [v]) (\<lambda>_.
     act (say ''    ERROR:  0x%02X\<newline>'' [error]) (\<lambda>_.
     act (say ''    EFLAGS: 0x%02X\<newline>'' [eflags]) (\<lambda>_.
     act (say ''    CS:     0x%02X\<newline>'' [cs]) (\<lambda>_.
     act (say ''    EIP:    0x%02X\<newline>'' [eip]) (\<lambda>_.
     act (say ''    ESP:    0x%02X\<newline>'' [esp]) (\<lambda>_. stop_with Diverge)))))))))"

subsection \<open>Messages to a device\<close>

text \<open>
  \<open>junk\<close> is what a search for a missing device leaves behind, \<^verbatim>\<open>NULL\<close> or a device.
\<close>

definition debugk ::
  "'h machine device option \<Rightarrow> 'h machine device list \<Rightarrow> (string \<Rightarrow> addr) \<Rightarrow> addr \<Rightarrow> u32 \<Rightarrow> u32 \<Rightarrow> addr \<Rightarrow> u32 list
   \<Rightarrow> 'h machine \<Rightarrow> 'h machine res" where
  "debugk junk ds lits dbuf fil line fmt args w =
     (let dv = (case device_find junk ds DEV_SERIAL 0 of Some d \<Rightarrow> Some d | None \<Rightarrow> device_find junk ds DEV_CONSOLE 0);
          out = (\<lambda>w i. case dv of None \<Rightarrow> Inl Fault | Some d \<Rightarrow> device_write ds (ddev d) dbuf (of_nat i) 0 0 w)
      in bnd (sprintf (ram w) dbuf (lits ''[%s] [%d] '') [fil, line]) (\<lambda>(m, i).
         bnd (out (w\<lparr>ram := m\<rparr>) i) (\<lambda>(w, _).
         bnd (vsprintf (ram w) dbuf fmt args) (\<lambda>(m, i).
         bnd (out (w\<lparr>ram := m\<rparr>) i) (\<lambda>(w, _). Inr w)))))"

text \<open>\<open>c\<close> is the address of the local character.\<close>

definition sys_test ::
  "'h machine device option \<Rightarrow> 'h machine device list \<Rightarrow> addr \<Rightarrow> 'h machine \<Rightarrow> (u32 \<times> 'h machine) res" where
  "sys_test junk ds c w =
     (case (device_find junk ds DEV_SERIAL 0, device_find junk ds DEV_KEYBOARD 0, device_find junk ds DEV_CONSOLE 0) of
        (Some ser, Some _, Some con) \<Rightarrow>
          bnd (device_read ds (ddev ser) c 1 0 0 w) (\<lambda>(w, _).
          bnd (device_write ds (ddev ser) c 1 0 0 w) (\<lambda>(w, _).
          bnd (device_write ds (ddev con) c 1 0 0 w) (\<lambda>(w, _). Inr (255, w))))
      | _ \<Rightarrow> Inl Assertion)"

subsection \<open>Programs\<close>

definition prog_spin :: "string \<Rightarrow> 'a prog_scheme \<Rightarrow> (unit \<times> 'a prog_scheme) res" where
  "prog_spin name =
     act (the_lit name) (\<lambda>n. act (print ''spinning in %s ...\<newline>'' [n]) (\<lambda>_. stop_with Diverge))"

definition prog_assertion_failure ::
  "u32 \<Rightarrow> u32 \<Rightarrow> u32 \<Rightarrow> u32 \<Rightarrow> 'a prog_scheme \<Rightarrow> (unit \<times> 'a prog_scheme) res" where
  "prog_assertion_failure exp fil base line =
     act (print assertion_message [exp, fil, base, line]) (\<lambda>_. prog_spin ''assertion_failure()'')"

definition prog_panic :: "addr \<Rightarrow> addr \<Rightarrow> u32 list \<Rightarrow> 'a prog_scheme \<Rightarrow> (unit \<times> 'a prog_scheme) res" where
  "prog_panic pbuf fmt args =
     act (look (\<lambda>s. vsprintf (umem s) pbuf fmt args)) (\<lambda>r. act (lift r) (\<lambda>(m, i).
     act (set_umem (\<lambda>_. m)) (\<lambda>_.
     act (print ''!!! panic !!!\<newline>--> %s \<newline>'' [of_nat pbuf]) (\<lambda>_. prog_spin ''panic()''))))"

end
