(* ===== verification/Serial.thy ===== *)
theory Serial
  imports Drivers
begin

text \<open>
  The two serial lines: \<^verbatim>\<open>kernel/serial.c\<close>.  A line is named by its index, which is
  also its device pointer.  A read or write is cut where its task blocks; it goes on with
  \<open>serial_fill\<close> or \<open>serial_send\<close>, which test again.
\<close>

definition COM1_IOBASE :: u16 where "COM1_IOBASE = 0x3f8"
definition COM2_IOBASE :: u16 where "COM2_IOBASE = 0x2f8"
definition COM_INTR_ENABLE :: u16 where "COM_INTR_ENABLE = 1"
definition COM_BAUD_LSB :: u16 where "COM_BAUD_LSB = 0"
definition COM_BAUD_MSB :: u16 where "COM_BAUD_MSB = 1"
definition COM_LINE_CONTROL :: u16 where "COM_LINE_CONTROL = 3"
definition COM_MODEM_CONTROL :: u16 where "COM_MODEM_CONTROL = 4"
definition COM_LINE_STATUS :: u16 where "COM_LINE_STATUS = 5"
definition LSR_DR :: u8 where "LSR_DR = 1"
definition LSR_THRE :: u8 where "LSR_THRE = 0x20"
definition BUF_LEN :: nat where "BUF_LEN = 64"

record serial =
  iobase :: u16
  rx_fifo :: fifo
  rlock :: lock
  rx_waiter :: addr
  wlock :: lock
  tx_waiter :: addr

record lines = drv +
  serials :: "serial list"

type_synonym 'a serialm = "lines \<Rightarrow> ('a \<times> lines) res"

definition line_at :: "nat \<Rightarrow> serial serialm" where
  "line_at i s = bnd (rd (serials s) i) (\<lambda>x. Inr (x, s))"

definition upd_line :: "nat \<Rightarrow> (serial \<Rightarrow> serial) \<Rightarrow> unit serialm" where
  "upd_line i f s = bnd (rd (serials s) i) (\<lambda>x. Inr ((), s\<lparr>serials := (serials s)[i := f x]\<rparr>))"

text \<open>Waking a line's reader or writer, when one waits.\<close>

definition wake_reader :: "nat \<Rightarrow> unit serialm" where
  "wake_reader i =
     act (line_at i) (\<lambda>x. if rx_waiter x \<noteq> 0
       then act (wake (rx_waiter x)) (\<lambda>_. upd_line i (\<lambda>x. x\<lparr>rx_waiter := 0\<rparr>)) else ret ())"

definition wake_writer :: "nat \<Rightarrow> unit serialm" where
  "wake_writer i =
     act (line_at i) (\<lambda>x. if tx_waiter x \<noteq> 0
       then act (wake (tx_waiter x)) (\<lambda>_. upd_line i (\<lambda>x. x\<lparr>tx_waiter := 0\<rparr>)) else ret ())"

definition recv_data :: "nat \<Rightarrow> unit serialm" where
  "recv_data i =
     act (line_at i) (\<lambda>x. act (in8 (iobase x)) (\<lambda>ch.
     let ch = (if ch = 13 then 10 else ch)
     in act (lift (fifo_put (rx_fifo x) ch)) (\<lambda>q.
        act (upd_line i (\<lambda>x. x\<lparr>rx_fifo := q\<rparr>)) (\<lambda>_. wake_reader i))))"

definition serial_handler :: "int \<Rightarrow> unit serialm" where
  "serial_handler vector =
     (let irq = (word_of_int vector - 0x20 :: u32)
      in act (lift (assrt (irq = of_nat IRQ_SERIAL_1 \<or> irq = of_nat IRQ_SERIAL_2))) (\<lambda>_.
         act (eoi vector) (\<lambda>_.
         let i = unat (irq - of_nat IRQ_SERIAL_1)
         in act (line_at i) (\<lambda>x. act (in8 (iobase x + COM_LINE_STATUS)) (\<lambda>st.
            act (if st AND LSR_DR \<noteq> 0 then recv_data i else ret ()) (\<lambda>_.
            if st AND LSR_THRE \<noteq> 0 then wake_writer i else ret ()))))))"

datatype serial_end = Serial_done u32 | Serial_wait nat | Serial_lock

definition take_rlock :: "nat \<Rightarrow> entry serialm" where
  "take_rlock i =
     act (line_at i) (\<lambda>_. take_lock (\<lambda>s. rlock (serials s ! i)) (\<lambda>l s. s\<lparr>serials := (serials s)[i := (serials s ! i)\<lparr>rlock := l\<rparr>]\<rparr>))"

definition drop_rlock :: "nat \<Rightarrow> unit serialm" where
  "drop_rlock i =
     act (line_at i) (\<lambda>_. drop_lock (\<lambda>s. rlock (serials s ! i)) (\<lambda>l s. s\<lparr>serials := (serials s)[i := (serials s ! i)\<lparr>rlock := l\<rparr>]\<rparr>))"

definition take_wlock :: "nat \<Rightarrow> entry serialm" where
  "take_wlock i =
     act (line_at i) (\<lambda>_. take_lock (\<lambda>s. wlock (serials s ! i)) (\<lambda>l s. s\<lparr>serials := (serials s)[i := (serials s ! i)\<lparr>wlock := l\<rparr>]\<rparr>))"

definition drop_wlock :: "nat \<Rightarrow> unit serialm" where
  "drop_wlock i =
     act (line_at i) (\<lambda>_. drop_lock (\<lambda>s. wlock (serials s ! i)) (\<lambda>l s. s\<lparr>serials := (serials s)[i := (serials s ! i)\<lparr>wlock := l\<rparr>]\<rparr>))"

fun serial_fill :: "nat \<Rightarrow> addr \<Rightarrow> nat \<Rightarrow> nat \<Rightarrow> serial_end serialm" where
  "serial_fill i b nr 0 = act (drop_rlock i) (\<lambda>_. ret (Serial_done (of_nat nr)))"
| "serial_fill i b nr (Suc n) =
     act (line_at i) (\<lambda>x.
     if fifo_empty (rx_fifo x)
     then act (lift (assrt (rx_waiter x = 0))) (\<lambda>_.
          act (look running_task) (\<lambda>t. act (upd_line i (\<lambda>x. x\<lparr>rx_waiter := t\<rparr>)) (\<lambda>_.
          act block_running (\<lambda>_. ret (Serial_wait nr)))))
     else act (lift (fifo_get (rx_fifo x))) (\<lambda>(q, ch).
          act (upd_line i (\<lambda>x. x\<lparr>rx_fifo := q\<rparr>)) (\<lambda>_.
          act (poke (b + nr) [ch]) (\<lambda>_. serial_fill i b (Suc nr) n))))"

definition serial_read :: "nat \<Rightarrow> addr \<Rightarrow> u32 \<Rightarrow> serial_end serialm" where
  "serial_read i b count =
     act (take_rlock i) (\<lambda>r. case r of Lock_wait \<Rightarrow> ret Serial_lock | Entered \<Rightarrow> serial_fill i b 0 (unat count))"

fun serial_send :: "nat \<Rightarrow> addr \<Rightarrow> nat \<Rightarrow> nat \<Rightarrow> serial_end serialm" where
  "serial_send i b nr 0 = act (drop_wlock i) (\<lambda>_. ret (Serial_done (of_nat nr)))"
| "serial_send i b nr (Suc n) =
     act (line_at i) (\<lambda>x. act (in8 (iobase x + COM_LINE_STATUS)) (\<lambda>st.
     if st AND LSR_THRE \<noteq> 0
     then act (look (\<lambda>s. dram s (b + nr))) (\<lambda>ch. act (out8 (iobase x) ch) (\<lambda>_. serial_send i b (Suc nr) n))
     else act (look running_task) (\<lambda>t. act (upd_line i (\<lambda>x. x\<lparr>tx_waiter := t\<rparr>)) (\<lambda>_.
          act block_running (\<lambda>_. ret (Serial_wait nr))))))"

definition serial_write :: "nat \<Rightarrow> addr \<Rightarrow> u32 \<Rightarrow> serial_end serialm" where
  "serial_write i b count =
     act (take_wlock i) (\<lambda>r. case r of Lock_wait \<Rightarrow> ret Serial_lock | Entered \<Rightarrow> serial_send i b 0 (unat count))"

subsection \<open>Setting up\<close>

text \<open>
  \<open>ws i\<close> are the nodes of the waiting lists of line \<open>i\<close>'s two locks.  A chip that
  does not return the test byte in loop-back mode is left out, its registers as they are.
\<close>

definition line_init :: "nat \<Rightarrow> addr \<times> addr \<Rightarrow> unit serialm" where
  "line_init i ws =
     act (upd_line i (\<lambda>x. x\<lparr>rx_fifo := fifo_init (buf (rx_fifo x)) BUF_LEN, rx_waiter := 0\<rparr>)) (\<lambda>_.
     act (change (\<lambda>s. let (l, k) = lock_init (fst ws) (dsch s)
                      in s\<lparr>dsch := k, serials := (serials s)[i := (serials s ! i)\<lparr>rlock := l, tx_waiter := 0\<rparr>]\<rparr>)) (\<lambda>_.
     change (\<lambda>s. let (l, k) = lock_init (snd ws) (dsch s)
                 in s\<lparr>dsch := k, serials := (serials s)[i := (serials s ! i)\<lparr>wlock := l\<rparr>]\<rparr>)))"

definition chip_test :: "u16 \<Rightarrow> bool serialm" where
  "chip_test io =
     act (out8 (io + COM_LINE_CONTROL) 0x80) (\<lambda>_.
     act (out8 (io + COM_BAUD_LSB) 0x30) (\<lambda>_.
     act (out8 (io + COM_BAUD_MSB) 0) (\<lambda>_.
     act (out8 (io + COM_LINE_CONTROL) 3) (\<lambda>_.
     act (out8 (io + COM_INTR_ENABLE) 0xd) (\<lambda>_.
     act (out8 (io + COM_MODEM_CONTROL) 0x1b) (\<lambda>_.
     act (out8 io 0xae) (\<lambda>_.
     act (in8 io) (\<lambda>v. if v \<noteq> 0xae then ret False
       else act (out8 (io + COM_MODEM_CONTROL) 0xb) (\<lambda>_. ret True)))))))))"

definition serial_one ::
  "nat \<Rightarrow> addr \<times> addr \<Rightarrow> handler \<Rightarrow> 'w io_fn \<Rightarrow> 'w io_fn \<Rightarrow> 'w device list \<Rightarrow> 'w device list serialm" where
  "serial_one i ws h rdf wrf ds =
     act (line_init i ws) (\<lambda>_.
     let irq = (if i = 0 then IRQ_SERIAL_1 else IRQ_SERIAL_2); io = (if i = 0 then COM1_IOBASE else COM2_IOBASE)
     in act (upd_line i (\<lambda>x. x\<lparr>iobase := io\<rparr>)) (\<lambda>_.
        act (chip_test io) (\<lambda>ok.
        if \<not> ok then ret ds
        else act (hook irq h) (\<lambda>_. act (unmask irq) (\<lambda>_.
             act (lift (device_install DEV_CHAR DEV_SERIAL i (map of_char ''com'' @ [49 + of_nat i]) 0 None
                    (Some rdf) (Some wrf) ds)) (\<lambda>(ds, _). ret ds))))))"

definition serial_init ::
  "addr \<times> addr \<Rightarrow> addr \<times> addr \<Rightarrow> handler \<Rightarrow> 'w io_fn \<Rightarrow> 'w io_fn \<Rightarrow> 'w device list \<Rightarrow> 'w device list serialm" where
  "serial_init ws0 ws1 h rdf wrf ds =
     act (serial_one 0 ws0 h rdf wrf ds) (\<lambda>ds. serial_one 1 ws1 h rdf wrf ds)"

end
