(* ===== verification/Ide.thy ===== *)
theory Ide
  imports Drivers Ramdisk
begin

text \<open>
  The disk driver: \<^verbatim>\<open>kernel/ide.c\<close>.  A disk is named by its controller's index and
  its own, a partition by its disk and its number.  A transfer is cut where its task blocks for the
  controller's interrupt; \<open>read_sectors\<close> and \<open>write_sectors\<close> say which
  sector it is at, and \<open>read_resume\<close> and \<open>write_resume\<close> go on.  Waiting for
  the controller reads the ports until the answer comes.  The messages of \<^verbatim>\<open>DEBUG\<close> are
  left out.
\<close>

definition IDE_IOBASE_PRIMARY :: u16 where "IDE_IOBASE_PRIMARY = 0x1f0"
definition IDE_IOBASE_SECONDARY :: u16 where "IDE_IOBASE_SECONDARY = 0x170"
definition IDE_DATA :: u16 where "IDE_DATA = 0"
definition IDE_ERR :: u16 where "IDE_ERR = 1"
definition IDE_FEATURE :: u16 where "IDE_FEATURE = 1"
definition IDE_SECTOR :: u16 where "IDE_SECTOR = 2"
definition IDE_LBA_LOW :: u16 where "IDE_LBA_LOW = 3"
definition IDE_LBA_MID :: u16 where "IDE_LBA_MID = 4"
definition IDE_LBA_HIGH :: u16 where "IDE_LBA_HIGH = 5"
definition IDE_HDDEVSEL :: u16 where "IDE_HDDEVSEL = 6"
definition IDE_STATUS :: u16 where "IDE_STATUS = 7"
definition IDE_COMMAND :: u16 where "IDE_COMMAND = 7"
definition IDE_ALT_STATUS :: u16 where "IDE_ALT_STATUS = 0x206"
definition IDE_CONTROL :: u16 where "IDE_CONTROL = 0x206"
definition IDE_CMD_READ :: u8 where "IDE_CMD_READ = 0x20"
definition IDE_CMD_WRITE :: u8 where "IDE_CMD_WRITE = 0x30"
definition IDE_CMD_IDENTIFY :: u8 where "IDE_CMD_IDENTIFY = 0xec"
definition IDE_SR_NULL :: u8 where "IDE_SR_NULL = 0"
definition IDE_SR_ERR :: u8 where "IDE_SR_ERR = 1"
definition IDE_SR_DRQ :: u8 where "IDE_SR_DRQ = 8"
definition IDE_SR_DRDY :: u8 where "IDE_SR_DRDY = 0x40"
definition IDE_SR_BSY :: u8 where "IDE_SR_BSY = 0x80"
definition IDE_CTRL_SRST :: u8 where "IDE_CTRL_SRST = 4"
definition IDE_LBA_MASTER :: u8 where "IDE_LBA_MASTER = 0xe0"
definition IDE_LBA_SLAVE :: u8 where "IDE_LBA_SLAVE = 0xf0"
definition PART_FS_ENTENDED :: u32 where "PART_FS_ENTENDED = 5"
definition IDE_CTRL_NR :: nat where "IDE_CTRL_NR = 2"
definition IDE_DISK_NR :: nat where "IDE_DISK_NR = 2"
definition IDE_PART_NR :: nat where "IDE_PART_NR = 4"

record ide_part =
  pt_name :: "u8 list"
  pt_disk :: "nat \<times> nat"
  pt_system :: u32
  pt_start :: u32
  pt_count :: u32

record ide_disk =
  dk_name :: "u8 list"
  dk_ctrl :: nat
  dk_selector :: u8
  dk_master :: bool
  total_lba :: u32
  cylinders :: u32
  heads :: u32
  sectors :: u32
  parts :: "ide_part list"

record ide_ctrl =
  ct_name :: "u8 list"
  ct_lock :: lock
  ct_iobase :: u16
  ct_disks :: "ide_disk list"
  ct_active :: "(nat \<times> nat) option"
  ct_control :: u8
  ct_waiter :: addr

record ide = drv +
  controllers :: "ide_ctrl list"

type_synonym 'a idem = "ide \<Rightarrow> ('a \<times> ide) res"

definition ctrl_at :: "nat \<Rightarrow> ide_ctrl idem" where
  "ctrl_at c s = bnd (rd (controllers s) c) (\<lambda>x. Inr (x, s))"

definition upd_ctrl :: "nat \<Rightarrow> (ide_ctrl \<Rightarrow> ide_ctrl) \<Rightarrow> unit idem" where
  "upd_ctrl c f s = bnd (rd (controllers s) c) (\<lambda>x. Inr ((), s\<lparr>controllers := (controllers s)[c := f x]\<rparr>))"

definition disk_at :: "nat \<times> nat \<Rightarrow> ide_disk idem" where
  "disk_at d = act (ctrl_at (fst d)) (\<lambda>c. lift (rd (ct_disks c) (snd d)))"

definition upd_disk :: "nat \<times> nat \<Rightarrow> (ide_disk \<Rightarrow> ide_disk) \<Rightarrow> unit idem" where
  "upd_disk d f =
     act (disk_at d) (\<lambda>x. upd_ctrl (fst d) (\<lambda>c. c\<lparr>ct_disks := (ct_disks c)[snd d := f x]\<rparr>))"

definition part_at :: "nat \<times> nat \<Rightarrow> nat \<Rightarrow> ide_part idem" where
  "part_at d i = act (disk_at d) (\<lambda>x. lift (rd (parts x) i))"

text \<open>The port \<open>r\<close> of the controller \<open>c\<close>.\<close>

definition reg_in :: "nat \<Rightarrow> u16 \<Rightarrow> u8 idem" where
  "reg_in c r = act (ctrl_at c) (\<lambda>x. in8 (ct_iobase x + r))"

definition reg_out :: "nat \<Rightarrow> u16 \<Rightarrow> u8 \<Rightarrow> unit idem" where
  "reg_out c r v = act (ctrl_at c) (\<lambda>x. out8 (ct_iobase x + r) v)"

definition ide_handler :: "int \<Rightarrow> unit idem" where
  "ide_handler vector =
     act (eoi vector) (\<lambda>_.
     let c = vector - int IRQ_HARDDISK - 0x20
     in if c < 0 then stop_with Fault
        else act (reg_in (nat c) IDE_STATUS) (\<lambda>_.
             act (ctrl_at (nat c)) (\<lambda>x.
             if ct_waiter x \<noteq> 0
             then act (wake (ct_waiter x)) (\<lambda>_. upd_ctrl (nat c) (\<lambda>x. x\<lparr>ct_waiter := 0\<rparr>))
             else ret ())))"

text \<open>The error register is read for its message only.\<close>

definition ide_error :: "nat \<Rightarrow> unit idem" where
  "ide_error c = act (reg_in c IDE_ERR) (\<lambda>_. ret ())"

partial_function (option) busy_loop :: "nat \<Rightarrow> u8 \<Rightarrow> ide \<Rightarrow> (unit \<times> ide) res option" where
  "busy_loop c msk s =
     (case act (reg_in c IDE_ALT_STATUS) (\<lambda>st. act (if st AND IDE_SR_ERR \<noteq> 0 then ide_error c else ret ()) (\<lambda>_. ret st)) s of
        Inl e \<Rightarrow> Some (Inl e)
      | Inr (st, s) \<Rightarrow>
          if st AND IDE_SR_BSY = 0 \<and> st AND msk = msk then Some (Inr ((), s)) else busy_loop c msk s)"

definition ide_busy_wait :: "nat \<Rightarrow> u8 \<Rightarrow> unit idem" where
  "ide_busy_wait c msk s = run (busy_loop c msk s)"

definition ide_reset_controller :: "nat \<Rightarrow> unit idem" where
  "ide_reset_controller c =
     act (reg_out c IDE_CONTROL IDE_CTRL_SRST) (\<lambda>_.
     act (ide_busy_wait c IDE_SR_NULL) (\<lambda>_.
     act (ctrl_at c) (\<lambda>x. act (reg_out c IDE_CONTROL (ct_control x)) (\<lambda>_.
     ide_busy_wait c IDE_SR_NULL))))"

definition ide_select_drive :: "nat \<times> nat \<Rightarrow> unit idem" where
  "ide_select_drive d =
     act (disk_at d) (\<lambda>x. act (reg_out (fst d) IDE_HDDEVSEL (dk_selector x)) (\<lambda>_.
     upd_ctrl (fst d) (\<lambda>c. c\<lparr>ct_active := Some d\<rparr>)))"

definition ide_select_sector :: "nat \<times> nat \<Rightarrow> u32 \<Rightarrow> u8 \<Rightarrow> unit idem" where
  "ide_select_sector d lba count =
     (let c = fst d in
     act (reg_out c IDE_FEATURE 0) (\<lambda>_.
     act (reg_out c IDE_SECTOR count) (\<lambda>_.
     act (reg_out c IDE_LBA_LOW (ucast (lba AND 0xff))) (\<lambda>_.
     act (reg_out c IDE_LBA_MID (ucast (drop_bit 8 lba AND 0xff))) (\<lambda>_.
     act (reg_out c IDE_LBA_HIGH (ucast (drop_bit 16 lba AND 0xff))) (\<lambda>_.
     act (disk_at d) (\<lambda>x.
     act (reg_out c IDE_HDDEVSEL (ucast (drop_bit 24 lba AND 0xf) OR dk_selector x)) (\<lambda>_.
     upd_ctrl c (\<lambda>x. x\<lparr>ct_active := Some d\<rparr>)))))))))"

fun in_words :: "u16 \<Rightarrow> addr \<Rightarrow> nat \<Rightarrow> unit idem" where
  "in_words p a 0 = ret ()"
| "in_words p a (Suc n) =
     act (in16 p) (\<lambda>w. act (poke a [ucast w, ucast (drop_bit 8 w)]) (\<lambda>_. in_words p (a + 2) n))"

fun out_words :: "u16 \<Rightarrow> addr \<Rightarrow> nat \<Rightarrow> unit idem" where
  "out_words p a 0 = ret ()"
| "out_words p a (Suc n) =
     act (look (\<lambda>s. ucast (dram s a) OR push_bit 8 (ucast (dram s (a + 1))))) (\<lambda>w.
     act (out16 p w) (\<lambda>_. out_words p (a + 2) n))"

definition ide_pio_read_sector :: "nat \<times> nat \<Rightarrow> addr \<Rightarrow> unit idem" where
  "ide_pio_read_sector d a =
     act (ctrl_at (fst d)) (\<lambda>c. in_words (ct_iobase c + IDE_DATA) a (unat SECTOR_SIZE div 2))"

definition ide_pio_write_sector :: "nat \<times> nat \<Rightarrow> addr \<Rightarrow> unit idem" where
  "ide_pio_write_sector d a =
     act (ctrl_at (fst d)) (\<lambda>c. out_words (ct_iobase c + IDE_DATA) a (unat SECTOR_SIZE div 2))"

subsection \<open>Transfers\<close>

text \<open>\<open>Disk_wait i\<close>: sector \<open>i\<close> has been asked for or sent, and its task waits.\<close>

datatype disk_end = Disk_done | Disk_wait nat | Disk_lock

definition ctrl_enter :: "nat \<Rightarrow> entry idem" where
  "ctrl_enter c =
     act (ctrl_at c) (\<lambda>_. take_lock (\<lambda>s. ct_lock (controllers s ! c))
       (\<lambda>l s. s\<lparr>controllers := (controllers s)[c := (controllers s ! c)\<lparr>ct_lock := l\<rparr>]\<rparr>))"

definition ctrl_leave :: "nat \<Rightarrow> unit idem" where
  "ctrl_leave c =
     act (ctrl_at c) (\<lambda>_. drop_lock (\<lambda>s. ct_lock (controllers s ! c))
       (\<lambda>l s. s\<lparr>controllers := (controllers s)[c := (controllers s ! c)\<lparr>ct_lock := l\<rparr>]\<rparr>))"

text \<open>A running task waits for the interrupt; during start-up there is none and the wait is busy.\<close>

definition is_running :: "ide \<Rightarrow> bool" where
  "is_running s = (state (tcb (dsch s) (current (dsch s))) = TASK_RUNNING)"

definition wait_interrupt :: "nat \<Rightarrow> unit idem" where
  "wait_interrupt c =
     act (look running_task) (\<lambda>t. act (upd_ctrl c (\<lambda>x. x\<lparr>ct_waiter := t\<rparr>)) (\<lambda>_. block_running))"

definition sector_addr :: "u32 \<Rightarrow> nat \<Rightarrow> addr" where
  "sector_addr b i = unat (b + of_nat i * SECTOR_SIZE)"

fun read_sectors :: "nat \<times> nat \<Rightarrow> u32 \<Rightarrow> nat \<Rightarrow> nat \<Rightarrow> disk_end idem" where
  "read_sectors d b i 0 = act (ctrl_leave (fst d)) (\<lambda>_. ret Disk_done)"
| "read_sectors d b i (Suc n) =
     act (look is_running) (\<lambda>r.
     if r then act (wait_interrupt (fst d)) (\<lambda>_. ret (Disk_wait i))
     else act (ide_busy_wait (fst d) IDE_SR_DRQ) (\<lambda>_.
          act (ide_pio_read_sector d (sector_addr b i)) (\<lambda>_. read_sectors d b (Suc i) n)))"

definition read_resume :: "nat \<times> nat \<Rightarrow> u32 \<Rightarrow> nat \<Rightarrow> nat \<Rightarrow> disk_end idem" where
  "read_resume d b i n =
     act (ide_busy_wait (fst d) IDE_SR_DRQ) (\<lambda>_.
     act (ide_pio_read_sector d (sector_addr b i)) (\<lambda>_. read_sectors d b (Suc i) n))"

fun write_sectors :: "nat \<times> nat \<Rightarrow> u32 \<Rightarrow> nat \<Rightarrow> nat \<Rightarrow> disk_end idem" where
  "write_sectors d b i 0 = act (ctrl_leave (fst d)) (\<lambda>_. ret Disk_done)"
| "write_sectors d b i (Suc n) =
     act (ide_pio_write_sector d (sector_addr b i)) (\<lambda>_.
     act (look is_running) (\<lambda>r.
     if r then act (wait_interrupt (fst d)) (\<lambda>_. ret (Disk_wait i))
     else act (ide_busy_wait (fst d) IDE_SR_NULL) (\<lambda>_. write_sectors d b (Suc i) n)))"

definition write_resume :: "nat \<times> nat \<Rightarrow> u32 \<Rightarrow> nat \<Rightarrow> nat \<Rightarrow> disk_end idem" where
  "write_resume d b i n = act (ide_busy_wait (fst d) IDE_SR_NULL) (\<lambda>_. write_sectors d b (Suc i) n)"

text \<open>The command, once the controller's lock is held.\<close>

definition ide_command :: "nat \<times> nat \<Rightarrow> u8 \<Rightarrow> u32 \<Rightarrow> u8 \<Rightarrow> unit idem" where
  "ide_command d count lba cmd =
     act (ide_select_drive d) (\<lambda>_.
     act (ide_busy_wait (fst d) IDE_SR_DRDY) (\<lambda>_.
     act (ide_select_sector d lba count) (\<lambda>_. reg_out (fst d) IDE_COMMAND cmd)))"

definition no_interrupts :: "u8 \<Rightarrow> unit idem" where
  "no_interrupts count =
     act (lift (assrt (count > 0))) (\<lambda>_. act (look (\<lambda>s. intr (dsch s))) (\<lambda>i. lift (assrt (\<not> i))))"

definition ide_pio_read :: "nat \<times> nat \<Rightarrow> u32 \<Rightarrow> u8 \<Rightarrow> u32 \<Rightarrow> disk_end idem" where
  "ide_pio_read d b count lba =
     act (no_interrupts count) (\<lambda>_.
     act (disk_at d) (\<lambda>_. act (ctrl_enter (fst d)) (\<lambda>r.
     case r of
       Lock_wait \<Rightarrow> ret Disk_lock
     | Entered \<Rightarrow> act (ide_command d count lba IDE_CMD_READ) (\<lambda>_. read_sectors d b 0 (unat count)))))"

definition ide_pio_write :: "nat \<times> nat \<Rightarrow> u32 \<Rightarrow> u8 \<Rightarrow> u32 \<Rightarrow> disk_end idem" where
  "ide_pio_write d b count lba =
     act (no_interrupts count) (\<lambda>_.
     act (disk_at d) (\<lambda>_. act (ctrl_enter (fst d)) (\<lambda>r.
     case r of
       Lock_wait \<Rightarrow> ret Disk_lock
     | Entered \<Rightarrow> act (ide_command d count lba IDE_CMD_WRITE) (\<lambda>_. write_sectors d b 0 (unat count)))))"

definition ide_pio_part_read :: "(nat \<times> nat) \<times> nat \<Rightarrow> u32 \<Rightarrow> u8 \<Rightarrow> u32 \<Rightarrow> disk_end idem" where
  "ide_pio_part_read p b count lba =
     act (part_at (fst p) (snd p)) (\<lambda>x. ide_pio_read (pt_disk x) b count (pt_start x + lba))"

definition ide_pio_part_write :: "(nat \<times> nat) \<times> nat \<Rightarrow> u32 \<Rightarrow> u8 \<Rightarrow> u32 \<Rightarrow> disk_end idem" where
  "ide_pio_part_write p b count lba =
     act (part_at (fst p) (snd p)) (\<lambda>x. ide_pio_write (pt_disk x) b count (pt_start x + lba))"

definition ide_pio_ioctl :: "nat \<times> nat \<Rightarrow> int \<Rightarrow> int idem" where
  "ide_pio_ioctl d cmd =
     act (disk_at d) (\<lambda>x.
     if cmd = DEV_CMD_SECTOR_START then ret 0
     else if cmd = DEV_CMD_SECTOR_COUNT then ret (sint (total_lba x))
     else stop_with Panic)"

definition ide_pio_part_ioctl :: "(nat \<times> nat) \<times> nat \<Rightarrow> int \<Rightarrow> int idem" where
  "ide_pio_part_ioctl p cmd =
     act (part_at (fst p) (snd p)) (\<lambda>x.
     if cmd = DEV_CMD_SECTOR_START then ret (sint (pt_start x))
     else if cmd = DEV_CMD_SECTOR_COUNT then ret (sint (pt_count x))
     else stop_with Panic)"

subsection \<open>Start-up\<close>

text \<open>
  The identification block and the boot sector are read through pointers into the page at
  \<open>b\<close>: the serial number at byte 20, the firmware at 46, the model at 54, the sector count at
  120, the partition entries of 16 bytes from byte 446 on.
\<close>

fun swap_loop :: "addr \<Rightarrow> nat \<Rightarrow> mem \<Rightarrow> mem" where
  "swap_loop a 0 m = m"
| "swap_loop a (Suc n) m = swap_loop (a + 2) n (m(a := m (a + 1), a + 1 := m a))"

definition ide_swap_pairs :: "addr \<Rightarrow> nat \<Rightarrow> mem \<Rightarrow> mem" where
  "ide_swap_pairs a len m = (swap_loop a ((len + 1) div 2) m)(a + len - 1 := 0)"

definition ld_half :: "mem \<Rightarrow> addr \<Rightarrow> u16" where
  "ld_half m a = ucast (m a) OR push_bit 8 (ucast (m (a + 1)))"

definition ident_ok :: "u32 \<Rightarrow> bool" where
  "ident_ok lba = (lba \<noteq> 0 \<and> \<not> lba > push_bit 28 1)"

definition swap_ident :: "addr \<Rightarrow> mem \<Rightarrow> mem" where
  "swap_ident b m = ide_swap_pairs (b + 54) 40 (ide_swap_pairs (b + 46) 8 (ide_swap_pairs (b + 20) 20 m))"

text \<open>The lock was set up just before, so nothing is waited for.\<close>

definition ide_identify :: "nat \<times> nat \<Rightarrow> addr \<Rightarrow> u32 idem" where
  "ide_identify d b =
     act (ctrl_enter (fst d)) (\<lambda>r.
     case r of Lock_wait \<Rightarrow> stop_with Diverge | Entered \<Rightarrow>
     act (ide_select_drive d) (\<lambda>_.
     act (reg_out (fst d) IDE_COMMAND IDE_CMD_IDENTIFY) (\<lambda>_.
     act (ide_busy_wait (fst d) IDE_SR_NULL) (\<lambda>_.
     act (ide_pio_read_sector d b) (\<lambda>_.
     act (look (\<lambda>s. ld32 (dram s) (b + 120))) (\<lambda>lba.
     act (if ident_ok lba
          then act (change (\<lambda>s. s\<lparr>dram := swap_ident b (dram s)\<rparr>)) (\<lambda>_.
               act (look dram) (\<lambda>m.
               act (upd_disk d (\<lambda>x. x\<lparr>total_lba := ld32 m (b + 120), cylinders := ucast (ld_half m (b + 2)),
                      heads := ucast (ld_half m (b + 6)), sectors := ucast (ld_half m (b + 12))\<rparr>)) (\<lambda>_. ret 0)))
          else act (if lba = 0 then ret () else poke (b + 120) [0, 0, 0, 0]) (\<lambda>_. ret 0xffffffff)) (\<lambda>r.
     act (ctrl_leave (fst d)) (\<lambda>_. ret r))))))))"

text \<open>A read during start-up, where nothing blocks.\<close>

definition read_now :: "nat \<times> nat \<Rightarrow> u32 \<Rightarrow> u32 \<Rightarrow> unit idem" where
  "read_now d b lba =
     act (ide_pio_read d b 1 lba) (\<lambda>r. case r of Disk_done \<Rightarrow> ret () | _ \<Rightarrow> stop_with Diverge)"

definition part_entry :: "mem \<Rightarrow> addr \<Rightarrow> nat \<Rightarrow> u32 \<times> u32 \<times> u32" where
  "part_entry m b i =
     (let a = b + 446 + 16 * i in (ucast (m (a + 4)), ld32 m (a + 8), ld32 m (a + 12)))"

fun part_loop :: "nat \<times> nat \<Rightarrow> u32 \<Rightarrow> nat \<Rightarrow> nat \<Rightarrow> unit idem" where
  "part_loop d b i 0 = ret ()"
| "part_loop d b i (Suc n) =
     act (look (\<lambda>s. part_entry (dram s) (unat b) i)) (\<lambda>(system, start, count).
     if count = 0 then part_loop d b (Suc i) n
     else act (disk_at d) (\<lambda>x. act (part_at d i) (\<lambda>_.
          act (upd_disk d (\<lambda>x. x\<lparr>parts := (parts x)[i := \<lparr>pt_name = dk_name x @ [49 + of_nat i], pt_disk = d,
                 pt_system = system, pt_start = start, pt_count = count\<rparr>]\<rparr>)) (\<lambda>_.
          act (if system = PART_FS_ENTENDED then read_now d (b + 2 * SECTOR_SIZE) start else ret ()) (\<lambda>_.
          part_loop d b (Suc i) n)))))"

definition ide_part_init :: "nat \<times> nat \<Rightarrow> u32 \<Rightarrow> unit idem" where
  "ide_part_init d b =
     act (disk_at d) (\<lambda>x.
     if total_lba x = 0 then ret ()
     else act (read_now d b 0) (\<lambda>_. part_loop d b 0 IDE_PART_NR))"

definition disk_init :: "nat \<Rightarrow> nat \<Rightarrow> u32 \<Rightarrow> unit idem" where
  "disk_init c di b =
     act (upd_disk (c, di) (\<lambda>x. x\<lparr>dk_name := [104, 100, 97 + of_nat (c * 2 + di)], dk_ctrl := c,
            dk_master := (di = 0), dk_selector := (if di = 0 then IDE_LBA_MASTER else IDE_LBA_SLAVE)\<rparr>)) (\<lambda>_.
     act (ide_identify (c, di) (unat b)) (\<lambda>_. ide_part_init (c, di) b))"

definition one_ctrl_init :: "nat \<Rightarrow> addr \<Rightarrow> u32 \<Rightarrow> unit idem" where
  "one_ctrl_init c w b =
     act (upd_ctrl c (\<lambda>x. x\<lparr>ct_name := map of_char ''ide'' @ [48 + of_nat c]\<rparr>)) (\<lambda>_.
     act (change (\<lambda>s. let (l, k) = lock_init w (dsch s)
                      in s\<lparr>dsch := k, controllers := (controllers s)[c := (controllers s ! c)\<lparr>ct_lock := l\<rparr>]\<rparr>)) (\<lambda>_.
     act (upd_ctrl c (\<lambda>x. x\<lparr>ct_active := None, ct_waiter := 0,
            ct_iobase := (if c \<noteq> 0 then IDE_IOBASE_SECONDARY else IDE_IOBASE_PRIMARY)\<rparr>)) (\<lambda>_.
     act (reg_in c IDE_CONTROL) (\<lambda>v. act (upd_ctrl c (\<lambda>x. x\<lparr>ct_control := v\<rparr>)) (\<lambda>_.
     act (disk_init c 0 b) (\<lambda>_. disk_init c 1 b))))))"

definition ide_ctrl_init :: "addr \<Rightarrow> addr \<Rightarrow> unit idem" where
  "ide_ctrl_init w0 w1 =
     act (\<lambda>s. bnd (alloc_kpage (mm (dsch s)) 1) (\<lambda>(m, b). Inr (b, s\<lparr>dsch := (dsch s)\<lparr>mm := m\<rparr>\<rparr>))) (\<lambda>b.
     act (one_ctrl_init 0 w0 b) (\<lambda>_. act (one_ctrl_init 1 w1 b) (\<lambda>_.
     on_sched (\<lambda>k. bnd (free_kpage (mm k) b 1) (\<lambda>m. Inr (k\<lparr>mm := m\<rparr>))))))"

text \<open>
  Installing the devices: \<open>ptr\<close> is the pointer a disk or a partition has in the device table
  and \<open>fns\<close> are the functions of disks and of partitions.
\<close>

type_synonym 'w fns = "'w ioctl_fn \<times> 'w io_fn \<times> 'w io_fn"

fun install_parts ::
  "((nat \<times> nat) \<times> nat \<Rightarrow> addr) \<Rightarrow> 'w fns \<Rightarrow> nat \<times> nat \<Rightarrow> int \<Rightarrow> ide_part list \<Rightarrow> nat \<Rightarrow> 'w device list \<Rightarrow> 'w device list res" where
  "install_parts ptr f d dev [] i ds = Inr ds"
| "install_parts ptr f d dev (p # ps) i ds =
     (if pt_count p = 0 then install_parts ptr f d dev ps (Suc i) ds
      else bnd (device_install DEV_BLOCK DEV_IDE_PART (ptr (d, i)) (pt_name p) dev
                 (Some (fst f)) (Some (fst (snd f))) (Some (snd (snd f))) ds) (\<lambda>(ds, _).
           install_parts ptr f d dev ps (Suc i) ds))"

definition install_disk ::
  "(nat \<times> nat \<Rightarrow> addr) \<Rightarrow> ((nat \<times> nat) \<times> nat \<Rightarrow> addr) \<Rightarrow> 'w fns \<Rightarrow> 'w fns \<Rightarrow> nat \<times> nat \<Rightarrow> 'w device list
   \<Rightarrow> 'w device list idem" where
  "install_disk dkp ptr f g d ds =
     act (disk_at d) (\<lambda>x.
     if total_lba x = 0 then ret ds
     else lift (bnd (device_install DEV_BLOCK DEV_IDE_DISK (dkp d) (dk_name x) 0
                      (Some (fst f)) (Some (fst (snd f))) (Some (snd (snd f))) ds) (\<lambda>(ds, dev).
                install_parts ptr g d dev (take IDE_PART_NR (parts x)) 0 ds)))"

definition ide_install ::
  "(nat \<times> nat \<Rightarrow> addr) \<Rightarrow> ((nat \<times> nat) \<times> nat \<Rightarrow> addr) \<Rightarrow> 'w fns \<Rightarrow> 'w fns \<Rightarrow> 'w device list \<Rightarrow> 'w device list idem" where
  "ide_install dkp ptr f g ds =
     act (install_disk dkp ptr f g (0, 0) ds) (\<lambda>ds.
     act (install_disk dkp ptr f g (0, 1) ds) (\<lambda>ds.
     act (install_disk dkp ptr f g (1, 0) ds) (\<lambda>ds.
     install_disk dkp ptr f g (1, 1) ds)))"

definition ide_init ::
  "addr \<Rightarrow> addr \<Rightarrow> handler \<Rightarrow> (nat \<times> nat \<Rightarrow> addr) \<Rightarrow> ((nat \<times> nat) \<times> nat \<Rightarrow> addr) \<Rightarrow> 'w fns \<Rightarrow> 'w fns
   \<Rightarrow> 'w device list \<Rightarrow> 'w device list idem" where
  "ide_init w0 w1 h dkp ptr f g ds =
     act (ide_ctrl_init w0 w1) (\<lambda>_.
     act (ide_install dkp ptr f g ds) (\<lambda>ds.
     act (hook IRQ_HARDDISK h) (\<lambda>_. act (hook IRQ_HARDDISK2 h) (\<lambda>_.
     act (unmask IRQ_HARDDISK) (\<lambda>_. act (unmask IRQ_HARDDISK2) (\<lambda>_. act (unmask IRQ_CASCADE) (\<lambda>_. ret ds)))))))"

end
