(* ===== verification/Gdt.thy ===== *)
theory Gdt
  imports Task
begin

text \<open>
  The segment descriptors and the task state segment: \<^verbatim>\<open>kernel/global.c\<close>.  The
  state segment is its 27 words; \<^verbatim>\<open>ss0\<close> is the third, and \<^verbatim>\<open>iobase\<close>
  the upper half of the one at byte 100.  The loading of the task register is a single instruction.
\<close>

record descriptor =
  limit_low :: u16
  base_low :: u32
  dtyp :: u8
  dsegment :: bool
  dDPL :: u8
  dpresent :: bool
  limit_high :: u8
  long_mode :: bool
  big :: bool
  granularity :: bool
  base_high :: u8

definition zero_descriptor :: descriptor where
  "zero_descriptor = \<lparr>limit_low = 0, base_low = 0, dtyp = 0, dsegment = False, dDPL = 0, dpresent = False,
     limit_high = 0, long_mode = False, big = False, granularity = False, base_high = 0\<rparr>"

definition GDT_SIZE :: nat where "GDT_SIZE = 128"
definition DESCRIPTOR_SIZE :: u32 where "DESCRIPTOR_SIZE = 8"
definition KERNEL_CODE_IDX :: nat where "KERNEL_CODE_IDX = 1"
definition KERNEL_DATA_IDX :: nat where "KERNEL_DATA_IDX = 2"
definition KERNEL_TSS_IDX :: nat where "KERNEL_TSS_IDX = 3"
definition USER_CODE_IDX :: nat where "USER_CODE_IDX = 4"
definition USER_DATA_IDX :: nat where "USER_DATA_IDX = 5"
definition KERNEL_CODE_SELECTOR :: u32 where "KERNEL_CODE_SELECTOR = push_bit 3 (of_nat KERNEL_CODE_IDX)"
definition KERNEL_DATA_SELECTOR :: u32 where "KERNEL_DATA_SELECTOR = push_bit 3 (of_nat KERNEL_DATA_IDX)"

record tables =
  gdt :: "descriptor list"
  gdt_limit :: u16
  gdt_base :: u32
  tss :: "u32 list"

definition descriptor_init :: "u32 \<Rightarrow> u32 \<Rightarrow> descriptor \<Rightarrow> descriptor" where
  "descriptor_init bas limit d =
     d\<lparr>base_low := bas AND 0xffffff, base_high := ucast (drop_bit 24 bas AND 0xff),
       limit_low := ucast (limit AND 0xffff), limit_high := ucast (drop_bit 16 limit AND 0xf)\<rparr>"

text \<open>A flat segment of 4 KB units; the four differ in their privilege and type.\<close>

definition flat_segment :: "u8 \<Rightarrow> u8 \<Rightarrow> descriptor \<Rightarrow> descriptor" where
  "flat_segment dpl typ d =
     (descriptor_init 0 0xfffff d)\<lparr>dsegment := True, granularity := True, big := True, long_mode := False,
        dpresent := True, dDPL := dpl, dtyp := typ\<rparr>"

definition set_desc :: "nat \<Rightarrow> (descriptor \<Rightarrow> descriptor) \<Rightarrow> tables \<Rightarrow> tables" where
  "set_desc i f t = t\<lparr>gdt := (gdt t)[i := f (gdt t ! i)]\<rparr>"

definition gdt_init :: "u32 \<Rightarrow> tables \<Rightarrow> tables" where
  "gdt_init a t =
     (let t = t\<lparr>gdt := replicate GDT_SIZE zero_descriptor\<rparr>;
          t = set_desc KERNEL_CODE_IDX (flat_segment 0 0xa) t;
          t = set_desc KERNEL_DATA_IDX (flat_segment 0 2) t;
          t = set_desc USER_CODE_IDX (flat_segment 3 0xa) t;
          t = set_desc USER_DATA_IDX (flat_segment 3 2) t
      in t\<lparr>gdt_base := a, gdt_limit := ucast (of_nat GDT_SIZE * DESCRIPTOR_SIZE - 1)\<rparr>)"

definition TSS_SIZE :: u32 where "TSS_SIZE = 108"

definition tss_init :: "u32 \<Rightarrow> tables \<Rightarrow> tables" where
  "tss_init a t =
     (let t = t\<lparr>tss := (replicate 27 0)[2 := KERNEL_DATA_SELECTOR, 25 := push_bit 16 TSS_SIZE]\<rparr>
      in set_desc KERNEL_TSS_IDX (\<lambda>d. (descriptor_init a (TSS_SIZE - 1) d)\<lparr>dsegment := False, granularity := False,
           big := False, long_mode := False, dpresent := True, dDPL := 0, dtyp := 9\<rparr>) t)"

subsection \<open>What a descriptor says\<close>

definition desc_base :: "descriptor \<Rightarrow> u32" where
  "desc_base d = base_low d OR push_bit 24 (ucast (base_high d))"

definition desc_limit :: "descriptor \<Rightarrow> u32" where
  "desc_limit d = ucast (limit_low d) OR push_bit 16 (ucast (limit_high d))"

lemma masks: "(0xffffff :: u32) = mask 24" "(0xffff :: u32) = mask 16" "(0xff :: u32) = mask 8" "(0xf :: u32) = mask 4"
  by (simp_all add: mask_eq_exp_minus_1)

lemma descriptor_base: "desc_base (descriptor_init bas limit d) = bas"
  by (rule bit_word_eqI) (auto simp: desc_base_def descriptor_init_def bit_simps masks dest: bit_imp_le_length)

lemma descriptor_limit: "desc_limit (descriptor_init bas limit d) = limit AND 0xfffff"
proof -
  have m: "(0xfffff :: u32) = mask 20" by (simp add: mask_eq_exp_minus_1)
  show ?thesis unfolding m
    by (rule bit_word_eqI) (auto simp: desc_limit_def descriptor_init_def bit_simps masks dest: bit_imp_le_length)
qed

text \<open>A descriptor holds the base and the low twenty bits of the limit it was given, the four flat
  segments cover all addresses with the privileges of the kernel and of programs, and the selectors
  programs run with name the two of privilege 3.\<close>

theorem gdt_segments:
  "desc_base (descriptor_init bas limit d) = bas \<and> desc_limit (descriptor_init bas limit d) = limit AND 0xfffff \<and>
   (let g = gdt (tss_init a (gdt_init b t)) in
     map (\<lambda>i. (desc_base (g ! i), desc_limit (g ! i), dDPL (g ! i), dpresent (g ! i))) [0, 1, 2, 4, 5]
       = [(0, 0, 0, False), (0, 0xfffff, 0, True), (0, 0xfffff, 0, True), (0, 0xfffff, 3, True), (0, 0xfffff, 3, True)]
     \<and> desc_base (g ! KERNEL_TSS_IDX) = a \<and> desc_limit (g ! KERNEL_TSS_IDX) = 107 \<and> length g = GDT_SIZE)
   \<and> unat (drop_bit 3 USER_CODE_SELECTOR) = USER_CODE_IDX \<and> unat (drop_bit 3 USER_DATA_SELECTOR) = USER_DATA_IDX"
proof -
  let ?g = "gdt (tss_init a (gdt_init b t))"
  have z: "desc_base zero_descriptor = 0" "desc_limit zero_descriptor = 0" "dDPL zero_descriptor = 0"
    "\<not> dpresent zero_descriptor"
    by (simp_all add: zero_descriptor_def desc_base_def desc_limit_def)
  have f: "desc_base (flat_segment p y d) = 0" "desc_limit (flat_segment p y d) = 0xfffff" "dDPL (flat_segment p y d) = p"
    "dpresent (flat_segment p y d)" for p y d
    by (simp_all add: flat_segment_def desc_base_def desc_limit_def descriptor_init_def)
  have g: "?g ! 0 = zero_descriptor" "\<exists>d. ?g ! 1 = flat_segment 0 0xa d" "\<exists>d. ?g ! 2 = flat_segment 0 2 d"
    "\<exists>d. ?g ! 4 = flat_segment 3 0xa d" "\<exists>d. ?g ! 5 = flat_segment 3 2 d" "length ?g = GDT_SIZE"
    by (auto simp: tss_init_def gdt_init_def set_desc_def Let_def GDT_SIZE_def KERNEL_CODE_IDX_def KERNEL_DATA_IDX_def
        USER_CODE_IDX_def USER_DATA_IDX_def KERNEL_TSS_IDX_def)
  have "\<exists>d. desc_base (?g ! 3) = desc_base (descriptor_init a (TSS_SIZE - 1) d)
      \<and> desc_limit (?g ! 3) = desc_limit (descriptor_init a (TSS_SIZE - 1) d)"
    by (intro exI[of _ zero_descriptor])
      (simp add: tss_init_def gdt_init_def set_desc_def Let_def GDT_SIZE_def KERNEL_CODE_IDX_def KERNEL_DATA_IDX_def
        USER_CODE_IDX_def USER_DATA_IDX_def KERNEL_TSS_IDX_def desc_base_def desc_limit_def)
  then have t: "desc_base (?g ! 3) = a" "desc_limit (?g ! 3) = 107"
    by (auto simp: descriptor_base descriptor_limit TSS_SIZE_def)
  have "map (\<lambda>i. (desc_base (?g ! i), desc_limit (?g ! i), dDPL (?g ! i), dpresent (?g ! i))) [0, 1, 2, 4, 5]
       = [(0, 0, 0, False), (0, 0xfffff, 0, True), (0, 0xfffff, 0, True), (0, 0xfffff, 3, True), (0, 0xfffff, 3, True)]"
    using g f z by auto
  then show ?thesis
    using t g(6) unfolding Let_def
    by (simp add: descriptor_base descriptor_limit KERNEL_TSS_IDX_def USER_CODE_SELECTOR_def USER_DATA_SELECTOR_def
        USER_CODE_IDX_def USER_DATA_IDX_def)
qed

end
