(* ===== verification/Execve.thy ===== *)
theory Execve
  imports Files Vsprintf
begin

text \<open>
  Running a program: \<^verbatim>\<open>kernel/execve.c\<close>.  The structures of an executable are read
  where the code reads them, in the task's memory at the program's address, field by field and as late
  as the code does: loading a segment may change the headers that are still to be read.  The address
  space is the flat byte memory; linking a page changes the page tables and leaves the bytes.

  A program that starts does not come back: \<open>Exec_runs\<close> is the state in which its task
  leaves the kernel through its interrupt frame.
\<close>

definition ET_EXEC :: u16 where "ET_EXEC = 2"
definition EM_386 :: u16 where "EM_386 = 3"
definition EV_CURRENT :: u32 where "EV_CURRENT = 1"
definition PT_LOAD :: u32 where "PT_LOAD = 1"
definition PF_X :: u32 where "PF_X = 1"
definition PF_W :: u32 where "PF_W = 2"
definition PF_R :: u32 where "PF_R = 4"
definition EHDR_SIZE :: u32 where "EHDR_SIZE = 52"
definition PHDR_SIZE :: u32 where "PHDR_SIZE = 32"
definition TASK_NAME_LEN :: nat where "TASK_NAME_LEN = 16"

definition half_at :: "mem \<Rightarrow> addr \<Rightarrow> u16" where
  "half_at m a = ucast (m a) OR push_bit 8 (ucast (m (a + 1)))"

subsection \<open>The headers\<close>

record ehdr =
  e_ident :: "u8 list"
  e_type :: u16
  e_machine :: u16
  e_version :: u32
  e_entry :: u32
  e_phoff :: u32
  e_phentsize :: u16
  e_phnum :: u16

record phdr =
  p_type :: u32
  p_offset :: u32
  p_vaddr :: u32
  p_filesz :: u32
  p_memsz :: u32
  p_flags :: u32
  p_align :: u32

definition ehdr_at :: "mem \<Rightarrow> addr \<Rightarrow> ehdr" where
  "ehdr_at m a = \<lparr>e_ident = load_bytes m a 16, e_type = half_at m (a + 16), e_machine = half_at m (a + 18),
     e_version = ld32 m (a + 20), e_entry = ld32 m (a + 24), e_phoff = ld32 m (a + 28),
     e_phentsize = half_at m (a + 42), e_phnum = half_at m (a + 44)\<rparr>"

definition phdr_at :: "mem \<Rightarrow> addr \<Rightarrow> phdr" where
  "phdr_at m a = \<lparr>p_type = ld32 m a, p_offset = ld32 m (a + 4), p_vaddr = ld32 m (a + 8),
     p_filesz = ld32 m (a + 16), p_memsz = ld32 m (a + 20), p_flags = ld32 m (a + 24), p_align = ld32 m (a + 28)\<rparr>"

definition elf_validate :: "ehdr \<Rightarrow> bool" where
  "elf_validate h =
     (if take 7 (e_ident h) \<noteq> [0x7f, 0x45, 0x4c, 0x46, 1, 1, 1] then False
      else if e_type h \<noteq> ET_EXEC then False
      else if e_machine h \<noteq> EM_386 then False
      else if e_version h \<noteq> EV_CURRENT then False
      else if ucast (e_phentsize h) \<noteq> PHDR_SIZE then False
      else True)"

subsection \<open>Memory of the running task\<close>

definition on_mm :: "(kmem \<Rightarrow> kmem res) \<Rightarrow> ('h, unit) fsm" where
  "on_mm f s = bnd (f (mm (sched_of s))) (\<lambda>m. Inr ((), upd_sched (\<lambda>k. k\<lparr>mm := m\<rparr>) s))"

definition fs_brk :: "u32 \<Rightarrow> ('h, u32) fsm" where
  "fs_brk a s =
     bnd (sys_brk (mm (sched_of s)) (vtask_of (sched_of s) (cur_task s)) a) (\<lambda>(m, v, r).
     Inr (r, upd_cur (\<lambda>t. t\<lparr>brk := t_brk v\<rparr>) (upd_sched (\<lambda>k. k\<lparr>mm := m\<rparr>) s)))"

subsection \<open>Loading\<close>

definition exec_page :: "u32 \<Rightarrow> nat \<Rightarrow> u32" where
  "exec_page vaddr i = vaddr + of_nat i * PAGE_SIZE"

fun link_loop :: "u32 \<Rightarrow> nat \<Rightarrow> nat \<Rightarrow> ('h, unit) fsm" where
  "link_loop vaddr i 0 = ret ()"
| "link_loop vaddr i (Suc n) =
     (let a = exec_page vaddr i
      in act (lift (assrt (a \<ge> USER_EXEC_ADDR \<and> a < USER_MMAP_ADDR))) (\<lambda>_.
         act (on_mm (\<lambda>m. link_page m a)) (\<lambda>_. link_loop vaddr (Suc i) n)))"

definition protect :: "u32 \<Rightarrow> kmem \<Rightarrow> kmem res" where
  "protect a m = bnd (get_entry m a False) (\<lambda>(m, entry). vmod m entry (\<lambda>e. set_flag 11 True (set_flag 1 False e)))"

fun protect_loop :: "u32 \<Rightarrow> nat \<Rightarrow> nat \<Rightarrow> ('h, unit) fsm" where
  "protect_loop vaddr i 0 = ret ()"
| "protect_loop vaddr i (Suc n) = act (on_mm (protect (exec_page vaddr i))) (\<lambda>_. protect_loop vaddr (Suc i) n)"

definition load_segment :: "addr \<Rightarrow> phdr \<Rightarrow> ('h, unit) fsm" where
  "load_segment p h =
     act (lift (assrt (p_align h = 0x1000))) (\<lambda>_.
     act (lift (assrt (p_vaddr h AND 0xfff = 0))) (\<lambda>_.
     let vaddr = p_vaddr h; count = unat (div_round_up (max (p_memsz h) (p_filesz h)) PAGE_SIZE)
     in act (link_loop vaddr 0 count) (\<lambda>_.
        act (inode_read p (unat vaddr) (p_filesz h) (p_offset h)) (\<lambda>_.
        act (change (upd_mem (\<lambda>m. if p_filesz h < p_memsz h
               then memset m (unat (vaddr + p_filesz h)) 0 (unat (p_memsz h - p_filesz h)) else m))) (\<lambda>_.
        act (if p_flags h AND PF_W = 0 then protect_loop vaddr 0 count else ret ()) (\<lambda>_.
        change (upd_cur (\<lambda>t.
          let t = (if p_flags h = (PF_R OR PF_X) then t\<lparr>text_at := vaddr\<rparr>
                   else if p_flags h = (PF_R OR PF_W) then t\<lparr>data_at := vaddr\<rparr> else t)
          in t\<lparr>end_at := max (end_at t) (vaddr + of_nat count * PAGE_SIZE)\<rparr>))))))))"

definition EXEC_AT :: addr where "EXEC_AT = unat USER_EXEC_ADDR"

text \<open>
  \<^verbatim>\<open>continue\<close> does not step over a header: one that is not loadable is looked at until
  the count is used up.
\<close>

partial_function (option) segment_loop :: "addr \<Rightarrow> addr \<Rightarrow> nat \<Rightarrow> 'h fs \<Rightarrow> (unit \<times> 'h fs) res option" where
  "segment_loop p ptr i s =
     (if i < unat (e_phnum (ehdr_at (mem_of s) EXEC_AT))
      then (if p_type (phdr_at (mem_of s) ptr) \<noteq> PT_LOAD then segment_loop p ptr (Suc i) s
            else case load_segment p (phdr_at (mem_of s) ptr) s of
                   Inl e \<Rightarrow> Some (Inl e)
                 | Inr (_, s) \<Rightarrow> segment_loop p (ptr + 32) (Suc i) s)
      else Some (Inr ((), s)))"

definition load_elf :: "addr \<Rightarrow> ('h, u32) fsm" where
  "load_elf p =
     act (on_mm (\<lambda>m. link_page m USER_EXEC_ADDR)) (\<lambda>_.
     act (inode_read p EXEC_AT EHDR_SIZE 0) (\<lambda>n.
     act (lift (assrt (n = EHDR_SIZE))) (\<lambda>_.
     act (look (\<lambda>s. ehdr_at (mem_of s) EXEC_AT)) (\<lambda>h.
     if \<not> elf_validate h then ret EOF
     else act (inode_read p (EXEC_AT + 52) (ucast (e_phnum h) * ucast (e_phentsize h)) (e_phoff h)) (\<lambda>_.
          act (\<lambda>s. run (segment_loop p (EXEC_AT + 52) 0 s)) (\<lambda>_.
          look (\<lambda>s. e_entry (ehdr_at (mem_of s) EXEC_AT))))))))"

subsection \<open>The arguments\<close>

definition ptr_at :: "mem \<Rightarrow> u32 \<Rightarrow> nat \<Rightarrow> u32" where
  "ptr_at m argv i = ld32 m (unat argv + 4 * i)"

definition st32 :: "addr \<Rightarrow> u32 \<Rightarrow> mem \<Rightarrow> mem" where
  "st32 a w m = fst (emit (word_bytes w) (m, a))"

partial_function (option) count_loop :: "mem \<Rightarrow> u32 \<Rightarrow> nat \<Rightarrow> nat option" where
  "count_loop m argv i = (if ptr_at m argv i \<noteq> 0 then count_loop m argv (Suc i) else Some i)"

definition count_argv :: "mem \<Rightarrow> u32 \<Rightarrow> nat option" where
  "count_argv m argv = (if argv = 0 then Some 0 else count_loop m argv 0)"

text \<open>
  One string: it goes below what is on the temporary stack already; the pointer is where it will be
  on the program's stack.
\<close>

definition push_str :: "addr \<Rightarrow> addr \<Rightarrow> mem \<times> u32 \<times> u32 \<Rightarrow> (mem \<times> u32 \<times> u32) option" where
  "push_str str slot st =
     (let (m, ktop, utop) = st
      in Option.bind (strlen m str) (\<lambda>n.
         let len = n + 1; ktop = ktop - of_nat len; utop = utop - of_nat len;
             m = memcpy m (unat ktop) str len
         in Some (st32 slot utop m, ktop, utop)))"

fun push_strs :: "nat \<Rightarrow> u32 \<Rightarrow> addr \<Rightarrow> mem \<times> u32 \<times> u32 \<Rightarrow> (mem \<times> u32 \<times> u32) option" where
  "push_strs 0 argv slots st = Some st"
| "push_strs (Suc n) argv slots st =
     Option.bind (push_str (unat (ptr_at (fst st) argv n)) (slots + 4 * n) st) (push_strs n argv slots)"

text \<open>
  The whole stack, built in the four pages at \<open>pages\<close> with the pointer arrays in the page at
  \<open>argvk\<close>: the final memory and the program's stack pointer.
\<close>

definition build_stack :: "mem \<Rightarrow> u32 \<Rightarrow> u32 \<Rightarrow> addr \<Rightarrow> u32 \<Rightarrow> u32 \<Rightarrow> (mem \<times> u32) res option" where
  "build_stack m pages argvk filename argv envp =
     Option.bind (count_argv m argv) (\<lambda>n. Option.bind (count_argv m envp) (\<lambda>envc.
     let argc = n + 1; pages_end = pages + 4 * PAGE_SIZE;
         ak = unat argvk; m = st32 (ak + 4 * argc) 0 m;
         ek = ak + 4 * (argc + 1); m = st32 (ek + 4 * envc) 0 m
     in Option.bind (push_strs envc envp ek (m, pages_end, USER_STACK_TOP)) (\<lambda>st.
        Option.bind (push_strs n argv (ak + 4) st) (\<lambda>st.
        map_option (\<lambda>(m, ktop, utop).
          let ktop = ktop - of_nat (4 * (envc + 1)); m = memcpy m (unat ktop) ek (4 * (envc + 1));
              ktop = ktop - of_nat (4 * (argc + 1)); m = memcpy m (unat ktop) ak (4 * (argc + 1));
              ktop = ktop - 4; m = st32 (unat ktop) (of_nat argc) m
          in bnd (assrt (ktop > pages)) (\<lambda>_.
             let len = pages_end - ktop; utop = USER_STACK_TOP - len
             in Inr (memcpy m (unat utop) (unat ktop) (unat len), utop)))
          (push_str filename ak st)))))"

definition copy_argv_envp :: "addr \<Rightarrow> u32 \<Rightarrow> u32 \<Rightarrow> ('h, u32) fsm" where
  "copy_argv_envp filename argv envp =
     act (fs_alloc_kpage 4) (\<lambda>pages.
     act (fs_alloc_kpage 1) (\<lambda>argvk.
     act (look (\<lambda>s. build_stack (mem_of s) pages argvk filename argv envp)) (\<lambda>r.
     act (lift (run r)) (\<lambda>(m, utop).
     act (change (upd_mem (\<lambda>_. m))) (\<lambda>_.
     act (fs_free_kpage argvk 1) (\<lambda>_.
     act (fs_free_kpage pages 4) (\<lambda>_. ret utop)))))))"

subsection \<open>The call\<close>

datatype exec_end = Exec_returns int | Exec_runs

definition exec_fail :: "addr \<Rightarrow> ('h, exec_end) fsm" where
  "exec_fail p = act (iput p) (\<lambda>_. ret (Exec_returns (-1)))"

text \<open>The name \<^verbatim>\<open>strncpy\<close> leaves in the task: at most fifteen bytes.\<close>

definition set_name :: "addr \<Rightarrow> ('h, unit) fsm" where
  "set_name filename =
     change (\<lambda>s. upd_cur (\<lambda>t. t\<lparr>tname := takeWhile (\<lambda>c. c \<noteq> 0)
       (load_bytes (mem_of s) filename (TASK_NAME_LEN - 1))\<rparr>) s)"

definition sys_execve :: "addr \<Rightarrow> u32 \<Rightarrow> u32 \<Rightarrow> ('h, exec_end) fsm" where
  "sys_execve filename argv envp =
     act (namei filename) (\<lambda>p.
     if p = 0 then exec_fail p
     else act (desc_at p) (\<lambda>d.
     if \<not> ISFILE (imode d) then exec_fail p
     else act (permission p P_EXEC) (\<lambda>ok.
     if \<not> ok then exec_fail p
     else act (set_name filename) (\<lambda>_.
          act (copy_argv_envp filename argv envp) (\<lambda>top.
          act (change (upd_cur (\<lambda>t. t\<lparr>end_at := USER_EXEC_ADDR\<rparr>))) (\<lambda>_.
          act (fs_brk USER_EXEC_ADDR) (\<lambda>_.
          act (load_elf p) (\<lambda>entry.
          if entry = EOF then exec_fail p
          else act (look cur_task) (\<lambda>t. act (fs_brk (end_at t)) (\<lambda>_.
               act (iput (iexec t)) (\<lambda>_.
               act (change (upd_cur (\<lambda>t. t\<lparr>iexec := p,
                      iframe := (iframe t)\<lparr>i_edx := 0, i_eip := entry, i_esp := top\<rparr>\<rparr>))) (\<lambda>_.
               ret Exec_runs))))))))))))"

end
