(* ===== verification/Osh.thy ===== *)
theory Osh
  imports Programs Timing
begin

text \<open>
  The shell: \<^verbatim>\<open>builtin/osh.c\<close>.  Its static buffers and the variables whose address it
  passes on are addresses of the program's memory.  A command that runs a program forks: the child
  redirects its files and runs it, and its process ends there.
\<close>

definition MAX_CMD_LEN :: u32 where "MAX_CMD_LEN = 256"
definition MAX_ARG_NR :: nat where "MAX_ARG_NR = 16"
definition MAX_PATH_LEN :: u32 where "MAX_PATH_LEN = 1024"
definition SH_RDONLY :: u32 where "SH_RDONLY = 0"
definition SH_WRONLY :: u32 where "SH_WRONLY = 1"
definition SH_CREAT :: u32 where "SH_CREAT = 0x40"
definition SH_APPEND :: u32 where "SH_APPEND = 0x400"

record osh = prog +
  cwd_at :: addr
  cmd_at :: addr
  args_at :: addr
  obuf :: addr
  oenvp :: addr
  ch_at :: addr
  status_at :: addr
  pipe_at :: addr
  stat_at :: addr
  tm0 :: tm

type_synonym 'a oshm = "osh \<Rightarrow> ('a \<times> osh) res"

text \<open>Entry \<open>i\<close> of an array of pointers.\<close>

definition arg :: "addr \<Rightarrow> nat \<Rightarrow> u32 oshm" where "arg argv i = load_word (argv + 4 * i)"
definition clear_arg :: "addr \<Rightarrow> nat \<Rightarrow> unit oshm" where "clear_arg argv i = store_word (argv + 4 * i) 0"

subsection \<open>The prompt and the small commands\<close>

definition strftime :: "u32 \<Rightarrow> addr \<Rightarrow> unit oshm" where
  "strftime stamp b =
     act (look (\<lambda>s. localtime stamp (tm0 s))) (\<lambda>t.
     sprint b ''%d-%02d-%02d %02d:%02d:%02d''
       (map word_of_int [tm_year t + 1900, tm_mon t, tm_mday t, tm_hour t, tm_min t, tm_sec t]))"

definition last_sep :: "addr \<Rightarrow> addr oshm" where
  "last_sep p = umem_op (\<lambda>m. strrsep m p)"

definition basename :: "addr \<Rightarrow> addr oshm" where
  "basename name =
     act (last_sep name) (\<lambda>p. act (lift (deref p)) (\<lambda>_. act (look (\<lambda>s. umem s (p + 1))) (\<lambda>c.
     ret (if c = 0 then p else p + 1))))"

definition get_cwd :: "addr oshm" where
  "get_cwd = act (look cwd_at) (\<lambda>c. act (sys (c_getcwd (of_nat c) MAX_PATH_LEN)) (\<lambda>_. ret c))"

definition print_prompt :: "unit oshm" where
  "print_prompt =
     act get_cwd (\<lambda>c. act (last_sep c) (\<lambda>p.
     act (if p \<noteq> c then act (lift (deref p)) (\<lambda>_. set_umem (\<lambda>m. m(p := 0))) else ret ()) (\<lambda>_.
     act (basename c) (\<lambda>b. print ''[root %s]# '' [of_nat b]))))"

definition bs :: string where "bs = [CHR 0x5c]"

definition logo :: "string list" where
  "logo = [''                      __   ___   _ ___ ___  ___ \<newline>'',
     ''                      '' @ bs @ '' '' @ bs @ '' / / | | |_ _/ _ '' @ bs @ ''/ __|\<newline>'',
     ''                       '' @ bs @ '' V /| |_| || | (_) '' @ bs @ ''__ '' @ bs @ ''\<newline>'',
     ''                        |_|  '' @ bs @ ''___/|___'' @ bs @ ''___/|___/\<newline>'']"

fun print_lines :: "string list \<Rightarrow> unit oshm" where
  "print_lines [] = ret ()"
| "print_lines (l # ls) = act (print l []) (\<lambda>_. print_lines ls)"

definition builtin_logo :: "unit oshm" where "builtin_logo = act (sysv c_clear) (\<lambda>_. print_lines logo)"

definition builtin_test :: "u32 \<Rightarrow> addr \<Rightarrow> unit oshm" where "builtin_test argc argv = ret ()"

definition builtin_pwd :: "unit oshm" where
  "builtin_pwd = act get_cwd (\<lambda>c. print ''%s\<newline>'' [of_nat c])"

definition builtin_clear :: "unit oshm" where "builtin_clear = sysv c_clear"

definition builtin_date :: "unit oshm" where
  "builtin_date =
     act (look obuf) (\<lambda>b. act (sys c_time) (\<lambda>t. act (strftime t b) (\<lambda>_. print ''%s\<newline>'' [of_nat b])))"

definition builtin_cd :: "addr \<Rightarrow> unit oshm" where
  "builtin_cd argv = act (arg argv 1) (\<lambda>p. sysv (c_chdir p))"

definition builtin_mkdir :: "u32 \<Rightarrow> addr \<Rightarrow> unit oshm" where
  "builtin_mkdir argc argv = (if argc < 2 then ret () else act (arg argv 1) (\<lambda>p. sysv (c_mkdir p 0x1ed)))"

definition builtin_rmdir :: "u32 \<Rightarrow> addr \<Rightarrow> unit oshm" where
  "builtin_rmdir argc argv = (if argc < 2 then ret () else act (arg argv 1) (\<lambda>p. sysv (c_rmdir p)))"

definition builtin_rm :: "u32 \<Rightarrow> addr \<Rightarrow> unit oshm" where
  "builtin_rm argc argv = (if argc < 2 then ret () else act (arg argv 1) (\<lambda>p. sysv (c_unlink p)))"

definition builtin_mount :: "u32 \<Rightarrow> addr \<Rightarrow> unit oshm" where
  "builtin_mount argc argv =
     (if argc < 3 then ret () else act (arg argv 1) (\<lambda>p. act (arg argv 2) (\<lambda>q. sysv (c_mount p q 0))))"

definition builtin_umount :: "u32 \<Rightarrow> addr \<Rightarrow> unit oshm" where
  "builtin_umount argc argv = (if argc < 2 then ret () else act (arg argv 1) (\<lambda>p. sysv (c_umount p)))"

definition builtin_mkfs :: "u32 \<Rightarrow> addr \<Rightarrow> unit oshm" where
  "builtin_mkfs argc argv = (if argc < 2 then ret () else act (arg argv 1) (\<lambda>p. sysv (c_mkfs p 0)))"

subsection \<open>Running a program\<close>

definition NO_FD :: u32 where "NO_FD = 0xffffffff"

definition close_if :: "u32 \<Rightarrow> unit oshm" where
  "close_if fd = (if fd \<noteq> NO_FD then sysv (c_close fd) else ret ())"

definition dup_if :: "u32 \<Rightarrow> u32 \<Rightarrow> unit oshm" where
  "dup_if fd to = (if fd \<noteq> NO_FD then act (sys (c_dup2 fd to)) (\<lambda>_. sysv (c_close fd)) else ret ())"

definition builtin_command :: "addr \<Rightarrow> u32 \<Rightarrow> u32 \<Rightarrow> u32 \<Rightarrow> u32 \<Rightarrow> u32 option oshm" where
  "builtin_command filename argv infd outfd errfd =
     act (sys c_fork) (\<lambda>pid.
     if pid \<noteq> 0
     then act (close_if infd) (\<lambda>_. act (close_if outfd) (\<lambda>_. act (close_if errfd) (\<lambda>_. ret (Some pid))))
     else act (dup_if infd STDIN_FILENO) (\<lambda>_.
          act (dup_if outfd STDOUT_FILENO) (\<lambda>_.
          act (dup_if errfd STDERR_FILENO) (\<lambda>_.
          act (look oenvp) (\<lambda>e.
          act (sys (c_execve (of_nat filename) argv (of_nat e))) (\<lambda>i.
          act (sys (c_exit i)) (\<lambda>_. ret None)))))))"

record redir =
  infile :: u32
  outfile :: u32
  errfile :: u32
  outappend :: u32
  errappend :: u32

text \<open>
  One argument: a redirection sign that is not the last one takes the next argument as its file.
  The value says whether it did.
\<close>

definition redir_one :: "addr \<Rightarrow> nat \<Rightarrow> bool \<Rightarrow> redir \<Rightarrow> (redir \<times> bool) oshm" where
  "redir_one argv i rest r =
     act (arg argv i) (\<lambda>a. let a = unat a in
     let take = (\<lambda>f. act (arg argv (i + 1)) (\<lambda>x. act (clear_arg argv i) (\<lambda>_. ret (f x r, True)))) in
     act (same_str a ''<'') (\<lambda>y. if y \<and> rest then take (\<lambda>x r. r\<lparr>infile := x\<rparr>) else
     act (same_str a ''>'') (\<lambda>y. if y \<and> rest then take (\<lambda>x r. r\<lparr>outfile := x\<rparr>) else
     act (same_str a ''>>'') (\<lambda>y. if y \<and> rest then take (\<lambda>x r. r\<lparr>outfile := x, outappend := SH_APPEND\<rparr>) else
     act (same_str a ''2>'') (\<lambda>y. if y \<and> rest then take (\<lambda>x r. r\<lparr>errfile := x\<rparr>) else
     act (same_str a ''2>>'') (\<lambda>y. if y \<and> rest then take (\<lambda>x r. r\<lparr>errfile := x, errappend := SH_APPEND\<rparr>) else
     ret (r, False)))))))"

fun redir_loop :: "addr \<Rightarrow> nat \<Rightarrow> nat \<Rightarrow> redir \<Rightarrow> redir oshm" where
  "redir_loop argv i 0 r = ret r"
| "redir_loop argv i (Suc n) r =
     act (redir_one argv i (n > 0) r) (\<lambda>(r, took).
     if took then redir_loop argv (i + 2) (n - 1) r else redir_loop argv (i + 1) n r)"

text \<open>Opening the file of a redirection; \<open>None\<close> is the jump to \<^verbatim>\<open>rollback\<close>.\<close>

definition open_redir :: "u32 \<Rightarrow> u32 \<Rightarrow> u32 option oshm" where
  "open_redir file fl =
     (if file = 0 then ret (Some NO_FD)
      else act (sys (c_open file fl 0x1ed)) (\<lambda>fd.
           if fd = NO_FD then act (print ''open file %s failure\<newline>'' [file]) (\<lambda>_. ret None) else ret (Some fd)))"

definition rollback :: "u32 \<Rightarrow> u32 \<Rightarrow> u32 \<Rightarrow> (u32 \<times> u32 \<times> u32) option oshm" where
  "rollback a b c = act (close_if a) (\<lambda>_. act (close_if b) (\<lambda>_. act (close_if c) (\<lambda>_. ret None)))"

definition dupfile :: "nat \<Rightarrow> addr \<Rightarrow> (u32 \<times> u32 \<times> u32) option oshm" where
  "dupfile argc argv =
     act (redir_loop argv 0 argc \<lparr>infile = 0, outfile = 0, errfile = 0, outappend = 0, errappend = 0\<rparr>) (\<lambda>r.
     act (open_redir (infile r) (SH_RDONLY OR outappend r OR SH_CREAT)) (\<lambda>a.
     case a of None \<Rightarrow> rollback NO_FD NO_FD NO_FD | Some a \<Rightarrow>
     act (open_redir (outfile r) (SH_WRONLY OR outappend r OR SH_CREAT)) (\<lambda>b.
     case b of None \<Rightarrow> rollback a NO_FD NO_FD | Some b \<Rightarrow>
     act (open_redir (errfile r) (SH_WRONLY OR errappend r OR SH_CREAT)) (\<lambda>c.
     case c of None \<Rightarrow> rollback a b NO_FD | Some c \<Rightarrow> ret (Some (a, b, c))))))"

text \<open>
  The loop over the arguments keeps whether a program name is expected, the arguments and the name of
  the present program, the descriptor it reads from and how many were started.
\<close>

record pipeline =
  fresh :: bool
  bargv :: u32
  pname :: addr
  infd :: u32
  started :: nat

datatype walk = Go_on pipeline | Give_up | Ended

definition is_bar :: "pipeline \<Rightarrow> u32 \<Rightarrow> bool oshm" where
  "is_bar p a = (if fresh p then ret False else same_str (unat a) ''|'')"

definition start_part :: "addr \<Rightarrow> nat \<Rightarrow> pipeline \<Rightarrow> walk oshm" where
  "start_part argv i p =
     act (clear_arg argv i) (\<lambda>_. act (look pipe_at) (\<lambda>pf.
     act (sys (c_pipe (of_nat pf))) (\<lambda>_.
     act (load_word (pf + 4)) (\<lambda>w.
     act (builtin_command (pname p) (bargv p) (infd p) w NO_FD) (\<lambda>r.
     case r of None \<Rightarrow> ret Ended | Some _ \<Rightarrow>
     act (load_word pf) (\<lambda>rd. act (umem_op (\<lambda>m. strlen m (pname p))) (\<lambda>n.
     ret (Go_on (p\<lparr>started := started p + 1, infd := rd, pname := pname p + n + 1, fresh := True\<rparr>)))))))))"

definition find_program :: "addr \<Rightarrow> nat \<Rightarrow> u32 \<Rightarrow> pipeline \<Rightarrow> walk oshm" where
  "find_program argv i a p =
     act (sprint (pname p) ''/bin/%s.out'' [a]) (\<lambda>_. act (look stat_at) (\<lambda>sb.
     act (sys (c_stat (of_nat (pname p)) (of_nat sb))) (\<lambda>r.
     if r = NO_FD then act (print ''osh: command not found: %s\<newline>'' [a]) (\<lambda>_. ret Give_up)
     else ret (Go_on (p\<lparr>bargv := of_nat (argv + 4 * (i + 1)), fresh := False\<rparr>)))))"

definition walk_one :: "addr \<Rightarrow> nat \<Rightarrow> pipeline \<Rightarrow> walk oshm" where
  "walk_one argv i p =
     act (arg argv i) (\<lambda>a.
     if a = 0 then ret (Go_on p)
     else act (is_bar p a) (\<lambda>bar.
          if bar then start_part argv i p
          else if \<not> fresh p then ret (Go_on p)
          else find_program argv i a p))"

fun exec_loop :: "addr \<Rightarrow> nat \<Rightarrow> nat \<Rightarrow> pipeline \<Rightarrow> walk oshm" where
  "exec_loop argv i 0 p = ret (Go_on p)"
| "exec_loop argv i (Suc n) p =
     act (walk_one argv i p) (\<lambda>w. case w of Go_on p \<Rightarrow> exec_loop argv (Suc i) n p | _ \<Rightarrow> ret w)"

fun wait_loop :: "addr \<Rightarrow> nat \<Rightarrow> unit oshm" where
  "wait_loop st 0 = ret ()"
| "wait_loop st (Suc n) = act (sysv (c_waitpid 0xffffffff (of_nat st))) (\<lambda>_. wait_loop st n)"

text \<open>\<open>True\<close>: the shell goes on; \<open>False\<close>: this process was a child and has ended.\<close>

definition builtin_exec :: "nat \<Rightarrow> addr \<Rightarrow> bool oshm" where
  "builtin_exec argc argv =
     act (look obuf) (\<lambda>b. act (dupfile argc argv) (\<lambda>d.
     case d of None \<Rightarrow> ret True | Some (a, o', e) \<Rightarrow>
     act (exec_loop argv 0 argc \<lparr>fresh = True, bargv = 0, pname = b, infd = a, started = 0\<rparr>) (\<lambda>w.
     case w of Ended \<Rightarrow> ret False | Give_up \<Rightarrow> ret True | Go_on p \<Rightarrow>
     act (builtin_command (pname p) (bargv p) (infd p) o' e) (\<lambda>r.
     case r of None \<Rightarrow> ret False | Some _ \<Rightarrow>
     act (look status_at) (\<lambda>st. act (wait_loop st (started p + 1)) (\<lambda>_. ret True))))))"

subsection \<open>Choosing the command\<close>

datatype builtin =
  B_test | B_logo | B_pwd | B_clear | B_exit | B_cd | B_mkdir | B_rmdir | B_rm | B_date | B_mount | B_umount
  | B_mkfs | B_exec

definition commands :: "(string \<times> builtin) list" where
  "commands = [(''test'', B_test), (''logo'', B_logo), (''pwd'', B_pwd), (''clear'', B_clear), (''exit'', B_exit),
     (''cd'', B_cd), (''mkdir'', B_mkdir), (''rmdir'', B_rmdir), (''rm'', B_rm), (''date'', B_date),
     (''mount'', B_mount), (''umount'', B_umount), (''mkfs'', B_mkfs)]"

fun pick_command :: "addr \<Rightarrow> (string \<times> builtin) list \<Rightarrow> builtin oshm" where
  "pick_command line [] = ret B_exec"
| "pick_command line ((t, b) # cs) = act (same_str line t) (\<lambda>y. if y then ret b else pick_command line cs)"

definition builtin_exit :: "u32 \<Rightarrow> addr \<Rightarrow> unit oshm" where
  "builtin_exit argc argv =
     act (if argc = 2 then act (arg argv 1) (\<lambda>p. umem_op (\<lambda>m. atoi m (unat p))) else ret 0) (\<lambda>code.
     sysv (c_exit code))"

definition goes_on :: "unit oshm \<Rightarrow> bool oshm" where
  "goes_on f = act f (\<lambda>_. ret True)"

definition execute :: "nat \<Rightarrow> addr \<Rightarrow> bool oshm" where
  "execute argc argv =
     (let n = of_nat argc in
     act (arg argv 0) (\<lambda>line. act (pick_command (unat line) commands) (\<lambda>b.
     case b of
       B_test \<Rightarrow> goes_on (builtin_test n argv)
     | B_logo \<Rightarrow> goes_on builtin_logo
     | B_pwd \<Rightarrow> goes_on builtin_pwd
     | B_clear \<Rightarrow> goes_on builtin_clear
     | B_exit \<Rightarrow> act (builtin_exit n argv) (\<lambda>_. ret False)
     | B_cd \<Rightarrow> goes_on (builtin_cd argv)
     | B_mkdir \<Rightarrow> goes_on (builtin_mkdir n argv)
     | B_rmdir \<Rightarrow> goes_on (builtin_rmdir n argv)
     | B_rm \<Rightarrow> goes_on (builtin_rm n argv)
     | B_date \<Rightarrow> goes_on builtin_date
     | B_mount \<Rightarrow> goes_on (builtin_mount n argv)
     | B_umount \<Rightarrow> goes_on (builtin_umount n argv)
     | B_mkfs \<Rightarrow> goes_on (builtin_mkfs n argv)
     | B_exec \<Rightarrow> builtin_exec argc argv)))"

subsection \<open>Reading and splitting the line\<close>

definition echo_char :: "u8 \<Rightarrow> unit oshm" where
  "echo_char c =
     act (look ch_at) (\<lambda>a. act (set_umem (\<lambda>m. m(a := c))) (\<lambda>_. sysv (c_write STDOUT_FILENO (of_nat a) 1)))"

text \<open>One character: the position it goes on at, or the end of the line.\<close>

definition read_one :: "addr \<Rightarrow> u32 \<Rightarrow> u32 option oshm" where
  "read_one b idx =
     (let p = b + unat idx in
     act (sys (c_read STDIN_FILENO (of_nat p) 1)) (\<lambda>r.
     if r = 0xffffffff then act (set_umem (\<lambda>m. m(p := 0))) (\<lambda>_. ret None)
     else act (look umem) (\<lambda>m.
          if m p = 10 \<or> m p = 13
          then act (set_umem (\<lambda>m. m(p := 0))) (\<lambda>_. act (echo_char 10) (\<lambda>_. ret None))
          else if m p = 8
          then (if m b \<noteq> 8 then act (echo_char 8) (\<lambda>_. ret (Some (idx - 1))) else ret (Some idx))
          else if m p = 9 then ret (Some idx)
          else act (sys (c_write STDOUT_FILENO (of_nat p) 1)) (\<lambda>_. ret (Some (idx + 1))))))"

partial_function (option) read_loop :: "addr \<Rightarrow> u32 \<Rightarrow> u32 \<Rightarrow> osh \<Rightarrow> (unit \<times> osh) res option" where
  "read_loop b count idx s =
     (if idx < count
      then (case read_one b idx s of
              Inl e \<Rightarrow> Some (Inl e)
            | Inr (None, s) \<Rightarrow> Some (Inr ((), s))
            | Inr (Some i, s) \<Rightarrow> read_loop b count i s)
      else Some (set_umem (\<lambda>m. m(b + unat idx := 0)) s))"

definition readline :: "addr \<Rightarrow> u32 \<Rightarrow> unit oshm" where
  "readline b count = act (lift (assrt (b \<noteq> 0))) (\<lambda>_ s. run (read_loop b count 0 s))"

partial_function (option) skip_blanks :: "mem \<Rightarrow> addr \<Rightarrow> bool \<Rightarrow> addr option" where
  "skip_blanks m p quot =
     (if m p = 32 \<or> (quot \<and> m p \<noteq> 34) then skip_blanks m (p + 1) quot else Some p)"

partial_function (option) skip_word :: "mem \<Rightarrow> addr \<Rightarrow> addr option" where
  "skip_word m p = (if m p \<noteq> 0 \<and> m p \<noteq> 32 then skip_word m (p + 1) else Some p)"

definition put_ptr :: "addr \<Rightarrow> nat \<Rightarrow> addr \<Rightarrow> mem \<Rightarrow> mem" where
  "put_ptr argv i p m = fst (emit (word_bytes (of_nat p)) (m, argv + 4 * i))"

partial_function (option) parse_loop :: "addr \<Rightarrow> mem \<Rightarrow> addr \<Rightarrow> nat \<Rightarrow> bool \<Rightarrow> (mem \<times> nat) option" where
  "parse_loop argv m p argc quot =
     (if m p \<noteq> 0 \<and> argc < MAX_ARG_NR
      then Option.bind (skip_blanks m p quot) (\<lambda>p.
           if m p = 0 then Some (m, argc)
           else if m p = 34
           then (if \<not> quot then parse_loop argv (put_ptr argv argc (p + 1) m) (p + 1) (argc + 1) True
                 else parse_loop argv (m(p := 0)) (p + 1) argc False)
           else let m = put_ptr argv argc p m
                in Option.bind (skip_word m p) (\<lambda>p.
                   if m p \<noteq> 0 then parse_loop argv (m(p := 0)) (p + 1) (argc + 1) quot
                   else parse_loop argv m p (argc + 1) quot))
      else Some (m, argc))"

definition cmd_parse :: "addr \<Rightarrow> addr \<Rightarrow> nat oshm" where
  "cmd_parse cmd argv =
     act (lift (assrt (cmd \<noteq> 0))) (\<lambda>_.
     act (umem_op (\<lambda>m. parse_loop argv m cmd 0 False)) (\<lambda>(m, argc).
     act (set_umem (\<lambda>_. put_ptr argv argc 0 m)) (\<lambda>_. ret argc)))"

subsection \<open>The shell\<close>

definition osh_start :: "unit oshm" where
  "osh_start =
     act (look (\<lambda>s. (cmd_at s, cwd_at s))) (\<lambda>(c, w).
     act (set_umem (\<lambda>m. memset (memset m c 0 (unat MAX_CMD_LEN)) w 0 (unat MAX_PATH_LEN))) (\<lambda>_. builtin_logo))"

text \<open>One turn of the endless loop; \<open>False\<close> when the process has ended.\<close>

definition osh_round :: "bool oshm" where
  "osh_round =
     act print_prompt (\<lambda>_.
     act (look (\<lambda>s. (cmd_at s, args_at s))) (\<lambda>(c, v).
     act (readline c MAX_CMD_LEN) (\<lambda>_.
     act (look (\<lambda>s. umem s c)) (\<lambda>first.
     if first = 0 then ret True
     else act (cmd_parse c v) (\<lambda>argc.
          if argc \<ge> MAX_ARG_NR then ret True else execute argc v)))))"

partial_function (option) osh_loop :: "osh \<Rightarrow> (unit \<times> osh) res option" where
  "osh_loop s =
     (case osh_round s of
        Inl e \<Rightarrow> Some (Inl e)
      | Inr (go, s) \<Rightarrow> if go then osh_loop s else Some (Inr ((), s)))"

definition osh_main :: "unit oshm" where
  "osh_main = act osh_start (\<lambda>_ s. run (osh_loop s))"

end
