(* ===== verification/Tools.thy ===== *)
theory Tools
  imports Programs Timing
begin

text \<open>
  The small programs of \<^verbatim>\<open>builtin/\<close>: \<^verbatim>\<open>ls\<close>, \<^verbatim>\<open>cat\<close>,
  \<^verbatim>\<open>echo\<close>, \<^verbatim>\<open>env\<close>, \<^verbatim>\<open>dup\<close>, \<^verbatim>\<open>err\<close> and
  \<^verbatim>\<open>init\<close>.  Their buffers and the variables whose address they pass on are addresses of
  the program's memory.
\<close>

record tool = prog +
  tbuf :: addr
  tch :: addr
  entry_at :: addr
  tstat :: addr
  tstatus :: addr
  ttm :: tm

type_synonym 'a toolm = "tool \<Rightarrow> ('a \<times> tool) res"

definition T_EOF :: u32 where "T_EOF = 0xffffffff"

definition argv_at :: "u32 \<Rightarrow> nat \<Rightarrow> u32 toolm" where
  "argv_at argv i = load_word (unat argv + 4 * i)"

subsection \<open>\<^verbatim>\<open>ls\<close>\<close>

definition ls_strftime :: "u32 \<Rightarrow> addr \<Rightarrow> unit toolm" where
  "ls_strftime stamp b =
     act (look (\<lambda>s. localtime stamp (ttm s))) (\<lambda>t.
     sprint b ''%d-%02d-%02d %02d:%02d:%02d''
       (map word_of_int [tm_year t + 1900, tm_mon t, tm_mday t, tm_hour t, tm_min t, tm_sec t]))"

definition mode_char :: "u32 \<Rightarrow> u8" where
  "mode_char mode =
     (let f = mode AND 0xf000
      in if f = 0x8000 then 45 else if f = 0x6000 then 98 else if f = 0x4000 then 100 else if f = 0x2000 then 99
         else if f = 0x1000 then 112 else if f = 0xa000 then 108 else 63)"

definition mode_triple :: "u32 \<Rightarrow> nat \<Rightarrow> u8 list" where
  "mode_triple mode i =
     (let fmt = drop_bit i mode AND 7
      in [if fmt AND 4 \<noteq> 0 then 114 else 45, if fmt AND 2 \<noteq> 0 then 119 else 45, if fmt AND 1 \<noteq> 0 then 120 else 45])"

definition parsemode :: "u32 \<Rightarrow> addr \<Rightarrow> mem \<Rightarrow> mem" where
  "parsemode mode b m =
     fst (emit (mode_char mode # mode_triple mode 6 @ mode_triple mode 3 @ mode_triple mode 0 @ [0]) (m, b))"

definition qualifies :: "u8 list" where "qualifies = [66, 75, 77, 71, 84]"

text \<open>The size in the largest unit that leaves a digit; outside the table the letter is not defined.\<close>

partial_function (option) reckon_loop :: "int \<Rightarrow> nat \<Rightarrow> int \<Rightarrow> u8 \<Rightarrow> (int \<times> u8) res option" where
  "reckon_loop num i sz q =
     (if num \<noteq> 0
      then (case rd qualifies i of
              Inl e \<Rightarrow> Some (Inl e)
            | Inr q \<Rightarrow> reckon_loop (drop_bit 10 num) (Suc i) num q)
      else Some (Inr (sz, q)))"

definition reckon_size :: "int \<Rightarrow> (int \<times> u8) res" where
  "reckon_size sz = run (reckon_loop sz 0 sz 66)"

text \<open>The status record at \<open>a\<close>: the mode, links, owner, group, size and creation time.\<close>

definition ls_long :: "addr \<Rightarrow> unit toolm" where
  "ls_long name =
     act (look (\<lambda>s. (tstat s, tbuf s))) (\<lambda>(a, b).
     act (sys (c_stat (of_nat name) (of_nat a))) (\<lambda>_.
     act (look umem) (\<lambda>m.
     act (set_umem (parsemode (ucast (m (a + 8)) OR push_bit 8 (ucast (m (a + 9)))) b)) (\<lambda>_.
     act (print ''%s '' [of_nat b]) (\<lambda>_.
     act (look umem) (\<lambda>m.
     act (ls_strftime (ld32 m (a + 32)) b) (\<lambda>_.
     act (look umem) (\<lambda>m.
     act (lift (reckon_size (sint (ld32 m (a + 20))))) (\<lambda>(sz, q).
     print ''% 2d % 2d % 2d % 4d%c %s %s\<newline>''
       [ucast (m (a + 10)), ucast (m (a + 12)) OR push_bit 8 (ucast (m (a + 13))), ucast (m (a + 14)),
        word_of_int sz, ucast q, of_nat b, of_nat name])))))))))"

definition ls_entry :: "u32 \<Rightarrow> bool \<Rightarrow> bool toolm" where
  "ls_entry fd long =
     act (look entry_at) (\<lambda>e.
     act (sys (c_readdir fd (of_nat e) 1)) (\<lambda>n.
     if n = T_EOF then ret False
     else act (look umem) (\<lambda>m.
          if m e = 0 \<and> m (e + 1) = 0 then ret True
          else act (same_str (e + 2) ''.'') (\<lambda>x. act (if x then ret True else same_str (e + 2) ''..'') (\<lambda>x.
               if x then ret True
               else if \<not> long then act (print ''%s '' [of_nat (e + 2)]) (\<lambda>_. ret True)
               else act (ls_long (e + 2)) (\<lambda>_. ret True))))))"

partial_function (option) ls_loop :: "u32 \<Rightarrow> bool \<Rightarrow> tool \<Rightarrow> (unit \<times> tool) res option" where
  "ls_loop fd long s =
     (case ls_entry fd long s of
        Inl e \<Rightarrow> Some (Inl e)
      | Inr (go, s) \<Rightarrow> if go then ls_loop fd long s else Some (Inr ((), s)))"

definition ls_main :: "u32 \<Rightarrow> u32 \<Rightarrow> u32 \<Rightarrow> u32 option toolm" where
  "ls_main argc argv envp =
     act (the_lit ''.'') (\<lambda>d. act (sys (c_open d 0 0)) (\<lambda>fd.
     if fd = T_EOF then ret (Some T_EOF)
     else act (if argc = 2 then act (argv_at argv 1) (\<lambda>p. same_str (unat p) ''-l'') else ret False) (\<lambda>long.
          act (sys (c_lseek fd 0 1)) (\<lambda>_.
          act (\<lambda>s. run (ls_loop fd long s)) (\<lambda>_.
          act (if \<not> long then print ''\<newline>'' [] else ret ()) (\<lambda>_.
          act (sysv (c_close fd)) (\<lambda>_. ret (Some 0))))))))"

subsection \<open>The others\<close>

definition cat_round :: "u32 \<Rightarrow> bool toolm" where
  "cat_round fd =
     act (look tbuf) (\<lambda>b. act (sys (c_read fd (of_nat b) 1024)) (\<lambda>n.
     if n = T_EOF then ret False else act (sysv (c_write 1 (of_nat b) n)) (\<lambda>_. ret True)))"

partial_function (option) cat_loop :: "u32 \<Rightarrow> tool \<Rightarrow> (unit \<times> tool) res option" where
  "cat_loop fd s =
     (case cat_round fd s of
        Inl e \<Rightarrow> Some (Inl e)
      | Inr (go, s) \<Rightarrow> if go then cat_loop fd s else Some (Inr ((), s)))"

definition cat_main :: "u32 \<Rightarrow> u32 \<Rightarrow> u32 \<Rightarrow> u32 option toolm" where
  "cat_main argc argv envp =
     (if sint argc < 2 then ret (Some T_EOF)
      else act (argv_at argv 1) (\<lambda>p. act (sys (c_open p 0 0)) (\<lambda>fd.
           if fd = T_EOF then act (print ''file %s not exists.\<newline>'' [p]) (\<lambda>_. ret (Some T_EOF))
           else act (\<lambda>s. run (cat_loop fd s)) (\<lambda>_. act (sysv (c_close fd)) (\<lambda>_. ret (Some 0))))))"

fun echo_loop :: "u32 \<Rightarrow> nat \<Rightarrow> nat \<Rightarrow> unit toolm" where
  "echo_loop argv i 0 = ret ()"
| "echo_loop argv i (Suc n) =
     act (argv_at argv i) (\<lambda>p. act (printf (unat p) []) (\<lambda>_.
     act (if n > 0 then print '' '' [] else ret ()) (\<lambda>_. echo_loop argv (Suc i) n)))"

definition echo_main :: "u32 \<Rightarrow> u32 \<Rightarrow> u32 \<Rightarrow> u32 option toolm" where
  "echo_main argc argv envp =
     act (echo_loop argv 1 (unat argc - 1)) (\<lambda>_. act (print ''\<newline>'' []) (\<lambda>_. ret (Some 0)))"

fun env_args :: "u32 \<Rightarrow> nat \<Rightarrow> nat \<Rightarrow> unit toolm" where
  "env_args argv i 0 = ret ()"
| "env_args argv i (Suc n) =
     act (argv_at argv i) (\<lambda>p. act (print ''%s\<newline>'' [p]) (\<lambda>_. env_args argv (Suc i) n))"

partial_function (option) env_vars :: "u32 \<Rightarrow> nat \<Rightarrow> tool \<Rightarrow> (unit \<times> tool) res option" where
  "env_vars envp i s =
     (case act (argv_at envp i) (\<lambda>p. if p = 0 then ret False
             else act (umem_op (\<lambda>m. strlen m (unat p))) (\<lambda>n.
                  if n \<ge> 1022 then ret True else act (print ''%s\<newline>'' [p]) (\<lambda>_. ret True))) s of
        Inl e \<Rightarrow> Some (Inl e)
      | Inr (go, s) \<Rightarrow> if go then env_vars envp (Suc i) s else Some (Inr ((), s)))"

definition env_main :: "u32 \<Rightarrow> u32 \<Rightarrow> u32 \<Rightarrow> u32 option toolm" where
  "env_main argc argv envp =
     act (env_args argv 0 (unat argc)) (\<lambda>_. act (\<lambda>s. run (env_vars envp 0 s)) (\<lambda>_. ret (Some 0)))"

definition dup_round :: "bool toolm" where
  "dup_round =
     act (look tch) (\<lambda>a. act (sys (c_read STDIN_FILENO (of_nat a) 1)) (\<lambda>n.
     if n = T_EOF then ret False
     else act (look (\<lambda>s. umem s a)) (\<lambda>c.
          act (sys (c_write STDOUT_FILENO (of_nat a) 1)) (\<lambda>_.
          if c = 10 then ret False
          else act (sys (c_write STDOUT_FILENO (of_nat a) 1)) (\<lambda>_. ret True)))))"

partial_function (option) dup_loop :: "tool \<Rightarrow> (unit \<times> tool) res option" where
  "dup_loop s =
     (case dup_round s of
        Inl e \<Rightarrow> Some (Inl e)
      | Inr (go, s) \<Rightarrow> if go then dup_loop s else Some (Inr ((), s)))"

definition dup_main :: "u32 \<Rightarrow> u32 \<Rightarrow> u32 \<Rightarrow> u32 option toolm" where
  "dup_main argc argv envp = act (\<lambda>s. run (dup_loop s)) (\<lambda>_. ret (Some 0))"

definition err_main :: "u32 \<Rightarrow> u32 \<Rightarrow> u32 \<Rightarrow> u32 option toolm" where
  "err_main argc argv envp =
     act (look (\<lambda>s. umem s 0xb8000)) (\<lambda>c.
     act (print ''char in 0x%X is %c\<newline>'' [0xb8000, scast c]) (\<lambda>_.
     act (set_umem (\<lambda>m. m(0xb8000 := 69))) (\<lambda>_.
     act (print ''changed to E\<newline>'' []) (\<lambda>_. ret (Some 0)))))"

text \<open>\<^verbatim>\<open>init\<close> starts a shell and waits for it, for ever; \<open>False\<close>: the child's end.\<close>

definition init_round :: "bool toolm" where
  "init_round =
     act (sys c_fork) (\<lambda>pid.
     if pid \<noteq> 0
     then act (look tstatus) (\<lambda>a. act (sys (c_waitpid pid (of_nat a))) (\<lambda>child.
          act (sys c_time) (\<lambda>t. act (load_word a) (\<lambda>st.
          act (print ''wait pid %d status %d %d\<newline>'' [child, st, t]) (\<lambda>_. ret True)))))
     else act (the_lit ''/bin/osh.out'') (\<lambda>p. act (sys (c_execve p 0 0)) (\<lambda>err.
          act (print ''execve /bin/osh.out error %d\<newline>'' [err]) (\<lambda>_.
          act (sysv (c_exit err)) (\<lambda>_. ret False)))))"

partial_function (option) init_loop :: "tool \<Rightarrow> (unit \<times> tool) res option" where
  "init_loop s =
     (case init_round s of
        Inl e \<Rightarrow> Some (Inl e)
      | Inr (go, s) \<Rightarrow> if go then init_loop s else Some (Inr ((), s)))"

definition init_main :: "u32 \<Rightarrow> u32 \<Rightarrow> u32 \<Rightarrow> u32 option toolm" where
  "init_main argc argv envp =
     act (sys c_getpid) (\<lambda>p.
     if p \<noteq> 1 then act (print ''init already running...\<newline>'' []) (\<lambda>_. ret (Some 0))
     else act (print ''init start running...\<newline>'' []) (\<lambda>_.
          act (\<lambda>s. run (init_loop s)) (\<lambda>_. ret None)))"

end
