(* ===== verification/Spec2Isabelle.thy ===== *)
theory Spec2Isabelle
  imports Boot Exit_Laws Task_Laws Timing Ramdisk Buffer_Laws Heap_Laws Files Dir_Laws
    Print_Laws Keyboard_Laws Console_Laws Device_Laws Diagnostics Serial Ide Gdt Execve Osh Tools
begin

section \<open>A verification development for the yuios kernel\<close>

text \<open>
  yuios is a 32-bit teaching kernel for one processor: a boot memory map, paging with a recursively
  mapped page directory, tasks with priorities and a clock tick, a block device layer with a buffer
  cache, a Minix-like file system, system calls, and a shell with a few programs.  All paths below
  are under \<^verbatim>\<open>src/src/\<close>.

  \<^bold>\<open>Vocabulary\<close>
  (\<^verbatim>\<open>Prelude\<close>, \<^verbatim>\<open>Ops\<close>).  A C function is a function from a state to
  \<open>stop + value \<times> state\<close>.  \<open>Inl Assertion\<close> is a failed
  \<^verbatim>\<open>assert\<close>, \<open>Inl Panic\<close> a \<^verbatim>\<open>panic\<close> (both spin for
  ever in the code), \<open>Inl Fault\<close> an access outside the object that is indexed or through the
  null pointer, \<open>Inl Diverge\<close> a loop that is never left.  Words have the width they have in the
  code and wrap around.  A loop whose end does not follow from its form is a
  \<^theory_text>\<open>partial_function (option)\<close>: \<open>None\<close> means that it does not return, and
  \<open>run\<close> turns it into \<open>Inl Diverge\<close>; no fuel is used.  Theorems say
  \<open>Inr\<close> or \<open>Some\<close> where the code returns, never only what holds if it does.

  \<^bold>\<open>Which theory models which file\<close>
  \<^item> Library: \<^verbatim>\<open>lib/list.c\<close> in \<open>Lists\<close> (a heap of nodes split by field;
    \<open>dll h l ns\<close> says that the list at \<open>l\<close> has the nodes \<open>ns\<close>, and
    \<open>Families\<close> extends this to many lists in one heap),
    \<^verbatim>\<open>lib/string.c\<close> in \<open>Strings\<close> and \<^verbatim>\<open>lib/stdlib.c\<close> in
    \<open>Stdlib\<close> (on a memory of bytes), \<^verbatim>\<open>lib/bitmap.c\<close> in \<open>Bitmap\<close>,
    \<^verbatim>\<open>lib/fifo.c\<close> in \<open>Fifo\<close>, \<^verbatim>\<open>lib/vsprintf.c\<close> in
    \<open>Vsprintf\<close>, the messages of \<^verbatim>\<open>assert.c\<close>, \<^verbatim>\<open>debug.c\<close> and
    the exception handler in \<open>Diagnostics\<close>.
  \<^item> Memory, \<^verbatim>\<open>kernel/memory.c\<close>: page entries and the recursive mapping in
    \<open>Paging\<close>, frames and the boot mapping in \<open>Physmem\<close>, address spaces, kernel pages,
    \<^verbatim>\<open>mmap\<close>, \<^verbatim>\<open>brk\<close> and the page fault in \<open>Vmem\<close>.
    Page tables are words of \<open>phys\<close>, reached through the recursive entry exactly as the code
    reaches them.  \<^verbatim>\<open>kernel/arena.c\<close> is in \<open>Arena\<close>,
    \<^verbatim>\<open>kernel/global.c\<close> in \<open>Gdt\<close>.
  \<^item> Tasks: \<^verbatim>\<open>kernel/task.c\<close> in \<open>Task\<close>,
    \<^verbatim>\<open>kernel/mutex.c\<close> in \<open>Mutex\<close>, \<^verbatim>\<open>kernel/interrupt.c\<close> in
    \<open>Interrupts\<close>, \<^verbatim>\<open>kernel/gate.c\<close> and \<^verbatim>\<open>lib/syscall.c\<close> in
    \<open>Syscalls\<close>, \<^verbatim>\<open>clock.c\<close>, \<^verbatim>\<open>rtc.c\<close>,
    \<^verbatim>\<open>time.c\<close> in \<open>Timing\<close>.
  \<^item> Devices: \<^verbatim>\<open>kernel/device.c\<close> in \<open>Device\<close>,
    \<^verbatim>\<open>ramdisk.c\<close>, \<^verbatim>\<open>ide.c\<close>, \<^verbatim>\<open>serial.c\<close>,
    \<^verbatim>\<open>keyboard.c\<close>, \<^verbatim>\<open>console.c\<close> in the theories of those names, over
    the shared state of \<open>Drivers\<close>; \<^verbatim>\<open>kernel/buffer.c\<close> in \<open>Buffer\<close>.
  \<^item> File system: the on-disk layout and the tables of \<^verbatim>\<open>include/yui/fs.h\<close> in
    \<open>Fsys\<close>, \<^verbatim>\<open>fs/bmap.c\<close> in \<open>Bmap\<close>,
    \<^verbatim>\<open>fs/inode.c\<close> in \<open>Inode\<close>, \<^verbatim>\<open>fs/namei.c\<close> in
    \<open>Namei\<close> (names and paths) and \<open>Dirs\<close> (the system calls on them),
    \<^verbatim>\<open>fs/super.c\<close> in \<open>Super\<close>, \<^verbatim>\<open>fs/file.c\<close>,
    \<^verbatim>\<open>pipe.c\<close>, \<^verbatim>\<open>stat.c\<close>, \<^verbatim>\<open>dev.c\<close> in
    \<open>Files\<close>; \<^verbatim>\<open>kernel/execve.c\<close> in \<open>Execve\<close>.
  \<^item> Programs: \<^verbatim>\<open>builtin/osh.c\<close> in \<open>Osh\<close>, the others in
    \<open>Tools\<close>, over the call interface of \<open>Programs\<close> with the kernel as a parameter.

  \<^bold>\<open>How the parts meet.\<close>  A state contains the state of the parts below: \<open>sched\<close> the
  memory, lists and tasks, \<open>machine\<close> the tasks and the heap, \<open>dstate\<close> the devices,
  \<open>fs\<close> the tables of the file system over all of these.  What the hardware or a user program
  decides is an argument: the values read from ports and from the clock are functions of the number of
  the read, a program's kernel is a function of its call.  \<^verbatim>\<open>task_switch\<close> makes another
  task the running one; a call that may block ends there, and a loop around such a call is given as its
  rounds, with a value that says whether there is another.
\<close>

subsection \<open>What the lemmas show\<close>

text \<open>
  \<^item> \<open>Boot\<close>, \<open>Vmem_Laws\<close>, \<open>Cow\<close>: what the first page tables map; that the
    recursive entry reaches the page directory and every page table; that mapping and unmapping a page change the
    translation of that page only and keep the reference counts of frames; that a write fault
    on a shared page gives the writer a copy of its own.
  \<^item> \<open>Physmem\<close>: \<^verbatim>\<open>get_page\<close> returns the lowest free frame; the counter of
    free frames never drifts from their number.
  \<^item> \<open>Heap_Laws\<close>: over every run of \<^verbatim>\<open>kmalloc\<close> and
    \<^verbatim>\<open>kfree\<close> from a fresh heap, the blocks in use are disjoint, long enough, inside kernel
    pages of their arenas, and no assertion of the allocator fails.
  \<^item> \<open>Task_Laws\<close>, \<open>Mutex\<close>: over every sequence of scheduler steps exactly one task
    runs and every list of waiting tasks agrees with the tasks' states; a mutex has one holder and
    goes to the longest waiter; sleepers are ordered by their time and woken when it has come.
  \<^item> \<open>Buffer_Laws\<close>: the cache has at most one buffer for a block, and a buffer in use is
    never given away, over every run of \<^verbatim>\<open>getblk\<close> and \<^verbatim>\<open>brelse\<close>;
    releasing a buffer while a task waits for one stops the kernel (a defect of the code).
  \<^item> \<open>Fs_Bytes\<close>, \<open>Bmap_Laws\<close>, \<open>File_Laws\<close>, \<open>Write_Laws\<close>,
    \<open>Contents\<close>: descriptors are read back as written; \<^verbatim>\<open>bmap\<close> follows the
    block tree of three levels; reading and writing a file are slicing and splicing its list of
    bytes, across block boundaries and past the end; their loops return in every state.
    \<open>Dir_Laws\<close>: looking up a name is a search of the directory's entries in order.
  \<^item> \<open>Lists\<close>, \<open>Fifo\<close>, \<open>Bitmap\<close>, \<open>Strings\<close>,
    \<open>Print_Laws\<close>: the list is a queue, the ring buffer the newest bytes of an unbounded
    queue, the bitmap scan first fit; printed numbers are read back.  The locales
    \<open>wait_queue\<close>, \<open>byte_queue\<close> and \<open>kept\<close> state the contracts
    these proofs use; each is interpreted on the code's model.
  \<^item> \<open>Device_Laws\<close>, \<open>Console_Laws\<close>, \<open>Keyboard_Laws\<close>,
    \<open>Timing\<close>, \<open>Syscalls\<close>: the elevator serves every queued request; a block written to
    a memory disk is read back; console output keeps the cursor on the screen and writes nowhere
    else; a key press queues its character; the calendar counts days; the stub of a system call
    reaches the handler of the same name.

  The hypotheses of the theorems are the ranges the kernel sets up: frames below
  \<open>2 ^ 20\<close>, at most 262663 blocks of a file (\<^verbatim>\<open>TOTAL_BLOCK\<close>), tables of the
  sizes in the headers.  Each property with hypotheses is applied at a concrete state.
\<close>

subsection \<open>Not modelled, and where the models stop\<close>

text \<open>
  \<^item> Assembly (boot loader, interrupt entry, task switch, port access), \<^verbatim>\<open>kernel_init\<close>
    and the two kernel threads.  The initialisers that \<^verbatim>\<open>kernel_init\<close> calls are modelled one by
    one.  The processor's translation buffer and the accessed and dirty bits it sets in page entries are
    not modelled: \<^verbatim>\<open>flush_tlb\<close> has no effect.
  \<^item> \<^verbatim>\<open>memory_map\<close> is kept apart from the words of \<open>phys\<close>; its frames are
    reserved at boot.  The bytes of heap blocks are not kept.  User addresses are read in one flat
    memory of bytes, so a store does not fault; the fault handler is verified separately.
  \<^item> The file system sees the buffer cache through its contract: a block has one buffer with its
    bytes, a count and a mark that it is dirty.  That a block has one buffer is what
    \<open>Buffer_Laws\<close> shows.
  \<^item> A driver's functions in the device table act on the driver's world and cannot switch tasks.
    For the drivers that block, the functions are modelled, and the pointers their initialisers install
    are arguments.
  \<^item> \<^verbatim>\<open>DEBUG\<close> output is left out; no value depends on it.
    \<^verbatim>\<open>lib/time.c\<close> repeats functions of \<^verbatim>\<open>kernel/time.c\<close>.
\<close>

end
